(* ===== verification/Prelude.thy ===== *)
theory Prelude
  imports Complex_Main "HOL-Library.AList" "HOL-Library.Char_ord" "HOL-Library.List_Lexorder"
    "HOL-Library.Word"
begin

text \<open>
  Shared ground of the development: the collections of simplification facts the component
  proofs draw on, the error-or-value results in which every Python exception and early return
  is a branch, and generic facts about lists that several components use.
\<close>

named_theorems dict_simps \<open>reading and writing Python dicts\<close>
named_theorems chain_simps \<open>sealing and walking the hash chain\<close>
named_theorems wire_simps \<open>responses and envelopes of the ingest wire format\<close>

section \<open>Results that may be an exception\<close>

definition sbind :: "'e + 'a \<Rightarrow> ('a \<Rightarrow> 'e + 'b) \<Rightarrow> 'e + 'b" where
  "sbind r f = (case r of Inl e \<Rightarrow> Inl e | Inr a \<Rightarrow> f a)"

lemma sbind_Inl [simp]: "sbind (Inl e) f = Inl e"
  by (simp add: sbind_def)

lemma sbind_Inr [simp]: "sbind (Inr a) f = f a"
  by (simp add: sbind_def)

lemma sbind_eq_Inr: "sbind r f = Inr b \<longleftrightarrow> (\<exists>a. r = Inr a \<and> f a = Inr b)"
  by (cases r) simp_all

lemma sbind_eq_Inl: "sbind r f = Inl e \<longleftrightarrow> r = Inl e \<or> (\<exists>a. r = Inr a \<and> f a = Inl e)"
  by (cases r) auto

section \<open>Strings\<close>

fun replace_from :: "string \<Rightarrow> string \<Rightarrow> nat \<Rightarrow> string \<Rightarrow> string" where
  "replace_from old new skip [] = []"
| "replace_from old new (Suc skip) (c # cs) = replace_from old new skip cs"
| "replace_from old new 0 (c # cs) =
     (if old \<noteq> [] \<and> take (length old) (c # cs) = old
      then new @ replace_from old new (length old - 1) cs
      else c # replace_from old new 0 cs)"

definition py_replace :: "string \<Rightarrow> string \<Rightarrow> string \<Rightarrow> string" where
  "py_replace old new s = replace_from old new 0 s"

lemma replace_absent: "old \<noteq> [] \<Longrightarrow> hd old \<notin> set s \<Longrightarrow> py_replace old new s = s"
  unfolding py_replace_def
  by (induction s) (auto simp: neq_Nil_conv)

lemma replace_char: "py_replace [c] [] s = filter (\<lambda>x. x \<noteq> c) s"
  unfolding py_replace_def by (induction s) auto

text \<open>\<open>sep.join(xs)\<close>.\<close>

fun str_join :: "string \<Rightarrow> string list \<Rightarrow> string" where
  "str_join sep [] = []"
| "str_join sep [x] = x"
| "str_join sep (x # y # xs) = x @ sep @ str_join sep (y # xs)"

definition strip_chars :: "(char \<Rightarrow> bool) \<Rightarrow> string \<Rightarrow> string" where
  "strip_chars p s = rev (dropWhile p (rev (dropWhile p s)))"

lemma dropWhile_none: "\<forall>c \<in> set s. \<not> p c \<Longrightarrow> dropWhile p s = s"
  by (cases s) simp_all

lemma strip_chars_none: "\<forall>c \<in> set s. \<not> p c \<Longrightarrow> strip_chars p s = s"
  by (simp add: strip_chars_def dropWhile_none)

section \<open>Lists\<close>

definition numbered :: "nat \<Rightarrow> 'a list \<Rightarrow> (nat \<times> 'a) list" where
  "numbered start xs = zip [start ..< start + length xs] xs"

lemma length_numbered [simp]: "length (numbered n xs) = length xs"
  by (simp add: numbered_def)

lemma numbered_Nil [simp]: "numbered n [] = []"
  by (simp add: numbered_def)

lemma numbered_Cons [simp]: "numbered n (x # xs) = (n, x) # numbered (Suc n) xs"
  by (simp add: numbered_def upt_conv_Cons del: upt_Suc)

lemma numbered_append: "numbered n (xs @ ys) = numbered n xs @ numbered (n + length xs) ys"
  by (induction xs arbitrary: n) auto

lemma map_fst_numbered [simp]: "map fst (numbered n xs) = [n ..< n + length xs]"
  by (simp add: numbered_def)

lemma map_snd_numbered [simp]: "map snd (numbered n xs) = xs"
  by (simp add: numbered_def)

lemma numbered_nth: "i < length xs \<Longrightarrow> numbered n xs ! i = (n + i, xs ! i)"
  by (simp add: numbered_def)

lemma in_numbered: "(i, x) \<in> set (numbered n xs) \<longleftrightarrow> n \<le> i \<and> i < n + length xs \<and> x = xs ! (i - n)"
proof -
  have "(i, x) \<in> set (numbered n xs) \<longleftrightarrow> (\<exists>j < length xs. i = n + j \<and> x = xs ! j)"
    by (auto simp: in_set_conv_nth numbered_nth)
  then show ?thesis
    by (auto intro: exI [of _ "i - n"])
qed

section \<open>The first free name\<close>

text \<open>\<open>while candidate(counter) exists: counter += 1\<close>. The names are pairwise different, so one try
  more than there are taken names finds a free one.\<close>

fun first_free :: "(nat \<Rightarrow> 'a) \<Rightarrow> nat \<Rightarrow> nat \<Rightarrow> 'a list \<Rightarrow> 'a option" where
  "first_free candidate 0 counter taken = None"
| "first_free candidate (Suc fuel) counter taken =
     (if candidate counter \<in> set taken then first_free candidate fuel (Suc counter) taken
      else Some (candidate counter))"

lemma first_free_fresh: "first_free f fuel c taken = Some x \<Longrightarrow> x \<notin> set taken"
  by (induction f fuel c taken rule: first_free.induct) (auto split: if_splits)

lemma first_free_None: "first_free f fuel c taken = None \<Longrightarrow> f ` {c ..< c + fuel} \<subseteq> set taken"
proof (induction f fuel c taken rule: first_free.induct)
  case (2 f fuel c taken)
  moreover have "{c ..< c + Suc fuel} = insert c {Suc c ..< Suc c + fuel}" by auto
  ultimately show ?case by (auto split: if_splits)
qed simp

lemma first_free_total:
  assumes "inj f"
  obtains x where "first_free f (Suc (length taken)) c taken = Some x" and "x \<notin> set taken"
proof (cases "first_free f (Suc (length taken)) c taken")
  case None
  then have "f ` {c ..< c + Suc (length taken)} \<subseteq> set taken" by (rule first_free_None)
  then have "card (f ` {c ..< c + Suc (length taken)}) \<le> length taken"
    by (meson List.finite_set card_length card_mono order_trans)
  moreover have "card (f ` {c ..< c + Suc (length taken)}) = Suc (length taken)"
    using assms by (simp add: card_image inj_on_subset)
  ultimately show thesis by linarith
next
  case (Some x)
  with that first_free_fresh [OF Some] show thesis by blast
qed

end
