(* ===== verification/Py_Values.thy ===== *)
theory Py_Values
  imports Prelude
begin

text \<open>
  The Python values the program handles: what \<open>json.loads\<close> returns (dict, list, str, int,
  float, bool, None), the operations the code uses on them (\<open>dict.get\<close>, indexing,
  truthiness, \<open>str\<close>, \<open>int\<close>, \<open>UUID\<close>), and the exceptions it raises.

  A \<open>str\<close> is a \<open>string\<close> whose characters are the code points 0 to 255. A float
  carries its value and the text \<open>repr\<close> gives it. \<open>UUID\<close> and \<open>datetime\<close> objects
  enter dicts as the text \<open>str\<close> and \<open>isoformat\<close> give them.
\<close>

section \<open>Values, dicts and exceptions\<close>

datatype json =
    JNull
  | JBool bool
  | JInt int
  | JFloat rat string
  | JStr string
  | JArr "json list"
  | JObj "(string \<times> json) list"

type_synonym dict = "(string \<times> json) list"

datatype pyexc =
    KeyError string
  | TypeError
  | ValueError string
  | AttributeError
  | IndexError
  | FileNotFoundError
  | OSError string
  | UnicodeDecodeError

definition dget :: "dict \<Rightarrow> string \<Rightarrow> json" where
  "dget d k = (case map_of d k of None \<Rightarrow> JNull | Some v \<Rightarrow> v)"

definition dget_or :: "dict \<Rightarrow> string \<Rightarrow> json \<Rightarrow> json" where
  "dget_or d k dflt = (case map_of d k of None \<Rightarrow> dflt | Some v \<Rightarrow> v)"

definition dindex :: "dict \<Rightarrow> string \<Rightarrow> pyexc + json" where
  "dindex d k = (case map_of d k of None \<Rightarrow> Inl (KeyError k) | Some v \<Rightarrow> Inr v)"

definition dhas :: "dict \<Rightarrow> string \<Rightarrow> bool" where
  "dhas d k \<longleftrightarrow> map_of d k \<noteq> None"

definition dset :: "string \<Rightarrow> json \<Rightarrow> dict \<Rightarrow> dict" where
  "dset k v d = AList.update k v d"

text \<open>\<open>dict.update\<close>: the entries of the second dict are stored one by one.\<close>

fun dupdate :: "dict \<Rightarrow> dict \<Rightarrow> dict" where
  "dupdate d [] = d"
| "dupdate d ((k, v) # es) = dupdate (dset k v d) es"

lemma map_of_dset [dict_simps]: "map_of (dset k v d) = (map_of d)(k \<mapsto> v)"
  by (simp add: dset_def update_conv')

lemma dget_dset [dict_simps]: "dget (dset k v d) k' = (if k' = k then v else dget d k')"
  by (simp add: dget_def map_of_dset)

lemma dindex_dset [dict_simps]: "dindex (dset k v d) k' = (if k' = k then Inr v else dindex d k')"
  by (simp add: dindex_def map_of_dset)

lemma dhas_dset [dict_simps]: "dhas (dset k v d) k' \<longleftrightarrow> k' = k \<or> dhas d k'"
  by (simp add: dhas_def map_of_dset)

lemma dget_Nil [dict_simps]: "dget [] k = JNull"
  by (simp add: dget_def)

lemma dget_Cons [dict_simps]: "dget ((k', v) # d) k = (if k = k' then v else dget d k)"
  by (simp add: dget_def)

lemma dget_or_Nil [dict_simps]: "dget_or [] k z = z"
  by (simp add: dget_or_def)

lemma dget_or_Cons [dict_simps]: "dget_or ((k', v) # d) k z = (if k = k' then v else dget_or d k z)"
  by (simp add: dget_or_def)

lemma dindex_Nil [dict_simps]: "dindex [] k = Inl (KeyError k)"
  by (simp add: dindex_def)

lemma dindex_Cons [dict_simps]: "dindex ((k', v) # d) k = (if k = k' then Inr v else dindex d k)"
  by (simp add: dindex_def)

lemma dhas_Nil [dict_simps]: "\<not> dhas [] k"
  by (simp add: dhas_def)

lemma dhas_Cons [dict_simps]: "dhas ((k', v) # d) k \<longleftrightarrow> k = k' \<or> dhas d k"
  by (simp add: dhas_def)

lemma dindex_eq_Inr: "dindex d k = Inr v \<longleftrightarrow> map_of d k = Some v"
  by (simp add: dindex_def split: option.splits)

lemma dindex_Inr_dget: "dindex d k = Inr v \<Longrightarrow> dget d k = v"
  by (simp add: dindex_def dget_def split: option.splits)

lemma dget_not_null_dindex: "dget d k \<noteq> JNull \<Longrightarrow> dindex d k = Inr (dget d k)"
  by (simp add: dindex_def dget_def split: option.splits)

lemma map_of_dupdate: "distinct (map fst es) \<Longrightarrow> map_of (dupdate d es) = map_of d ++ map_of es"
proof (induction d es rule: dupdate.induct)
  case (1 d)
  show ?case by simp
next
  case (2 d k v es)
  then have "map_of es k = None"
    by (simp add: map_of_eq_None_iff)
  with 2 show ?case
    by (auto simp: map_of_dset map_add_def fun_eq_iff split: option.splits)
qed

lemma dget_dupdate:
  "distinct (map fst es) \<Longrightarrow>
    dget (dupdate d es) k = (case map_of es k of None \<Rightarrow> dget d k | Some v \<Rightarrow> v)"
  by (simp add: dget_def map_of_dupdate map_add_def split: option.splits)

text \<open>\<open>x.get(k)\<close> on a value that is not a dict raises \<open>AttributeError\<close>.\<close>

definition as_dict :: "json \<Rightarrow> pyexc + dict" where
  "as_dict j = (case j of JObj d \<Rightarrow> Inr d | _ \<Rightarrow> Inl AttributeError)"

lemma as_dict_JObj [simp]: "as_dict (JObj d) = Inr d"
  by (simp add: as_dict_def)

section \<open>Truthiness\<close>

definition truthy :: "json \<Rightarrow> bool" where
  "truthy j = (case j of
      JNull \<Rightarrow> False
    | JBool b \<Rightarrow> b
    | JInt i \<Rightarrow> i \<noteq> 0
    | JFloat q _ \<Rightarrow> q \<noteq> 0
    | JStr s \<Rightarrow> s \<noteq> []
    | JArr xs \<Rightarrow> xs \<noteq> []
    | JObj d \<Rightarrow> d \<noteq> [])"

definition py_or :: "json \<Rightarrow> json \<Rightarrow> json" where
  "py_or a b = (if truthy a then a else b)"

lemma truthy_simps [simp]:
  "\<not> truthy JNull"
  "truthy (JBool b) = b"
  "truthy (JInt i) = (i \<noteq> 0)"
  "truthy (JStr s) = (s \<noteq> [])"
  "truthy (JArr xs) = (xs \<noteq> [])"
  "truthy (JObj d) = (d \<noteq> [])"
  by (simp_all add: truthy_def)

text \<open>\<open>x or {}\<close> followed by dict operations.\<close>

definition dict_or_empty :: "json \<Rightarrow> pyexc + dict" where
  "dict_or_empty j = as_dict (py_or j (JObj []))"

lemma dict_or_empty_simps [simp]:
  "dict_or_empty JNull = Inr []"
  "dict_or_empty (JObj d) = Inr d"
  by (simp_all add: dict_or_empty_def py_or_def)

section \<open>Numbers and their text\<close>

definition digit_char :: "nat \<Rightarrow> char" where
  "digit_char d = char_of (if d < 10 then 48 + d else 87 + d)"

fun nat_str :: "nat \<Rightarrow> string" where
  "nat_str n = (if n < 10 then [digit_char n] else nat_str (n div 10) @ [digit_char (n mod 10)])"

declare nat_str.simps [simp del]

definition int_str :: "int \<Rightarrow> string" where
  "int_str i = (if i < 0 then CHR ''-'' # nat_str (nat (- i)) else nat_str (nat i))"

definition digit_val :: "char \<Rightarrow> nat" where
  "digit_val c =
     (let n = of_char c in
      if 48 \<le> n \<and> n < 58 then n - 48
      else if 97 \<le> n \<and> n < 123 then n - 87
      else if 65 \<le> n \<and> n < 91 then n - 55
      else 36)"

definition is_digit :: "nat \<Rightarrow> char \<Rightarrow> bool" where
  "is_digit base c \<longleftrightarrow> digit_val c < base"

definition digits_val :: "nat \<Rightarrow> string \<Rightarrow> nat" where
  "digits_val base s = foldl (\<lambda>a c. base * a + digit_val c) 0 s"

lemma digit_val_char [simp]: "d < 16 \<Longrightarrow> digit_val (digit_char d) = d"
  by (auto simp: digit_val_def digit_char_def Let_def)

lemma digits_val_snoc [simp]: "digits_val b (s @ [c]) = b * digits_val b s + digit_val c"
  by (simp add: digits_val_def)

lemma digits_val_nat_str: "digits_val 10 (nat_str n) = n"
proof (induction n rule: nat_str.induct)
  case (1 n)
  show ?case
  proof (cases "n < 10")
    case True
    then show ?thesis by (subst nat_str.simps) (simp add: digits_val_def)
  next
    case False
    with "1.IH" show ?thesis by (subst nat_str.simps) simp
  qed
qed

lemma nat_str_inject [simp]: "nat_str m = nat_str n \<longleftrightarrow> m = n"
  by (metis digits_val_nat_str)

lemma nat_str_digits: "\<forall>c \<in> set (nat_str n). is_digit 10 c"
proof (induction n rule: nat_str.induct)
  case (1 n)
  then show ?case by (subst nat_str.simps) (auto simp: is_digit_def)
qed

lemma nat_str_not_Nil [simp]: "nat_str n \<noteq> []"
  by (subst nat_str.simps) simp

lemma minus_not_in_nat_str: "CHR ''-'' \<notin> set (nat_str n)"
proof
  assume "CHR ''-'' \<in> set (nat_str n)"
  then have "is_digit 10 (CHR ''-'')" using nat_str_digits by blast
  then show False by (simp add: is_digit_def digit_val_def)
qed

lemma int_str_inject [simp]: "int_str i = int_str j \<longleftrightarrow> i = j"
proof -
  have "CHR ''-'' # xs \<noteq> nat_str n" for xs n
    using minus_not_in_nat_str [of n] by (metis list.set_intros(1))
  then show ?thesis by (auto simp: int_str_def dest: sym)
qed

lemma int_str_not_Nil [simp]: "int_str i \<noteq> []"
  by (simp add: int_str_def)

text \<open>Fixed-width hexadecimal, most significant digit first.\<close>

fun hex_pad :: "nat \<Rightarrow> nat \<Rightarrow> string" where
  "hex_pad 0 v = []"
| "hex_pad (Suc n) v = hex_pad n (v div 16) @ [digit_char (v mod 16)]"

lemma length_hex_pad [simp]: "length (hex_pad n v) = n"
  by (induction n arbitrary: v) auto

lemma hex_pad_digits: "c \<in> set (hex_pad n v) \<Longrightarrow> \<exists>d < 16. c = digit_char d"
proof (induction n arbitrary: v)
  case 0
  then show ?case by simp
next
  case (Suc n)
  from Suc.prems have "c \<in> set (hex_pad n (v div 16)) \<or> c = digit_char (v mod 16)" by auto
  moreover have "v mod 16 < 16" by simp
  ultimately show ?case using Suc.IH by blast
qed

lemma digits_val_hex_pad: "v < 16 ^ n \<Longrightarrow> digits_val 16 (hex_pad n v) = v"
proof (induction n arbitrary: v)
  case 0
  then show ?case by (simp add: digits_val_def)
next
  case (Suc n)
  then have "v div 16 < 16 ^ n" by (simp add: less_mult_imp_div_less mult.commute)
  with Suc.IH show ?case by simp
qed

section \<open>Text of a value\<close>

definition printable :: "char \<Rightarrow> bool" where
  "printable c = (let n = of_char c :: nat in
     (32 \<le> n \<and> n \<le> 126) \<or> (161 \<le> n \<and> n \<noteq> 173))"

definition repr_char :: "char \<Rightarrow> char \<Rightarrow> string" where
  "repr_char q c =
     (if c = q \<or> c = CHR 0x5C then [CHR 0x5C, c]
      else if c = CHR 0x09 then [CHR 0x5C, CHR ''t'']
      else if c = CHR 0x0A then [CHR 0x5C, CHR ''n'']
      else if c = CHR 0x0D then [CHR 0x5C, CHR ''r'']
      else if printable c then [c]
      else [CHR 0x5C, CHR ''x''] @ hex_pad 2 (of_char c))"

definition repr_str :: "string \<Rightarrow> string" where
  "repr_str s =
     (let q = (if CHR 0x27 \<in> set s \<and> CHR 0x22 \<notin> set s then CHR 0x22 else CHR 0x27)
      in q # concat (map (repr_char q) s) @ [q])"

fun py_repr :: "json \<Rightarrow> string" where
  "py_repr JNull = ''None''"
| "py_repr (JBool b) = (if b then ''True'' else ''False'')"
| "py_repr (JInt i) = int_str i"
| "py_repr (JFloat q t) = t"
| "py_repr (JStr s) = repr_str s"
| "py_repr (JArr xs) = ''['' @ str_join '', '' (map py_repr xs) @ '']''"
| "py_repr (JObj d) =
     ''{'' @ str_join '', '' (map (\<lambda>(k, v). repr_str k @ '': '' @ py_repr v) d) @ ''}''"

definition py_str :: "json \<Rightarrow> string" where
  "py_str j = (case j of JStr s \<Rightarrow> s | _ \<Rightarrow> py_repr j)"

lemma py_str_JStr [simp]: "py_str (JStr s) = s"
  by (simp add: py_str_def)

section \<open>Integers read from values\<close>

text \<open>\<open>isinstance(x, int)\<close>: a bool is an int.\<close>

definition as_int :: "json \<Rightarrow> int option" where
  "as_int j = (case j of JInt i \<Rightarrow> Some i | JBool b \<Rightarrow> Some (if b then 1 else 0) | _ \<Rightarrow> None)"

lemma as_int_JInt [simp]: "as_int (JInt i) = Some i"
  by (simp add: as_int_def)

definition is_space :: "char \<Rightarrow> bool" where
  "is_space c = (let n = of_char c :: nat in
     (9 \<le> n \<and> n \<le> 13) \<or> (28 \<le> n \<and> n \<le> 32) \<or> n = 133 \<or> n = 160)"

fun int_digits :: "nat \<Rightarrow> bool \<Rightarrow> nat \<Rightarrow> string \<Rightarrow> nat option" where
  "int_digits b after_digit acc [] = (if after_digit then Some acc else None)"
| "int_digits b after_digit acc (c # cs) =
     (if c = CHR ''_'' then (if after_digit then int_digits b False acc cs else None)
      else if is_digit b c then int_digits b True (b * acc + digit_val c) cs
      else None)"

definition drop_base_prefix :: "nat \<Rightarrow> string \<Rightarrow> string" where
  "drop_base_prefix b s =
     (case s of
        z # x # cs \<Rightarrow>
          if b = 16 \<and> z = CHR ''0'' \<and> (x = CHR ''x'' \<or> x = CHR ''X'')
          then (case cs of u # cs' \<Rightarrow> if u = CHR ''_'' then cs' else cs | [] \<Rightarrow> cs)
          else s
      | _ \<Rightarrow> s)"

text \<open>\<open>int(s, base)\<close>: surrounding white space, a sign, a base prefix and single underscores
  between digits are accepted; everything else raises \<open>ValueError\<close>.\<close>

definition parse_int :: "nat \<Rightarrow> string \<Rightarrow> int option" where
  "parse_int b s =
     (case strip_chars is_space s of
        [] \<Rightarrow> None
      | c # cs \<Rightarrow>
          if c = CHR ''-'' then map_option (\<lambda>n. - int n) (int_digits b False 0 (drop_base_prefix b cs))
          else if c = CHR ''+'' then map_option int (int_digits b False 0 (drop_base_prefix b cs))
          else map_option int (int_digits b False 0 (drop_base_prefix b (c # cs))))"

definition py_int :: "json \<Rightarrow> pyexc + int" where
  "py_int j = (case j of
      JInt i \<Rightarrow> Inr i
    | JBool b \<Rightarrow> Inr (if b then 1 else 0)
    | JFloat q _ \<Rightarrow> Inr (if 0 \<le> q then \<lfloor>q\<rfloor> else \<lceil>q\<rceil>)
    | JStr s \<Rightarrow> (case parse_int 10 s of None \<Rightarrow> Inl (ValueError s) | Some i \<Rightarrow> Inr i)
    | _ \<Rightarrow> Inl TypeError)"

lemma py_int_JInt [simp]: "py_int (JInt i) = Inr i"
  by (simp add: py_int_def)

lemma int_digits_all:
  "\<forall>c \<in> set s. is_digit b c \<and> c \<noteq> CHR ''_'' \<Longrightarrow> s \<noteq> [] \<or> after \<Longrightarrow>
    int_digits b after acc s = Some (foldl (\<lambda>a c. b * a + digit_val c) acc s)"
  by (induction s arbitrary: after acc) auto

section \<open>UUIDs\<close>

type_synonym uuid = "128 word"

definition uuid_str :: "uuid \<Rightarrow> string" where
  "uuid_str u =
     (let h = hex_pad 32 (unat u)
      in take 8 h @ ''-'' @ take 4 (drop 8 h) @ ''-'' @ take 4 (drop 12 h) @ ''-''
         @ take 4 (drop 16 h) @ ''-'' @ drop 20 h)"

text \<open>\<open>UUID(s)\<close>: \<open>None\<close> is \<open>ValueError\<close>.\<close>

definition uuid_of_str :: "string \<Rightarrow> uuid option" where
  "uuid_of_str s =
     (let t = py_replace ''uuid:'' [] (py_replace ''urn:'' [] s);
          h = py_replace ''-'' [] (strip_chars (\<lambda>c. c = CHR ''{'' \<or> c = CHR ''}'') t)
      in if length h \<noteq> 32 then None
         else (case parse_int 16 h of
                 None \<Rightarrow> None
               | Some i \<Rightarrow> if 0 \<le> i \<and> i < 2 ^ 128 then Some (word_of_int i) else None))"

abbreviation uuid_specials :: "char set" where
  "uuid_specials \<equiv>
    {CHR ''u'', CHR ''-'', CHR ''{'', CHR ''}'', CHR ''_'', CHR ''+'', CHR ''x'', CHR ''X''}"

lemma digit_char_table:
  "list_all (\<lambda>d. digit_char d \<notin> uuid_specials \<and> is_digit 16 (digit_char d)
     \<and> \<not> is_space (digit_char d)) [0 ..< 16]"
  by code_simp

lemma digit_char_facts:
  assumes "d < 16"
  shows "digit_char d \<notin> uuid_specials \<and> is_digit 16 (digit_char d) \<and> \<not> is_space (digit_char d)"
proof -
  from assms have "d \<in> set [0 ..< 16]" by simp
  with digit_char_table show ?thesis unfolding list_all_iff by (rule bspec)
qed

lemma hex_pad_facts:
  assumes "c \<in> set (hex_pad n v)"
  shows "c \<notin> uuid_specials" and "is_digit 16 c" and "\<not> is_space c"
proof -
  obtain d where "d < 16" "c = digit_char d" using hex_pad_digits [OF assms] by blast
  then show "c \<notin> uuid_specials" and "is_digit 16 c" and "\<not> is_space c"
    using digit_char_facts by simp_all
qed

lemma drop_base_prefix_none: "CHR ''x'' \<notin> set s \<Longrightarrow> CHR ''X'' \<notin> set s \<Longrightarrow> drop_base_prefix b s = s"
  by (auto simp: drop_base_prefix_def split: list.splits)

lemma parse_int_hex_pad:
  assumes "0 < n" and "v < 16 ^ n"
  shows "parse_int 16 (hex_pad n v) = Some (int v)"
proof -
  let ?h = "hex_pad n v"
  have strip: "strip_chars is_space ?h = ?h"
    using hex_pad_facts by (intro strip_chars_none) blast
  have nonempty: "?h \<noteq> []" using assms(1) by (metis length_greater_0_conv length_hex_pad)
  then obtain c cs where h: "?h = c # cs" by (cases ?h) auto
  have c: "c \<noteq> CHR ''-''" "c \<noteq> CHR ''+''"
    using hex_pad_facts(1) [of c n v] h by auto
  have prefix: "drop_base_prefix 16 ?h = ?h"
    using hex_pad_facts(1) [of _ n v] by (intro drop_base_prefix_none) blast+
  have "int_digits 16 False 0 ?h = Some (digits_val 16 ?h)"
    unfolding digits_val_def using hex_pad_facts [of _ n v] nonempty
    by (intro int_digits_all) auto
  then have "int_digits 16 False 0 ?h = Some v"
    by (simp only: digits_val_hex_pad [OF assms(2)])
  with strip prefix c show ?thesis
    unfolding h by (simp add: parse_int_def del: int_digits.simps)
qed

lemma uuid_parse_str: "uuid_of_str (uuid_str u) = Some u"
proof -
  let ?h = "hex_pad 32 (unat u)"
  have parts: "set (take k ?h) \<subseteq> set ?h" "set (take k (drop m ?h)) \<subseteq> set ?h"
    "set (drop m ?h) \<subseteq> set ?h" for k m
    by (auto dest: in_set_takeD in_set_dropD)
  have sub: "set (uuid_str u) \<subseteq> insert (CHR ''-'') (set ?h)"
    by (auto simp: uuid_str_def Let_def dest: in_set_takeD in_set_dropD)
  have no_u: "CHR ''u'' \<notin> set (uuid_str u)"
    using sub hex_pad_facts(1) [of "CHR ''u''" 32 "unat u"] by auto
  have no_brace: "\<forall>c \<in> set (uuid_str u). \<not> (c = CHR ''{'' \<or> c = CHR ''}'')"
    using sub hex_pad_facts(1) [of _ 32 "unat u"] by auto
  have keep: "filter (\<lambda>x. x \<noteq> CHR ''-'') xs = xs" if "set xs \<subseteq> set ?h" for xs
    using that hex_pad_facts(1) [of "CHR ''-''" 32 "unat u"] by (auto simp: filter_id_conv)
  have split: "take 8 h @ take 4 (drop 8 h) @ take 4 (drop 12 h) @ take 4 (drop 16 h) @ drop 20 h = h"
    for h :: string
  proof -
    have four: "take 4 xs @ drop 4 xs = xs" for xs :: string by simp
    show ?thesis
      using append_take_drop_id [of 8 h] four [of "drop 8 h"] four [of "drop 12 h"]
        four [of "drop 16 h"] by simp
  qed
  have dashes: "py_replace ''-'' [] (uuid_str u) = ?h"
    unfolding replace_char uuid_str_def Let_def using parts split [of ?h] by (simp add: keep)
  have bound: "unat u < 16 ^ 32" using unsigned_less [where ?'a = nat and w = u] by simp
  have "0 \<le> int (unat u)" "int (unat u) < 2 ^ 128" using unsigned_less [where ?'a = int and w = u] by simp_all
  then show ?thesis
    using no_u no_brace dashes parse_int_hex_pad [OF _ bound]
    by (simp add: uuid_of_str_def replace_absent strip_chars_none)
qed

lemma uuid_str_inject [simp]: "uuid_str u = uuid_str v \<longleftrightarrow> u = v"
  by (metis uuid_parse_str option.inject)

end
