(* ===== verification/Json_Text.thy ===== *)
theory Json_Text
  imports Py_Values
begin

text \<open>
  \<open>json.dumps(value, sort_keys=True, ensure_ascii=True)\<close>, the text the program hashes.
  The lemmas say what the hash chain needs of it: the text of a string or of an integer can be
  read back from the front of a longer text, so that two canonical texts are equal only when
  their fields are.

  The text of a float is the one the value carries (\<open>float.__repr__\<close>, finite values only).
\<close>

definition esc_char :: "char \<Rightarrow> string" where
  "esc_char c =
     (if c = CHR 0x22 \<or> c = CHR 0x5C then [CHR 0x5C, c]
      else if c = CHR 0x0A then [CHR 0x5C, CHR ''n'']
      else if c = CHR 0x0D then [CHR 0x5C, CHR ''r'']
      else if c = CHR 0x09 then [CHR 0x5C, CHR ''t'']
      else if c = CHR 0x0C then [CHR 0x5C, CHR ''f'']
      else if c = CHR 0x08 then [CHR 0x5C, CHR ''b'']
      else if (32::nat) \<le> of_char c \<and> of_char c \<le> (126::nat) then [c]
      else [CHR 0x5C, CHR ''u''] @ hex_pad 4 (of_char c))"

definition quote :: "string \<Rightarrow> string" where
  "quote s = [CHR 0x22] @ concat (map esc_char s) @ [CHR 0x22]"

fun dumps_sep :: "string \<Rightarrow> string \<Rightarrow> json \<Rightarrow> string" where
  "dumps_sep si sk JNull = ''null''"
| "dumps_sep si sk (JBool b) = (if b then ''true'' else ''false'')"
| "dumps_sep si sk (JInt i) = int_str i"
| "dumps_sep si sk (JFloat q t) = t"
| "dumps_sep si sk (JStr s) = quote s"
| "dumps_sep si sk (JArr xs) = ''['' @ str_join si (map (dumps_sep si sk) xs) @ '']''"
| "dumps_sep si sk (JObj d) =
     ''{'' @ str_join si (map (\<lambda>(k, v). quote k @ sk @ dumps_sep si sk v) d) @ ''}''"

text \<open>\<open>sort_keys=True\<close>: every dict is written in the order of its keys.\<close>

fun sort_keys :: "json \<Rightarrow> json" where
  "sort_keys (JArr xs) = JArr (map sort_keys xs)"
| "sort_keys (JObj d) = JObj (sort_key fst (map (\<lambda>(k, v). (k, sort_keys v)) d))"
| "sort_keys j = j"

definition dumps_sorted :: "json \<Rightarrow> string" where
  "dumps_sorted j = dumps_sep '', '' '': '' (sort_keys j)"

section \<open>Reading back\<close>

text \<open>The first character of an escaped text.\<close>

definition unesc1 :: "string \<Rightarrow> (char \<times> string) option" where
  "unesc1 s =
     (case s of
        [] \<Rightarrow> None
      | c # cs \<Rightarrow>
          if c = CHR 0x22 then None
          else if c \<noteq> CHR 0x5C then Some (c, cs)
          else (case cs of
                  [] \<Rightarrow> None
                | e # r \<Rightarrow>
                    if e = CHR ''n'' then Some (CHR 0x0A, r)
                    else if e = CHR ''r'' then Some (CHR 0x0D, r)
                    else if e = CHR ''t'' then Some (CHR 0x09, r)
                    else if e = CHR ''f'' then Some (CHR 0x0C, r)
                    else if e = CHR ''b'' then Some (CHR 0x08, r)
                    else if e = CHR ''u'' then Some (char_of (digits_val 16 (take 4 r)), drop 4 r)
                    else Some (e, r)))"

lemma unesc1_esc_char: "unesc1 (esc_char c @ r) = Some (c, r)"
proof -
  have small: "(of_char c :: nat) < 256" by simp
  then have "digits_val 16 (hex_pad 4 (of_char c)) = of_char c"
    by (intro digits_val_hex_pad) (rule order.strict_trans2, assumption, simp)
  then show ?thesis
    by (simp add: unesc1_def esc_char_def)
qed

lemma esc_char_inject:
  "esc_char c @ r = esc_char c' @ r' \<Longrightarrow> c = c' \<and> r = r'"
  by (metis unesc1_esc_char option.inject prod.inject)

lemma esc_char_not_quote: "esc_char c @ r \<noteq> CHR 0x22 # r'"
  using unesc1_esc_char [of c r] by (auto simp: unesc1_def)

lemma esc_concat_inject:
  "concat (map esc_char s) @ CHR 0x22 # r = concat (map esc_char s') @ CHR 0x22 # r' \<Longrightarrow>
    s = s' \<and> r = r'"
proof (induction s arbitrary: s')
  case Nil
  then show ?case
    using esc_char_not_quote [symmetric] by (cases s') simp_all
next
  case (Cons c s)
  show ?case
  proof (cases s')
    case Nil
    with Cons.prems show ?thesis using esc_char_not_quote by auto
  next
    case (Cons c' t)
    with Cons.prems have "esc_char c @ (concat (map esc_char s) @ CHR 0x22 # r)
        = esc_char c' @ (concat (map esc_char t) @ CHR 0x22 # r')" by simp
    then have "c = c'" and rest: "concat (map esc_char s) @ CHR 0x22 # r
        = concat (map esc_char t) @ CHR 0x22 # r'"
      using esc_char_inject by blast+
    with Cons.IH [OF rest] Cons show ?thesis by simp
  qed
qed

lemma quote_inject: "quote s @ r = quote s' @ r' \<Longrightarrow> s = s' \<and> r = r'"
  using esc_concat_inject [of s r s' r'] by (simp add: quote_def)

text \<open>A float's text has only digits and \<open>+-.e\<close>, and it is not the text of an integer.\<close>

definition float_text :: "string \<Rightarrow> bool" where
  "float_text t \<longleftrightarrow> t \<noteq> [] \<and> (\<forall>c \<in> set t. c \<in> set ''0123456789+-.e'') \<and>
     (CHR ''.'' \<in> set t \<or> CHR ''e'' \<in> set t)"

fun json_ok :: "json \<Rightarrow> bool" where
  "json_ok (JFloat q t) = float_text t"
| "json_ok (JArr xs) = list_all json_ok xs"
| "json_ok (JObj d) = list_all (\<lambda>(k, v). json_ok v) d"
| "json_ok j = True"

lemma int_str_chars: "c \<in> set (int_str i) \<Longrightarrow> is_digit 10 c \<or> c = CHR ''-''"
  using nat_str_digits by (auto simp: int_str_def split: if_splits)

lemma float_text_not_int: "float_text t \<Longrightarrow> t \<noteq> int_str i"
proof
  assume t: "float_text t" "t = int_str i"
  then have "CHR ''.'' \<in> set (int_str i) \<or> CHR ''e'' \<in> set (int_str i)"
    by (simp add: float_text_def)
  then have "is_digit 10 (CHR ''.'') \<or> is_digit 10 (CHR ''e'')" using int_str_chars by fastforce
  then show False by (simp add: is_digit_def digit_val_def)
qed

lemma digit_chars: "is_digit 10 c \<Longrightarrow> c \<in> set ''0123456789''"
proof -
  assume "is_digit 10 c"
  then have n: "48 \<le> (of_char c :: nat)" "(of_char c :: nat) < 58"
    by (auto simp: is_digit_def digit_val_def Let_def split: if_splits)
  then have "of_char c \<in> set [48 ..< 58::nat]" unfolding set_upt atLeastLessThan_iff by blast
  then have "c \<in> char_of ` set [48 ..< 58::nat]" by (metis char_of_char image_eqI)
  also have "char_of ` set [48 ..< 58::nat] = set ''0123456789''" by code_simp
  finally show ?thesis .
qed

lemma number_chars:
  "c \<in> set (int_str i) \<Longrightarrow> c \<in> set ''0123456789+-.e''"
  "float_text t \<Longrightarrow> c \<in> set t \<Longrightarrow> c \<in> set ''0123456789+-.e''"
  using int_str_chars [of c i] digit_chars [of c] by (auto simp: float_text_def)

text \<open>The first character of a text tells strings, numbers and the rest apart.\<close>

lemma dumps_hd:
  assumes "json_ok j"
  shows "\<exists>c cs. dumps_sep si sk j = c # cs \<and>
    (c = CHR 0x22 \<longleftrightarrow> (\<exists>s. j = JStr s)) \<and>
    (c \<in> set ''0123456789+-.e'' \<longleftrightarrow> (\<exists>i. j = JInt i) \<or> (\<exists>q t. j = JFloat q t))"
proof -
  have num: "\<exists>c cs. t = c # cs \<and> c \<noteq> CHR 0x22 \<and> c \<in> set ''0123456789+-.e''"
    if "t \<noteq> []" "\<And>c. c \<in> set t \<Longrightarrow> c \<in> set ''0123456789+-.e''" for t :: string
    using that by (cases t) fastforce+
  show ?thesis
  proof (cases j)
    case (JInt i)
    then show ?thesis using num [of "int_str i"] number_chars(1) by auto
  next
    case (JFloat q t)
    with assms have "float_text t" by simp
    then show ?thesis using JFloat num [of t] number_chars(2) by (auto simp: float_text_def)
  qed (auto simp: quote_def)
qed

lemma dumps_str_inject:
  assumes ok: "json_ok v" and eq: "dumps_sep si sk v @ r' = quote s @ r"
  shows "v = JStr s \<and> r' = r"
proof -
  obtain c cs where "dumps_sep si sk v = c # cs" "c = CHR 0x22 \<longleftrightarrow> (\<exists>s. v = JStr s)"
    using dumps_hd [OF ok] by blast
  with eq obtain t where "v = JStr t" by (auto simp: quote_def)
  with eq show ?thesis using quote_inject [of t r' s r] by simp
qed

lemma span_inject:
  "\<forall>c \<in> set xs. c \<in> A \<Longrightarrow> \<forall>c \<in> set ys. c \<in> A \<Longrightarrow> d \<notin> A \<Longrightarrow> d' \<notin> A \<Longrightarrow>
    xs @ d # r = ys @ d' # r' \<Longrightarrow> xs = ys \<and> d = d' \<and> r = r'"
proof (induction xs arbitrary: ys)
  case Nil
  then show ?case by (cases ys) auto
next
  case (Cons x xs)
  then show ?case by (cases ys) auto
qed

lemma dumps_int_inject:
  assumes ok: "json_ok v" and eq: "dumps_sep si sk v @ CHR '','' # r' = int_str i @ CHR '','' # r"
  shows "v = JInt i \<and> r' = r"
proof -
  let ?N = "set ''0123456789+-.e''"
  have comma: "CHR '','' \<notin> ?N" by simp
  obtain c cs where v: "dumps_sep si sk v = c # cs"
    "c \<in> ?N \<longleftrightarrow> (\<exists>i. v = JInt i) \<or> (\<exists>q t. v = JFloat q t)"
    using dumps_hd [OF ok] by blast
  have "hd (int_str i) = c" using eq v by (metis append_Cons hd_append2 int_str_not_Nil list.sel(1))
  then have "c \<in> ?N" using number_chars(1) [of c i] by (metis hd_in_set int_str_not_Nil)
  with v consider (int) j where "v = JInt j" | (float) q t where "v = JFloat q t" by blast
  then show ?thesis
  proof cases
    case int
    from eq int have e: "int_str j @ CHR '','' # r' = int_str i @ CHR '','' # r" by simp
    have "int_str j = int_str i \<and> CHR '','' = CHR '','' \<and> r' = r"
      by (rule span_inject [OF _ _ comma comma e]) (use number_chars(1) in blast)+
    with int show ?thesis by simp
  next
    case float
    with ok have t: "float_text t" by simp
    from eq float have e: "t @ CHR '','' # r' = int_str i @ CHR '','' # r" by simp
    have "t = int_str i \<and> CHR '','' = CHR '','' \<and> r' = r"
      by (rule span_inject [OF _ _ comma comma e]) (use number_chars(1) number_chars(2) [OF t] in blast)+
    with float_text_not_int [OF t, of i] show ?thesis by simp
  qed
qed

lemma sort_keys_ok [simp]: "json_ok (sort_keys j) = json_ok j"
proof (induction j rule: sort_keys.induct)
  case (1 xs)
  then show ?case by (auto simp: list_all_iff)
next
  case (2 d)
  then show ?case by (fastforce simp: list_all_iff)
qed simp_all

lemma sort_keys_JStr [simp]: "sort_keys j = JStr s \<longleftrightarrow> j = JStr s"
  by (cases j) simp_all

lemma sort_keys_JInt [simp]: "sort_keys j = JInt i \<longleftrightarrow> j = JInt i"
  by (cases j) simp_all

end
