(* ===== verification/Sha256.thy ===== *)
theory Sha256
  imports Py_Values
begin

text \<open>
  \<open>hashlib.sha256(text.encode("utf-8")).hexdigest()\<close>, written out from FIPS 180-4 over 32-bit
  words, so that every digest of the model is a concrete value. Nothing in the development
  assumes that SHA-256 has no collisions: where a property needs it, its statement names the
  two texts that would have to collide.
\<close>

unbundle bit_operations_syntax

definition utf8_char :: "char \<Rightarrow> nat list" where
  "utf8_char c =
     (let n = of_char c in if n < 128 then [n] else [192 + n div 64, 128 + n mod 64])"

definition utf8 :: "string \<Rightarrow> nat list" where
  "utf8 s = concat (map utf8_char s)"

definition sha_k :: "32 word list" where
  "sha_k = [
     1116352408, 1899447441, 3049323471, 3921009573, 961987163, 1508970993,
     2453635748, 2870763221, 3624381080, 310598401, 607225278, 1426881987,
     1925078388, 2162078206, 2614888103, 3248222580, 3835390401, 4022224774,
     264347078, 604807628, 770255983, 1249150122, 1555081692, 1996064986,
     2554220882, 2821834349, 2952996808, 3210313671, 3336571891, 3584528711,
     113926993, 338241895, 666307205, 773529912, 1294757372, 1396182291,
     1695183700, 1986661051, 2177026350, 2456956037, 2730485921, 2820302411,
     3259730800, 3345764771, 3516065817, 3600352804, 4094571909, 275423344,
     430227734, 506948616, 659060556, 883997877, 958139571, 1322822218,
     1537002063, 1747873779, 1955562222, 2024104815, 2227730452, 2361852424,
     2428436474, 2756734187, 3204031479, 3329325298]"

definition sha_init :: "32 word list" where
  "sha_init = [
     1779033703, 3144134277, 1013904242, 2773480762, 1359893119, 2600822924,
     528734635, 1541459225]"

fun be_bytes :: "nat \<Rightarrow> nat \<Rightarrow> nat list" where
  "be_bytes 0 v = []"
| "be_bytes (Suc n) v = be_bytes n (v div 256) @ [v mod 256]"

definition sha_pad :: "nat list \<Rightarrow> nat list" where
  "sha_pad msg =
     msg @ [128] @ replicate ((119 - length msg mod 64) mod 64) 0 @ be_bytes 8 (8 * length msg)"

definition be_word :: "nat list \<Rightarrow> 32 word" where
  "be_word bs = foldl (\<lambda>a b. 256 * a + of_nat b) 0 bs"

fun chunks :: "nat \<Rightarrow> 'a list \<Rightarrow> 'a list list" where
  "chunks n [] = []"
| "chunks n (x # xs) = take (Suc n) (x # xs) # chunks n (drop n xs)"

text \<open>\<open>chunks 3\<close> cuts into words of four bytes, \<open>chunks 63\<close> into blocks of sixty-four.\<close>

definition rotr :: "nat \<Rightarrow> 32 word \<Rightarrow> 32 word" where
  "rotr n x = drop_bit n x OR push_bit (32 - n) x"

definition sigma_small :: "nat \<Rightarrow> nat \<Rightarrow> nat \<Rightarrow> 32 word \<Rightarrow> 32 word" where
  "sigma_small a b c x = (rotr a x XOR rotr b x) XOR drop_bit c x"

definition sigma_big :: "nat \<Rightarrow> nat \<Rightarrow> nat \<Rightarrow> 32 word \<Rightarrow> 32 word" where
  "sigma_big a b c x = (rotr a x XOR rotr b x) XOR rotr c x"

definition next_w :: "32 word list \<Rightarrow> 32 word" where
  "next_w w =
     (let n = length w in
        sigma_small 17 19 10 (w ! (n - 2)) + w ! (n - 7)
        + sigma_small 7 18 3 (w ! (n - 15)) + w ! (n - 16))"

fun schedule :: "nat \<Rightarrow> 32 word list \<Rightarrow> 32 word list" where
  "schedule 0 w = w"
| "schedule (Suc n) w = schedule n (w @ [next_w w])"

definition sha_round :: "32 word \<Rightarrow> 32 word list \<Rightarrow> 32 word list" where
  "sha_round kw v = (case v of
      [a, b, c, d, e, f, g, h] \<Rightarrow>
        (let ch = (e AND f) XOR (NOT e AND g);
             maj = ((a AND b) XOR (a AND c)) XOR (b AND c);
             t1 = h + sigma_big 6 11 25 e + ch + kw;
             t2 = sigma_big 2 13 22 a + maj
         in [t1 + t2, a, b, c, d + t1, e, f, g])
    | _ \<Rightarrow> v)"

definition sha_block :: "nat list \<Rightarrow> 32 word list \<Rightarrow> 32 word list" where
  "sha_block block h =
     (let w = schedule 48 (map be_word (chunks 3 block))
      in map2 (+) h (fold sha_round (map2 (+) sha_k w) h))"

definition sha256 :: "nat list \<Rightarrow> 32 word list" where
  "sha256 msg = fold sha_block (chunks 63 (sha_pad msg)) sha_init"

definition hex_word :: "32 word \<Rightarrow> string" where
  "hex_word w = map (\<lambda>i. digit_char (unat (drop_bit (4 * i) w AND 15))) [7, 6, 5, 4, 3, 2, 1, 0]"

definition sha256_hex :: "string \<Rightarrow> string" where
  "sha256_hex s = concat (map hex_word (sha256 (utf8 s)))"

section \<open>Shape of a digest\<close>

lemma length_sha_round [simp]: "length (sha_round k v) = length v"
  by (simp add: sha_round_def Let_def split: list.split)

lemma length_fold_sha_round [simp]: "length (fold sha_round ks v) = length v"
  by (induction ks arbitrary: v) auto

lemma length_sha_block [simp]: "length (sha_block b h) = length h"
  by (simp add: sha_block_def Let_def)

lemma length_sha256: "length (sha256 msg) = 8"
proof -
  have "length (fold sha_block bs h) = length h" for bs h
    by (induction bs arbitrary: h) auto
  then show ?thesis by (simp add: sha256_def sha_init_def)
qed

lemma length_sha256_hex [simp]: "length (sha256_hex s) = 64"
  by (simp add: sha256_hex_def hex_word_def length_concat comp_def sum_list_triv length_sha256)

lemma sha256_hex_not_Nil [simp]: "sha256_hex s \<noteq> []"
  using length_sha256_hex [of s] by (metis list.size(3) zero_neq_numeral)

end
