(* ===== verification/Chain_State.thy ===== *)
theory Chain_State
  imports Json_Text Sha256
begin

text \<open>
  \<^verbatim>\<open>rootsign/hashing.py\<close>, \<^verbatim>\<open>rootsign/sdk/hashing.py\<close> and
  \<^verbatim>\<open>rootsign/chain_state.py\<close>: the canonical hash of an action, the fingerprint of a
  payload, and the in-memory tail of a session's chain, which mints a seal for a payload or
  adopts the one it carries.

  A call that can raise returns \<open>Inl\<close> the exception; an operation of an object returns the
  object's state beside its result, because \<open>_adopt\<close> raises after it has written.
\<close>

section \<open>Hashes\<close>

definition canonical :: "dict \<Rightarrow> pyexc + json" where
  "canonical action =
     sbind (dindex action ''timestamp'') (\<lambda>timestamp.
     sbind (dindex action ''action_id'') (\<lambda>action_id.
     sbind (dindex action ''session_id'') (\<lambda>session_id.
     sbind (dindex action ''tool_name'') (\<lambda>tool_name.
     sbind (dindex action ''input_hash'') (\<lambda>input_hash.
     sbind (dindex action ''sequence_number'') (\<lambda>sequence_number.
     Inr (JObj
       [(''action_id'', JStr (py_str action_id)),
        (''session_id'', JStr (py_str session_id)),
        (''tool_name'', tool_name),
        (''input_hash'', input_hash),
        (''output_hash'', py_or (dget action ''output_hash'') (JStr [])),
        (''prev_action_hash'', py_or (dget action ''prev_action_hash'') (JStr [])),
        (''timestamp'', timestamp),
        (''sequence_number'', sequence_number)])))))))"

definition compute_action_self_hash :: "dict \<Rightarrow> pyexc + string" where
  "compute_action_self_hash action =
     sbind (canonical action) (\<lambda>c. Inr (sha256_hex (dumps_sorted c)))"

definition compute_payload_hash :: "json \<Rightarrow> string" where
  "compute_payload_hash payload =
     sha256_hex (if payload = JNull then [] else dumps_sorted payload)"

section \<open>The tail of a chain\<close>

record sealed_action =
  sa_action_id :: uuid
  sa_sequence_number :: int
  sa_prev_action_hash :: json
  sa_self_hash :: string
  sa_adopted :: bool

record chain_state =
  cs_tail :: "string option"
  cs_count :: int

definition new_chain :: chain_state where
  "new_chain = \<lparr>cs_tail = None, cs_count = 0\<rparr>"

definition opt_str :: "string option \<Rightarrow> json" where
  "opt_str x = (case x of None \<Rightarrow> JNull | Some s \<Rightarrow> JStr s)"

definition as_payload_fields :: "sealed_action \<Rightarrow> dict" where
  "as_payload_fields sa =
     [(''action_id'', JStr (uuid_str (sa_action_id sa))),
      (''sequence_number'', JInt (sa_sequence_number sa)),
      (''prev_action_hash'', sa_prev_action_hash sa),
      (''self_hash'', JStr (sa_self_hash sa))]"

definition is_sealed :: "dict \<Rightarrow> bool" where
  "is_sealed payload \<longleftrightarrow> dget payload ''self_hash'' \<noteq> JNull"

definition sealed_fields :: "string list" where
  "sealed_fields = [''action_id'', ''sequence_number'', ''prev_action_hash'', ''self_hash'']"

definition adopt :: "dict \<Rightarrow> chain_state \<Rightarrow> (pyexc + sealed_action) \<times> chain_state" where
  "adopt payload st =
     (if list_ex (\<lambda>f. dget payload f = JNull) [''action_id'', ''sequence_number'']
      then (Inl (ValueError ''an adopted seal must be complete''), st)
      else (case py_int (dget payload ''sequence_number'') of
              Inl e \<Rightarrow> (Inl e, st)
            | Inr sequence_number \<Rightarrow>
                let self_hash = py_str (dget payload ''self_hash'');
                    st' = \<lparr>cs_tail = Some self_hash, cs_count = max (cs_count st) sequence_number\<rparr>
                in (case uuid_of_str (py_str (dget payload ''action_id'')) of
                      None \<Rightarrow> (Inl (ValueError ''badly formed hexadecimal UUID string''), st')
                    | Some action_id \<Rightarrow>
                        (Inr \<lparr>sa_action_id = action_id, sa_sequence_number = sequence_number,
                              sa_prev_action_hash = dget payload ''prev_action_hash'',
                              sa_self_hash = self_hash, sa_adopted = True\<rparr>, st'))))"

text \<open>The canonical dict a sealer hashes; \<open>payload["k"]\<close> is evaluated in this order.\<close>

definition seal_input :: "uuid \<Rightarrow> string \<Rightarrow> string option \<Rightarrow> int \<Rightarrow> dict \<Rightarrow> pyexc + dict" where
  "seal_input action_id session_id prev n payload =
     sbind (dindex payload ''tool_name'') (\<lambda>tool_name.
     sbind (dindex payload ''input_hash'') (\<lambda>input_hash.
     sbind (dindex payload ''timestamp'') (\<lambda>timestamp.
     Inr [(''action_id'', JStr (uuid_str action_id)),
          (''session_id'', JStr session_id),
          (''tool_name'', tool_name),
          (''input_hash'', input_hash),
          (''output_hash'', dget payload ''output_hash''),
          (''prev_action_hash'', opt_str prev),
          (''timestamp'', timestamp),
          (''sequence_number'', JInt n)])))"

text \<open>\<open>fresh\<close> is the id \<open>new_record_id()\<close> returns for this call.\<close>

definition seal :: "uuid \<Rightarrow> string \<Rightarrow> dict \<Rightarrow> chain_state \<Rightarrow> (pyexc + sealed_action) \<times> chain_state" where
  "seal fresh session_id payload st =
     (if is_sealed payload then adopt payload st
      else if list_ex (\<lambda>f. dget payload f \<noteq> JNull) sealed_fields
      then (Inl (ValueError ''partially sealed ACTION_RECORD payload''), st)
      else
        let sequence_number = cs_count st + 1
        in (case sbind (seal_input fresh session_id (cs_tail st) sequence_number payload)
                   compute_action_self_hash of
              Inl e \<Rightarrow> (Inl e, st)
            | Inr self_hash \<Rightarrow>
                (Inr \<lparr>sa_action_id = fresh, sa_sequence_number = sequence_number,
                      sa_prev_action_hash = opt_str (cs_tail st), sa_self_hash = self_hash,
                      sa_adopted = False\<rparr>,
                 \<lparr>cs_tail = Some self_hash, cs_count = sequence_number\<rparr>)))"

type_synonym registry = "string \<rightharpoonup> chain_state"

definition state_for :: "registry \<Rightarrow> string \<Rightarrow> chain_state" where
  "state_for reg session_id =
     (case reg session_id of None \<Rightarrow> new_chain | Some st \<Rightarrow> st)"

text \<open>\<open>setdefault\<close> stores the new chain even when sealing then raises.\<close>

definition registry_seal :: "uuid \<Rightarrow> string \<Rightarrow> dict \<Rightarrow> registry \<Rightarrow> (pyexc + sealed_action) \<times> registry" where
  "registry_seal fresh session_id payload reg =
     (case seal fresh session_id payload (state_for reg session_id) of
        (r, st') \<Rightarrow> (r, reg(session_id \<mapsto> st')))"

section \<open>Sealing\<close>

text \<open>A payload as the tracer builds it: no seal, the three indexed fields present.\<close>

definition unsealed :: "dict \<Rightarrow> bool" where
  "unsealed payload \<longleftrightarrow> list_all (\<lambda>f. dget payload f = JNull) sealed_fields"

definition sealable :: "dict \<Rightarrow> bool" where
  "sealable payload \<longleftrightarrow>
     unsealed payload \<and> list_all (dhas payload) [''tool_name'', ''input_hash'', ''timestamp'']"

definition link_dict :: "uuid \<Rightarrow> string \<Rightarrow> string option \<Rightarrow> int \<Rightarrow> dict \<Rightarrow> dict" where
  "link_dict action_id session_id prev n payload =
     [(''action_id'', JStr (uuid_str action_id)),
      (''session_id'', JStr session_id),
      (''tool_name'', dget payload ''tool_name''),
      (''input_hash'', dget payload ''input_hash''),
      (''output_hash'', dget payload ''output_hash''),
      (''prev_action_hash'', opt_str prev),
      (''timestamp'', dget payload ''timestamp''),
      (''sequence_number'', JInt n)]"

definition canonical_of :: "dict \<Rightarrow> json" where
  "canonical_of action =
     JObj [(''action_id'', JStr (py_str (dget action ''action_id''))),
        (''session_id'', JStr (py_str (dget action ''session_id''))),
        (''tool_name'', dget action ''tool_name''),
        (''input_hash'', dget action ''input_hash''),
        (''output_hash'', py_or (dget action ''output_hash'') (JStr [])),
        (''prev_action_hash'', py_or (dget action ''prev_action_hash'') (JStr [])),
        (''timestamp'', dget action ''timestamp''),
        (''sequence_number'', dget action ''sequence_number'')]"

definition hash_of :: "dict \<Rightarrow> string" where
  "hash_of action = sha256_hex (dumps_sorted (canonical_of action))"

definition canonical_keys :: "string list" where
  "canonical_keys =
     [''timestamp'', ''action_id'', ''session_id'', ''tool_name'', ''input_hash'', ''sequence_number'']"

lemma dhas_dindex: "dhas d k \<Longrightarrow> dindex d k = Inr (dget d k)"
  by (auto simp: dhas_def dindex_def dget_def)

lemma canonical_total: "list_all (dhas d) canonical_keys \<Longrightarrow> canonical d = Inr (canonical_of d)"
  by (simp add: canonical_def canonical_of_def canonical_keys_def dhas_dindex)

lemma self_hash_total:
  "list_all (dhas d) canonical_keys \<Longrightarrow> compute_action_self_hash d = Inr (hash_of d)"
  by (simp add: compute_action_self_hash_def canonical_total hash_of_def)

lemma canonical_Inr: "canonical d = Inr c \<Longrightarrow> list_all (dhas d) canonical_keys \<and> c = canonical_of d"
  by (auto simp: canonical_def canonical_of_def canonical_keys_def sbind_eq_Inr dindex_eq_Inr
      dhas_def dget_def)

lemma self_hash_Inr:
  "compute_action_self_hash d = Inr h \<longleftrightarrow> list_all (dhas d) canonical_keys \<and> h = hash_of d"
  using self_hash_total canonical_Inr
  by (auto simp: compute_action_self_hash_def sbind_eq_Inr hash_of_def)

lemma seal_input_total:
  "list_all (dhas p) [''tool_name'', ''input_hash'', ''timestamp''] \<Longrightarrow>
    seal_input a s t n p = Inr (link_dict a s t n p)"
  by (simp add: seal_input_def link_dict_def dhas_dindex)

lemma link_dict_keys: "list_all (dhas (link_dict a s t n p)) canonical_keys"
  by (simp add: link_dict_def canonical_keys_def dict_simps)

lemma unsealed_not_sealed: "unsealed p \<Longrightarrow> \<not> is_sealed p"
  by (simp add: unsealed_def is_sealed_def sealed_fields_def)

lemma unsealed_no_field: "unsealed p \<longleftrightarrow> \<not> list_ex (\<lambda>f. dget p f \<noteq> JNull) sealed_fields"
  by (auto simp: unsealed_def list_ex_iff list_all_iff)

text \<open>A payload without a seal is given the next one: dense number, link onto the tail, hash
  over the canonical fields; the state moves onto it.\<close>

lemma seal_fresh [chain_simps]:
  assumes "sealable payload"
  shows "seal fresh sid payload st =
    (let h = hash_of (link_dict fresh sid (cs_tail st) (cs_count st + 1) payload)
     in (Inr \<lparr>sa_action_id = fresh, sa_sequence_number = cs_count st + 1,
               sa_prev_action_hash = opt_str (cs_tail st), sa_self_hash = h, sa_adopted = False\<rparr>,
         \<lparr>cs_tail = Some h, cs_count = cs_count st + 1\<rparr>))"
  using assms unsealed_not_sealed [of payload] unsealed_no_field [of payload]
  by (simp add: seal_def sealable_def seal_input_total self_hash_total link_dict_keys Let_def)

lemma seal_partial:
  "\<not> is_sealed payload \<Longrightarrow> \<not> unsealed payload \<Longrightarrow>
    seal fresh sid payload st = (Inl (ValueError ''partially sealed ACTION_RECORD payload''), st)"
  by (simp add: seal_def unsealed_no_field)

text \<open>A payload that lacks an indexed field raises before the state moves.\<close>

lemma seal_error_keeps:
  "\<not> is_sealed payload \<Longrightarrow> seal fresh sid payload st = (Inl e, st') \<Longrightarrow> st' = st"
  by (auto simp: seal_def Let_def split: if_splits sum.splits)

lemma sealable_if_sealed:
  "\<not> is_sealed payload \<Longrightarrow> seal fresh sid payload st = (Inr sa, st') \<Longrightarrow> sealable payload"
  by (auto simp: seal_def Let_def sealable_def unsealed_no_field seal_input_def sbind_eq_Inr
      dindex_eq_Inr dhas_def split: if_splits sum.splits)

section \<open>Adoption\<close>

definition carry :: "sealed_action \<Rightarrow> dict \<Rightarrow> dict" where
  "carry sa payload = dupdate payload (as_payload_fields sa)"

lemma dget_carry:
  "dget (carry sa p) k =
     (if k = ''action_id'' then JStr (uuid_str (sa_action_id sa))
      else if k = ''sequence_number'' then JInt (sa_sequence_number sa)
      else if k = ''prev_action_hash'' then sa_prev_action_hash sa
      else if k = ''self_hash'' then JStr (sa_self_hash sa)
      else dget p k)"
  by (simp add: carry_def as_payload_fields_def dict_simps)

lemma dhas_carry:
  "dhas (carry sa p) k \<longleftrightarrow> dhas p k \<or> k \<in> set sealed_fields"
  by (auto simp: carry_def as_payload_fields_def dict_simps sealed_fields_def)

lemma is_sealed_carry [simp]: "is_sealed (carry sa p)"
  by (simp add: is_sealed_def dget_carry)

text \<open>A payload that carries a seal is given that seal back, whatever the state and the fresh id.\<close>

lemma seal_carry [chain_simps]:
  "seal fresh sid (carry sa p) st =
     (Inr (sa\<lparr>sa_adopted := True\<rparr>),
      \<lparr>cs_tail = Some (sa_self_hash sa), cs_count = max (cs_count st) (sa_sequence_number sa)\<rparr>)"
  by (simp add: seal_def adopt_def dget_carry uuid_parse_str Let_def)

lemma carry_adopted [simp]: "carry (sa\<lparr>sa_adopted := b\<rparr>) p = carry sa p"
  by (simp add: carry_def as_payload_fields_def)

section \<open>Registries\<close>

lemma state_for_upd [simp]: "state_for (reg(s \<mapsto> st)) s' = (if s' = s then st else state_for reg s')"
  by (simp add: state_for_def)

lemma registry_seal_other:
  "registry_seal fresh s p reg = (r, reg') \<Longrightarrow> s' \<noteq> s \<Longrightarrow> reg' s' = reg s'"
  by (auto simp: registry_seal_def split: prod.splits)

lemma registry_seal_state:
  "registry_seal fresh s p reg = (r, reg') \<longleftrightarrow>
     seal fresh s p (state_for reg s) = (r, state_for reg' s) \<and> reg' = reg(s \<mapsto> state_for reg' s)"
  by (auto simp: registry_seal_def split: prod.splits)

section \<open>What a canonical text determines\<close>

text \<open>The types the ingest schema gives the hashed fields.\<close>

definition str_or_null :: "json \<Rightarrow> bool" where
  "str_or_null j \<longleftrightarrow> j = JNull \<or> (\<exists>s. j = JStr s)"

definition typed_action :: "dict \<Rightarrow> bool" where
  "typed_action d \<longleftrightarrow>
     (\<exists>s. dget d ''tool_name'' = JStr s) \<and> (\<exists>s. dget d ''input_hash'' = JStr s) \<and>
     (\<exists>s. dget d ''timestamp'' = JStr s) \<and> (\<exists>i. dget d ''sequence_number'' = JInt i) \<and>
     str_or_null (dget d ''output_hash'') \<and> str_or_null (dget d ''prev_action_hash'')"

text \<open>One member of the canonical object, followed by the rest of the text.\<close>

definition member_text :: "string \<Rightarrow> json \<Rightarrow> string \<Rightarrow> string" where
  "member_text k v rest = quote k @ '': '' @ dumps_sorted v @ rest"

lemma canonical_text:
  "dumps_sorted (JObj
     [(''action_id'', a), (''session_id'', s), (''tool_name'', t), (''input_hash'', i),
      (''output_hash'', out), (''prev_action_hash'', p), (''timestamp'', ts),
      (''sequence_number'', n)]) =
   ''{'' @ member_text ''action_id'' a ('', '' @ member_text ''input_hash'' i ('', '' @
   member_text ''output_hash'' out ('', '' @ member_text ''prev_action_hash'' p ('', '' @
   member_text ''sequence_number'' n ('', '' @ member_text ''session_id'' s ('', '' @
   member_text ''timestamp'' ts ('', '' @ member_text ''tool_name'' t ''}'')))))))"
proof -
  have "sort_key fst
     [(''action_id'', sort_keys a), (''session_id'', sort_keys s), (''tool_name'', sort_keys t),
      (''input_hash'', sort_keys i), (''output_hash'', sort_keys out),
      (''prev_action_hash'', sort_keys p), (''timestamp'', sort_keys ts),
      (''sequence_number'', sort_keys n)] =
     [(''action_id'', sort_keys a), (''input_hash'', sort_keys i), (''output_hash'', sort_keys out),
      (''prev_action_hash'', sort_keys p), (''sequence_number'', sort_keys n),
      (''session_id'', sort_keys s), (''timestamp'', sort_keys ts), (''tool_name'', sort_keys t)]"
    by (simp add: less_eq_char_def)
  then show ?thesis by (simp add: dumps_sorted_def member_text_def)
qed

lemma member_str_inject:
  "json_ok v \<Longrightarrow> member_text k (JStr x) r = member_text k v r' \<Longrightarrow> v = JStr x \<and> r' = r"
  using dumps_str_inject [of "sort_keys v" "'', ''" "'': ''" r' x r]
  by (auto simp: dumps_sorted_def member_text_def)

lemma member_int_inject:
  "json_ok v \<Longrightarrow> member_text k (JInt x) ('', '' @ r) = member_text k v ('', '' @ r') \<Longrightarrow>
    v = JInt x \<and> r' = r"
  using dumps_int_inject [of "sort_keys v" "'', ''" "'': ''" "'' '' @ r'" x "'' '' @ r"]
  by (auto simp: dumps_sorted_def member_text_def)

lemma canonical_text_inject:
  assumes "json_ok i" "json_ok out" "json_ok p" "json_ok n" "json_ok ts" "json_ok t"
    and eq: "dumps_sorted (JObj
     [(''action_id'', JStr a0), (''session_id'', JStr s0), (''tool_name'', JStr t0),
      (''input_hash'', JStr i0), (''output_hash'', JStr out0), (''prev_action_hash'', JStr p0),
      (''timestamp'', JStr ts0), (''sequence_number'', JInt n0)]) =
    dumps_sorted (JObj
     [(''action_id'', JStr a), (''session_id'', JStr s), (''tool_name'', t), (''input_hash'', i),
      (''output_hash'', out), (''prev_action_hash'', p), (''timestamp'', ts),
      (''sequence_number'', n)])"
  shows "a = a0 \<and> s = s0 \<and> t = JStr t0 \<and> i = JStr i0 \<and> out = JStr out0 \<and> p = JStr p0 \<and>
    ts = JStr ts0 \<and> n = JInt n0"
proof -
  note e1 = eq [unfolded canonical_text same_append_eq]
  note r1 = member_str_inject [OF _ e1, simplified json_ok.simps json.inject, OF TrueI]
  note r2 = member_str_inject [OF assms(1) r1 [THEN conjunct2, symmetric, unfolded same_append_eq]]
  note r3 = member_str_inject [OF assms(2) r2 [THEN conjunct2, symmetric, unfolded same_append_eq]]
  note r4 = member_str_inject [OF assms(3) r3 [THEN conjunct2, symmetric, unfolded same_append_eq]]
  note r5 = member_int_inject [OF assms(4) r4 [THEN conjunct2, symmetric, unfolded same_append_eq]]
  note r6 = member_str_inject [OF _ r5 [THEN conjunct2, symmetric],
      simplified json_ok.simps json.inject, OF TrueI]
  note r7 = member_str_inject [OF assms(5) r6 [THEN conjunct2, symmetric, unfolded same_append_eq]]
  note r8 = member_str_inject [OF assms(6) r7 [THEN conjunct2, symmetric, unfolded same_append_eq]]
  show ?thesis using r1 r2 r3 r4 r5 r6 r7 r8 by blast
qed

text \<open>\<open>x or ""\<close> is the only place where two field values are written alike.\<close>

lemma str_or_null_blank: "str_or_null j \<Longrightarrow> \<exists>x. py_or j (JStr []) = JStr x"
  by (auto simp: str_or_null_def py_or_def)

lemma json_ok_blank: "json_ok j \<Longrightarrow> json_ok (py_or j (JStr []))"
  by (simp add: py_or_def)

definition dict_ok :: "dict \<Rightarrow> bool" where
  "dict_ok d \<longleftrightarrow> list_all (\<lambda>(k, v). json_ok v) d"

lemma dict_ok_dget: "dict_ok d \<Longrightarrow> json_ok (dget d k)"
  by (auto simp: dict_ok_def dget_def list_all_iff split: option.splits dest: map_of_SomeD)

theorem canonical_inject:
  assumes typed: "typed_action r" and ok: "dict_ok r'"
    and eq: "dumps_sorted (canonical_of r) = dumps_sorted (canonical_of r')"
  shows "canonical_of r = canonical_of r'"
proof -
  obtain t i ts n out p where f: "dget r ''tool_name'' = JStr t" "dget r ''input_hash'' = JStr i"
    "dget r ''timestamp'' = JStr ts" "dget r ''sequence_number'' = JInt n"
    "py_or (dget r ''output_hash'') (JStr []) = JStr out"
    "py_or (dget r ''prev_action_hash'') (JStr []) = JStr p"
    using typed str_or_null_blank unfolding typed_action_def by metis
  note okg = dict_ok_dget [OF ok]
  show ?thesis
    using canonical_text_inject [OF okg json_ok_blank [OF okg] json_ok_blank [OF okg] okg okg okg
        eq [unfolded canonical_of_def f]]
    unfolding canonical_of_def f by simp
qed

section \<open>Properties of the sealer\<close>

definition sample_payload :: dict where
  "sample_payload =
     [(''tool_name'', JStr ''search''), (''input_hash'', JStr ''aa''), (''timestamp'', JStr ''t'')]"

lemma sealable_sample: "sealable sample_payload"
  by (simp add: sealable_def unsealed_def sealed_fields_def sample_payload_def dict_simps)

text \<open>Sealing an unsealed payload gives it the next dense number, links it onto the tail and
  hashes its canonical fields; sealing the result again, in any state and with any fresh id,
  gives back the same seal, and in the state just reached it changes nothing.\<close>

theorem seal_then_adopt:
  assumes "sealable payload"
  shows "\<exists>sa st'. seal fresh sid payload st = (Inr sa, st') \<and>
    sa_sequence_number sa = cs_count st + 1 \<and> sa_prev_action_hash sa = opt_str (cs_tail st) \<and>
    sa_self_hash sa = hash_of (link_dict fresh sid (cs_tail st) (cs_count st + 1) payload) \<and>
    cs_tail st' = Some (sa_self_hash sa) \<and> cs_count st' = cs_count st + 1 \<and>
    fst (seal fresh2 sid2 (carry sa payload) st2) = Inr (sa\<lparr>sa_adopted := True\<rparr>) \<and>
    snd (seal fresh2 sid2 (carry sa payload) st') = st'"
  using assms by (simp add: seal_fresh seal_carry Let_def)

theorem seal_then_adopt_witness:
  "\<exists>sa st'. seal 7 ''s'' sample_payload new_chain = (Inr sa, st') \<and> cs_count st' = 1"
  using seal_then_adopt [OF sealable_sample, of 7 "''s''" new_chain 0 "''s''" new_chain]
  by (auto simp: new_chain_def)

text \<open>Adoption writes the tail even when the adopted record is older than it: after two records
  are sealed and the first is sealed again, as happens when only the first is spooled, the third
  record takes number three but names the first one as its predecessor.\<close>

theorem adopting_an_older_seal_forks:
  assumes "sealable p1" and "sealable p2" and "sealable p3"
    and "seal f1 sid p1 st0 = (Inr sa1, st1)" and "seal f2 sid p2 st1 = (Inr sa2, st2)"
    and "seal f sid (carry sa1 p1) st2 = (r, st3)" and "seal f3 sid p3 st3 = (Inr sa3, st4)"
  shows "sa_sequence_number sa3 = sa_sequence_number sa2 + 1 \<and>
    sa_prev_action_hash sa2 = JStr (sa_self_hash sa1) \<and>
    sa_prev_action_hash sa3 = JStr (sa_self_hash sa1)"
  using assms by (auto simp: seal_fresh seal_carry Let_def opt_str_def)

theorem adopting_an_older_seal_forks_witness:
  "\<exists>sa1 st1 sa2 st2 r st3 sa3 st4.
     seal 1 ''s'' sample_payload new_chain = (Inr sa1, st1) \<and>
     seal 2 ''s'' sample_payload st1 = (Inr sa2, st2) \<and>
     seal 9 ''s'' (carry sa1 sample_payload) st2 = (r, st3) \<and>
     seal 3 ''s'' sample_payload st3 = (Inr sa3, st4) \<and>
     sa_sequence_number sa3 = 3 \<and> sa_prev_action_hash sa3 = JStr (sa_self_hash sa1)"
proof -
  let ?s = "sample_payload"
  obtain sa1 st1 where 1: "seal 1 ''s'' ?s new_chain = (Inr sa1, st1)"
    by (simp add: seal_fresh [OF sealable_sample] Let_def)
  obtain sa2 st2 where 2: "seal 2 ''s'' ?s st1 = (Inr sa2, st2)"
    by (simp add: seal_fresh [OF sealable_sample] Let_def)
  obtain r st3 where r: "seal 9 ''s'' (carry sa1 ?s) st2 = (r, st3)" by fastforce
  obtain sa3 st4 where 3: "seal 3 ''s'' ?s st3 = (Inr sa3, st4)"
    by (simp add: seal_fresh [OF sealable_sample] Let_def)
  have "sa_sequence_number sa2 = 2"
    using 1 2 by (auto simp: seal_fresh [OF sealable_sample] Let_def new_chain_def)
  with adopting_an_older_seal_forks [OF sealable_sample sealable_sample sealable_sample 1 2 r 3]
    1 2 r 3 show ?thesis by auto
qed

text \<open>A seal that cannot be made leaves the chain where it was, and no seal touches the chain of
  another session.\<close>

theorem failed_seal_keeps_chain:
  assumes "\<not> is_sealed payload" and "registry_seal fresh sid payload reg = (Inl e, reg')"
  shows "state_for reg' s = state_for reg s"
  using assms seal_error_keeps [OF assms(1)]
  by (auto simp: registry_seal_def split: prod.splits)

theorem failed_seal_keeps_chain_witness:
  "\<exists>e reg'. registry_seal 7 ''s'' [(''action_id'', JStr ''x'')] Map.empty = (Inl e, reg') \<and>
     state_for reg' ''s'' = state_for Map.empty ''s''"
proof -
  have ns: "\<not> is_sealed [(''action_id'', JStr ''x'')]" by (simp add: is_sealed_def dict_simps)
  obtain reg' e where r: "registry_seal 7 ''s'' [(''action_id'', JStr ''x'')] Map.empty = (Inl e, reg')"
    by (simp add: registry_seal_def seal_def is_sealed_def sealed_fields_def dict_simps)
  show ?thesis using failed_seal_keeps_chain [OF ns r] r by blast
qed

end
