(* ===== verification/Verdict_Rules.thy ===== *)
theory Verdict_Rules
  imports Py_Values
begin

text \<open>
  The verification vocabulary of \<^verbatim>\<open>rootsign/verdict.py\<close>: the three verdicts, the gaps of a
  dense 1-based chain, and the rule that combines them (worst verdict wins). The specification
  is the set of absent sequence numbers; the lemmas show that the scan of the code computes
  exactly its maximal runs, in order.
\<close>

datatype verdict = VALID | TAMPERED | INCOMPLETE

datatype failure_kind =
    SELF_HASH_MISMATCH
  | PREV_HASH_MISMATCH
  | DUPLICATE_SEQUENCE
  | PAYLOAD_BINDING
  | MISSING_FIELD
  | MALFORMED

fun exit_code :: "verdict \<Rightarrow> int" where
  "exit_code VALID = 0"
| "exit_code TAMPERED = 1"
| "exit_code INCOMPLETE = 2"

fun verdict_value :: "verdict \<Rightarrow> string" where
  "verdict_value VALID = ''VALID''"
| "verdict_value TAMPERED = ''TAMPERED''"
| "verdict_value INCOMPLETE = ''INCOMPLETE''"

type_synonym ranges = "(int \<times> int) list"

text \<open>One turn of the loop over \<open>range(1, max(present) + 1)\<close>: the ranges closed so far and
  the start of the run being scanned.\<close>

definition gap_step :: "int list \<Rightarrow> int \<Rightarrow> ranges \<times> int option \<Rightarrow> ranges \<times> int option" where
  "gap_step present candidate st =
     (case st of (ranges, start) \<Rightarrow>
        if candidate \<in> set present
        then (case start of
                Some s \<Rightarrow> (ranges @ [(s, candidate - 1)], None)
              | None \<Rightarrow> (ranges, None))
        else (case start of
                None \<Rightarrow> (ranges, Some candidate)
              | Some s \<Rightarrow> (ranges, Some s)))"

definition missing_ranges :: "json list \<Rightarrow> ranges" where
  "missing_ranges sequences =
     (let present = List.map_filter as_int sequences
      in if present = [] then []
         else fst (fold (gap_step present) [1 .. Max (set present)] ([], None)))"

text \<open>\<open>sequence_number - 1\<close> is evaluated once per range, so it can only raise when there is one.\<close>

definition num_of :: "json \<Rightarrow> rat option" where
  "num_of j = (case j of
      JInt i \<Rightarrow> Some (of_int i)
    | JBool b \<Rightarrow> Some (if b then 1 else 0)
    | JFloat q _ \<Rightarrow> Some q
    | _ \<Rightarrow> None)"

definition explains_break :: "json \<Rightarrow> ranges \<Rightarrow> pyexc + bool" where
  "explains_break sequence_number ranges =
     (if ranges = [] then Inr False
      else (case num_of sequence_number of
              None \<Rightarrow> Inl TypeError
            | Some q \<Rightarrow> Inr (list_ex (\<lambda>(_, end). of_int end = q - 1) ranges)))"

definition decide :: "ranges \<Rightarrow> failure_kind option \<Rightarrow> verdict" where
  "decide missing failure_kind =
     (if failure_kind \<noteq> None then TAMPERED
      else if missing \<noteq> [] then INCOMPLETE
      else VALID)"

definition describe_missing :: "ranges \<Rightarrow> string" where
  "describe_missing ranges =
     str_join '', ''
       (map (\<lambda>(start, end). if start = end then int_str start
                             else int_str start @ ''-'' @ int_str end) ranges)"

definition missing_count :: "ranges \<Rightarrow> int" where
  "missing_count ranges = sum_list (map (\<lambda>(start, end). end - start + 1) ranges)"

section \<open>The set of absent sequence numbers\<close>

definition present_seqs :: "json list \<Rightarrow> int set" where
  "present_seqs sequences = set (List.map_filter as_int sequences)"

definition absent :: "int set \<Rightarrow> int set" where
  "absent P = (if P = {} then {} else {1 .. Max P} - P)"

definition covered :: "ranges \<Rightarrow> int set" where
  "covered rs = (\<Union>(a, b) \<in> set rs. {a .. b})"

lemma covered_simps [simp]:
  "covered [] = {}"
  "covered ((a, b) # rs) = {a .. b} \<union> covered rs"
  "covered (rs @ rs') = covered rs \<union> covered rs'"
  by (auto simp: covered_def)

text \<open>Maximal runs outside \<open>P\<close>, in increasing order, each closed by a present number.\<close>

definition runs_of :: "int set \<Rightarrow> ranges \<Rightarrow> bool" where
  "runs_of P rs \<longleftrightarrow>
     sorted_wrt (\<lambda>(_, b) (c, _). b + 1 < c) rs \<and>
     (\<forall>(a, b) \<in> set rs. 1 \<le> a \<and> a \<le> b \<and> b + 1 \<in> P \<and> {a .. b} \<inter> P = {})"

definition scan_inv :: "int set \<Rightarrow> int \<Rightarrow> ranges \<times> int option \<Rightarrow> bool" where
  "scan_inv P k st =
     (case st of
        (rs, None) \<Rightarrow> runs_of P rs \<and> covered rs = {1 .. k} - P \<and> (\<forall>(a, b) \<in> set rs. b < k)
      | (rs, Some s) \<Rightarrow> runs_of P rs \<and> covered rs \<union> {s .. k} = {1 .. k} - P
          \<and> (\<forall>(a, b) \<in> set rs. b + 1 < s) \<and> 1 \<le> s \<and> s \<le> k)"

lemma runs_of_snoc:
  "runs_of P rs \<Longrightarrow> \<forall>(a, b) \<in> set rs. b + 1 < s \<Longrightarrow> 1 \<le> s \<Longrightarrow> s \<le> k \<Longrightarrow> k + 1 \<in> P \<Longrightarrow>
    {s .. k} \<inter> P = {} \<Longrightarrow> runs_of P (rs @ [(s, k)])"
  by (fastforce simp: runs_of_def sorted_wrt_append)

lemma scan_inv_step:
  assumes inv: "scan_inv (set present) k st" and k: "0 \<le> k"
  shows "scan_inv (set present) (k + 1) (gap_step present (k + 1) st)"
proof -
  obtain rs start where st: "st = (rs, start)" by (cases st)
  have grow: "{1 .. k + 1} = insert (k + 1) {1 .. k}" using k by auto
  show ?thesis
  proof (cases start)
    case None
    with inv st have i: "runs_of (set present) rs" "covered rs = {1 .. k} - set present"
      "\<forall>(a, b) \<in> set rs. b < k" by (simp_all add: scan_inv_def)
    then show ?thesis
      using None st k by (auto simp: scan_inv_def gap_step_def grow)
  next
    case (Some s)
    with inv st have i: "runs_of (set present) rs" "covered rs \<union> {s .. k} = {1 .. k} - set present"
      "\<forall>(a, b) \<in> set rs. b + 1 < s" "1 \<le> s" "s \<le> k" by (simp_all add: scan_inv_def)
    have free: "{s .. k} \<inter> set present = {}" using i(2) by blast
    show ?thesis
    proof (cases "k + 1 \<in> set present")
      case True
      have "runs_of (set present) (rs @ [(s, k)])"
        using i True free by (intro runs_of_snoc) auto
      then show ?thesis
        using True Some st i by (auto simp: scan_inv_def gap_step_def grow)
    next
      case False
      have "{s .. k + 1} = insert (k + 1) {s .. k}" using i(5) by auto
      then show ?thesis
        using False Some st i by (auto simp: scan_inv_def gap_step_def grow)
    qed
  qed
qed

lemma scan_inv_fold:
  "scan_inv (set present) (int n) (fold (gap_step present) [1 .. int n] ([], None))"
proof (induction n)
  case 0
  show ?case by (simp add: scan_inv_def runs_of_def)
next
  case (Suc n)
  have "[1 .. int (Suc n)] = [1 .. int n] @ [int n + 1]"
    by (simp add: upto_rec2 add.commute)
  then show ?case
    using scan_inv_step [OF Suc.IH] by (simp add: add.commute)
qed

lemma missing_ranges_runs:
  "runs_of (present_seqs sequences) (missing_ranges sequences) \<and>
   covered (missing_ranges sequences) = absent (present_seqs sequences)"
proof -
  let ?p = "List.map_filter as_int sequences"
  show ?thesis
  proof (cases "?p = []")
    case True
    then show ?thesis
      by (simp add: missing_ranges_def present_seqs_def absent_def runs_of_def)
  next
    case False
    let ?m = "Max (set ?p)"
    let ?st = "fold (gap_step ?p) [1 .. ?m] ([], None)"
    have m: "?m \<in> set ?p" using False by (intro Max_in) auto
    have mr: "missing_ranges sequences = fst ?st" using False by (simp add: missing_ranges_def Let_def)
    show ?thesis
    proof (cases "?m \<le> 0")
      case True
      then have "{1 .. ?m} = {}" "[1 .. ?m] = []" by simp_all
      then show ?thesis
        by (simp add: mr present_seqs_def absent_def runs_of_def)
    next
      case nonpos: False
      then have "scan_inv (set ?p) ?m ?st" using scan_inv_fold [of ?p "nat ?m"] by simp
      moreover have "snd ?st = None"
      proof (rule ccontr)
        assume "snd ?st \<noteq> None"
        then obtain rs s where "?st = (rs, Some s)" by (cases ?st) auto
        with \<open>scan_inv (set ?p) ?m ?st\<close> have "s \<le> ?m" "{s .. ?m} \<subseteq> {1 .. ?m} - set ?p"
          by (auto simp: scan_inv_def)
        with m show False by auto
      qed
      ultimately have "runs_of (set ?p) (fst ?st)" "covered (fst ?st) = {1 .. ?m} - set ?p"
        by (auto simp: scan_inv_def split: prod.splits option.splits)
      with False show ?thesis
        by (simp add: mr present_seqs_def absent_def)
    qed
  qed
qed

lemmas missing_ranges_cover = missing_ranges_runs [THEN conjunct2]

lemma covered_empty_iff: "runs_of P rs \<Longrightarrow> covered rs = {} \<longleftrightarrow> rs = []"
  by (cases rs) (auto simp: runs_of_def)

lemma missing_ranges_Nil: "missing_ranges sequences = [] \<longleftrightarrow> absent (present_seqs sequences) = {}"
  using missing_ranges_runs [of sequences] covered_empty_iff by auto

lemma finite_covered [simp]: "finite (covered rs)"
  by (auto simp: covered_def)

lemma missing_count_card: "runs_of P rs \<Longrightarrow> missing_count rs = int (card (covered rs))"
proof (induction rs)
  case Nil
  show ?case by (simp add: missing_count_def)
next
  case (Cons r rs)
  obtain a b where r: "r = (a, b)" by (cases r)
  have tail: "runs_of P rs" and ab: "a \<le> b" and far: "\<forall>(c, d) \<in> set rs. b + 1 < c"
    using Cons.prems r by (auto simp: runs_of_def)
  have "{a .. b} \<inter> covered rs = {}" using far by (fastforce simp: covered_def)
  then have "card (covered (r # rs)) = card {a .. b} + card (covered rs)"
    by (simp add: r card_Un_disjoint)
  with Cons.IH [OF tail] ab show ?case by (simp add: missing_count_def r)
qed

lemma explains_break_JInt:
  "explains_break (JInt i) rs = Inr (\<exists>(a, b) \<in> set rs. b = i - 1)"
proof -
  have "(of_int b = (of_int i - 1 :: rat)) = (b = i - 1)" for b :: int
    by (metis of_int_1 of_int_diff of_int_eq_iff)
  then show ?thesis
    by (auto simp: explains_break_def num_of_def list_ex_iff)
qed

lemma explains_break_absent:
  "explains_break (JInt i) (missing_ranges sequences) =
     Inr (i \<in> present_seqs sequences \<and> i - 1 \<in> absent (present_seqs sequences))"
proof -
  let ?P = "present_seqs sequences" and ?rs = "missing_ranges sequences"
  have runs: "runs_of ?P ?rs" and cov: "covered ?rs = absent ?P"
    using missing_ranges_runs by auto
  have "(\<exists>(a, b) \<in> set ?rs. b = i - 1) \<longleftrightarrow> i \<in> ?P \<and> i - 1 \<in> absent ?P"
  proof
    assume "\<exists>(a, b) \<in> set ?rs. b = i - 1"
    then obtain a where "(a, i - 1) \<in> set ?rs" by auto
    with runs cov show "i \<in> ?P \<and> i - 1 \<in> absent ?P"
      by (force simp: runs_of_def covered_def)
  next
    assume r: "i \<in> ?P \<and> i - 1 \<in> absent ?P"
    then have "i - 1 \<in> covered ?rs" using cov by simp
    then obtain a b where ab: "(a, b) \<in> set ?rs" "a \<le> i - 1" "i - 1 \<le> b"
      unfolding covered_def by auto
    with runs have "{a .. b} \<inter> ?P = {}" by (auto simp: runs_of_def)
    with r ab have "b = i - 1" by (metis IntI atLeastAtMost_iff empty_iff le_less linorder_not_le
          order.trans zle_diff1_eq)
    with ab(1) show "\<exists>(a, b) \<in> set ?rs. b = i - 1" by auto
  qed
  then show ?thesis by (simp add: explains_break_JInt)
qed

lemma decide_simps [simp]:
  "decide gaps (Some k) = TAMPERED"
  "decide [] None = VALID"
  "gaps \<noteq> [] \<Longrightarrow> decide gaps None = INCOMPLETE"
  by (simp_all add: decide_def)

section \<open>Worst verdict wins\<close>

text \<open>The order of severity: intact, records missing, records altered.\<close>

fun severity :: "verdict \<Rightarrow> nat" where
  "severity VALID = 0"
| "severity INCOMPLETE = 1"
| "severity TAMPERED = 2"

instantiation verdict :: linorder
begin

definition less_eq_verdict :: "verdict \<Rightarrow> verdict \<Rightarrow> bool" where
  "less_eq_verdict a b = (severity a \<le> severity b)"

definition less_verdict :: "verdict \<Rightarrow> verdict \<Rightarrow> bool" where
  "less_verdict a b = (severity a < severity b)"

instance
proof
  fix a b :: verdict
  show "a \<le> b \<Longrightarrow> b \<le> a \<Longrightarrow> a = b"
    by (cases a; cases b) (simp_all add: less_eq_verdict_def)
qed (auto simp: less_eq_verdict_def less_verdict_def)

end

section \<open>Properties\<close>

text \<open>The ranges reported are exactly the numbers between 1 and the highest present one that no
  record carries: as a set, as maximal runs in ascending order, and as a count.\<close>

theorem missing_ranges_exact:
  "covered (missing_ranges sequences) = absent (present_seqs sequences) \<and>
   runs_of (present_seqs sequences) (missing_ranges sequences) \<and>
   missing_count (missing_ranges sequences) = int (card (absent (present_seqs sequences)))"
  using missing_ranges_runs [of sequences]
    missing_count_card [of "present_seqs sequences" "missing_ranges sequences"] by simp

text \<open>A break before record number i is explained exactly when number i is present and its
  predecessor is absent; the verdict is the worse of what the gaps and the failure call for.\<close>

theorem gap_explains_break:
  "explains_break (JInt i) (missing_ranges sequences) =
     Inr (i \<in> present_seqs sequences \<and> i - 1 \<in> absent (present_seqs sequences)) \<and>
   decide (missing_ranges sequences) failure =
     max (if absent (present_seqs sequences) = {} then VALID else INCOMPLETE)
         (if failure = None then VALID else TAMPERED)"
  using explains_break_absent [of i sequences] missing_ranges_Nil [of sequences]
  by (auto simp: decide_def max_def less_eq_verdict_def)

end
