(* ===== verification/Local_Verify.thy ===== *)
theory Local_Verify
  imports Chain_State Verdict_Rules "HOL-Library.Multiset" "HOL-Library.Sublist"
begin

text \<open>
  \<^verbatim>\<open>rootsign/sdk/chain.py\<close>: the offline verifier. A session file is given as its stripped
  non-empty lines, each the value \<open>json.loads\<close> returns for it or \<open>None\<close> when it raises
  \<open>JSONDecodeError\<close>; a missing path is \<open>None\<close>. The error texts are the constructors of
  \<open>problem\<close>, one per message, with the values the message quotes.

  Sorting raises \<open>TypeError\<close> unless the keys of two or more records are all numbers or all
  strings; keys that are lists (which Python would compare element by element) count as not
  comparable.
\<close>

datatype problem =
    NoRecords
  | TruncatedFinalLine
  | MalformedLine nat
  | DuplicateSequence string
  | MissingCanonicalField string
  | SelfHashMismatch
  | PrevHashBroken
  | InputBindingMismatch
  | OutputBindingMismatch
  | RecordsMissing int string

record verify_result =
  vr_verdict :: verdict
  vr_record_count :: nat
  vr_session_id :: json
  vr_first_invalid_sequence :: json
  vr_error :: "problem option"
  vr_missing_ranges :: ranges

definition vr_valid :: "verify_result \<Rightarrow> bool" where
  "vr_valid r \<longleftrightarrow> vr_verdict r = VALID"

section \<open>The verifier\<close>

fun parse_lines :: "nat \<Rightarrow> json option list \<Rightarrow> json list \<times> nat option" where
  "parse_lines i [] = ([], None)"
| "parse_lines i (Some j # ls) = (case parse_lines (Suc i) ls of (js, bad) \<Rightarrow> (j # js, bad))"
| "parse_lines i (None # ls) = ([], Some i)"

fun as_dicts :: "json list \<Rightarrow> pyexc + dict list" where
  "as_dicts [] = Inr []"
| "as_dicts (j # js) = sbind (as_dict j) (\<lambda>d. sbind (as_dicts js) (\<lambda>ds. Inr (d # ds)))"

definition is_action_record :: "dict \<Rightarrow> bool" where
  "is_action_record r \<longleftrightarrow> dget_or r ''event_type'' (JStr ''ACTION_RECORD'') = JStr ''ACTION_RECORD''"

definition str_of :: "json \<Rightarrow> string option" where
  "str_of j = (case j of JStr s \<Rightarrow> Some s | _ \<Rightarrow> None)"

definition seq_key :: "dict \<Rightarrow> json" where
  "seq_key r = dget r ''sequence_number''"

definition sort_records :: "dict list \<Rightarrow> pyexc + dict list" where
  "sort_records rs =
     (if list_ex (\<lambda>r. \<not> dhas r ''sequence_number'') rs then Inl (KeyError ''sequence_number'')
      else if length rs \<le> 1 then Inr rs
      else if list_all (\<lambda>r. num_of (seq_key r) \<noteq> None) rs
      then Inr (sort_key (\<lambda>r. the (num_of (seq_key r))) rs)
      else if list_all (\<lambda>r. str_of (seq_key r) \<noteq> None) rs
      then Inr (sort_key (\<lambda>r. the (str_of (seq_key r))) rs)
      else Inl TypeError)"

text \<open>\<open>==\<close> on scalars: numbers compare by value.\<close>

definition py_eq :: "json \<Rightarrow> json \<Rightarrow> bool" where
  "py_eq a b = (case (num_of a, num_of b) of (Some p, Some q) \<Rightarrow> p = q | _ \<Rightarrow> a = b)"

fun first_duplicate :: "dict list \<Rightarrow> json option" where
  "first_duplicate (a # b # rs) =
     (if py_eq (seq_key a) (seq_key b) then Some (seq_key b) else first_duplicate (b # rs))"
| "first_duplicate _ = None"

definition binding_broken :: "dict \<Rightarrow> string \<Rightarrow> string \<Rightarrow> bool" where
  "binding_broken r redacted hash \<longleftrightarrow>
     dget r redacted \<noteq> JNull \<and> JStr (compute_payload_hash (dget r redacted)) \<noteq> dget r hash"

text \<open>\<open>(record.get("prev_action_hash") or None) != expected_prev\<close>, unless a gap explains it.\<close>

definition link_ok :: "ranges \<Rightarrow> json \<Rightarrow> dict \<Rightarrow> pyexc + bool" where
  "link_ok gaps expected_prev r =
     (if py_or (dget r ''prev_action_hash'') JNull = expected_prev then Inr True
      else explains_break (seq_key r) gaps)"

type_synonym failure = "failure_kind \<times> json \<times> problem"

fun walk :: "ranges \<Rightarrow> json \<Rightarrow> dict list \<Rightarrow> pyexc + failure option" where
  "walk gaps expected_prev [] = Inr None"
| "walk gaps expected_prev (r # rs) =
     (case compute_action_self_hash r of
        Inl (KeyError k) \<Rightarrow> Inr (Some (MISSING_FIELD, seq_key r, MissingCanonicalField k))
      | Inl e \<Rightarrow> Inl e
      | Inr recomputed \<Rightarrow>
          if dget r ''self_hash'' \<noteq> JStr recomputed
          then Inr (Some (SELF_HASH_MISMATCH, seq_key r, SelfHashMismatch))
          else sbind (link_ok gaps expected_prev r) (\<lambda>linked.
            if \<not> linked then Inr (Some (PREV_HASH_MISMATCH, seq_key r, PrevHashBroken))
            else if binding_broken r ''input_redacted'' ''input_hash''
            then Inr (Some (PAYLOAD_BINDING, seq_key r, InputBindingMismatch))
            else if binding_broken r ''output_redacted'' ''output_hash''
            then Inr (Some (PAYLOAD_BINDING, seq_key r, OutputBindingMismatch))
            else walk gaps (dget r ''self_hash'') rs))"

definition tampered_result :: "ranges \<Rightarrow> nat \<Rightarrow> json \<Rightarrow> failure \<Rightarrow> verify_result" where
  "tampered_result gaps n session_id f = (case f of (kind, sequence, err) \<Rightarrow>
     \<lparr>vr_verdict = decide gaps (Some kind), vr_record_count = n, vr_session_id = session_id,
      vr_first_invalid_sequence = sequence, vr_error = Some err, vr_missing_ranges = gaps\<rparr>)"

definition clean_result :: "ranges \<Rightarrow> nat \<Rightarrow> json \<Rightarrow> verify_result" where
  "clean_result gaps n session_id =
     \<lparr>vr_verdict = decide gaps None, vr_record_count = n, vr_session_id = session_id,
      vr_first_invalid_sequence = (if gaps = [] then JNull else JInt (fst (hd gaps))),
      vr_error = (if gaps = [] then None
                  else Some (RecordsMissing (missing_count gaps) (describe_missing gaps))),
      vr_missing_ranges = gaps\<rparr>"

definition verify_records :: "json \<Rightarrow> dict list \<Rightarrow> pyexc + verify_result" where
  "verify_records session_id action_records =
     sbind (sort_records action_records) (\<lambda>records.
       let gaps = missing_ranges (map seq_key records) in
       case first_duplicate records of
         Some b \<Rightarrow> Inr (tampered_result gaps (length records) session_id
                     (DUPLICATE_SEQUENCE, b, DuplicateSequence (py_str b)))
       | None \<Rightarrow> sbind (walk gaps JNull records) (\<lambda>failure.
           case failure of
             Some f \<Rightarrow> Inr (tampered_result gaps (length records) session_id f)
           | None \<Rightarrow> Inr (clean_result gaps (length records) session_id)))"

definition verify_session_local :: "json option list option \<Rightarrow> pyexc + verify_result" where
  "verify_session_local file =
     (case file of
        None \<Rightarrow> Inl FileNotFoundError
      | Some raw_lines \<Rightarrow>
          if raw_lines = []
          then Inr \<lparr>vr_verdict = TAMPERED, vr_record_count = 0, vr_session_id = JNull,
                    vr_first_invalid_sequence = JNull, vr_error = Some NoRecords,
                    vr_missing_ranges = []\<rparr>
          else (case parse_lines 0 raw_lines of
             (all_records, Some idx) \<Rightarrow>
               sbind (if all_records = [] then Inr JNull
                      else sbind (as_dict (hd all_records)) (\<lambda>d. Inr (dget d ''session_id'')))
                 (\<lambda>session_id. Inr
                   \<lparr>vr_verdict = TAMPERED, vr_record_count = length all_records,
                    vr_session_id = session_id, vr_first_invalid_sequence = JNull,
                    vr_error = Some (if idx = length raw_lines - 1 then TruncatedFinalLine
                                     else MalformedLine (idx + 1)),
                    vr_missing_ranges = []\<rparr>)
           | (all_records, None) \<Rightarrow>
               sbind (as_dicts all_records) (\<lambda>dicts.
                 let session_id = dget (hd dicts) ''session_id'';
                     records = filter is_action_record dicts
                 in if records = [] then Inr (clean_result [] 0 session_id)
                    else verify_records session_id records)))"

section \<open>Records numbered by integers\<close>

definition seq_of :: "dict \<Rightarrow> int" where
  "seq_of r = (case seq_key r of JInt i \<Rightarrow> i | _ \<Rightarrow> 0)"

definition int_keyed :: "dict list \<Rightarrow> bool" where
  "int_keyed rs \<longleftrightarrow> list_all (\<lambda>r. seq_key r = JInt (seq_of r)) rs"

abbreviation seqs :: "dict list \<Rightarrow> int set" where
  "seqs rs \<equiv> seq_of ` set rs"

lemma int_keyed_simps [simp]:
  "int_keyed []"
  "int_keyed (r # rs) \<longleftrightarrow> seq_key r = JInt (seq_of r) \<and> int_keyed rs"
  by (simp_all add: int_keyed_def)

lemma int_keyed_mem: "int_keyed rs \<Longrightarrow> r \<in> set rs \<Longrightarrow> seq_key r = JInt (seq_of r)"
  by (simp add: int_keyed_def list_all_iff)

lemma int_keyed_cong: "set rs = set rs' \<Longrightarrow> int_keyed rs = int_keyed rs'"
  by (simp add: int_keyed_def list_all_iff)

lemma seq_key_dhas: "seq_key r = JInt i \<Longrightarrow> dhas r ''sequence_number''"
  by (auto simp: seq_key_def dget_def dhas_def split: option.splits)

lemma present_seqs_int_keyed: "int_keyed rs \<Longrightarrow> present_seqs (map seq_key rs) = seqs rs"
proof -
  assume "int_keyed rs"
  then have "List.map_filter as_int (map seq_key rs) = map seq_of rs"
    by (induction rs) simp_all
  then show ?thesis by (simp add: present_seqs_def)
qed

lemma missing_ranges_set:
  assumes "set xs = set ys"
  shows "missing_ranges xs = missing_ranges ys"
proof -
  have p: "set (List.map_filter as_int xs) = set (List.map_filter as_int ys)"
    using assms by (auto simp: map_filter_def)
  then have "gap_step (List.map_filter as_int xs) = gap_step (List.map_filter as_int ys)"
    by (simp add: gap_step_def fun_eq_iff)
  moreover have "List.map_filter as_int xs = [] \<longleftrightarrow> List.map_filter as_int ys = []"
    using p by (metis set_empty)
  ultimately show ?thesis using p by (simp add: missing_ranges_def Let_def)
qed

lemma sort_key_of_int: "sort_key (\<lambda>r. of_int (f r) :: rat) xs = sort_key f xs"
proof -
  have "insort_key (\<lambda>r. of_int (f r) :: rat) x ys = insort_key f x ys" for x ys
    by (induction ys) simp_all
  then have "insort_key (\<lambda>r. of_int (f r) :: rat) = insort_key f"
    by (intro ext)
  then show ?thesis by (simp add: sort_key_def)
qed

lemma sort_key_cong_set: "(\<And>x. x \<in> set xs \<Longrightarrow> f x = g x) \<Longrightarrow> sort_key f xs = sort_key g xs"
proof (induction xs)
  case (Cons x xs)
  have "insort_key f x ys = insort_key g x ys" if "set ys \<subseteq> set (x # xs)" for ys
    using that Cons.prems by (induction ys) auto
  from this [of "sort_key g xs"] Cons show ?case by (simp add: subset_insertI)
qed simp

lemma sort_records_int:
  assumes "int_keyed rs"
  shows "sort_records rs = Inr (sort_key seq_of rs)"
proof -
  have num: "num_of (seq_key r) = Some (of_int (seq_of r))" if "r \<in> set rs" for r
    using int_keyed_mem [OF assms that] by (simp add: num_of_def)
  have "sort_key (\<lambda>r. the (num_of (seq_key r))) rs = sort_key (\<lambda>r. of_int (seq_of r) :: rat) rs"
    using num by (intro sort_key_cong_set) simp
  then have s: "sort_key (\<lambda>r. the (num_of (seq_key r))) rs = sort_key seq_of rs"
    by (simp add: sort_key_of_int)
  have "\<not> list_ex (\<lambda>r. \<not> dhas r ''sequence_number'') rs"
    using int_keyed_mem [OF assms] seq_key_dhas by (auto simp: list_ex_iff)
  moreover have "list_all (\<lambda>r. num_of (seq_key r) \<noteq> None) rs"
    using num by (simp add: list_all_iff)
  moreover have "sort_key seq_of rs = rs" if "length rs \<le> 1"
    using that by (cases rs) simp_all
  ultimately show ?thesis using s by (simp add: sort_records_def)
qed

lemma py_eq_JInt [simp]: "py_eq (JInt i) (JInt j) \<longleftrightarrow> i = j"
  by (simp add: py_eq_def num_of_def)

lemma first_duplicate_sorted:
  "sorted (map seq_of rs) \<Longrightarrow> int_keyed rs \<Longrightarrow> first_duplicate rs = None \<longleftrightarrow> distinct (map seq_of rs)"
proof (induction rs rule: first_duplicate.induct)
  case (1 a b rs)
  have ab: "seq_of a \<le> seq_of b" and up: "\<forall>r \<in> set rs. seq_of b \<le> seq_of r"
    using "1.prems"(1) by simp_all
  have IH: "seq_of a \<noteq> seq_of b \<Longrightarrow> first_duplicate (b # rs) = None \<longleftrightarrow> distinct (map seq_of (b # rs))"
    using 1 by simp
  show ?case
  proof (cases "seq_of a = seq_of b")
    case True
    with "1.prems" show ?thesis by simp
  next
    case False
    with ab up have "seq_of a \<notin> seq_of ` set (b # rs)" by fastforce
    with False IH "1.prems" show ?thesis by simp
  qed
qed simp_all

lemma first_duplicate_SomeD: "first_duplicate rs = Some b \<Longrightarrow> \<exists>r \<in> set rs. b = seq_key r"
  by (induction rs rule: first_duplicate.induct) (auto split: if_splits)

section \<open>What the walk decides\<close>

text \<open>A record whose own evidence is consistent, and a list whose links hold wherever the
  predecessor is not absent.\<close>

definition record_sound :: "dict \<Rightarrow> bool" where
  "record_sound r \<longleftrightarrow>
     list_all (dhas r) canonical_keys \<and> dget r ''self_hash'' = JStr (hash_of r) \<and>
     \<not> binding_broken r ''input_redacted'' ''input_hash'' \<and>
     \<not> binding_broken r ''output_redacted'' ''output_hash''"

fun links :: "int set \<Rightarrow> json \<Rightarrow> dict list \<Rightarrow> bool" where
  "links P expected_prev [] = True"
| "links P expected_prev (r # rs) \<longleftrightarrow>
     (py_or (dget r ''prev_action_hash'') JNull = expected_prev \<or> seq_of r - 1 \<in> absent P) \<and>
     links P (dget r ''self_hash'') rs"

lemma self_hash_Inl: "compute_action_self_hash r = Inl e \<Longrightarrow> \<exists>k. e = KeyError k"
  by (auto simp: compute_action_self_hash_def canonical_def sbind_eq_Inl dindex_def
      split: option.splits)

lemma link_ok_int:
  "seq_key r = JInt (seq_of r) \<Longrightarrow> seq_of r \<in> present_seqs S \<Longrightarrow>
    link_ok (missing_ranges S) prev r =
      Inr (py_or (dget r ''prev_action_hash'') JNull = prev \<or> seq_of r - 1 \<in> absent (present_seqs S))"
  by (simp add: link_ok_def explains_break_absent)

lemma walk_int:
  assumes "int_keyed rs" and "seqs rs \<subseteq> present_seqs S"
  shows "\<exists>f. walk (missing_ranges S) prev rs = Inr f \<and>
    (f = None \<longleftrightarrow> (\<forall>r \<in> set rs. record_sound r) \<and> links (present_seqs S) prev rs)"
  using assms
proof (induction rs arbitrary: prev)
  case Nil
  then show ?case by simp
next
  case (Cons r rs)
  from Cons.prems have link: "link_ok (missing_ranges S) prev r =
      Inr (py_or (dget r ''prev_action_hash'') JNull = prev \<or> seq_of r - 1 \<in> absent (present_seqs S))"
    by (intro link_ok_int) simp_all
  have "int_keyed rs" "seqs rs \<subseteq> present_seqs S" using Cons.prems by auto
  from Cons.IH [OF this, of "dget r ''self_hash''"] obtain f where IH: "walk (missing_ranges S) (dget r ''self_hash'') rs = Inr f"
    "f = None \<longleftrightarrow> (\<forall>r \<in> set rs. record_sound r) \<and> links (present_seqs S) (dget r ''self_hash'') rs"
    by blast
  show ?case
  proof (cases "compute_action_self_hash r")
    case (Inl e)
    then obtain k where "e = KeyError k" using self_hash_Inl by blast
    moreover have "\<not> list_all (dhas r) canonical_keys" using Inl self_hash_total [of r] by auto
    ultimately show ?thesis using Inl by (simp add: record_sound_def)
  next
    case (Inr h)
    then have h: "list_all (dhas r) canonical_keys" "h = hash_of r" using self_hash_Inr by simp_all
    show ?thesis
      using Inr h link IH by (auto simp: record_sound_def)
  qed
qed

definition intact :: "dict list \<Rightarrow> bool" where
  "intact rs \<longleftrightarrow> distinct (map seq_of rs) \<and> (\<forall>r \<in> set rs. record_sound r) \<and>
     links (seqs rs) JNull (sort_key seq_of rs)"

lemma verify_records_int:
  assumes keyed: "int_keyed rs"
  shows "\<exists>v. verify_records sid rs = Inr v \<and> vr_record_count v = length rs \<and> vr_session_id v = sid \<and>
    vr_missing_ranges v = missing_ranges (map seq_key rs) \<and>
    vr_verdict v = (if \<not> intact rs then TAMPERED
                    else if absent (seqs rs) = {} then VALID else INCOMPLETE)"
proof -
  let ?s = "sort_key seq_of rs"
  have gaps: "missing_ranges (map seq_key ?s) = missing_ranges (map seq_key rs)"
    by (rule missing_ranges_set) simp
  have ks: "int_keyed ?s" using keyed int_keyed_cong [of ?s rs] by simp
  have dup: "first_duplicate ?s = None \<longleftrightarrow> distinct (map seq_of rs)"
    unfolding first_duplicate_sorted [OF sorted_sort_key ks]
    by (rule mset_eq_imp_distinct_iff) simp
  have P: "present_seqs (map seq_key rs) = seqs rs" by (rule present_seqs_int_keyed [OF keyed])
  obtain f where f: "walk (missing_ranges (map seq_key rs)) JNull ?s = Inr f"
    "f = None \<longleftrightarrow> (\<forall>r \<in> set rs. record_sound r) \<and> links (seqs rs) JNull ?s"
    using walk_int [of ?s "map seq_key rs" JNull] ks P by auto
  show ?thesis
  proof (cases "first_duplicate ?s")
    case (Some b)
    with dup have "\<not> intact rs" by (simp add: intact_def)
    with Some show ?thesis
      by (simp add: verify_records_def sort_records_int [OF keyed] gaps tampered_result_def Let_def)
  next
    case None
    with dup f have i: "intact rs \<longleftrightarrow> f = None" by (simp add: intact_def)
    show ?thesis
    proof (cases f)
      case fin: None
      with i None f show ?thesis
        by (simp add: verify_records_def sort_records_int [OF keyed] gaps clean_result_def decide_def
            missing_ranges_Nil P Let_def)
    next
      case (Some g)
      with i None f show ?thesis
        by (cases g) (simp add: verify_records_def sort_records_int [OF keyed] gaps tampered_result_def Let_def)
    qed
  qed
qed

section \<open>Files of parsed records\<close>

definition file_of :: "dict list \<Rightarrow> json option list option" where
  "file_of ds = Some (map (\<lambda>d. Some (JObj d)) ds)"

lemma parse_lines_parsed: "parse_lines i (map (\<lambda>d. Some (JObj d)) ds) = (map JObj ds, None)"
  by (induction ds arbitrary: i) simp_all

lemma as_dicts_JObj: "as_dicts (map JObj ds) = Inr ds"
  by (induction ds) simp_all

lemma verify_file_of:
  "ds \<noteq> [] \<Longrightarrow> verify_session_local (file_of ds) =
    (let records = filter is_action_record ds; sid = dget (hd ds) ''session_id''
     in if records = [] then Inr (clean_result [] 0 sid) else verify_records sid records)"
  by (simp add: verify_session_local_def file_of_def parse_lines_parsed as_dicts_JObj Let_def)

lemma intact_Nil [simp]: "intact []"
  by (simp add: intact_def)

theorem verify_local_characterised:
  assumes "ds \<noteq> []" and "int_keyed (filter is_action_record ds)"
  shows "\<exists>v. verify_session_local (file_of ds) = Inr v \<and>
    vr_record_count v = length (filter is_action_record ds) \<and>
    vr_missing_ranges v = missing_ranges (map seq_key (filter is_action_record ds)) \<and>
    vr_verdict v = (if \<not> intact (filter is_action_record ds) then TAMPERED
                    else if absent (seqs (filter is_action_record ds)) = {} then VALID else INCOMPLETE)"
proof (cases "filter is_action_record ds = []")
  case True
  then show ?thesis
    using assms by (simp add: verify_file_of clean_result_def missing_ranges_def absent_def)
next
  case False
  then show ?thesis
    using assms verify_records_int [OF assms(2), of "dget (hd ds) ''session_id''"]
    by (auto simp: verify_file_of)
qed

end
