(* ===== verification/Chain_Links.thy ===== *)
theory Chain_Links
  imports Local_Verify
begin

text \<open>
  What a sealed chain is, whoever sealed it, and what the offline verifier says of it: a chain
  with records taken out verifies as VALID or INCOMPLETE and never as TAMPERED; a file that
  verifies and carries the last hash of a chain is that chain, record for record, unless two of
  the texts involved collide under SHA-256.

  The locale \<open>chain_builder\<close> is the contract between a sealer and the verifiers: the in-memory
  \<open>ChainState\<close> and the store's session row are its two interpretations.
\<close>

section \<open>Chains\<close>

fun chained :: "string option \<Rightarrow> int \<Rightarrow> dict list \<Rightarrow> bool" where
  "chained prev n [] = True"
| "chained prev n (r # rs) \<longleftrightarrow>
     record_sound r \<and> seq_key r = JInt (n + 1) \<and> dget r ''prev_action_hash'' = opt_str prev \<and>
     chained (Some (hash_of r)) (n + 1) rs"

definition tail_of :: "string option \<Rightarrow> dict list \<Rightarrow> string option" where
  "tail_of prev rs = (if rs = [] then prev else Some (hash_of (last rs)))"

lemma hash_of_not_Nil [simp]: "hash_of r \<noteq> []"
  by (simp add: hash_of_def)

lemma chained_append:
  "chained prev n (rs @ ss) \<longleftrightarrow>
     chained prev n rs \<and> chained (tail_of prev rs) (n + int (length rs)) ss"
  by (induction rs arbitrary: prev n) (auto simp: tail_of_def add.assoc)

lemma chained_sound: "chained prev n rs \<Longrightarrow> r \<in> set rs \<Longrightarrow> record_sound r"
  by (induction rs arbitrary: prev n) auto

lemma chained_seqs: "chained prev n rs \<Longrightarrow> map seq_of rs = [n + 1 .. n + int (length rs)]"
proof (induction rs arbitrary: prev n)
  case (Cons r rs)
  then have "map seq_of rs = [n + 1 + 1 .. n + 1 + int (length rs)]" by auto
  moreover have "seq_of r = n + 1" using Cons.prems by (simp add: seq_of_def)
  ultimately show ?case
    by (simp add: upto_rec1 [of "n + 1"] add.assoc)
qed simp

lemma chained_int_keyed: "chained prev n rs \<Longrightarrow> int_keyed rs"
  by (induction rs arbitrary: prev n) (auto simp: seq_of_def)

lemma chained_set_seqs: "chained prev n rs \<Longrightarrow> seqs rs = {n + 1 .. n + int (length rs)}"
  using chained_seqs [of prev n rs] by (metis list.set_map set_upto)

lemma chained_distinct: "chained prev n rs \<Longrightarrow> distinct (map seq_of rs)"
  by (simp add: chained_seqs)

lemma chained_sorted: "chained prev n rs \<Longrightarrow> sorted (map seq_of rs)"
  by (simp add: chained_seqs)

section \<open>Records taken out of a chain\<close>

lemma absent_below:
  "finite P \<Longrightarrow> x \<in> P \<Longrightarrow> 1 \<le> i \<Longrightarrow> i < x \<Longrightarrow> i \<notin> P \<Longrightarrow> i \<in> absent P"
proof -
  assume a: "finite P" "x \<in> P" "1 \<le> i" "i < x" "i \<notin> P"
  have "x \<le> Max P" using a(1,2) by (rule Max_ge)
  with a(4) have "i \<le> Max P" by simp
  with a show ?thesis by (auto simp: absent_def)
qed

lemma sorted_wrt_subseq: "subseq ys xs \<Longrightarrow> sorted_wrt Q xs \<Longrightarrow> sorted_wrt Q ys"
  by (induction rule: list_emb.induct) (auto dest: list_emb_set)

lemma links_subseq:
  assumes "chained prev n rs" "subseq ys rs" "0 \<le> n" "finite P" "P \<inter> {n<..} = seqs ys"
    "prev \<noteq> Some []" "e = opt_str prev \<or> n \<in> absent P"
  shows "links P e ys"
  using assms
proof (induction rs arbitrary: prev n ys e)
  case Nil
  then have "ys = []" by (cases ys) simp_all
  then show ?case by simp
next
  case (Cons r rs)
  have r: "seq_of r = n + 1" "dget r ''prev_action_hash'' = opt_str prev"
    "dget r ''self_hash'' = opt_str (Some (hash_of r))"
    and tl: "chained (Some (hash_of r)) (n + 1) rs"
    using Cons.prems(1) by (auto simp: seq_of_def record_sound_def opt_str_def)
  have above: "seqs zs \<subseteq> {n + 1<..}" if "subseq zs rs" for zs
  proof -
    have "set zs \<subseteq> set rs" using that by (auto dest: list_emb_set)
    then have "seqs zs \<subseteq> seqs rs" by (rule image_mono)
    then show ?thesis unfolding chained_set_seqs [OF tl] by auto
  qed
  show ?case
  proof (cases ys)
    case Nil
    then show ?thesis by simp
  next
    case ys: (Cons y ys')
    show ?thesis
    proof (cases "y = r \<and> subseq ys' rs")
      case True
      have "P \<inter> {n + 1<..} = (P \<inter> {n<..}) - {n + 1}" by auto
      also have "\<dots> = seqs ys'"
        using Cons.prems(5) ys True r(1) above [of ys'] by fastforce
      finally have "links P (dget r ''self_hash'') ys'"
        using Cons.IH [OF tl, of ys' "dget r ''self_hash''"] Cons.prems True r by simp
      moreover have "py_or (opt_str prev) JNull = opt_str prev"
        using Cons.prems(6) by (cases prev) (simp_all add: opt_str_def py_or_def)
      ultimately show ?thesis
        using ys True r Cons.prems(7) by auto
    next
      case False
      then have sub: "subseq ys rs" using Cons.prems(2) ys by (metis subseq_Cons2_iff subseq_Cons2_neq)
      have out: "n + 1 \<notin> P"
      proof
        assume "n + 1 \<in> P"
        then have "n + 1 \<in> P \<inter> {n<..}" by simp
        then have "n + 1 \<in> seqs ys" unfolding Cons.prems(5) .
        with above [OF sub] show False by auto
      qed
      have y: "seq_of y \<in> P" "n + 1 < seq_of y"
        using Cons.prems(5) above [OF sub] ys by auto
      have "n + 1 \<in> absent P"
        using absent_below [OF Cons.prems(4) y(1), of "n + 1"] out y(2) Cons.prems(3) by simp
      moreover have "P \<inter> {n + 1<..} = seqs ys"
      proof -
        have "P \<inter> {n + 1<..} = (P \<inter> {n<..}) - {n + 1}" by auto
        with Cons.prems(5) above [OF sub] show ?thesis by auto
      qed
      ultimately show ?thesis
        using Cons.IH [OF tl sub] Cons.prems by simp
    qed
  qed
qed

lemma intact_subchain:
  assumes chain: "chained None 0 rs" and sub: "subseq ys rs" and perm: "mset xs = mset ys"
  shows "intact xs" and "int_keyed xs"
proof -
  have sxs: "set xs = set ys" using perm by (rule mset_eq_setD)
  have sys: "set ys \<subseteq> set rs" using sub by (auto dest: list_emb_set)
  have "subseq (map seq_of ys) (map seq_of rs)" using sub by (rule subseq_map)
  moreover have "sorted_wrt (<) (map seq_of rs)"
    using chained_distinct [OF chain] chained_sorted [OF chain] by (simp add: strict_sorted_iff)
  ultimately have "sorted_wrt (<) (map seq_of ys)" by (rule sorted_wrt_subseq)
  then have dist: "distinct (map seq_of ys)" and sorted: "sorted (map seq_of ys)"
    unfolding strict_sorted_iff by simp_all
  have "sort_key seq_of xs = ys"
    using dist sorted perm sxs by (intro sort_key_inj_key_eq) (simp_all add: distinct_map)
  moreover have "links (seqs xs) JNull ys"
  proof (rule links_subseq [OF chain sub])
    have "seqs ys \<subseteq> seqs rs" using sys by (rule image_mono)
    then have "seqs ys \<subseteq> {0<..}" unfolding chained_set_seqs [OF chain] by auto
    then show "seqs xs \<inter> {0<..} = seqs ys" using sxs by auto
  qed (simp_all add: opt_str_def)
  moreover have "distinct (map seq_of xs)"
    using dist perm by (metis mset_eq_imp_distinct_iff mset_map)
  ultimately show "intact xs"
    using sxs sys chained_sound [OF chain] by (auto simp: intact_def)
  show "int_keyed xs"
    using sxs sys chained_int_keyed [OF chain] by (auto simp: int_keyed_def list_all_iff)
qed

section \<open>What a hash pins down\<close>

text \<open>Two records whose canonical texts differ and have the same digest.\<close>

definition collide :: "dict \<Rightarrow> dict \<Rightarrow> bool" where
  "collide r r' \<longleftrightarrow> dumps_sorted (canonical_of r) \<noteq> dumps_sorted (canonical_of r') \<and> hash_of r = hash_of r'"

lemma same_hash:
  "typed_action r \<Longrightarrow> dict_ok r' \<Longrightarrow> hash_of r = hash_of r' \<Longrightarrow>
    canonical_of r = canonical_of r' \<or> collide r r'"
  using canonical_inject by (auto simp: collide_def)

lemma canonical_of_eqD:
  assumes "canonical_of r = canonical_of r'"
  shows "seq_key r = seq_key r'"
    and "py_or (dget r ''prev_action_hash'') (JStr []) = py_or (dget r' ''prev_action_hash'') (JStr [])"
  using assms by (simp_all add: canonical_of_def seq_key_def)

lemma blank_prev:
  "py_or (dget r k) (JStr []) = py_or (dget r' k) (JStr []) \<Longrightarrow>
    py_or (dget r k) JNull = py_or (dget r' k) JNull"
proof -
  have "py_or j JNull = (if py_or j (JStr []) = JStr [] then JNull else py_or j (JStr []))" for j
    by (auto simp: py_or_def)
  then show "py_or (dget r k) (JStr []) = py_or (dget r' k) (JStr []) \<Longrightarrow> ?thesis" by simp
qed

lemma links_nth:
  "links P e s \<Longrightarrow> absent P = {} \<Longrightarrow> m < length s \<Longrightarrow>
    py_or (dget (s ! m) ''prev_action_hash'') JNull = (if m = 0 then e else dget (s ! (m - 1)) ''self_hash'')"
proof (induction s arbitrary: e m)
  case (Cons r s)
  then show ?case
  proof (cases m)
    case (Suc k)
    with Cons show ?thesis by (cases k) (auto split: if_splits)
  qed auto
qed simp

lemma anchored_chain:
  assumes "chained None 0 rs" "rs \<noteq> []" "\<forall>r \<in> set rs. typed_action r" "\<forall>x \<in> set s. dict_ok x"
    "\<forall>x \<in> set s. record_sound x" "links P JNull s" "absent P = {}"
    "\<not> (\<exists>r \<in> set rs. \<exists>x \<in> set s. collide r x)"
    "m < length s" "hash_of (s ! m) = hash_of (last rs)"
  shows "length rs = m + 1 \<and> map canonical_of (take (m + 1) s) = map canonical_of rs"
  using assms
proof (induction rs arbitrary: m rule: rev_induct)
  case Nil
  then show ?case by simp
next
  case (snoc r rs)
  let ?x = "s ! m"
  have xs: "?x \<in> set s" using snoc.prems(9) by simp
  have chain: "chained None 0 rs"
    and prev: "dget r ''prev_action_hash'' = opt_str (tail_of None rs)"
    using snoc.prems(1) by (simp_all add: chained_append)
  have "typed_action r" using snoc.prems(3) by simp
  moreover have "hash_of r = hash_of ?x" using snoc.prems(10) by simp
  ultimately have can: "canonical_of r = canonical_of ?x"
    using same_hash [of r ?x] snoc.prems(4,8) xs by auto
  have link: "py_or (opt_str (tail_of None rs)) JNull
      = (if m = 0 then JNull else dget (s ! (m - 1)) ''self_hash'')"
    using blank_prev [OF canonical_of_eqD(2) [OF can]] links_nth [OF snoc.prems(6,7,9)] prev by simp
  have sh: "dget (s ! k) ''self_hash'' = JStr (hash_of (s ! k))" if "k < length s" for k
    using snoc.prems(5) that by (simp add: record_sound_def)
  show ?case
  proof (cases "rs = []")
    case True
    then have "py_or (opt_str (tail_of None rs)) JNull = JNull"
      by (simp add: tail_of_def opt_str_def py_or_def)
    with link sh [of "m - 1"] snoc.prems(9) have m: "m = 0" by (auto split: if_splits)
    with snoc.prems(9) have "take (m + 1) s = [?x]" by (cases s) simp_all
    with m True can show ?thesis by simp
  next
    case False
    then have "py_or (opt_str (tail_of None rs)) JNull = JStr (hash_of (last rs))"
      by (simp add: tail_of_def opt_str_def py_or_def)
    with link sh [of "m - 1"] snoc.prems(9)
    have m: "m \<noteq> 0" and "hash_of (s ! (m - 1)) = hash_of (last rs)" by (auto split: if_splits)
    then have IH: "length rs = m - 1 + 1 \<and> map canonical_of (take (m - 1 + 1) s) = map canonical_of rs"
      using snoc.prems False chain by (intro snoc.IH) auto
    have "take (m + 1) s = take m s @ [?x]" using snoc.prems(9) by (simp add: take_Suc_conv_app_nth)
    with IH m can show ?thesis by simp
  qed
qed

section \<open>The contract of a sealer\<close>

text \<open>One more record: the link a sealer attaches to the tail.\<close>

definition next_link :: "string option \<Rightarrow> int \<Rightarrow> dict \<Rightarrow> bool" where
  "next_link prev n r \<longleftrightarrow>
     list_all (dhas r) canonical_keys \<and> dget r ''self_hash'' = JStr (hash_of r) \<and>
     seq_key r = JInt (n + 1) \<and> dget r ''prev_action_hash'' = opt_str prev"

definition bound :: "dict \<Rightarrow> bool" where
  "bound p \<longleftrightarrow> \<not> binding_broken p ''input_redacted'' ''input_hash'' \<and>
     \<not> binding_broken p ''output_redacted'' ''output_hash''"

fun extend_all :: "('i \<Rightarrow> 's \<Rightarrow> (dict \<times> 's) option) \<Rightarrow> 'i list \<Rightarrow> 's \<Rightarrow> (dict list \<times> 's) option" where
  "extend_all f [] st = Some ([], st)"
| "extend_all f (i # is) st =
     (case f i st of
        None \<Rightarrow> None
      | Some (r, st') \<Rightarrow> (case extend_all f is st' of
            None \<Rightarrow> None
          | Some (rs, st'') \<Rightarrow> Some (r # rs, st'')))"

locale chain_builder =
  fixes tail :: "'s \<Rightarrow> string option"
    and num :: "'s \<Rightarrow> int"
    and extend :: "'i \<Rightarrow> 's \<Rightarrow> (dict \<times> 's) option"
    and input_bound :: "'i \<Rightarrow> bool"
  assumes extend_link: "extend i st = Some (r, st') \<Longrightarrow> next_link (tail st) (num st) r"
    and extend_tail: "extend i st = Some (r, st') \<Longrightarrow> tail st' = Some (hash_of r) \<and> num st' = num st + 1"
    and extend_bound: "extend i st = Some (r, st') \<Longrightarrow> input_bound i \<Longrightarrow> bound r"
begin

lemma built_chained:
  "extend_all extend is st = Some (rs, st') \<Longrightarrow> list_all input_bound is \<Longrightarrow>
    chained (tail st) (num st) rs \<and> tail st' = tail_of (tail st) rs \<and>
    num st' = num st + int (length rs)"
proof (induction "is" arbitrary: st rs)
  case Nil
  then show ?case by (simp add: tail_of_def)
next
  case (Cons i "is")
  from Cons.prems obtain r st1 rs1 where e: "extend i st = Some (r, st1)"
    "extend_all extend is st1 = Some (rs1, st')" "rs = r # rs1"
    by (auto split: option.splits)
  have IH: "chained (tail st1) (num st1) rs1 \<and> tail st' = tail_of (tail st1) rs1 \<and>
      num st' = num st1 + int (length rs1)"
    using Cons.IH [OF e(2)] Cons.prems(2) by simp
  have "record_sound r"
    using extend_link [OF e(1)] extend_bound [OF e(1)] Cons.prems(2)
    by (simp add: record_sound_def next_link_def bound_def)
  with IH extend_link [OF e(1)] extend_tail [OF e(1)] e(3) show ?case
    by (simp add: next_link_def tail_of_def)
qed

text \<open>Whatever survives of a session this builder wrote, in whatever order it is read, the
  verifier does not call it tampered and names exactly the absent numbers.\<close>

lemma survivors_verdict:
  assumes build: "extend_all extend is st = Some (rs, st')" and bnd: "list_all input_bound is"
    and start: "tail st = None" "num st = 0"
    and content: "ds \<noteq> []" "subseq ys rs" "mset (filter is_action_record ds) = mset ys"
  shows "\<exists>v. verify_session_local (file_of ds) = Inr v \<and>
    vr_verdict v = (if absent (seqs ys) = {} then VALID else INCOMPLETE) \<and>
    covered (vr_missing_ranges v) = absent (seqs ys) \<and> vr_record_count v = length ys"
proof -
  let ?xs = "filter is_action_record ds"
  have chain: "chained None 0 rs" using built_chained [OF build bnd] start by simp
  have i: "intact ?xs" "int_keyed ?xs" using intact_subchain [OF chain content(2,3)] by simp_all
  have same: "seqs ?xs = seqs ys" "length ?xs = length ys"
    using mset_eq_setD [OF content(3)] mset_eq_length [OF content(3)] by simp_all
  obtain v where "verify_session_local (file_of ds) = Inr v" "vr_record_count v = length ?xs"
    "vr_missing_ranges v = missing_ranges (map seq_key ?xs)"
    "vr_verdict v = (if \<not> intact ?xs then TAMPERED
                     else if absent (seqs ?xs) = {} then VALID else INCOMPLETE)"
    using verify_local_characterised [OF content(1) i(2)] by blast
  moreover have "covered (missing_ranges (map seq_key ?xs)) = absent (seqs ys)"
    unfolding missing_ranges_cover present_seqs_int_keyed [OF i(2)] same ..
  ultimately show ?thesis using i(1) same by simp
qed

end

section \<open>Properties of the offline verifier\<close>

lemma walk_None_sound: "walk gaps prev rs = Inr None \<Longrightarrow> r \<in> set rs \<Longrightarrow> record_sound r"
proof (induction rs arbitrary: prev)
  case (Cons a rs)
  then show ?case
    by (auto simp: record_sound_def self_hash_Inr sbind_eq_Inr
        split: sum.splits pyexc.splits if_splits)
qed simp

lemma sort_records_set: "sort_records rs = Inr ss \<Longrightarrow> set ss = set rs"
  by (auto simp: sort_records_def split: if_splits)

lemma verify_records_sound:
  assumes "verify_records sid rs = Inr v" "vr_verdict v \<noteq> TAMPERED" "r \<in> set rs"
  shows "record_sound r"
proof -
  obtain ss where ss: "sort_records rs = Inr ss"
    using assms(1) by (auto simp: verify_records_def sbind_eq_Inr)
  let ?gaps = "missing_ranges (map seq_key ss)"
  have tampered: "vr_verdict (tampered_result g n sid f) = TAMPERED" for g n f
    by (cases f) (simp add: tampered_result_def)
  have dup: "first_duplicate ss = None"
    using assms(1,2) ss tampered by (auto simp: verify_records_def Let_def split: option.splits)
  then obtain f where w: "walk ?gaps JNull ss = Inr f"
    using assms(1) ss by (auto simp: verify_records_def Let_def sbind_eq_Inr)
  then have "f = None"
    using assms(1,2) ss dup tampered by (cases f) (auto simp: verify_records_def Let_def)
  with w have "walk ?gaps JNull ss = Inr None" by simp
  then show ?thesis using walk_None_sound assms(3) sort_records_set [OF ss] by blast
qed

lemma verify_file_sound:
  assumes "verify_session_local (file_of ds) = Inr v" "vr_verdict v \<noteq> TAMPERED"
    and "x \<in> set ds" "is_action_record x"
  shows "record_sound x"
proof -
  have ne: "ds \<noteq> []" and x: "x \<in> set (filter is_action_record ds)" using assms(3,4) by auto
  then have "filter is_action_record ds \<noteq> []" by (metis empty_iff list.set(1))
  then have "verify_records (dget (hd ds) ''session_id'') (filter is_action_record ds) = Inr v"
    using assms(1) verify_file_of [OF ne] by (simp add: Let_def)
  then show ?thesis using verify_records_sound assms(2) x by blast
qed

text \<open>A one-record chain, for the witnesses.\<close>

definition sample_fields :: dict where
  "sample_fields = link_dict 7 ''s'' None 1
     [(''tool_name'', JStr ''search''), (''input_hash'', JStr ''aa''), (''timestamp'', JStr ''t'')]"

definition sample_record :: dict where
  "sample_record = sample_fields @ [(''self_hash'', JStr (hash_of sample_fields))]"

lemma sample_dget:
  "dget sample_record k =
     (if k = ''self_hash'' then JStr (hash_of sample_fields) else dget sample_fields k)"
  by (simp add: sample_record_def sample_fields_def link_dict_def dict_simps)

lemma sample_canonical: "canonical_of sample_record = canonical_of sample_fields"
  by (simp add: canonical_of_def sample_dget)

lemma sample_facts:
  "chained None 0 [sample_record]" "typed_action sample_record" "dict_ok sample_record"
  "is_action_record sample_record" "dget sample_record ''self_hash'' = JStr (hash_of sample_record)"
proof -
  have h: "hash_of sample_record = hash_of sample_fields"
    by (simp add: hash_of_def sample_canonical)
  show "dget sample_record ''self_hash'' = JStr (hash_of sample_record)"
    by (simp add: sample_dget h)
  have "list_all (dhas sample_record) canonical_keys"
    by (simp add: sample_record_def sample_fields_def link_dict_def canonical_keys_def dict_simps)
  moreover have "bound sample_record"
    by (simp add: bound_def binding_broken_def sample_dget sample_fields_def link_dict_def dict_simps)
  moreover have "seq_key sample_record = JInt 1"
    by (simp add: seq_key_def sample_dget sample_fields_def link_dict_def dict_simps)
  moreover have "dget sample_record ''prev_action_hash'' = opt_str None"
    by (simp add: sample_dget sample_fields_def link_dict_def dict_simps)
  ultimately show "chained None 0 [sample_record]"
    by (simp add: record_sound_def bound_def sample_dget h)
  show "typed_action sample_record"
    by (simp add: typed_action_def sample_dget sample_fields_def link_dict_def dict_simps
        str_or_null_def opt_str_def)
  show "dict_ok sample_record"
    by (simp add: dict_ok_def sample_record_def sample_fields_def link_dict_def dict_simps opt_str_def)
  show "is_action_record sample_record"
    by (simp add: is_action_record_def sample_record_def sample_fields_def link_dict_def dict_simps)
qed

lemma sample_valid:
  "\<exists>v. verify_session_local (file_of [sample_record]) = Inr v \<and> vr_verdict v = VALID"
proof -
  have "intact [sample_record]" "int_keyed [sample_record]"
    using intact_subchain [OF sample_facts(1), of "[sample_record]"] by simp_all
  moreover have "absent (seqs [sample_record]) = {}"
    unfolding chained_set_seqs [OF sample_facts(1)] by (simp add: absent_def)
  ultimately show ?thesis
    using verify_local_characterised [of "[sample_record]"] sample_facts(4) by auto
qed

text \<open>C5. Tamper evidence for one record: in a file that does not verify as TAMPERED, an action line
  that carries the self hash of a schema-typed record has all eight of that record's canonical
  fields, or the two canonical texts are a SHA-256 collision.\<close>

theorem altered_record_detected:
  assumes "verify_session_local (file_of ds) = Inr v" and "vr_verdict v \<noteq> TAMPERED"
    and "x \<in> set ds" and "is_action_record x" and "dict_ok x"
    and "typed_action r" and "dget x ''self_hash'' = JStr (hash_of r)"
  shows "canonical_of x = canonical_of r \<or> collide r x"
proof -
  have "record_sound x" by (rule verify_file_sound [OF assms(1-4)])
  with assms(7) have "hash_of r = hash_of x" by (simp add: record_sound_def)
  with same_hash [OF assms(6,5)] show ?thesis by auto
qed

theorem altered_record_detected_witness:
  "canonical_of sample_record = canonical_of sample_record \<or> collide sample_record sample_record"
proof -
  obtain v where "verify_session_local (file_of [sample_record]) = Inr v" "vr_verdict v = VALID"
    using sample_valid by blast
  then show ?thesis
    by (intro altered_record_detected [of "[sample_record]" v]) (simp_all add: sample_facts)
qed

text \<open>C1. Tamper evidence for a session: a file that verifies as VALID and has a line with the last
  self hash of a sealed, schema-typed chain starts with exactly that chain, field for field and
  in order, unless a record of the chain and a line of the file are a SHA-256 collision.\<close>

theorem valid_file_is_the_chain:
  assumes "verify_session_local (file_of ds) = Inr v" and "vr_verdict v = VALID"
    and "int_keyed (filter is_action_record ds)" and "list_all dict_ok ds"
    and "chained None 0 rs" and "rs \<noteq> []" and "list_all typed_action rs"
    and "x \<in> set ds" and "is_action_record x" and "dget x ''self_hash'' = JStr (hash_of (last rs))"
  shows "map canonical_of (take (length rs) (sort_key seq_of (filter is_action_record ds)))
           = map canonical_of rs \<or>
         (\<exists>r \<in> set rs. \<exists>y \<in> set (filter is_action_record ds). collide r y)"
proof (rule disjCI)
  let ?xs = "filter is_action_record ds" and ?s = "sort_key seq_of (filter is_action_record ds)"
  assume none: "\<not> (\<exists>r \<in> set rs. \<exists>y \<in> set ?xs. collide r y)"
  have "ds \<noteq> []" using assms(8) by auto
  with verify_local_characterised [OF _ assms(3)] assms(1,2)
  have i: "intact ?xs" "absent (seqs ?xs) = {}" by (auto split: if_splits)
  have "record_sound x" by (rule verify_file_sound [OF assms(1)]) (use assms in auto)
  with assms(10) have h: "hash_of x = hash_of (last rs)" by (simp add: record_sound_def)
  have "x \<in> set ?s" using assms(8,9) by simp
  then obtain m where m: "m < length ?s" "?s ! m = x" unfolding in_set_conv_nth by blast
  have "length rs = m + 1 \<and> map canonical_of (take (m + 1) ?s) = map canonical_of rs"
    using i none m h assms(4-7)
    by (intro anchored_chain [where P = "seqs ?xs"]) (auto simp: intact_def list_all_iff)
  then show "map canonical_of (take (length rs) ?s) = map canonical_of rs" by simp
qed

theorem valid_file_is_the_chain_witness:
  "map canonical_of (take 1 [sample_record]) = map canonical_of [sample_record] \<or>
     (\<exists>r \<in> set [sample_record]. \<exists>y \<in> set [sample_record]. collide r y)"
proof -
  obtain v where "verify_session_local (file_of [sample_record]) = Inr v" "vr_verdict v = VALID"
    using sample_valid by blast
  then show ?thesis
    using valid_file_is_the_chain [of "[sample_record]" v "[sample_record]" sample_record]
      chained_int_keyed [OF sample_facts(1)] sample_facts
    by (simp del: chained.simps int_keyed_simps)
qed

end
