(* ===== verification/Ingest_Wire.thy ===== *)
theory Ingest_Wire
  imports Py_Values
begin

text \<open>
  The wire vocabulary of \<^verbatim>\<open>rootsign/ingest/schemas.py\<close> (event types, the error-code
  registry, the unified response) and the error classes of \<^verbatim>\<open>rootsign/errors.py\<close> that
  carry a code and a retry class onto the wire.
\<close>

datatype event_type = SESSION_OPEN | ACTION_RECORD | DECISION_RECORD | APPROVAL_RECORD | SESSION_CLOSE

fun event_value :: "event_type \<Rightarrow> string" where
  "event_value SESSION_OPEN = ''SESSION_OPEN''"
| "event_value ACTION_RECORD = ''ACTION_RECORD''"
| "event_value DECISION_RECORD = ''DECISION_RECORD''"
| "event_value APPROVAL_RECORD = ''APPROVAL_RECORD''"
| "event_value SESSION_CLOSE = ''SESSION_CLOSE''"

definition event_types :: "event_type list" where
  "event_types = [SESSION_OPEN, ACTION_RECORD, DECISION_RECORD, APPROVAL_RECORD, SESSION_CLOSE]"

definition event_of_value :: "string \<Rightarrow> event_type option" where
  "event_of_value s = List.find (\<lambda>e. event_value e = s) event_types"

datatype error_code =
    SCHEMA_VERSION_MISMATCH
  | UNKNOWN_AGENT
  | SESSION_NOT_FOUND
  | SESSION_CLOSED
  | SESSION_ALREADY_EXISTS
  | DUPLICATE_EVENT
  | ACTION_NOT_FOUND
  | ACTION_ALREADY_RESOLVED
  | APPROVAL_PARENT_NOT_FOUND
  | VALIDATION_ERROR
  | HASH_CHAIN_BROKEN
  | STORE_UNAVAILABLE
  | WRITE_TIMEOUT
  | RATE_LIMITED
  | INTERNAL_ERROR

record response =
  rsp_status :: string
  rsp_event_id :: uuid
  rsp_entity_id :: "uuid option"
  rsp_sequence_number :: "int option"
  rsp_self_hash :: "string option"
  rsp_error_code :: "error_code option"
  rsp_error_message :: "string option"
  rsp_retryable :: "bool option"

definition accepted :: "uuid \<Rightarrow> uuid option \<Rightarrow> int option \<Rightarrow> string option \<Rightarrow> response" where
  "accepted event_id entity_id sequence_number self_hash =
     \<lparr>rsp_status = ''accepted'', rsp_event_id = event_id, rsp_entity_id = entity_id,
      rsp_sequence_number = sequence_number, rsp_self_hash = self_hash, rsp_error_code = None,
      rsp_error_message = None, rsp_retryable = None\<rparr>"

definition rejected :: "uuid \<Rightarrow> error_code \<Rightarrow> string \<Rightarrow> bool \<Rightarrow> response" where
  "rejected event_id error_code error_message retryable =
     \<lparr>rsp_status = ''rejected'', rsp_event_id = event_id, rsp_entity_id = None,
      rsp_sequence_number = None, rsp_self_hash = None, rsp_error_code = Some error_code,
      rsp_error_message = Some error_message, rsp_retryable = Some retryable\<rparr>"

lemma accepted_simps [simp, wire_simps]:
  "rsp_status (accepted e i n h) = ''accepted''"
  "rsp_event_id (accepted e i n h) = e"
  "rsp_entity_id (accepted e i n h) = i"
  "rsp_sequence_number (accepted e i n h) = n"
  "rsp_self_hash (accepted e i n h) = h"
  "rsp_error_code (accepted e i n h) = None"
  "rsp_retryable (accepted e i n h) = None"
  by (simp_all add: accepted_def)

lemma rejected_simps [simp, wire_simps]:
  "rsp_status (rejected e c m b) = ''rejected''"
  "rsp_event_id (rejected e c m b) = e"
  "rsp_entity_id (rejected e c m b) = None"
  "rsp_sequence_number (rejected e c m b) = None"
  "rsp_self_hash (rejected e c m b) = None"
  "rsp_error_code (rejected e c m b) = Some c"
  "rsp_retryable (rejected e c m b) = Some b"
  by (simp_all add: rejected_def)

section \<open>Store errors\<close>

datatype ingest_error =
    UnknownAgentError
  | SessionNotFoundError
  | SessionAlreadyExistsError
  | SessionClosedError
  | ActionNotFoundError
  | ActionAlreadyResolvedError
  | ApprovalParentNotFoundError
  | IngestValidationError
  | HashChainBrokenError
  | IngestErrorBase

text \<open>The class attributes \<open>error_code\<close> and \<open>retryable\<close>.\<close>

fun error_code_of :: "ingest_error \<Rightarrow> error_code" where
  "error_code_of UnknownAgentError = UNKNOWN_AGENT"
| "error_code_of SessionNotFoundError = SESSION_NOT_FOUND"
| "error_code_of SessionAlreadyExistsError = SESSION_ALREADY_EXISTS"
| "error_code_of SessionClosedError = SESSION_CLOSED"
| "error_code_of ActionNotFoundError = ACTION_NOT_FOUND"
| "error_code_of ActionAlreadyResolvedError = ACTION_ALREADY_RESOLVED"
| "error_code_of ApprovalParentNotFoundError = APPROVAL_PARENT_NOT_FOUND"
| "error_code_of IngestValidationError = VALIDATION_ERROR"
| "error_code_of HashChainBrokenError = HASH_CHAIN_BROKEN"
| "error_code_of IngestErrorBase = INTERNAL_ERROR"

definition error_retryable :: "ingest_error \<Rightarrow> bool" where
  "error_retryable e = (e = IngestErrorBase)"

lemma event_value_inject [simp]: "event_value a = event_value b \<longleftrightarrow> a = b"
  by (cases a; cases b) simp_all

lemma event_of_event_value [simp]: "event_of_value (event_value e) = Some e"
  by (cases e) (simp_all add: event_of_value_def event_types_def)

lemma event_of_value_Some: "event_of_value s = Some e \<longleftrightarrow> s = event_value e"
proof
  assume "event_of_value s = Some e"
  then have "\<exists>i < length event_types. event_value (event_types ! i) = s \<and> e = event_types ! i"
    by (auto simp: event_of_value_def find_Some_iff)
  then show "s = event_value e" by blast
qed simp

end
