(* ===== verification/Action_Store.thy ===== *)
theory Action_Store
  imports Chain_Links Ingest_Wire
begin

text \<open>
  The Postgres side: the rows of \<^verbatim>\<open>rootsign/models\<close> and
  \<^verbatim>\<open>rootsign/crud/action.py\<close>, with the write path that extends the chain and the
  verifier that walks it. \<open>pg\<close> gives the \<open>isoformat()\<close> of the value the database returns
  for a \<open>timestamptz\<close> written with the given \<open>isoformat()\<close>; it is an argument because it
  is Postgres's behaviour, not the program's. A transaction that raises leaves the tables as
  they were.

  The lemmas refine the store's verifier to the same specification as the offline one, and
  interpret the sealer's contract on the session row.
\<close>

section \<open>Rows\<close>

record action_row =
  ar_action_id :: uuid
  ar_session_id :: uuid
  ar_decision_id :: "uuid option"
  ar_policy_id :: "uuid option"
  ar_tool_name :: string
  ar_input_hash :: string
  ar_output_hash :: "string option"
  ar_input_redacted :: json
  ar_output_redacted :: json
  ar_prev_action_hash :: "string option"
  ar_self_hash :: string
  ar_timestamp :: string
  ar_duration_ms :: "int option"
  ar_authorization_status :: string
  ar_sequence_number :: int

record session_row =
  sr_agent_id :: uuid
  sr_user_id :: "string option"
  sr_objective :: "string option"
  sr_status :: string
  sr_end_time :: "int option"
  sr_action_count :: int
  sr_decision_count :: int
  sr_chain_head_hash :: "string option"
  sr_chain_tail_hash :: "string option"
  sr_metadata :: json

record decision_row =
  dr_decision_id :: uuid
  dr_session_id :: uuid
  dr_selected_action :: string
  dr_reasoning_summary :: "string option"
  dr_reasoning_captured :: bool
  dr_timestamp :: string

record approval_row =
  pr_approval_id :: uuid
  pr_action_id :: uuid
  pr_session_id :: uuid
  pr_approver_id :: string
  pr_approver_type :: string
  pr_decision :: string
  pr_decision_reason :: "string option"
  pr_timestamp :: int
  pr_parent_approval_id :: "uuid option"

record db =
  db_agents :: "uuid list"
  db_sessions :: "uuid \<rightharpoonup> session_row"
  db_actions :: "action_row list"
  db_decisions :: "decision_row list"
  db_approvals :: "approval_row list"

text \<open>What a store operation can raise: an ingest error, pydantic's \<open>ValidationError\<close> from a
  \<open>*Create\<close> schema, or SQLAlchemy's \<open>NoResultFound\<close> and
  \<open>MultipleResultsFound\<close>.\<close>

datatype store_exn = Ingest ingest_error string | Schema_Invalid | No_Result_Found | Multiple_Results

section \<open>Writing\<close>

record action_create =
  ac_session_id :: uuid
  ac_decision_id :: "uuid option"
  ac_policy_id :: "uuid option"
  ac_tool_name :: string
  ac_input_hash :: string
  ac_output_hash :: "string option"
  ac_input_redacted :: json
  ac_output_redacted :: json
  ac_timestamp :: string
  ac_duration_ms :: "int option"
  ac_authorization_status :: string

definition canonical_input :: "uuid \<Rightarrow> action_create \<Rightarrow> string option \<Rightarrow> int \<Rightarrow> dict" where
  "canonical_input action_id obj_in prev_hash seq =
     [(''action_id'', JStr (uuid_str action_id)),
      (''session_id'', JStr (uuid_str (ac_session_id obj_in))),
      (''tool_name'', JStr (ac_tool_name obj_in)),
      (''input_hash'', JStr (ac_input_hash obj_in)),
      (''output_hash'', opt_str (ac_output_hash obj_in)),
      (''prev_action_hash'', opt_str prev_hash),
      (''timestamp'', JStr (ac_timestamp obj_in)),
      (''sequence_number'', JInt seq)]"

text \<open>Steps 2 to 5: the row inserted for \<open>obj_in\<close> after the locked session row.\<close>

definition new_action :: "(string \<Rightarrow> string) \<Rightarrow> uuid \<Rightarrow> action_create \<Rightarrow> session_row \<Rightarrow> action_row" where
  "new_action pg action_id obj_in session =
     (let prev_hash = sr_chain_tail_hash session;
          seq = sr_action_count session + 1;
          self_hash = hash_of (canonical_input action_id obj_in prev_hash seq)
      in \<lparr>ar_action_id = action_id, ar_session_id = ac_session_id obj_in,
          ar_decision_id = ac_decision_id obj_in, ar_policy_id = ac_policy_id obj_in,
          ar_tool_name = ac_tool_name obj_in, ar_input_hash = ac_input_hash obj_in,
          ar_output_hash = ac_output_hash obj_in, ar_input_redacted = ac_input_redacted obj_in,
          ar_output_redacted = ac_output_redacted obj_in, ar_prev_action_hash = prev_hash,
          ar_self_hash = self_hash, ar_timestamp = pg (ac_timestamp obj_in),
          ar_duration_ms = ac_duration_ms obj_in,
          ar_authorization_status = ac_authorization_status obj_in, ar_sequence_number = seq\<rparr>)"

text \<open>Steps 6 and 7.\<close>

definition advance_session :: "action_row \<Rightarrow> session_row \<Rightarrow> session_row" where
  "advance_session row session =
     session\<lparr>sr_chain_head_hash := (if sr_chain_head_hash session = None then Some (ar_self_hash row)
                                     else sr_chain_head_hash session),
             sr_chain_tail_hash := Some (ar_self_hash row),
             sr_action_count := ar_sequence_number row\<rparr>"

definition create_with_hash ::
  "(string \<Rightarrow> string) \<Rightarrow> uuid \<Rightarrow> action_create \<Rightarrow> db \<Rightarrow> (store_exn + action_row) \<times> db" where
  "create_with_hash pg action_id obj_in d =
     (case db_sessions d (ac_session_id obj_in) of
        None \<Rightarrow> (Inl No_Result_Found, d)
      | Some session \<Rightarrow>
          let row = new_action pg action_id obj_in session
          in (Inr row,
              d\<lparr>db_actions := db_actions d @ [row],
                db_sessions := (db_sessions d)(ac_session_id obj_in \<mapsto> advance_session row session)\<rparr>))"

definition get_session_chain :: "uuid \<Rightarrow> db \<Rightarrow> action_row list" where
  "get_session_chain sid d =
     sort_key ar_sequence_number (filter (\<lambda>r. ar_session_id r = sid) (db_actions d))"

section \<open>Verifying\<close>

definition row_canonical :: "action_row \<Rightarrow> dict" where
  "row_canonical r =
     [(''action_id'', JStr (uuid_str (ar_action_id r))),
      (''session_id'', JStr (uuid_str (ar_session_id r))),
      (''tool_name'', JStr (ar_tool_name r)),
      (''input_hash'', JStr (ar_input_hash r)),
      (''output_hash'', opt_str (ar_output_hash r)),
      (''prev_action_hash'', opt_str (ar_prev_action_hash r)),
      (''timestamp'', JStr (ar_timestamp r)),
      (''sequence_number'', JInt (ar_sequence_number r))]"

definition payload_binding_error :: "action_row \<Rightarrow> problem option" where
  "payload_binding_error r =
     (if ar_input_redacted r \<noteq> JNull \<and> compute_payload_hash (ar_input_redacted r) \<noteq> ar_input_hash r
      then Some InputBindingMismatch
      else if ar_output_redacted r \<noteq> JNull
              \<and> Some (compute_payload_hash (ar_output_redacted r)) \<noteq> ar_output_hash r
      then Some OutputBindingMismatch
      else None)"

record chain_report =
  cr_valid :: bool
  cr_verdict :: verdict
  cr_record_count :: nat
  cr_first_invalid_sequence :: "int option"
  cr_missing_ranges :: ranges
  cr_error :: "problem option"

type_synonym row_failure = "failure_kind \<times> int \<times> problem"

definition or_none :: "string option \<Rightarrow> string option" where
  "or_none x = (if x = Some [] then None else x)"

fun walk_rows :: "ranges \<Rightarrow> int list \<Rightarrow> string option \<Rightarrow> action_row list \<Rightarrow> pyexc + row_failure option" where
  "walk_rows gaps seen expected_prev [] = Inr None"
| "walk_rows gaps seen expected_prev (r # rs) =
     (let seq = ar_sequence_number r in
      if seq \<in> set seen
      then Inr (Some (DUPLICATE_SEQUENCE, seq, DuplicateSequence (int_str seq)))
      else sbind (compute_action_self_hash (row_canonical r)) (\<lambda>recomputed.
        if recomputed \<noteq> ar_self_hash r then Inr (Some (SELF_HASH_MISMATCH, seq, SelfHashMismatch))
        else sbind (if or_none (ar_prev_action_hash r) \<noteq> expected_prev
                    then explains_break (JInt seq) gaps else Inr True) (\<lambda>linked.
          if \<not> linked then Inr (Some (PREV_HASH_MISMATCH, seq, PrevHashBroken))
          else (case payload_binding_error r of
                  Some err \<Rightarrow> Inr (Some (PAYLOAD_BINDING, seq, err))
                | None \<Rightarrow> walk_rows gaps (seq # seen) (Some (ar_self_hash r)) rs))))"

definition report :: "ranges \<Rightarrow> nat \<Rightarrow> row_failure option \<Rightarrow> chain_report" where
  "report gaps n failure =
     (let verdict = decide gaps (map_option fst failure) in
      \<lparr>cr_valid = (verdict = VALID), cr_verdict = verdict, cr_record_count = n,
       cr_first_invalid_sequence =
         (case failure of Some (_, seq, _) \<Rightarrow> Some seq
          | None \<Rightarrow> if gaps = [] then None else Some (fst (hd gaps))),
       cr_missing_ranges = gaps,
       cr_error =
         (case failure of Some (_, _, err) \<Rightarrow> Some err
          | None \<Rightarrow> if gaps = [] then None
                    else Some (RecordsMissing (missing_count gaps) (describe_missing gaps)))\<rparr>)"

definition verify_chain :: "uuid \<Rightarrow> db \<Rightarrow> pyexc + chain_report" where
  "verify_chain sid d =
     (let actions = get_session_chain sid d in
      if actions = [] then Inr (report [] 0 None)
      else
        let gaps = missing_ranges (map (\<lambda>a. JInt (ar_sequence_number a)) actions)
        in sbind (walk_rows gaps [] None actions) (\<lambda>failure.
             Inr (report gaps (length actions) failure)))"

text \<open>\<open>rootsign/sdk/chain.py\<close>: the wrapper that turns the report into a \<open>VerifyResult\<close>.\<close>

definition verify_session :: "uuid \<Rightarrow> db \<Rightarrow> pyexc + verify_result" where
  "verify_session sid d =
     sbind (verify_chain sid d) (\<lambda>raw. Inr
       \<lparr>vr_verdict = cr_verdict raw, vr_record_count = cr_record_count raw,
        vr_session_id = JStr (uuid_str sid),
        vr_first_invalid_sequence =
          (case cr_first_invalid_sequence raw of None \<Rightarrow> JNull | Some i \<Rightarrow> JInt i),
        vr_error = cr_error raw, vr_missing_ranges = cr_missing_ranges raw\<rparr>)"

section \<open>Rows as exported lines\<close>

text \<open>A row as the legacy store export writes it: the canonical fields, the hash and the redacted
  payloads.\<close>

definition row_dict :: "action_row \<Rightarrow> dict" where
  "row_dict r = row_canonical r @
     [(''self_hash'', JStr (ar_self_hash r)),
      (''input_redacted'', ar_input_redacted r),
      (''output_redacted'', ar_output_redacted r)]"

lemma row_dict_fields [simp]:
  "dget (row_dict r) ''self_hash'' = JStr (ar_self_hash r)"
  "dget (row_dict r) ''input_redacted'' = ar_input_redacted r"
  "dget (row_dict r) ''output_redacted'' = ar_output_redacted r"
  "dget (row_dict r) ''prev_action_hash'' = opt_str (ar_prev_action_hash r)"
  "dget (row_dict r) ''input_hash'' = JStr (ar_input_hash r)"
  "dget (row_dict r) ''output_hash'' = opt_str (ar_output_hash r)"
  "seq_key (row_dict r) = JInt (ar_sequence_number r)"
  "seq_of (row_dict r) = ar_sequence_number r"
  "list_all (dhas (row_dict r)) canonical_keys"
  "list_all (dhas (row_canonical r)) canonical_keys"
  "is_action_record (row_dict r)"
  by (simp_all add: row_dict_def row_canonical_def dict_simps seq_key_def seq_of_def canonical_keys_def
      is_action_record_def)

lemma row_dict_canonical [simp]: "canonical_of (row_dict r) = canonical_of (row_canonical r)"
  by (simp add: canonical_of_def row_dict_def row_canonical_def dict_simps)

lemma row_dict_hash [simp]: "hash_of (row_dict r) = hash_of (row_canonical r)"
  by (simp add: hash_of_def)

lemma opt_str_eq [simp]: "JStr s = opt_str x \<longleftrightarrow> x = Some s" "opt_str x = JNull \<longleftrightarrow> x = None"
  by (auto simp: opt_str_def split: option.splits)

lemma or_opt_str [simp]: "py_or (opt_str x) JNull = opt_str (or_none x)"
  by (cases x) (auto simp: opt_str_def py_or_def or_none_def)

lemma opt_str_inject [simp]: "opt_str x = opt_str y \<longleftrightarrow> x = y"
  by (auto simp: opt_str_def split: option.splits)

lemma row_binding:
  "payload_binding_error r = None \<longleftrightarrow> bound (row_dict r)"
  by (auto simp: payload_binding_error_def bound_def binding_broken_def)

lemma row_sound:
  "record_sound (row_dict r) \<longleftrightarrow> ar_self_hash r = hash_of (row_canonical r) \<and> payload_binding_error r = None"
  by (auto simp: record_sound_def row_binding bound_def)

text \<open>The store's walk decides the same thing as the offline one.\<close>

lemma walk_rows_iff:
  assumes "ar_sequence_number ` set rs \<subseteq> present_seqs S"
  shows "\<exists>f. walk_rows (missing_ranges S) seen prev rs = Inr f \<and>
    (f = None \<longleftrightarrow> distinct (map ar_sequence_number rs) \<and>
       set seen \<inter> ar_sequence_number ` set rs = {} \<and>
       (\<forall>r \<in> set rs. record_sound (row_dict r)) \<and>
       links (present_seqs S) (opt_str prev) (map row_dict rs))"
  using assms
proof (induction rs arbitrary: seen prev)
  case Nil
  then show ?case by simp
next
  case (Cons r rs)
  let ?seq = "ar_sequence_number r"
  have p: "?seq \<in> present_seqs S" "ar_sequence_number ` set rs \<subseteq> present_seqs S"
    using Cons.prems by auto
  from Cons.IH [OF p(2), of "?seq # seen" "Some (ar_self_hash r)"] obtain f where
    IH: "walk_rows (missing_ranges S) (?seq # seen) (Some (ar_self_hash r)) rs = Inr f"
      "f = None \<longleftrightarrow> distinct (map ar_sequence_number rs) \<and>
       set (?seq # seen) \<inter> ar_sequence_number ` set rs = {} \<and>
       (\<forall>r \<in> set rs. record_sound (row_dict r)) \<and>
       links (present_seqs S) (opt_str (Some (ar_self_hash r))) (map row_dict rs)" by blast
  have h: "compute_action_self_hash (row_canonical r) = Inr (hash_of (row_canonical r))"
    by (rule self_hash_total) simp
  have e: "explains_break (JInt ?seq) (missing_ranges S) = Inr (?seq - 1 \<in> absent (present_seqs S))"
    using p(1) by (simp add: explains_break_absent)
  have self: "JStr (ar_self_hash r) = opt_str (Some (ar_self_hash r))" by simp
  let ?link = "or_none (ar_prev_action_hash r) = prev \<or> ?seq - 1 \<in> absent (present_seqs S)"
  let ?ok = "?seq \<notin> set seen \<and> record_sound (row_dict r) \<and> ?link"
  have links: "links (present_seqs S) (opt_str prev) (map row_dict (r # rs)) \<longleftrightarrow>
      ?link \<and> links (present_seqs S) (opt_str (Some (ar_self_hash r))) (map row_dict rs)"
    by (simp add: self)
  show ?case
  proof (cases ?ok)
    case True
    then have "walk_rows (missing_ranges S) seen prev (r # rs) = Inr f"
      using IH(1) by (auto simp: Let_def h e row_sound)
    moreover have "f = None \<longleftrightarrow> distinct (map ar_sequence_number (r # rs)) \<and>
       set seen \<inter> ar_sequence_number ` set (r # rs) = {} \<and>
       (\<forall>r \<in> set (r # rs). record_sound (row_dict r)) \<and>
       links (present_seqs S) (opt_str prev) (map row_dict (r # rs))"
      unfolding IH(2) links using True by auto
    ultimately show ?thesis by blast
  next
    case False
    then have "\<exists>g. walk_rows (missing_ranges S) seen prev (r # rs) = Inr (Some g)"
      by (cases "payload_binding_error r") (auto simp: Let_def h e row_sound)
    with False show ?thesis unfolding links by fastforce
  qed
qed

lemma get_session_chain_sorted: "sorted (map ar_sequence_number (get_session_chain sid d))"
  by (simp add: get_session_chain_def)

theorem verify_chain_characterised:
  "\<exists>r. verify_chain sid d = Inr r \<and> cr_record_count r = length (get_session_chain sid d) \<and>
    cr_missing_ranges r = missing_ranges (map seq_key (map row_dict (get_session_chain sid d))) \<and>
    cr_verdict r = (if \<not> intact (map row_dict (get_session_chain sid d)) then TAMPERED
      else if absent (seqs (map row_dict (get_session_chain sid d))) = {} then VALID else INCOMPLETE) \<and>
    (cr_valid r \<longleftrightarrow> cr_verdict r = VALID)"
proof -
  let ?rows = "get_session_chain sid d"
  let ?ds = "map row_dict ?rows" and ?S = "map (\<lambda>a. JInt (ar_sequence_number a)) ?rows"
  have keyed: "int_keyed ?ds" by (simp add: int_keyed_def list_all_iff)
  have S: "map seq_key ?ds = ?S" by (simp add: comp_def)
  have P: "present_seqs ?S = seqs ?ds" using present_seqs_int_keyed [OF keyed] unfolding S .
  have sorted: "sort_key seq_of ?ds = ?ds"
    using get_session_chain_sorted by (intro sort_key_id_if_sorted) (simp add: comp_def)
  obtain f where f: "walk_rows (missing_ranges ?S) [] None ?rows = Inr f"
    "f = None \<longleftrightarrow> intact ?ds"
    using walk_rows_iff [of ?rows ?S "[]" None] P
    by (auto simp: intact_def sorted comp_def opt_str_def image_image)
  show ?thesis
  proof (cases "?rows = []")
    case True
    then show ?thesis
      by (simp add: verify_chain_def report_def missing_ranges_def absent_def)
  next
    case False
    with f(1) have v: "verify_chain sid d = Inr (report (missing_ranges ?S) (length ?rows) f)"
      by (simp add: verify_chain_def Let_def)
    have "cr_verdict (report (missing_ranges ?S) (length ?rows) f) =
        (if \<not> intact ?ds then TAMPERED else if absent (seqs ?ds) = {} then VALID else INCOMPLETE)"
      using f(2) missing_ranges_Nil [of ?S] P by (cases f) (auto simp: report_def Let_def decide_def)
    then show ?thesis unfolding v S by (simp add: report_def Let_def)
  qed
qed

section \<open>The write path builds a chain\<close>

definition create_bound :: "action_create \<Rightarrow> bool" where
  "create_bound c \<longleftrightarrow>
     (ac_input_redacted c = JNull \<or> compute_payload_hash (ac_input_redacted c) = ac_input_hash c) \<and>
     (ac_output_redacted c = JNull \<or> Some (compute_payload_hash (ac_output_redacted c)) = ac_output_hash c)"

fun store_extend ::
  "(string \<Rightarrow> string) \<Rightarrow> uuid \<times> action_create \<Rightarrow> session_row \<Rightarrow> (dict \<times> session_row) option" where
  "store_extend pg (action_id, obj_in) session =
     (if pg (ac_timestamp obj_in) = ac_timestamp obj_in
      then let row = new_action pg action_id obj_in session
           in Some (row_dict row, advance_session row session)
      else None)"

lemma new_action_canonical:
  "pg (ac_timestamp c) = ac_timestamp c \<Longrightarrow>
    row_canonical (new_action pg a c s) = canonical_input a c (sr_chain_tail_hash s) (sr_action_count s + 1)"
  by (simp add: row_canonical_def canonical_input_def new_action_def Let_def)

lemma new_action_fields [simp]:
  "ar_session_id (new_action pg a c s) = ac_session_id c"
  "ar_action_id (new_action pg a c s) = a"
  "ar_prev_action_hash (new_action pg a c s) = sr_chain_tail_hash s"
  "ar_sequence_number (new_action pg a c s) = sr_action_count s + 1"
  "ar_self_hash (new_action pg a c s)
     = hash_of (canonical_input a c (sr_chain_tail_hash s) (sr_action_count s + 1))"
  "ar_authorization_status (new_action pg a c s) = ac_authorization_status c"
  "ar_timestamp (new_action pg a c s) = pg (ac_timestamp c)"
  by (simp_all add: new_action_def Let_def)

lemma new_action_bound: "create_bound c \<Longrightarrow> bound (row_dict (new_action pg a c s))"
  by (auto simp: create_bound_def bound_def binding_broken_def new_action_def Let_def)

lemma store_extend_Some:
  assumes "store_extend pg i s = Some (r, s')"
  shows "next_link (sr_chain_tail_hash s) (sr_action_count s) r"
    and "sr_chain_tail_hash s' = Some (hash_of r) \<and> sr_action_count s' = sr_action_count s + 1"
    and "create_bound (snd i) \<Longrightarrow> bound r"
  using assms new_action_bound
  by (cases i; auto simp: next_link_def advance_session_def new_action_canonical Let_def
      split: if_splits)+

interpretation store: chain_builder sr_chain_tail_hash sr_action_count "store_extend pg"
  "\<lambda>i. create_bound (snd i)" for pg
  by unfold_locales (use store_extend_Some in blast)+

definition rows_of :: "uuid \<Rightarrow> db \<Rightarrow> action_row list" where
  "rows_of sid d = filter (\<lambda>r. ar_session_id r = sid) (db_actions d)"

text \<open>Every row belongs to a session, and a session's rows are the chain its denormalised fields
  describe.\<close>

definition db_inv :: "db \<Rightarrow> bool" where
  "db_inv d \<longleftrightarrow>
     (\<forall>r \<in> set (db_actions d). db_sessions d (ar_session_id r) \<noteq> None) \<and>
     (\<forall>sid s. db_sessions d sid = Some s \<longrightarrow>
        chained None 0 (map row_dict (rows_of sid d)) \<and>
        sr_chain_tail_hash s = tail_of None (map row_dict (rows_of sid d)) \<and>
        sr_chain_head_hash s = (if rows_of sid d = [] then None else Some (ar_self_hash (hd (rows_of sid d)))) \<and>
        sr_action_count s = int (length (rows_of sid d)))"

lemma rows_of_create:
  "create_with_hash pg a c d = (Inr row, d') \<Longrightarrow>
    rows_of sid d' = rows_of sid d @ (if sid = ac_session_id c then [row] else [])"
  by (auto simp: create_with_hash_def rows_of_def Let_def split: option.splits)

lemma create_with_hash_inv:
  assumes inv: "db_inv d" and pg: "pg (ac_timestamp c) = ac_timestamp c" and bd: "create_bound c"
    and cr: "create_with_hash pg a c d = (Inr row, d')"
  shows "db_inv d'"
proof -
  let ?sid = "ac_session_id c"
  from cr obtain s where s: "db_sessions d ?sid = Some s" and row: "row = new_action pg a c s"
    and d': "d' = d\<lparr>db_actions := db_actions d @ [row],
                db_sessions := (db_sessions d)(?sid \<mapsto> advance_session row s)\<rparr>"
    by (auto simp: create_with_hash_def Let_def split: option.splits)
  have ch: "chained None 0 (map row_dict (rows_of ?sid d))"
    "sr_chain_tail_hash s = tail_of None (map row_dict (rows_of ?sid d))"
    "sr_chain_head_hash s = (if rows_of ?sid d = [] then None else Some (ar_self_hash (hd (rows_of ?sid d))))"
    "sr_action_count s = int (length (rows_of ?sid d))"
    using inv s unfolding db_inv_def by blast+
  have ext: "store_extend pg (a, c) s = Some (row_dict row, advance_session row s)"
    using pg by (simp add: row Let_def)
  have "record_sound (row_dict row)"
    using store_extend_Some [OF ext] bd by (simp add: record_sound_def next_link_def bound_def)
  moreover have "hash_of (row_canonical row) = ar_self_hash row"
    using pg by (simp add: row new_action_canonical)
  ultimately have "chained None 0 (map row_dict (rows_of ?sid d @ [row])) \<and>
      sr_chain_tail_hash (advance_session row s) = tail_of None (map row_dict (rows_of ?sid d @ [row])) \<and>
      sr_action_count (advance_session row s) = int (length (rows_of ?sid d @ [row])) \<and>
      sr_chain_head_hash (advance_session row s) = Some (ar_self_hash (hd (rows_of ?sid d @ [row])))"
    using ch by (auto simp: chained_append row advance_session_def tail_of_def hd_append)
  moreover have "rows_of sid d' = rows_of sid d @ (if sid = ?sid then [row] else [])" for sid
    by (rule rows_of_create [OF cr])
  ultimately show ?thesis
    using inv unfolding db_inv_def by (auto simp: d' row)
qed

fun create_all :: "(string \<Rightarrow> string) \<Rightarrow> (uuid \<times> action_create) list \<Rightarrow> db \<Rightarrow> db" where
  "create_all pg [] d = d"
| "create_all pg ((a, c) # cs) d = create_all pg cs (snd (create_with_hash pg a c d))"

lemma create_keeps_on_error: "create_with_hash pg a c d = (Inl e, d') \<Longrightarrow> d' = d"
  by (auto simp: create_with_hash_def Let_def split: option.splits)

lemma create_all_inv:
  "db_inv d \<Longrightarrow> list_all (\<lambda>(a, c). pg (ac_timestamp c) = ac_timestamp c \<and> create_bound c) cs \<Longrightarrow>
    db_inv (create_all pg cs d)"
proof (induction pg cs d rule: create_all.induct)
  case (2 pg a c cs d)
  obtain r d' where cr: "create_with_hash pg a c d = (r, d')" by (cases "create_with_hash pg a c d")
  have "db_inv d'"
  proof (cases r)
    case (Inl e)
    with cr have "d' = d" using create_keeps_on_error by blast
    with "2.prems"(1) show ?thesis by simp
  next
    case (Inr row)
    with cr "2.prems" create_with_hash_inv [of d pg c a row d'] show ?thesis by simp
  qed
  with 2 cr show ?case by simp
qed simp

lemma inv_get_session_chain:
  assumes "db_inv d" and "db_sessions d sid = Some s"
  shows "get_session_chain sid d = rows_of sid d"
proof -
  have "chained None 0 (map row_dict (rows_of sid d))" using assms by (auto simp: db_inv_def)
  then have "sorted (map ar_sequence_number (rows_of sid d))"
    using chained_sorted by (fastforce simp: comp_def)
  then show ?thesis
    by (simp add: get_session_chain_def rows_of_def sort_key_id_if_sorted)
qed

lemma inv_valid:
  assumes inv: "db_inv d" and s: "db_sessions d sid = Some s"
  shows "\<exists>r. verify_chain sid d = Inr r \<and> cr_verdict r = VALID \<and> cr_valid r \<and>
    int (cr_record_count r) = sr_action_count s \<and> cr_missing_ranges r = []"
proof -
  let ?ds = "map row_dict (rows_of sid d)"
  have ch: "chained None 0 ?ds" and n: "sr_action_count s = int (length (rows_of sid d))"
    using assms by (auto simp: db_inv_def)
  have i: "intact ?ds" "int_keyed ?ds" using intact_subchain [OF ch, of ?ds ?ds] by simp_all
  have "absent (seqs ?ds) = {}"
    unfolding chained_set_seqs [OF ch] by (auto simp: absent_def)
  moreover from this have "missing_ranges (map seq_key ?ds) = []"
    unfolding missing_ranges_Nil present_seqs_int_keyed [OF i(2)] .
  ultimately show ?thesis
    using verify_chain_characterised [of sid d] i(1) n inv_get_session_chain [OF inv s] by auto
qed

lemma intact_perm:
  assumes "mset xs = mset ys"
  shows "intact xs = intact ys"
proof -
  have set: "set xs = set ys" using assms by (rule mset_eq_setD)
  have d: "distinct (map seq_of xs) = distinct (map seq_of ys)"
    using assms by (metis mset_eq_imp_distinct_iff mset_map)
  have "sort_key seq_of xs = sort_key seq_of ys" if "distinct (map seq_of ys)"
    using that assms set by (intro sort_key_inj_key_eq) (simp_all add: distinct_map)
  with d set show ?thesis by (auto simp: intact_def)
qed

section \<open>Properties of the store\<close>

definition sample_create :: action_create where
  "sample_create = \<lparr>ac_session_id = 3, ac_decision_id = None, ac_policy_id = None,
     ac_tool_name = ''search'', ac_input_hash = ''aa'', ac_output_hash = None,
     ac_input_redacted = JNull, ac_output_redacted = JNull, ac_timestamp = ''t'',
     ac_duration_ms = None, ac_authorization_status = ''auto_authorized''\<rparr>"

definition sample_session :: session_row where
  "sample_session = \<lparr>sr_agent_id = 1, sr_user_id = None, sr_objective = None, sr_status = ''running'',
     sr_end_time = None, sr_action_count = 0, sr_decision_count = 0, sr_chain_head_hash = None,
     sr_chain_tail_hash = None, sr_metadata = JNull\<rparr>"

definition sample_db :: db where
  "sample_db = \<lparr>db_agents = [1], db_sessions = [3 \<mapsto> sample_session], db_actions = [],
     db_decisions = [], db_approvals = []\<rparr>"

lemma sample_db_inv: "db_inv sample_db"
  by (simp add: db_inv_def sample_db_def sample_session_def rows_of_def tail_of_def)

text \<open>Actions of any sessions, written in any interleaving, leave every session's rows a dense,
  linked chain: the store's verifier says VALID, counts what the session row counts and reports
  no gap, provided Postgres gives timestamps back in the form they were hashed in.\<close>

theorem store_chains_verify:
  assumes "db_inv d" and "list_all (\<lambda>(a, c). pg (ac_timestamp c) = ac_timestamp c \<and> create_bound c) cs"
    and "db_sessions (create_all pg cs d) sid = Some s"
  shows "\<exists>r. verify_chain sid (create_all pg cs d) = Inr r \<and> cr_verdict r = VALID \<and> cr_valid r \<and>
    int (cr_record_count r) = sr_action_count s \<and> cr_missing_ranges r = []"
  by (rule inv_valid [OF create_all_inv [OF assms(1,2)] assms(3)])

theorem store_chains_verify_witness:
  "\<exists>r. verify_chain 3 (create_all id [(7, sample_create), (8, sample_create)] sample_db) = Inr r \<and>
     cr_verdict r = VALID \<and> cr_record_count r = 2"
proof -
  let ?d = "create_all id [(7, sample_create), (8, sample_create)] sample_db"
  have "\<exists>s. db_sessions ?d 3 = Some s \<and> sr_action_count s = 2"
    by (simp add: create_with_hash_def sample_db_def sample_create_def sample_session_def Let_def
        advance_session_def new_action_def)
  then obtain s where s: "db_sessions ?d 3 = Some s" "sr_action_count s = 2" by blast
  have "list_all (\<lambda>(a, c). id (ac_timestamp c) = ac_timestamp c \<and> create_bound c)
      [(7, sample_create), (8, sample_create)]"
    by (simp add: create_bound_def sample_create_def)
  from store_chains_verify [OF sample_db_inv this s(1)] s(2) show ?thesis by force
qed



text \<open>The two write paths are the same sealer: from the same tail and count, with the same id,
  session and fields, the store's row and the client-side seal carry the same sequence number,
  the same predecessor and the same self hash.\<close>

theorem store_and_client_seal_alike:
  assumes "sealable payload" and "seal action_id (uuid_str (ac_session_id c)) payload st = (Inr sa, st')"
    and "cs_tail st = sr_chain_tail_hash session" and "cs_count st = sr_action_count session"
    and "dget payload ''tool_name'' = JStr (ac_tool_name c)"
    and "dget payload ''input_hash'' = JStr (ac_input_hash c)"
    and "dget payload ''output_hash'' = opt_str (ac_output_hash c)"
    and "dget payload ''timestamp'' = JStr (ac_timestamp c)"
  shows "sa_sequence_number sa = ar_sequence_number (new_action pg action_id c session) \<and>
    sa_prev_action_hash sa = opt_str (ar_prev_action_hash (new_action pg action_id c session)) \<and>
    sa_self_hash sa = ar_self_hash (new_action pg action_id c session)"
proof -
  have "link_dict action_id (uuid_str (ac_session_id c)) (cs_tail st) (cs_count st + 1) payload
      = canonical_input action_id c (sr_chain_tail_hash session) (sr_action_count session + 1)"
    using assms(3-8) by (simp add: link_dict_def canonical_input_def)
  with assms(2-4) show ?thesis by (auto simp: seal_fresh [OF assms(1)] Let_def)
qed

theorem store_and_client_seal_alike_witness:
  "\<exists>sa st'. seal 7 (uuid_str 3) sample_payload new_chain = (Inr sa, st') \<and>
     sa_self_hash sa = ar_self_hash (new_action id 7 sample_create sample_session)"
proof -
  obtain sa st' where s: "seal 7 (uuid_str (ac_session_id sample_create)) sample_payload new_chain = (Inr sa, st')"
    by (simp add: seal_fresh [OF sealable_sample] Let_def)
  have "sa_self_hash sa = ar_self_hash (new_action id 7 sample_create sample_session)"
    using store_and_client_seal_alike [OF sealable_sample s, of sample_session id]
    by (simp add: new_chain_def sample_session_def sample_payload_def sample_create_def dict_simps opt_str_def)
  with s show ?thesis by (simp add: sample_create_def)
qed

lemma typed_canonical_input: "typed_action (canonical_input a c p n)"
  by (auto simp: typed_action_def canonical_input_def dict_simps str_or_null_def opt_str_def
      split: option.splits)

lemma dict_ok_row: "dict_ok (row_canonical r)"
  by (simp add: dict_ok_def row_canonical_def opt_str_def split: option.splits)

text \<open>The hash is taken over the timestamp as the client wrote it: when Postgres gives it back in
  another form (an instant with a non-UTC offset comes back in UTC), the untouched session
  verifies as TAMPERED, or the two texts collide.\<close>

theorem renormalised_timestamp_reads_as_tampering:
  assumes "create_with_hash pg action_id c d = (Inr row, d')" and "pg (ac_timestamp c) \<noteq> ac_timestamp c"
    and "verify_chain (ac_session_id c) d' = Inr r"
  shows "cr_verdict r = TAMPERED \<or> (\<exists>prev n. collide (canonical_input action_id c prev n) (row_canonical row))"
proof (rule disjCI)
  assume none: "\<not> (\<exists>prev n. collide (canonical_input action_id c prev n) (row_canonical row))"
  obtain s where row: "row = new_action pg action_id c s" and "row \<in> set (db_actions d')"
    using assms(1) by (auto simp: create_with_hash_def Let_def split: option.splits)
  then have inset: "row \<in> set (get_session_chain (ac_session_id c) d')" by (simp add: get_session_chain_def)
  let ?in = "canonical_input action_id c (sr_chain_tail_hash s) (sr_action_count s + 1)"
  have "hash_of ?in \<noteq> hash_of (row_canonical row)"
  proof
    assume "hash_of ?in = hash_of (row_canonical row)"
    then have "canonical_of ?in = canonical_of (row_canonical row)"
      using same_hash [OF typed_canonical_input dict_ok_row] none by blast
    with assms(2) show False
      by (simp add: canonical_of_def canonical_input_def row_canonical_def dict_simps row)
  qed
  then have "\<not> record_sound (row_dict row)" by (simp add: row_sound row)
  then have "\<not> intact (map row_dict (get_session_chain (ac_session_id c) d'))"
    using inset by (auto simp: intact_def)
  with verify_chain_characterised [of "ac_session_id c" d'] assms(3) show "cr_verdict r = TAMPERED" by simp
qed

theorem renormalised_timestamp_reads_as_tampering_witness:
  "\<exists>row d' r. create_with_hash (\<lambda>_. ''u'') 7 sample_create sample_db = (Inr row, d') \<and>
     verify_chain 3 d' = Inr r \<and>
     (cr_verdict r = TAMPERED \<or> (\<exists>prev n. collide (canonical_input 7 sample_create prev n) (row_canonical row)))"
proof -
  obtain row d' where c: "create_with_hash (\<lambda>_. ''u'') 7 sample_create sample_db = (Inr row, d')"
    by (simp add: create_with_hash_def sample_db_def sample_create_def Let_def)
  obtain r where r: "verify_chain 3 d' = Inr r" using verify_chain_characterised [of 3 d'] by blast
  have "ac_session_id sample_create = 3" "(\<lambda>_. ''u'') (ac_timestamp sample_create) \<noteq> ac_timestamp sample_create"
    by (simp_all add: sample_create_def)
  with renormalised_timestamp_reads_as_tampering [OF c] c r show ?thesis by fastforce
qed

end
