(* ===== verification/Approval_Store.thy ===== *)
theory Approval_Store
  imports Action_Store
begin

text \<open>
  \<^verbatim>\<open>rootsign/crud/approval.py\<close>: recording an approval and moving its action's
  authorization status, on the ingest path (looked up by session and action) and on the
  checkpoint path (looked up by action and timestamp). The id of the new row and the clock are
  arguments. The tables' CHECK constraints and row locks are not modelled.
\<close>

definition decision_to_auth_status :: "string \<Rightarrow> string option" where
  "decision_to_auth_status decision =
     map_of [(''approved'', ''human_approved''), (''rejected'', ''human_rejected''),
             (''escalated'', ''pending'')] decision"

definition terminal_auth_states :: "string list" where
  "terminal_auth_states = [''human_approved'', ''human_rejected'', ''timed_out'']"

definition terminal :: "action_row \<Rightarrow> bool" where
  "terminal a \<longleftrightarrow> ar_authorization_status a \<in> set terminal_auth_states"

definition timeout_approver_type :: string where
  "timeout_approver_type = ''timeout_auto_rejected''"

record approval_create =
  pc_action_id :: uuid
  pc_session_id :: uuid
  pc_approver_id :: string
  pc_approver_type :: string
  pc_decision :: string
  pc_decision_reason :: "string option"
  pc_timestamp :: int
  pc_parent_approval_id :: "uuid option"

text \<open>\<open>scalar_one_or_none()\<close>.\<close>

definition one_or_none :: "'a list \<Rightarrow> store_exn + 'a option" where
  "one_or_none xs = (case xs of [] \<Rightarrow> Inr None | [x] \<Rightarrow> Inr (Some x) | _ \<Rightarrow> Inl Multiple_Results)"

definition set_status :: "(action_row \<Rightarrow> bool) \<Rightarrow> string \<Rightarrow> db \<Rightarrow> db" where
  "set_status p status d =
     d\<lparr>db_actions := map (\<lambda>a. if p a then a\<lparr>ar_authorization_status := status\<rparr> else a) (db_actions d)\<rparr>"

definition add_approval :: "approval_row \<Rightarrow> db \<Rightarrow> db" where
  "add_approval row d = d\<lparr>db_approvals := db_approvals d @ [row]\<rparr>"

section \<open>The ingest path\<close>

text \<open>Steps 3 and 4: the two-level escalation rule and the parent lookup.\<close>

definition check_parent :: "approval_create \<Rightarrow> db \<Rightarrow> store_exn + unit" where
  "check_parent obj_in d =
     (if pc_decision obj_in = ''escalated'' \<and> pc_parent_approval_id obj_in \<noteq> None
      then Inl (Ingest IngestValidationError ''chained escalation'')
      else (case pc_parent_approval_id obj_in of
              None \<Rightarrow> Inr ()
            | Some pid \<Rightarrow>
                sbind (one_or_none (filter (\<lambda>p. pr_approval_id p = pid) (db_approvals d))) (\<lambda>parent.
                  case parent of
                    None \<Rightarrow> Inl (Ingest ApprovalParentNotFoundError ''not found'')
                  | Some p \<Rightarrow>
                      if pr_action_id p \<noteq> pc_action_id obj_in
                      then Inl (Ingest ApprovalParentNotFoundError ''other action'')
                      else if pr_decision p \<noteq> ''escalated''
                      then Inl (Ingest IngestValidationError ''parent is not escalated'')
                      else Inr ())))"

definition create_with_action_status_update ::
  "uuid \<Rightarrow> approval_create \<Rightarrow> db \<Rightarrow> (store_exn + approval_row) \<times> db" where
  "create_with_action_status_update approval_id obj_in d =
     (case one_or_none (filter (\<lambda>a. ar_session_id a = pc_session_id obj_in
                                  \<and> ar_action_id a = pc_action_id obj_in) (db_actions d)) of
        Inl e \<Rightarrow> (Inl e, d)
      | Inr None \<Rightarrow> (Inl (Ingest ActionNotFoundError ''not found in session''), d)
      | Inr (Some action) \<Rightarrow>
          if terminal action
          then (Inl (Ingest ActionAlreadyResolvedError ''already resolved''), d)
          else (case check_parent obj_in d of
                  Inl e \<Rightarrow> (Inl e, d)
                | Inr _ \<Rightarrow>
                    (case decision_to_auth_status (pc_decision obj_in) of
                       None \<Rightarrow> (Inl Schema_Invalid, d)
                     | Some new_status \<Rightarrow>
                         let row = \<lparr>pr_approval_id = approval_id, pr_action_id = pc_action_id obj_in,
                                    pr_session_id = pc_session_id obj_in,
                                    pr_approver_id = pc_approver_id obj_in,
                                    pr_approver_type = pc_approver_type obj_in,
                                    pr_decision = pc_decision obj_in,
                                    pr_decision_reason = pc_decision_reason obj_in,
                                    pr_timestamp = pc_timestamp obj_in,
                                    pr_parent_approval_id = pc_parent_approval_id obj_in\<rparr>
                         in (Inr row,
                             set_status (\<lambda>a. ar_session_id a = pc_session_id obj_in
                                             \<and> ar_action_id a = pc_action_id obj_in) new_status
                               (add_approval row d)))))"

section \<open>The checkpoint path\<close>

definition create_with_chain_link ::
  "uuid \<Rightarrow> int \<Rightarrow> uuid \<Rightarrow> string \<Rightarrow> string \<Rightarrow> string \<Rightarrow> string \<Rightarrow> string option \<Rightarrow> uuid option \<Rightarrow> db \<Rightarrow>
    (store_exn + approval_row) \<times> db" where
  "create_with_chain_link approval_id now action_id action_timestamp approver_id approver_type decision
       decision_reason parent d =
     (case one_or_none (filter (\<lambda>a. ar_action_id a = action_id \<and> ar_timestamp a = action_timestamp)
                          (db_actions d)) of
        Inl e \<Rightarrow> (Inl e, d)
      | Inr None \<Rightarrow> (Inl (Ingest ActionNotFoundError ''not found in hypertable''), d)
      | Inr (Some action) \<Rightarrow>
          if terminal action
          then (Inl (Ingest ActionAlreadyResolvedError ''already resolved''), d)
          else (case (if approver_type = timeout_approver_type then Some ''timed_out''
                      else decision_to_auth_status decision) of
                  None \<Rightarrow> (Inl (Ingest IngestValidationError ''Unknown decision''), d)
                | Some new_status \<Rightarrow>
                    let row = \<lparr>pr_approval_id = approval_id, pr_action_id = action_id,
                               pr_session_id = ar_session_id action, pr_approver_id = approver_id,
                               pr_approver_type = approver_type, pr_decision = decision,
                               pr_decision_reason = decision_reason, pr_timestamp = now,
                               pr_parent_approval_id = parent\<rparr>
                    in (Inr row,
                        set_status (\<lambda>a. ar_action_id a = action_id \<and> ar_timestamp a = action_timestamp)
                          new_status (add_approval row d))))"

section \<open>One vote\<close>

text \<open>A vote by either path, as one step on the tables.\<close>

datatype vote =
    By_Ingest uuid approval_create
  | By_Checkpoint uuid int uuid string string string string "string option" "uuid option"

fun cast_vote :: "vote \<Rightarrow> db \<Rightarrow> (store_exn + approval_row) \<times> db" where
  "cast_vote (By_Ingest i obj_in) d = create_with_action_status_update i obj_in d"
| "cast_vote (By_Checkpoint i now a ts who ty decision reason parent) d =
     create_with_chain_link i now a ts who ty decision reason parent d"

fun votes :: "vote list \<Rightarrow> db \<Rightarrow> db" where
  "votes [] d = d"
| "votes (v # vs) d = votes vs (snd (cast_vote v d))"

lemma one_or_none_Some: "one_or_none xs = Inr (Some x) \<longleftrightarrow> xs = [x]"
  by (auto simp: one_or_none_def split: list.splits)

text \<open>A successful vote moves the status of one row that was not terminal, and nothing else of the
  actions.\<close>

definition resolves :: "(action_row \<Rightarrow> bool) \<Rightarrow> db \<Rightarrow> (store_exn + approval_row) \<times> db \<Rightarrow> bool" where
  "resolves p d out \<longleftrightarrow>
     (case out of
        (Inl e, d') \<Rightarrow> d' = d
      | (Inr row, d') \<Rightarrow> \<exists>a status. filter p (db_actions d) = [a] \<and> \<not> terminal a \<and>
          d' = set_status p status (add_approval row d))"

lemma ingest_resolves:
  "resolves (\<lambda>a. ar_session_id a = pc_session_id p \<and> ar_action_id a = pc_action_id p) d
     (create_with_action_status_update i p d)"
  unfolding create_with_action_status_update_def Let_def
  by (auto simp: resolves_def one_or_none_Some split: sum.split option.split)

lemma checkpoint_resolves:
  "resolves (\<lambda>b. ar_action_id b = a \<and> ar_timestamp b = ts) d
     (create_with_chain_link i now a ts who ty decision reason parent d)"
  unfolding create_with_chain_link_def Let_def
  by (auto simp: resolves_def one_or_none_Some split: sum.split option.split)

lemma cast_vote_actions:
  assumes "cast_vote v d = (res, d')"
  shows "(\<exists>e. res = Inl e \<and> d' = d) \<or>
    (\<exists>row p a status. res = Inr row \<and> filter p (db_actions d) = [a] \<and> \<not> terminal a \<and>
       d' = set_status p status (add_approval row d))"
proof -
  have "\<exists>p. resolves p d (res, d')"
  proof (cases v)
    case (By_Ingest i p)
    then show ?thesis using assms ingest_resolves [where d = d and p = p and i = i] by auto
  next
    case (By_Checkpoint i now a ts who ty decision reason parent)
    with assms checkpoint_resolves [of a ts d i now who ty decision reason parent] show ?thesis by auto
  qed
  then show ?thesis by (cases res) (auto simp: resolves_def)
qed

lemma set_status_rows:
  "db_actions (set_status p st d) = map (\<lambda>a. if p a then a\<lparr>ar_authorization_status := st\<rparr> else a) (db_actions d)"
  "db_sessions (set_status p st d) = db_sessions d"
  "db_approvals (set_status p st d) = db_approvals d"
  "db_actions (add_approval row d) = db_actions d"
  "db_sessions (add_approval row d) = db_sessions d"
  "db_approvals (add_approval row d) = db_approvals d @ [row]"
  by (simp_all add: set_status_def add_approval_def)

text \<open>Nothing the chain hashes depends on the status.\<close>

lemma row_canonical_status [simp]:
  "row_canonical (a\<lparr>ar_authorization_status := st\<rparr>) = row_canonical a"
  "row_dict (a\<lparr>ar_authorization_status := st\<rparr>) = row_dict a"
  "payload_binding_error (a\<lparr>ar_authorization_status := st\<rparr>) = payload_binding_error a"
  by (simp_all add: row_canonical_def row_dict_def payload_binding_error_def)

lemma walk_rows_status:
  "walk_rows gaps seen prev (map (\<lambda>a. if p a then a\<lparr>ar_authorization_status := st\<rparr> else a) rs)
     = walk_rows gaps seen prev rs"
proof (induction rs arbitrary: seen prev)
  case (Cons a rs)
  show ?case
    using Cons.IH
    by (cases "p a"; cases "payload_binding_error a") (simp_all add: Let_def cong: if_cong)
qed simp

lemma get_session_chain_status:
  "get_session_chain sid (set_status p st d) =
     map (\<lambda>a. if p a then a\<lparr>ar_authorization_status := st\<rparr> else a) (get_session_chain sid d)"
proof -
  let ?f = "\<lambda>a. if p a then a\<lparr>ar_authorization_status := st\<rparr> else a"
  have "filter (\<lambda>r. ar_session_id r = sid) (map ?f xs) = map ?f (filter (\<lambda>r. ar_session_id r = sid) xs)" for xs
    by (induction xs) auto
  moreover have "insort_key ar_sequence_number (?f x) (map ?f xs) = map ?f (insort_key ar_sequence_number x xs)" for x xs
    by (induction xs) auto
  then have "sort_key ar_sequence_number (map ?f xs) = map ?f (sort_key ar_sequence_number xs)" for xs
    by (induction xs) simp_all
  ultimately show ?thesis by (simp add: get_session_chain_def set_status_rows)
qed

lemma verify_chain_status: "verify_chain sid (set_status p st d) = verify_chain sid d"
proof -
  let ?f = "\<lambda>a. if p a then a\<lparr>ar_authorization_status := st\<rparr> else a"
  have "(\<lambda>a. JInt (ar_sequence_number a)) \<circ> ?f = (\<lambda>a. JInt (ar_sequence_number a))"
    by (simp add: fun_eq_iff)
  then show ?thesis
    unfolding verify_chain_def get_session_chain_status Let_def by (simp add: walk_rows_status)
qed

lemma verify_chain_approval: "verify_chain sid (add_approval row d) = verify_chain sid d"
  by (simp add: verify_chain_def get_session_chain_def set_status_rows)

section \<open>Properties of approvals\<close>

definition sample_pending :: db where
  "sample_pending = snd (create_with_hash id 7
     (sample_create\<lparr>ac_authorization_status := ''pending''\<rparr>) sample_db)"

definition sample_vote :: "string \<Rightarrow> vote" where
  "sample_vote decision = By_Ingest 11 \<lparr>pc_action_id = 7, pc_session_id = 3, pc_approver_id = ''ann'',
     pc_approver_type = ''human'', pc_decision = decision, pc_decision_reason = None,
     pc_timestamp = 5, pc_parent_approval_id = None\<rparr>"

lemma sample_pending_actions:
  "\<exists>a. db_actions sample_pending = [a] \<and> ar_session_id a = 3 \<and> ar_action_id a = 7 \<and>
     ar_authorization_status a = ''pending''"
  by (simp add: sample_pending_def create_with_hash_def sample_db_def sample_create_def Let_def
      new_action_def)

lemma sample_approved:
  "\<exists>row. fst (cast_vote (sample_vote ''approved'') sample_pending) = Inr row"
  "\<exists>a. db_actions (snd (cast_vote (sample_vote ''approved'') sample_pending)) = [a] \<and>
     ar_authorization_status a = ''human_approved'' \<and> ar_session_id a = 3 \<and> ar_action_id a = 7"
proof -
  obtain a where a: "db_actions sample_pending = [a]" "ar_session_id a = 3" "ar_action_id a = 7"
    "ar_authorization_status a = ''pending''"
    using sample_pending_actions by blast
  then show "\<exists>row. fst (cast_vote (sample_vote ''approved'') sample_pending) = Inr row"
    and "\<exists>a. db_actions (snd (cast_vote (sample_vote ''approved'') sample_pending)) = [a] \<and>
     ar_authorization_status a = ''human_approved'' \<and> ar_session_id a = 3 \<and> ar_action_id a = 7"
    by (simp_all add: sample_vote_def create_with_action_status_update_def one_or_none_def terminal_def
        terminal_auth_states_def check_parent_def decision_to_auth_status_def Let_def set_status_rows)
qed

text \<open>C31. Terminal states absorb: an action that is approved, rejected or timed out keeps that status
  through every further vote, by whichever path it is cast.\<close>

theorem resolved_stays_resolved:
  assumes "i < length (db_actions d)" and "terminal (db_actions d ! i)"
  shows "i < length (db_actions (votes vs d)) \<and> db_actions (votes vs d) ! i = db_actions d ! i"
  using assms
proof (induction vs arbitrary: d)
  case Nil
  then show ?case by simp
next
  case (Cons v vs)
  obtain res d' where v: "cast_vote v d = (res, d')" by (cases "cast_vote v d")
  have same: "length (db_actions d') = length (db_actions d) \<and> db_actions d' ! i = db_actions d ! i"
    using cast_vote_actions [OF v]
  proof
    assume "\<exists>e. res = Inl e \<and> d' = d"
    then show ?thesis by auto
  next
    assume "\<exists>row p a status. res = Inr row \<and> filter p (db_actions d) = [a] \<and> \<not> terminal a \<and>
       d' = set_status p status (add_approval row d)"
    then obtain row p a status where f: "filter p (db_actions d) = [a]" "\<not> terminal a"
      "d' = set_status p status (add_approval row d)" by blast
    have "\<not> p (db_actions d ! i)"
    proof
      assume "p (db_actions d ! i)"
      then have "db_actions d ! i \<in> set (filter p (db_actions d))" using Cons.prems(1) by simp
      with f(1,2) Cons.prems(2) show False by simp
    qed
    with f(3) Cons.prems(1) show ?thesis by (simp add: set_status_rows)
  qed
  with Cons.IH [of d'] Cons.prems v show ?case by simp
qed

theorem resolved_stays_resolved_witness:
  "let d = snd (cast_vote (sample_vote ''approved'') sample_pending) in
     db_actions (votes [sample_vote ''rejected''] d) ! 0 = db_actions d ! 0"
proof -
  let ?d = "snd (cast_vote (sample_vote ''approved'') sample_pending)"
  have "0 < length (db_actions ?d)" "terminal (db_actions ?d ! 0)"
    using sample_approved(2) by (auto simp: terminal_def terminal_auth_states_def)
  from resolved_stays_resolved [OF this, of "[sample_vote ''rejected'']"] show ?thesis
    unfolding Let_def by blast
qed

text \<open>A vote on a resolved action raises \<open>ActionAlreadyResolved\<close> on both paths and changes no
  table.\<close>

theorem late_vote_refused:
  assumes "filter (\<lambda>a. ar_session_id a = pc_session_id p \<and> ar_action_id a = pc_action_id p) (db_actions d) = [a]"
    and "filter (\<lambda>b. ar_action_id b = ar_action_id a \<and> ar_timestamp b = ar_timestamp a) (db_actions d) = [a]"
    and "terminal a"
  shows "\<exists>m m'. create_with_action_status_update i p d = (Inl (Ingest ActionAlreadyResolvedError m), d) \<and>
    create_with_chain_link j now (ar_action_id a) (ar_timestamp a) who ty decision reason parent d
      = (Inl (Ingest ActionAlreadyResolvedError m'), d)"
  using assms by (simp add: create_with_action_status_update_def create_with_chain_link_def one_or_none_def)

theorem late_vote_refused_witness:
  "let d = snd (cast_vote (sample_vote ''approved'') sample_pending) in
     \<exists>m. create_with_chain_link 12 9 7 (ar_timestamp (hd (db_actions d))) ''bob'' ''human'' ''rejected'' None None d
       = (Inl (Ingest ActionAlreadyResolvedError m), d)"
proof -
  let ?d = "snd (cast_vote (sample_vote ''approved'') sample_pending)"
  let ?p = "\<lparr>pc_action_id = 7, pc_session_id = 3, pc_approver_id = ''bob'', pc_approver_type = ''human'',
    pc_decision = ''rejected'', pc_decision_reason = None, pc_timestamp = 6, pc_parent_approval_id = None\<rparr>"
  obtain a where a: "db_actions ?d = [a]" "ar_authorization_status a = ''human_approved''"
    "ar_session_id a = 3" "ar_action_id a = 7" using sample_approved(2) by blast
  have "terminal a" using a(2) by (simp add: terminal_def terminal_auth_states_def)
  with late_vote_refused [of ?p ?d a 12 12 9 "''bob''" "''human''" "''rejected''" None None] a
  show ?thesis by (simp add: Let_def)
qed

text \<open>Votes never touch the chain: whatever is voted, the store's verifier returns the same report
  for every session as before.\<close>

theorem votes_keep_the_chain:
  shows "verify_chain sid (votes vs d) = verify_chain sid d"
proof (induction vs arbitrary: d)
  case (Cons v vs)
  obtain res d' where v: "cast_vote v d = (res, d')" by (cases "cast_vote v d")
  then have "verify_chain sid d' = verify_chain sid d"
    using cast_vote_actions [OF v] verify_chain_status verify_chain_approval by auto
  with Cons.IH v show ?case by simp
qed simp

text \<open>On the ingest path escalation has two levels: when every approval that names a parent names
  an escalated approval of the same action that has no parent itself, the next one does too.\<close>

theorem escalation_two_levels:
  assumes "\<forall>q \<in> set (db_approvals d). \<forall>pid. pr_parent_approval_id q = Some pid \<longrightarrow>
      pr_decision q \<noteq> ''escalated'' \<and>
      (\<exists>p \<in> set (db_approvals d). pr_approval_id p = pid \<and> pr_decision p = ''escalated'' \<and>
         pr_action_id p = pr_action_id q \<and> pr_parent_approval_id p = None)"
    and "create_with_action_status_update i obj_in d = (res, d')"
  shows "\<forall>q \<in> set (db_approvals d'). \<forall>pid. pr_parent_approval_id q = Some pid \<longrightarrow>
      pr_decision q \<noteq> ''escalated'' \<and>
      (\<exists>p \<in> set (db_approvals d'). pr_approval_id p = pid \<and> pr_decision p = ''escalated'' \<and>
         pr_action_id p = pr_action_id q \<and> pr_parent_approval_id p = None)"
proof (cases res)
  case (Inl e)
  then have "d' = d"
    using assms(2) by (auto simp: create_with_action_status_update_def Let_def
        split: sum.splits option.splits if_splits)
  with assms(1) show ?thesis by simp
next
  case (Inr row)
  then have row: "pr_parent_approval_id row = pc_parent_approval_id obj_in"
      "pr_decision row = pc_decision obj_in" "pr_action_id row = pc_action_id obj_in"
    and apps: "db_approvals d' = db_approvals d @ [row]"
    and chk: "check_parent obj_in d = Inr ()"
    using assms(2) by (auto simp: create_with_action_status_update_def Let_def set_status_rows
        split: sum.splits option.splits if_splits)
  have new: "pr_decision row \<noteq> ''escalated'' \<and>
      (\<exists>p \<in> set (db_approvals d). pr_approval_id p = pid \<and> pr_decision p = ''escalated'' \<and>
         pr_action_id p = pr_action_id row \<and> pr_parent_approval_id p = None)"
    if "pr_parent_approval_id row = Some pid" for pid
  proof -
    from chk that row obtain p where p: "filter (\<lambda>p. pr_approval_id p = pid) (db_approvals d) = [p]"
      "pr_action_id p = pc_action_id obj_in" "pr_decision p = ''escalated''" "pc_decision obj_in \<noteq> ''escalated''"
      by (auto simp: check_parent_def sbind_eq_Inr one_or_none_Some split: if_splits option.splits)
    then have "p \<in> set (db_approvals d)" "pr_approval_id p = pid"
      by (metis (mono_tags, lifting) list.set_intros(1) mem_Collect_eq set_filter)+
    moreover from this have "pr_parent_approval_id p = None" using assms(1) p(3) by (metis not_None_eq)
    ultimately show ?thesis using p row by auto
  qed
  show ?thesis unfolding apps using assms(1) new by fastforce
qed

theorem escalation_two_levels_witness:
  "\<exists>res d'. cast_vote (sample_vote ''escalated'') sample_pending = (res, d') \<and>
     (\<forall>q \<in> set (db_approvals d'). \<forall>pid. pr_parent_approval_id q = Some pid \<longrightarrow>
        pr_decision q \<noteq> ''escalated'' \<and>
        (\<exists>p \<in> set (db_approvals d'). pr_approval_id p = pid \<and> pr_decision p = ''escalated'' \<and>
           pr_action_id p = pr_action_id q \<and> pr_parent_approval_id p = None))"
proof -
  have none: "db_approvals sample_pending = []"
    by (simp add: sample_pending_def create_with_hash_def sample_db_def Let_def sample_create_def)
  obtain res d' where c: "cast_vote (sample_vote ''escalated'') sample_pending = (res, d')"
    by (cases "cast_vote (sample_vote ''escalated'') sample_pending")
  from c [unfolded sample_vote_def cast_vote.simps] have c': "create_with_action_status_update 11
     \<lparr>pc_action_id = 7, pc_session_id = 3, pc_approver_id = ''ann'', pc_approver_type = ''human'',
      pc_decision = ''escalated'', pc_decision_reason = None, pc_timestamp = 5,
      pc_parent_approval_id = None\<rparr> sample_pending = (res, d')" .
  show ?thesis using escalation_two_levels [OF _ c'] c none by simp
qed

end
