(* ===== verification/Idempotency.thy ===== *)
theory Idempotency
  imports Ingest_Wire
begin

text \<open>
  \<^verbatim>\<open>rootsign/ingest/idempotency.py\<close>: the response cache with a 24-hour TTL and a cap on
  its size. Instants are microseconds; each operation takes the instant \<open>datetime.now(utc)\<close>
  returns. The dict is an association list in insertion order.

  The locale \<open>response_cache\<close> is what the ingest handler and the JSONL client rely on.
\<close>

record instant =
  micros :: int
  aware :: bool

definition ttl :: int where
  "ttl = 86400000000"

definition max_entries :: nat where
  "max_entries = 100000"

type_synonym store = "(string \<times> response \<times> int) list"

definition evict_expired :: "int \<Rightarrow> store \<Rightarrow> store" where
  "evict_expired now st = filter (\<lambda>(_, _, expires). \<not> expires \<le> now) st"

definition enforce_size_cap :: "store \<Rightarrow> store" where
  "enforce_size_cap st = drop (length st - max_entries) st"

definition idem_get :: "int \<Rightarrow> uuid \<Rightarrow> store \<Rightarrow> response option \<times> store" where
  "idem_get now event_id st =
     (let st' = evict_expired now st
      in (map_option fst (map_of st' (uuid_str event_id)), st'))"

text \<open>\<open>min(emitted_at + TTL, now + TTL)\<close> raises \<open>TypeError\<close> when \<open>emitted_at\<close> has no zone.\<close>

definition idem_set :: "int \<Rightarrow> uuid \<Rightarrow> response \<Rightarrow> instant \<Rightarrow> store \<Rightarrow> (pyexc + unit) \<times> store" where
  "idem_set now event_id response emitted_at st =
     (let st' = evict_expired now st in
      if \<not> aware emitted_at then (Inl TypeError, st')
      else
        let expires_at = min (micros emitted_at + ttl) (now + ttl);
            key = uuid_str event_id
        in (Inr (), enforce_size_cap (AList.delete key st' @ [(key, response, expires_at)])))"

definition idem_size :: "int \<Rightarrow> store \<Rightarrow> nat \<times> store" where
  "idem_size now st = (let st' = evict_expired now st in (length st', st'))"

section \<open>Invariant\<close>

definition store_inv :: "store \<Rightarrow> bool" where
  "store_inv st \<longleftrightarrow> distinct (map fst st) \<and> length st \<le> max_entries"

lemma store_inv_Nil [simp]: "store_inv []"
  by (simp add: store_inv_def)

lemma distinct_map_filter_fst: "distinct (map fst st) \<Longrightarrow> distinct (map fst (filter P st))"
  by (rule distinct_map_filter)

lemma evict_inv: "store_inv st \<Longrightarrow> store_inv (evict_expired now st)"
  using order_trans [OF length_filter_le]
  by (auto simp: store_inv_def evict_expired_def intro: distinct_map_filter_fst)

lemma get_inv: "store_inv st \<Longrightarrow> store_inv (snd (idem_get now ev st))"
  by (simp add: idem_get_def evict_inv Let_def)

lemma distinct_set_entries:
  "distinct (map fst st) \<Longrightarrow> distinct (map fst (AList.delete k st @ [(k, v)]))"
  by (simp add: delete_keys distinct_removeAll)

lemma cap_inv: "distinct (map fst st) \<Longrightarrow> store_inv (enforce_size_cap st)"
  by (simp add: store_inv_def enforce_size_cap_def drop_map [symmetric])

lemma set_inv: "store_inv st \<Longrightarrow> store_inv (snd (idem_set now ev r em st))"
  using evict_inv [of st now]
    cap_inv [OF distinct_set_entries [of "evict_expired now st" "uuid_str ev"]]
  by (simp add: idem_set_def Let_def store_inv_def [of "evict_expired now st"])

section \<open>What is remembered\<close>

lemma get_expired: "r \<in> set (snd (idem_get now ev st)) \<Longrightarrow> now < snd (snd r)"
  by (auto simp: idem_get_def evict_expired_def Let_def)

lemma drop_keeps_last: "n \<le> length xs \<Longrightarrow> drop n (xs @ [x]) = drop n xs @ [x]"
  by simp

lemma cap_snoc: "\<exists>ys. enforce_size_cap (xs @ [x]) = ys @ [x] \<and> set ys \<subseteq> set xs"
proof -
  have "length (xs @ [x]) - max_entries \<le> length xs" by (simp add: max_entries_def)
  then show ?thesis unfolding enforce_size_cap_def drop_keeps_last by (auto dest: in_set_dropD)
qed

lemma get_after_set:
  assumes inv: "store_inv st" and ok: "idem_set now ev r em st = (Inr (), st')"
    and live: "now' < micros em + ttl" "now' < now + ttl"
  shows "fst (idem_get now' ev st') = Some r"
proof -
  let ?k = "uuid_str ev" and ?e = "min (micros em + ttl) (now + ttl)"
  let ?base = "AList.delete ?k (evict_expired now st)"
  have st': "st' = enforce_size_cap (?base @ [(?k, r, ?e)])"
    using ok by (auto simp: idem_set_def Let_def split: if_splits)
  obtain ys where ys: "enforce_size_cap (?base @ [(?k, r, ?e)]) = ys @ [(?k, r, ?e)]"
    "set ys \<subseteq> set ?base" using cap_snoc by blast
  have "?k \<notin> fst ` set (filter (\<lambda>(_, _, e). \<not> e \<le> now') ys)"
    using ys(2) by (auto simp: AList.delete_eq)
  then have "map_of (filter (\<lambda>(_, _, e). \<not> e \<le> now') ys) ?k = None"
    by (simp add: map_of_eq_None_iff)
  with live show ?thesis
    unfolding st' ys(1) by (simp add: idem_get_def evict_expired_def Let_def map_add_def)
qed

lemma get_after_set_other:
  assumes ok: "idem_set now ev r em st = (Inr (), st')" and other: "ev' \<noteq> ev"
    and small: "length st < max_entries"
  shows "fst (idem_get now' ev' st') = fst (idem_get now' ev' (evict_expired now st))"
proof -
  let ?k = "uuid_str ev" and ?e = "min (micros em + ttl) (now + ttl)"
  let ?base = "AList.delete ?k (evict_expired now st)"
  have "length ?base \<le> length st"
    unfolding AList.delete_eq evict_expired_def by (metis length_filter_le order_trans)
  then have "enforce_size_cap (?base @ [(?k, r, ?e)]) = ?base @ [(?k, r, ?e)]"
    using small by (simp add: enforce_size_cap_def)
  with ok have st': "st' = ?base @ [(?k, r, ?e)]"
    by (auto simp: idem_set_def Let_def split: if_splits)
  have "map_of (filter P (AList.delete k xs)) k' = map_of (filter P xs) k'" if "k' \<noteq> k"
    for P k k' and xs :: store
    using that by (induction xs) (auto simp: AList.delete_eq)
  then show ?thesis
    using other unfolding st' by (simp add: idem_get_def evict_expired_def Let_def map_add_def split: option.splits)
qed

section \<open>The contract\<close>

locale response_cache =
  fixes lookup :: "int \<Rightarrow> uuid \<Rightarrow> 's \<Rightarrow> response option \<times> 's"
    and store_response :: "int \<Rightarrow> uuid \<Rightarrow> response \<Rightarrow> instant \<Rightarrow> 's \<Rightarrow> (pyexc + unit) \<times> 's"
    and good :: "'s \<Rightarrow> bool"
  assumes lookup_good: "good s \<Longrightarrow> good (snd (lookup now e s))"
    and store_good: "good s \<Longrightarrow> good (snd (store_response now e r em s))"
    and lookup_stored: "good s \<Longrightarrow> store_response now e r em s = (Inr (), s') \<Longrightarrow>
          now' < micros em + ttl \<Longrightarrow> now' < now + ttl \<Longrightarrow> fst (lookup now' e s') = Some r"
    and store_aware: "aware em \<Longrightarrow> fst (store_response now e r em s) = Inr ()"
begin

text \<open>A response stored for an event is the answer to a lookup of it within the day.\<close>

lemma answer_once:
  assumes "good s" "aware em" "now' < micros em + ttl" "now' < now + ttl"
  shows "fst (lookup now' e (snd (store_response now e r em s))) = Some r"
  using lookup_stored [of s now e r em "snd (store_response now e r em s)" now'] assms
    store_aware [of em now e r s] by (metis prod.collapse)

end

interpretation idem: response_cache idem_get idem_set store_inv
  by unfold_locales (rule get_inv set_inv get_after_set; assumption | simp add: idem_set_def Let_def)+

section \<open>Properties of the cache\<close>

text \<open>The cache never holds two answers for one event or more than its cap, whatever is done
  to it, and every entry a lookup leaves behind is unexpired.\<close>

theorem cache_bounded:
  assumes "store_inv st"
  shows "store_inv (snd (idem_get now ev st)) \<and> store_inv (snd (idem_set now ev r em st)) \<and>
    (\<forall>x \<in> set (snd (idem_get now ev st)). now < snd (snd x))"
  using get_inv [OF assms] set_inv [OF assms] get_expired [of _ now ev st] by blast

theorem cache_bounded_witness: "store_inv (snd (idem_set 0 5 (accepted 5 None None None) \<lparr>micros = 0, aware = True\<rparr> []))"
  using cache_bounded [of "[]" 0 5 "accepted 5 None None None" "\<lparr>micros = 0, aware = True\<rparr>"] by simp

text \<open>An answer stored for an event is the one every lookup within a day of its emission and of
  its storing returns; a client clock ahead of the store's cannot keep it longer than a day.\<close>

theorem answer_within_the_day:
  assumes "store_inv st" and "aware em" and "now \<le> now'"
  shows "fst (idem_get now' ev (snd (idem_set now ev r em st))) =
    (if now' < micros em + ttl \<and> now' < now + ttl then Some r else None)"
proof (cases "now' < micros em + ttl \<and> now' < now + ttl")
  case True
  then show ?thesis using idem.answer_once [OF assms(1,2)] by simp
next
  case False
  let ?k = "uuid_str ev" and ?e = "min (micros em + ttl) (now + ttl)"
  let ?base = "AList.delete ?k (evict_expired now st)"
  have s: "snd (idem_set now ev r em st) = enforce_size_cap (?base @ [(?k, r, ?e)])"
    using assms(2) by (simp add: idem_set_def Let_def)
  obtain ys where ys: "enforce_size_cap (?base @ [(?k, r, ?e)]) = ys @ [(?k, r, ?e)]"
    "set ys \<subseteq> set ?base" using cap_snoc by blast
  have "\<forall>x \<in> set ys. fst x \<noteq> ?k" using ys(2) by (auto simp: AList.delete_eq)
  with False have "\<forall>x \<in> set (evict_expired now' (ys @ [(?k, r, ?e)])). fst x \<noteq> ?k"
    by (auto simp: evict_expired_def)
  then have "map_of (evict_expired now' (ys @ [(?k, r, ?e)])) ?k = None"
    by (auto simp: map_of_eq_None_iff)
  with False show ?thesis unfolding s ys(1) by (simp add: idem_get_def Let_def)
qed

theorem answer_within_the_day_witness:
  "fst (idem_get 10 5 (snd (idem_set 0 5 (accepted 5 None None None) \<lparr>micros = 0, aware = True\<rparr> [])))
     = Some (accepted 5 None None None)"
  using answer_within_the_day [of "[]" "\<lparr>micros = 0, aware = True\<rparr>" 0 10 5 "accepted 5 None None None"]
  by (simp add: ttl_def)

end
