(* ===== verification/Ingest_Handler.thy ===== *)
theory Ingest_Handler
  imports Approval_Store Idempotency
begin

text \<open>
  \<^verbatim>\<open>rootsign/ingest/handler.py\<close>: one envelope in, one response out. Pydantic's validation
  of the envelope and of the payloads is an argument (\<open>schemas\<close>: \<open>None\<close> is its
  \<open>ValidationError\<close>); the enums that the \<open>*Create\<close> schemas check a second time are the
  program's own and are written out. Logging is left out. A call works on the tables and the
  response cache; an exception that is not an ingest error leaves \<open>handle\<close> as one, with the
  tables as before the call.
\<close>

section \<open>Validated input\<close>

record envelope =
  ev_schema_version :: string
  ev_event_type :: event_type
  ev_event_id :: uuid
  ev_emitted_at :: instant
  ev_agent_id :: uuid
  ev_session_id :: uuid
  ev_payload :: dict

record open_payload =
  op_objective :: "string option"
  op_user_id :: "string option"
  op_metadata :: json

record action_payload =
  ap_tool_name :: string
  ap_input_hash :: string
  ap_output_hash :: "string option"
  ap_input_redacted :: json
  ap_output_redacted :: json
  ap_timestamp :: string
  ap_duration_ms :: "int option"
  ap_decision_id :: "uuid option"
  ap_policy_id :: "uuid option"
  ap_authorization_status :: string
  ap_action_id :: "uuid option"
  ap_sequence_number :: "int option"
  ap_prev_action_hash :: "string option"
  ap_self_hash :: "string option"

record decision_payload =
  dp_selected_action :: string
  dp_reasoning_summary :: "string option"
  dp_timestamp :: string
  dp_reasoning_captured :: "bool option"

record approval_payload =
  pp_action_id :: uuid
  pp_approver_id :: string
  pp_approver_type :: string
  pp_decision :: string
  pp_decision_reason :: "string option"
  pp_timestamp :: int
  pp_parent_approval_id :: "uuid option"

record close_payload =
  cp_status :: string
  cp_metadata :: json

record schemas =
  sc_envelope :: "json \<Rightarrow> envelope option"
  sc_open :: "dict \<Rightarrow> open_payload option"
  sc_action :: "dict \<Rightarrow> action_payload option"
  sc_decision :: "dict \<Rightarrow> decision_payload option"
  sc_approval :: "dict \<Rightarrow> approval_payload option"
  sc_close :: "dict \<Rightarrow> close_payload option"

text \<open>The enums of \<open>ActionCreate\<close> and \<open>ApprovalCreate\<close>.\<close>

definition action_statuses :: "string list" where
  "action_statuses = [''auto_authorized'', ''human_approved'', ''human_rejected'', ''pending'', ''bypassed'']"

definition approver_types :: "string list" where
  "approver_types = [''human'', ''automated_policy'', ''timeout_auto_approved'', ''timeout_auto_rejected'']"

definition approval_decisions :: "string list" where
  "approval_decisions = [''approved'', ''rejected'', ''escalated'']"

text \<open>What one call draws from its surroundings.\<close>

record handler_env =
  he_now_get :: int
  he_now_set :: int
  he_now :: int
  he_fresh :: uuid
  he_pg :: "string \<Rightarrow> string"

section \<open>Per-event handlers\<close>

type_synonym outcome = "(store_exn + response) \<times> db"

definition require_running_session :: "uuid \<Rightarrow> db \<Rightarrow> store_exn + session_row" where
  "require_running_session sid d =
     (case db_sessions d sid of
        None \<Rightarrow> Inl (Ingest SessionNotFoundError (''session_id='' @ uuid_str sid @ '' not found''))
      | Some s \<Rightarrow>
          if sr_status s \<noteq> ''running''
          then Inl (Ingest SessionClosedError
                 (''session_id='' @ uuid_str sid @ '' is '' @ repr_str (sr_status s) @ '', not running''))
          else Inr s)"

definition handle_session_open :: "envelope \<Rightarrow> open_payload \<Rightarrow> db \<Rightarrow> outcome" where
  "handle_session_open env p d =
     (if ev_agent_id env \<notin> set (db_agents d)
      then (Inl (Ingest UnknownAgentError (''agent_id='' @ uuid_str (ev_agent_id env) @ '' not registered'')), d)
      else if db_sessions d (ev_session_id env) \<noteq> None
      then (Inl (Ingest SessionAlreadyExistsError
                   (''session_id='' @ uuid_str (ev_session_id env) @ '' already exists'')), d)
      else
        let session = \<lparr>sr_agent_id = ev_agent_id env, sr_user_id = op_user_id p,
              sr_objective = op_objective p, sr_status = ''running'', sr_end_time = None,
              sr_action_count = 0, sr_decision_count = 0, sr_chain_head_hash = None,
              sr_chain_tail_hash = None, sr_metadata = op_metadata p\<rparr>
        in (Inr (accepted (ev_event_id env) (Some (ev_session_id env)) None None),
            d\<lparr>db_sessions := (db_sessions d)(ev_session_id env \<mapsto> session)\<rparr>))"

definition action_create_of :: "envelope \<Rightarrow> action_payload \<Rightarrow> action_create" where
  "action_create_of env p =
     \<lparr>ac_session_id = ev_session_id env, ac_decision_id = ap_decision_id p,
      ac_policy_id = ap_policy_id p, ac_tool_name = ap_tool_name p,
      ac_input_hash = ap_input_hash p, ac_output_hash = ap_output_hash p,
      ac_input_redacted = ap_input_redacted p, ac_output_redacted = ap_output_redacted p,
      ac_timestamp = ap_timestamp p, ac_duration_ms = ap_duration_ms p,
      ac_authorization_status = ap_authorization_status p\<rparr>"

definition handle_action_record :: "handler_env \<Rightarrow> envelope \<Rightarrow> action_payload \<Rightarrow> db \<Rightarrow> outcome" where
  "handle_action_record he env p d =
     (if ap_self_hash p \<noteq> None \<or> ap_action_id p \<noteq> None
      then (Inl (Ingest IngestValidationError ''client-sealed ACTION_RECORD is cloud-mode only''), d)
      else (case require_running_session (ev_session_id env) d of
              Inl e \<Rightarrow> (Inl e, d)
            | Inr _ \<Rightarrow>
                if ap_authorization_status p \<notin> set action_statuses then (Inl Schema_Invalid, d)
                else (case create_with_hash (he_pg he) (he_fresh he)
                           (action_create_of env p) d of
                  (Inl e, d') \<Rightarrow> (Inl e, d')
                | (Inr a, d') \<Rightarrow>
                    (Inr (accepted (ev_event_id env) (Some (ar_action_id a)) (Some (ar_sequence_number a))
                            (Some (ar_self_hash a))), d'))))"

definition handle_decision_record :: "handler_env \<Rightarrow> envelope \<Rightarrow> decision_payload \<Rightarrow> db \<Rightarrow> outcome" where
  "handle_decision_record he env p d =
     (case require_running_session (ev_session_id env) d of
        Inl e \<Rightarrow> (Inl e, d)
      | Inr s \<Rightarrow>
          let captured = (case dp_reasoning_captured p of Some b \<Rightarrow> b | None \<Rightarrow> dp_reasoning_summary p \<noteq> None);
              row = \<lparr>dr_decision_id = he_fresh he, dr_session_id = ev_session_id env,
                     dr_selected_action = dp_selected_action p,
                     dr_reasoning_summary = dp_reasoning_summary p, dr_reasoning_captured = captured,
                     dr_timestamp = dp_timestamp p\<rparr>
          in (Inr (accepted (ev_event_id env) (Some (he_fresh he)) None None),
              d\<lparr>db_decisions := db_decisions d @ [row],
                db_sessions := (db_sessions d)(ev_session_id env \<mapsto>
                  s\<lparr>sr_decision_count := sr_decision_count s + 1\<rparr>)\<rparr>))"

definition handle_approval_record :: "handler_env \<Rightarrow> envelope \<Rightarrow> approval_payload \<Rightarrow> db \<Rightarrow> outcome" where
  "handle_approval_record he env p d =
     (case require_running_session (ev_session_id env) d of
        Inl e \<Rightarrow> (Inl e, d)
      | Inr _ \<Rightarrow>
          if pp_approver_type p \<notin> set approver_types \<or> pp_decision p \<notin> set approval_decisions
          then (Inl Schema_Invalid, d)
          else (case create_with_action_status_update (he_fresh he)
                    \<lparr>pc_action_id = pp_action_id p, pc_session_id = ev_session_id env,
                     pc_approver_id = pp_approver_id p, pc_approver_type = pp_approver_type p,
                     pc_decision = pp_decision p, pc_decision_reason = pp_decision_reason p,
                     pc_timestamp = pp_timestamp p, pc_parent_approval_id = pp_parent_approval_id p\<rparr> d of
                  (Inl e, d') \<Rightarrow> (Inl e, d')
                | (Inr a, d') \<Rightarrow>
                    (Inr (accepted (ev_event_id env) (Some (pr_approval_id a)) None None), d')))"

definition handle_session_close :: "handler_env \<Rightarrow> envelope \<Rightarrow> close_payload \<Rightarrow> db \<Rightarrow> outcome" where
  "handle_session_close he env p d =
     (case require_running_session (ev_session_id env) d of
        Inl e \<Rightarrow> (Inl e, d)
      | Inr s \<Rightarrow>
          (Inr (accepted (ev_event_id env) (Some (ev_session_id env)) None None),
           d\<lparr>db_sessions := (db_sessions d)(ev_session_id env \<mapsto>
               s\<lparr>sr_status := cp_status p, sr_end_time := Some (he_now he)\<rparr>)\<rparr>))"

section \<open>Dispatch and entry point\<close>

definition invalid_payload :: "envelope \<Rightarrow> db \<Rightarrow> outcome" where
  "invalid_payload env d =
     (Inr (rejected (ev_event_id env) VALIDATION_ERROR ''payload validation failed'' False), d)"

definition dispatch :: "schemas \<Rightarrow> handler_env \<Rightarrow> envelope \<Rightarrow> db \<Rightarrow> outcome" where
  "dispatch sc he env d =
     (case ev_event_type env of
        SESSION_OPEN \<Rightarrow> (case sc_open sc (ev_payload env) of
            None \<Rightarrow> invalid_payload env d | Some p \<Rightarrow> handle_session_open env p d)
      | ACTION_RECORD \<Rightarrow> (case sc_action sc (ev_payload env) of
            None \<Rightarrow> invalid_payload env d | Some p \<Rightarrow> handle_action_record he env p d)
      | DECISION_RECORD \<Rightarrow> (case sc_decision sc (ev_payload env) of
            None \<Rightarrow> invalid_payload env d | Some p \<Rightarrow> handle_decision_record he env p d)
      | APPROVAL_RECORD \<Rightarrow> (case sc_approval sc (ev_payload env) of
            None \<Rightarrow> invalid_payload env d | Some p \<Rightarrow> handle_approval_record he env p d)
      | SESSION_CLOSE \<Rightarrow> (case sc_close sc (ev_payload env) of
            None \<Rightarrow> invalid_payload env d | Some p \<Rightarrow> handle_session_close he env p d))"

text \<open>An exception that escapes \<open>handle\<close>.\<close>

datatype handle_exn = Store_Exn store_exn | Py_Exn pyexc

definition maybe_cache ::
  "handler_env \<Rightarrow> uuid \<Rightarrow> response \<Rightarrow> instant \<Rightarrow> store \<Rightarrow> (pyexc + unit) \<times> store" where
  "maybe_cache he event_id rsp emitted_at cache =
     (if rsp_status rsp = ''accepted'' \<or> rsp_retryable rsp = Some False
      then idem_set (he_now_set he) event_id rsp emitted_at cache
      else (Inr (), cache))"

definition safe_event_id :: "json \<Rightarrow> uuid" where
  "safe_event_id envelope =
     (case envelope of
        JObj d \<Rightarrow> (case dget d ''event_id'' of
            JStr s \<Rightarrow> (case uuid_of_str s of Some u \<Rightarrow> u | None \<Rightarrow> 0)
          | _ \<Rightarrow> 0)
      | _ \<Rightarrow> 0)"

definition supported_schema_major :: string where
  "supported_schema_major = ''1''"

definition major_of :: "string \<Rightarrow> string" where
  "major_of v = takeWhile (\<lambda>c. c \<noteq> CHR ''.'') v"

definition finish ::
  "handler_env \<Rightarrow> envelope \<Rightarrow> response \<Rightarrow> db \<times> store \<Rightarrow> (handle_exn + response) \<times> db \<times> store" where
  "finish he env rsp st =
     (case maybe_cache he (ev_event_id env) rsp (ev_emitted_at env) (snd st) of
        (Inl e, cache) \<Rightarrow> (Inl (Py_Exn e), fst st, cache)
      | (Inr _, cache) \<Rightarrow> (Inr rsp, fst st, cache))"

definition handle_parsed ::
  "schemas \<Rightarrow> handler_env \<Rightarrow> envelope \<Rightarrow> db \<times> store \<Rightarrow> (handle_exn + response) \<times> db \<times> store" where
  "handle_parsed sc he env st =
     (if major_of (ev_schema_version env) \<noteq> supported_schema_major
      then finish he env
             (rejected (ev_event_id env) SCHEMA_VERSION_MISMATCH
                (''store supports schema_version MAJOR=1, received '' @ ev_schema_version env) False) st
      else (case idem_get (he_now_get he) (ev_event_id env) (snd st) of
              (Some rsp, cache) \<Rightarrow> (Inr rsp, fst st, cache)
            | (None, cache) \<Rightarrow>
                (case dispatch sc he env (fst st) of
                   (Inl (Ingest e m), d) \<Rightarrow>
                     finish he env (rejected (ev_event_id env) (error_code_of e) m (error_retryable e)) (d, cache)
                 | (Inl e, d) \<Rightarrow> (Inl (Store_Exn e), d, cache)
                 | (Inr rsp, d) \<Rightarrow> finish he env rsp (d, cache))))"

definition handle ::
  "schemas \<Rightarrow> handler_env \<Rightarrow> json \<Rightarrow> db \<times> store \<Rightarrow> (handle_exn + response) \<times> db \<times> store" where
  "handle sc he raw st =
     (case sc_envelope sc raw of
        None \<Rightarrow> (Inr (rejected (safe_event_id raw) VALIDATION_ERROR ''envelope validation failed'' False), st)
      | Some env \<Rightarrow> handle_parsed sc he env st)"

section \<open>Steps of the tables\<close>

lemma dispatch_error_keeps: "dispatch sc he env d = (Inl e, d') \<Longrightarrow> d' = d"
  by (auto simp: dispatch_def invalid_payload_def handle_session_open_def handle_action_record_def
      handle_decision_record_def handle_approval_record_def handle_session_close_def Let_def
      create_keeps_on_error create_with_action_status_update_def
      split: event_type.splits option.splits if_splits sum.splits prod.splits)

lemma dispatch_event_id: "dispatch sc he env d = (Inr rsp, d') \<Longrightarrow> rsp_event_id rsp = ev_event_id env"
  by (auto simp: dispatch_def invalid_payload_def handle_session_open_def handle_action_record_def
      handle_decision_record_def handle_approval_record_def handle_session_close_def Let_def
      split: event_type.splits option.splits if_splits sum.splits prod.splits)

lemma dispatch_cacheable:
  "dispatch sc he env d = (Inr rsp, d') \<Longrightarrow> rsp_status rsp = ''accepted'' \<or> rsp_retryable rsp = Some False"
  by (auto simp: dispatch_def invalid_payload_def handle_session_open_def handle_action_record_def
      handle_decision_record_def handle_approval_record_def handle_session_close_def Let_def
      split: event_type.splits option.splits if_splits sum.splits prod.splits)

text \<open>No handler raises the one error class that is retryable.\<close>

lemma dispatch_not_retryable: "dispatch sc he env d = (Inl (Ingest e m), d') \<Longrightarrow> \<not> error_retryable e"
  by (auto simp: dispatch_def invalid_payload_def handle_session_open_def handle_action_record_def
      handle_decision_record_def handle_approval_record_def handle_session_close_def Let_def
      require_running_session_def create_with_hash_def create_with_action_status_update_def
      check_parent_def one_or_none_def sbind_eq_Inl error_retryable_def
      split: event_type.splits option.splits if_splits sum.splits prod.splits list.splits)

lemma require_running_Inr:
  "require_running_session sid d = Inr s \<longleftrightarrow> db_sessions d sid = Some s \<and> sr_status s = ''running''"
  by (auto simp: require_running_session_def split: option.splits)

section \<open>The invariant of the tables\<close>

definition action_payload_ok :: "handler_env \<Rightarrow> action_payload \<Rightarrow> bool" where
  "action_payload_ok he p \<longleftrightarrow>
     he_pg he (ap_timestamp p) = ap_timestamp p \<and>
     (ap_input_redacted p = JNull \<or> compute_payload_hash (ap_input_redacted p) = ap_input_hash p) \<and>
     (ap_output_redacted p = JNull \<or> Some (compute_payload_hash (ap_output_redacted p)) = ap_output_hash p)"

lemma action_create_ok:
  "action_payload_ok he p \<Longrightarrow> he_pg he (ac_timestamp (action_create_of env p)) = ac_timestamp (action_create_of env p)"
  "action_payload_ok he p \<Longrightarrow> create_bound (action_create_of env p)"
  by (auto simp: action_payload_ok_def action_create_of_def create_bound_def)

lemma rows_of_cong: "db_actions d' = db_actions d \<Longrightarrow> rows_of sid d' = rows_of sid d"
  by (simp add: rows_of_def)

lemma db_inv_session:
  assumes "db_inv d" and "db_sessions d' = (db_sessions d)(sid \<mapsto> s')" and "db_actions d' = db_actions d"
    and "db_sessions d sid = Some s"
    and "sr_chain_head_hash s' = sr_chain_head_hash s" "sr_chain_tail_hash s' = sr_chain_tail_hash s"
      "sr_action_count s' = sr_action_count s"
  shows "db_inv d'"
  using assms rows_of_cong [OF assms(3)] by (simp add: db_inv_def)

lemma db_inv_new_session:
  assumes inv: "db_inv d" and d': "db_sessions d' = (db_sessions d)(sid \<mapsto> s)" "db_actions d' = db_actions d"
    and new: "db_sessions d sid = None"
    and s: "sr_chain_head_hash s = None" "sr_chain_tail_hash s = None" "sr_action_count s = 0"
  shows "db_inv d'"
proof -
  have "rows_of sid d = []"
    using inv new by (auto simp: db_inv_def rows_of_def filter_empty_conv)
  then show ?thesis
    using inv s d' rows_of_cong [OF d'(2)] by (auto simp: db_inv_def tail_of_def)
qed

lemma db_inv_vote: "db_inv d \<Longrightarrow> db_inv (set_status p st (add_approval row d))"
proof -
  assume inv: "db_inv d"
  let ?f = "\<lambda>a. if p a then a\<lparr>ar_authorization_status := st\<rparr> else a"
  have rows: "rows_of sid (set_status p st (add_approval row d)) = map ?f (rows_of sid d)" for sid
  proof -
    have "filter (\<lambda>r. ar_session_id r = sid) (map ?f xs) = map ?f (filter (\<lambda>r. ar_session_id r = sid) xs)" for xs
      by (induction xs) auto
    then show ?thesis by (simp add: rows_of_def set_status_rows)
  qed
  have dict: "map row_dict (map ?f rs) = map row_dict rs" for rs
    by (induction rs) auto
  have head: "ar_self_hash (hd (map ?f rs)) = ar_self_hash (hd rs)" if "rs \<noteq> []" for rs
    using that by (cases rs) auto
  show ?thesis
    using inv unfolding db_inv_def rows dict
    by (auto simp: set_status_rows head simp del: map_map)
qed

lemma dispatch_inv:
  assumes inv: "db_inv d" and ok: "\<forall>p. sc_action sc (ev_payload env) = Some p \<longrightarrow> action_payload_ok he p"
    and d: "dispatch sc he env d = (res, d')"
  shows "db_inv d'"
proof (cases res)
  case (Inl e)
  then show ?thesis using dispatch_error_keeps d inv by blast
next
  case (Inr rsp)
  show ?thesis
  proof (cases "ev_event_type env")
    case SESSION_OPEN
    show ?thesis
    proof (cases "d' = d")
      case False
      with SESSION_OPEN d Inr obtain s where "db_sessions d (ev_session_id env) = None"
        "d' = d\<lparr>db_sessions := (db_sessions d)(ev_session_id env \<mapsto> s)\<rparr>"
        "sr_chain_head_hash s = None" "sr_chain_tail_hash s = None" "sr_action_count s = 0"
        by (auto simp: dispatch_def invalid_payload_def handle_session_open_def Let_def
            split: option.splits if_splits)
      then show ?thesis by (intro db_inv_new_session [OF inv, of d' "ev_session_id env" s]) simp_all
    qed (use inv in simp)
  next
    case ACTION_RECORD
    show ?thesis
    proof (cases "d' = d")
      case False
      with ACTION_RECORD d Inr obtain p row where p: "sc_action sc (ev_payload env) = Some p"
        and c: "create_with_hash (he_pg he) (he_fresh he) (action_create_of env p) d = (Inr row, d')"
        by (auto simp: dispatch_def invalid_payload_def handle_action_record_def
            split: option.splits if_splits sum.splits prod.splits)
      from ok p have "action_payload_ok he p" by blast
      from create_with_hash_inv [OF inv action_create_ok [OF this] c] show ?thesis .
    qed (use inv in simp)
  next
    case DECISION_RECORD
    with d Inr inv show ?thesis
      by (auto simp: dispatch_def invalid_payload_def handle_decision_record_def Let_def
          require_running_Inr intro: db_inv_session [OF inv] split: option.splits sum.splits)
  next
    case APPROVAL_RECORD
    with d Inr inv show ?thesis
      using db_inv_vote [OF inv]
      by (auto simp: dispatch_def invalid_payload_def handle_approval_record_def Let_def
          create_with_action_status_update_def split: option.splits if_splits sum.splits prod.splits)
  next
    case SESSION_CLOSE
    with d Inr inv show ?thesis
      by (auto simp: dispatch_def invalid_payload_def handle_session_close_def Let_def
          require_running_Inr intro: db_inv_session [OF inv] split: option.splits sum.splits)
  qed
qed

lemma finish_db [simp]: "fst (snd (finish he env rsp st)) = fst st"
  by (auto simp: finish_def split: prod.splits sum.splits)

lemma handle_db:
  "fst (snd (handle sc he raw (d, cache))) = d \<or>
   (\<exists>env. sc_envelope sc raw = Some env \<and> fst (snd (handle sc he raw (d, cache))) = snd (dispatch sc he env d))"
  by (auto simp: handle_def handle_parsed_def split: option.splits prod.splits sum.splits store_exn.splits)

fun handle_all :: "schemas \<Rightarrow> (handler_env \<times> json) list \<Rightarrow> db \<times> store \<Rightarrow> db \<times> store" where
  "handle_all sc [] st = st"
| "handle_all sc ((he, raw) # calls) st = handle_all sc calls (snd (handle sc he raw st))"

lemma handle_all_inv:
  "db_inv (fst st) \<Longrightarrow>
    list_all (\<lambda>(he, raw). \<forall>env p. sc_envelope sc raw = Some env \<longrightarrow>
      sc_action sc (ev_payload env) = Some p \<longrightarrow> action_payload_ok he p) calls \<Longrightarrow>
    db_inv (fst (handle_all sc calls st))"
proof (induction sc calls st rule: handle_all.induct)
  case (2 sc he raw calls st)
  obtain d cache where st: "st = (d, cache)" by (cases st)
  have "db_inv (fst (snd (handle sc he raw st)))"
  proof (cases "fst (snd (handle sc he raw (d, cache))) = d")
    case True
    with "2.prems"(1) show ?thesis by (simp add: st)
  next
    case False
    then obtain env where env: "sc_envelope sc raw = Some env"
      "fst (snd (handle sc he raw (d, cache))) = snd (dispatch sc he env d)"
      using handle_db by blast
    obtain res d' where dp: "dispatch sc he env d = (res, d')" by (cases "dispatch sc he env d")
    have "db_inv d'"
      by (rule dispatch_inv [OF _ _ dp]) (use "2.prems" env(1) st in auto)
    with env(2) dp show ?thesis by (simp add: st)
  qed
  with 2 show ?case by simp
qed simp

section \<open>Closed sessions\<close>

lemma dispatch_closed:
  assumes closed: "db_sessions d sid = Some s" "sr_status s \<noteq> ''running''"
    and d: "dispatch sc he env d = (res, d')"
  shows "db_sessions d' sid = Some s \<and> rows_of sid d' = rows_of sid d"
proof (cases res)
  case (Inl e)
  then show ?thesis using dispatch_error_keeps d closed by blast
next
  case (Inr rsp)
  show ?thesis
  proof (cases "ev_event_type env")
    case SESSION_OPEN
    with d Inr closed show ?thesis
      by (auto simp: dispatch_def invalid_payload_def handle_session_open_def Let_def rows_of_def
          split: option.splits if_splits)
  next
    case ACTION_RECORD
    with d Inr closed show ?thesis
      by (auto simp: dispatch_def invalid_payload_def handle_action_record_def require_running_Inr
          create_with_hash_def action_create_of_def Let_def rows_of_def split: option.splits if_splits sum.splits prod.splits)
  next
    case DECISION_RECORD
    with d Inr closed show ?thesis
      by (auto simp: dispatch_def invalid_payload_def handle_decision_record_def Let_def
          require_running_Inr rows_of_def split: option.splits sum.splits)
  next
    case SESSION_CLOSE
    with d Inr closed show ?thesis
      by (auto simp: dispatch_def invalid_payload_def handle_session_close_def Let_def
          require_running_Inr rows_of_def split: option.splits sum.splits)
  next
    case APPROVAL_RECORD
    have keep: "filter (\<lambda>r. ar_session_id r = sid)
        (map (\<lambda>a. if ar_session_id a = k \<and> ar_action_id a = x then a\<lparr>ar_authorization_status := st\<rparr> else a) as)
      = filter (\<lambda>r. ar_session_id r = sid) as" if "k \<noteq> sid" for k x st as
      using that by (induction as) auto
    show ?thesis
    proof (cases "ev_session_id env = sid")
      case True
      with APPROVAL_RECORD d Inr closed show ?thesis
        by (auto simp: dispatch_def invalid_payload_def handle_approval_record_def
            require_running_session_def split: option.splits)
    next
      case False
      with APPROVAL_RECORD d Inr closed show ?thesis
        by (auto simp: dispatch_def invalid_payload_def handle_approval_record_def Let_def
            create_with_action_status_update_def rows_of_def set_status_rows keep
            split: option.splits if_splits sum.splits prod.splits)
    qed
  qed
qed

section \<open>One call\<close>

lemma finish_ok:
  assumes "aware (ev_emitted_at env)" and "rsp_status rsp = ''accepted'' \<or> rsp_retryable rsp = Some False"
  shows "finish he env rsp (d, cache) =
    (Inr rsp, d, snd (idem_set (he_now_set he) (ev_event_id env) rsp (ev_emitted_at env) cache))"
proof -
  have "fst (idem_set (he_now_set he) (ev_event_id env) rsp (ev_emitted_at env) cache) = Inr ()"
    using assms(1) by (rule idem.store_aware)
  with assms(2) show ?thesis
    by (cases "idem_set (he_now_set he) (ev_event_id env) rsp (ev_emitted_at env) cache")
      (simp add: finish_def maybe_cache_def)
qed

text \<open>A call that misses the cache ends with its answer stored.\<close>

lemma handle_miss:
  assumes env: "sc_envelope sc raw = Some env" "major_of (ev_schema_version env) = supported_schema_major"
    and aw: "aware (ev_emitted_at env)"
    and miss: "idem_get (he_now_get he) (ev_event_id env) cache = (None, cache1)"
    and h: "handle sc he raw (d, cache) = (Inr rsp, d', cache')"
  shows "cache' = snd (idem_set (he_now_set he) (ev_event_id env) rsp (ev_emitted_at env) cache1)"
    and "rsp_status rsp = ''accepted'' \<or> d' = d" and "rsp_event_id rsp = ev_event_id env"
proof -
  obtain res d1 where dp: "dispatch sc he env d = (res, d1)" by (cases "dispatch sc he env d")
  have eq: "handle sc he raw (d, cache) =
      (case (res, d1) of
         (Inl (Ingest e m), d) \<Rightarrow>
           finish he env (rejected (ev_event_id env) (error_code_of e) m (error_retryable e)) (d, cache1)
       | (Inl e, d) \<Rightarrow> (Inl (Store_Exn e), d, cache1)
       | (Inr rsp, d) \<Rightarrow> finish he env rsp (d, cache1))"
    using env miss dp by (simp add: handle_def handle_parsed_def)
  have "cache' = snd (idem_set (he_now_set he) (ev_event_id env) rsp (ev_emitted_at env) cache1) \<and>
    (rsp_status rsp = ''accepted'' \<or> d' = d) \<and> rsp_event_id rsp = ev_event_id env"
  proof (cases res)
    case (Inl e)
    with dp have d1: "d1 = d" using dispatch_error_keeps by blast
    show ?thesis
    proof (cases e)
      case (Ingest e' m)
      with Inl dp have "\<not> error_retryable e'" using dispatch_not_retryable by blast
      then have "finish he env (rejected (ev_event_id env) (error_code_of e') m (error_retryable e')) (d1, cache1) =
          (Inr (rejected (ev_event_id env) (error_code_of e') m (error_retryable e')), d1,
           snd (idem_set (he_now_set he) (ev_event_id env)
             (rejected (ev_event_id env) (error_code_of e') m (error_retryable e')) (ev_emitted_at env) cache1))"
        by (intro finish_ok [OF aw]) simp
      with eq h Inl Ingest d1 show ?thesis by auto
    qed (use eq h Inl in auto)
  next
    case (Inr r)
    have "finish he env r (d1, cache1) =
        (Inr r, d1, snd (idem_set (he_now_set he) (ev_event_id env) r (ev_emitted_at env) cache1))"
      using dispatch_cacheable dp Inr by (intro finish_ok [OF aw]) blast
    with eq h Inr have r: "rsp = r" "d' = d1"
      "cache' = snd (idem_set (he_now_set he) (ev_event_id env) rsp (ev_emitted_at env) cache1)" by auto
    moreover have "rsp_status r = ''accepted'' \<or> d1 = d"
      using dp Inr
      by (auto simp: dispatch_def invalid_payload_def handle_session_open_def handle_action_record_def
          handle_decision_record_def handle_approval_record_def handle_session_close_def Let_def
          split: event_type.splits option.splits if_splits sum.splits prod.splits)
    ultimately show ?thesis using dispatch_event_id [of sc he env d r d1] dp Inr by simp
  qed
  then show "cache' = snd (idem_set (he_now_set he) (ev_event_id env) rsp (ev_emitted_at env) cache1)"
    and "rsp_status rsp = ''accepted'' \<or> d' = d" and "rsp_event_id rsp = ev_event_id env" by auto
qed

section \<open>Properties of the handler\<close>

definition sample_raw_envelope :: envelope where
  "sample_raw_envelope = \<lparr>ev_schema_version = ''1.1'', ev_event_type = ACTION_RECORD, ev_event_id = 5,
     ev_emitted_at = \<lparr>micros = 0, aware = True\<rparr>, ev_agent_id = 1, ev_session_id = 3, ev_payload = []\<rparr>"

definition sample_action :: action_payload where
  "sample_action = \<lparr>ap_tool_name = ''search'', ap_input_hash = ''aa'', ap_output_hash = None,
     ap_input_redacted = JNull, ap_output_redacted = JNull, ap_timestamp = ''t'', ap_duration_ms = None,
     ap_decision_id = None, ap_policy_id = None, ap_authorization_status = ''auto_authorized'',
     ap_action_id = None, ap_sequence_number = None, ap_prev_action_hash = None, ap_self_hash = None\<rparr>"

definition sample_schemas :: "envelope \<Rightarrow> action_payload \<Rightarrow> schemas" where
  "sample_schemas env p = \<lparr>sc_envelope = (\<lambda>_. Some env), sc_open = (\<lambda>_. None), sc_action = (\<lambda>_. Some p),
     sc_decision = (\<lambda>_. None), sc_approval = (\<lambda>_. None), sc_close = (\<lambda>_. None)\<rparr>"

definition sample_he :: handler_env where
  "sample_he = \<lparr>he_now_get = 0, he_now_set = 0, he_now = 0, he_fresh = 7, he_pg = id\<rparr>"

definition sample_two_versions :: schemas where
  "sample_two_versions = (sample_schemas sample_raw_envelope sample_action)
     \<lparr>sc_envelope := (\<lambda>j. Some (if j = JNull then sample_raw_envelope
        else sample_raw_envelope\<lparr>ev_schema_version := ''2.0''\<rparr>))\<rparr>"

lemma sample_handle_accepts:
  "\<exists>rsp d' cache'. handle (sample_schemas sample_raw_envelope sample_action) sample_he JNull (sample_db, [])
     = (Inr rsp, d', cache') \<and> rsp_status rsp = ''accepted''"
  by (simp add: handle_def handle_parsed_def sample_schemas_def sample_raw_envelope_def sample_action_def
      sample_he_def major_of_def supported_schema_major_def idem_get_def evict_expired_def Let_def
      dispatch_def handle_action_record_def require_running_session_def sample_db_def sample_session_def
      action_statuses_def action_create_of_def create_with_hash_def finish_def maybe_cache_def idem_set_def)





text \<open>C16. A closed session is frozen: no event of any kind, for it or for another session, changes its
  row or the rows of its actions.\<close>

theorem closed_session_frozen:
  assumes "db_sessions d sid = Some s" and "sr_status s \<noteq> ''running''"
  shows "db_sessions (fst (handle_all sc calls (d, cache))) sid = Some s \<and>
    rows_of sid (fst (handle_all sc calls (d, cache))) = rows_of sid d"
  using assms
proof (induction calls arbitrary: d cache)
  case Nil
  then show ?case by simp
next
  case (Cons call calls)
  obtain he raw where call: "call = (he, raw)" by (cases call)
  obtain res d1 c1 where h: "handle sc he raw (d, cache) = (res, d1, c1)"
    by (cases "handle sc he raw (d, cache)") auto
  have "db_sessions d1 sid = Some s \<and> rows_of sid d1 = rows_of sid d"
    using handle_db [of sc he raw d cache] h dispatch_closed [OF Cons.prems] Cons.prems
    by (metis fst_conv prod.collapse snd_conv)
  with Cons.IH [of d1 c1] Cons.prems(2) show ?case by (simp add: call h)
qed

theorem closed_session_frozen_witness:
  "rows_of 3 (fst (handle_all (sample_schemas sample_raw_envelope sample_action) [(sample_he, JNull)]
     (sample_db\<lparr>db_sessions := [3 \<mapsto> sample_session\<lparr>sr_status := ''completed''\<rparr>]\<rparr>, []))) = []"
  using closed_session_frozen [of "sample_db\<lparr>db_sessions := [3 \<mapsto> sample_session\<lparr>sr_status := ''completed''\<rparr>]\<rparr>"
      3 "sample_session\<lparr>sr_status := ''completed''\<rparr>" "sample_schemas sample_raw_envelope sample_action"
      "[(sample_he, JNull)]" "[]"]
  by (simp add: rows_of_def sample_db_def del: handle_all.simps)

text \<open>The version check comes before the cache lookup and caches its rejection, so an envelope with
  an unsupported major version replaces the answer an event already has: its next replay is told
  that its version is unsupported although it was accepted.\<close>

theorem version_mismatch_overwrites_answer:
  assumes "sc_envelope sc raw2 = Some env2" and "major_of (ev_schema_version env2) \<noteq> supported_schema_major"
    and "sc_envelope sc raw = Some env" and "major_of (ev_schema_version env) = supported_schema_major"
    and "ev_event_id env2 = ev_event_id env" and "aware (ev_emitted_at env2)" and "store_inv cache"
    and "he_now_get he < micros (ev_emitted_at env2) + ttl" and "he_now_get he < he_now_set he2 + ttl"
  shows "\<exists>m. fst (handle sc he raw (snd (handle sc he2 raw2 (d, cache)))) =
    Inr (rejected (ev_event_id env) SCHEMA_VERSION_MISMATCH m False)"
proof -
  let ?r = "rejected (ev_event_id env2) SCHEMA_VERSION_MISMATCH
    (''store supports schema_version MAJOR=1, received '' @ ev_schema_version env2) False"
  have f: "finish he2 env2 ?r (d, cache) =
      (Inr ?r, d, snd (idem_set (he_now_set he2) (ev_event_id env2) ?r (ev_emitted_at env2) cache))"
    by (rule finish_ok [OF assms(6)]) simp
  then have "snd (handle sc he2 raw2 (d, cache)) =
      (d, snd (idem_set (he_now_set he2) (ev_event_id env2) ?r (ev_emitted_at env2) cache))"
    using assms(1,2) by (simp add: handle_def handle_parsed_def)
  moreover have "fst (idem_get (he_now_get he) (ev_event_id env)
      (snd (idem_set (he_now_set he2) (ev_event_id env2) ?r (ev_emitted_at env2) cache))) = Some ?r"
    using idem.answer_once [OF assms(7,6,8,9)] assms(5) by simp
  ultimately show ?thesis
    using assms(3-5) by (auto simp: handle_def handle_parsed_def split: prod.splits)
qed

theorem version_mismatch_overwrites_answer_witness:
  "\<exists>m. fst (handle sample_two_versions sample_he JNull
     (snd (handle sample_two_versions sample_he (JInt 1) (sample_db, []))))
       = Inr (rejected 5 SCHEMA_VERSION_MISMATCH m False)"
  using version_mismatch_overwrites_answer [of sample_two_versions "JInt 1"
      "sample_raw_envelope\<lparr>ev_schema_version := ''2.0''\<rparr>" JNull sample_raw_envelope "[]"
      sample_he sample_he sample_db]
  by (simp add: sample_two_versions_def sample_raw_envelope_def major_of_def supported_schema_major_def
      sample_he_def ttl_def)

text \<open>A payload that passes the wire schema but not the enum of \<open>ActionCreate\<close> (such as the status
  \<open>timed_out\<close>) makes \<open>handle\<close> raise pydantic's error instead of answering VALIDATION_ERROR.\<close>

theorem unknown_status_escapes:
  assumes "sc_envelope sc raw = Some env" and "major_of (ev_schema_version env) = supported_schema_major"
    and "ev_event_type env = ACTION_RECORD" and "sc_action sc (ev_payload env) = Some p"
    and "ap_self_hash p = None" and "ap_action_id p = None" and "ap_authorization_status p \<notin> set action_statuses"
    and "require_running_session (ev_session_id env) d = Inr s"
    and "idem_get (he_now_get he) (ev_event_id env) cache = (None, cache1)"
  shows "handle sc he raw (d, cache) = (Inl (Store_Exn Schema_Invalid), d, cache1)"
  using assms by (simp add: handle_def handle_parsed_def dispatch_def handle_action_record_def)

theorem unknown_status_escapes_witness:
  "handle (sample_schemas sample_raw_envelope (sample_action\<lparr>ap_authorization_status := ''timed_out''\<rparr>))
     sample_he JNull (sample_db, []) = (Inl (Store_Exn Schema_Invalid), sample_db, [])"
  by (rule unknown_status_escapes [where env = sample_raw_envelope and s = sample_session
        and p = "sample_action\<lparr>ap_authorization_status := ''timed_out''\<rparr>"])
    (simp_all add: sample_schemas_def sample_raw_envelope_def sample_action_def major_of_def
      supported_schema_major_def action_statuses_def require_running_session_def sample_db_def
      sample_session_def idem_get_def evict_expired_def Let_def)

text \<open>Only \<open>self_hash\<close> and \<open>action_id\<close> make the store refuse a client-sealed action: a payload that
  carries just a sequence number or a predecessor hash is accepted and renumbered as if it
  carried neither.\<close>

theorem partial_seal_silently_renumbered:
  "handle_action_record he env (p\<lparr>ap_sequence_number := n, ap_prev_action_hash := h\<rparr>) d =
   handle_action_record he env (p\<lparr>ap_sequence_number := None, ap_prev_action_hash := None\<rparr>) d"
proof -
  have same: "action_create_of env (p\<lparr>ap_sequence_number := n, ap_prev_action_hash := h\<rparr>) =
      action_create_of env (p\<lparr>ap_sequence_number := None, ap_prev_action_hash := None\<rparr>)"
    by (simp add: action_create_of_def)
  show ?thesis unfolding handle_action_record_def same by simp
qed

end
