(* ===== verification/Jsonl_Client.thy ===== *)
theory Jsonl_Client
  imports Chain_Links Idempotency
begin

text \<open>
  \<^verbatim>\<open>rootsign/sdk/jsonl_client.py\<close>: the append-only local backend. A session file is the
  list of the objects written to it, one per line, with the number of lines an \<open>fsync\<close> has
  made durable. What the file system does to an append is an argument: it succeeds, the open or
  write raises \<open>OSError\<close>, or the \<open>fsync\<close> raises after the line is written. A write that
  stores only part of a line is not modelled.

  \<open>fromiso\<close> is \<open>datetime.fromisoformat\<close> (\<open>None\<close> for its \<open>ValueError\<close>).
\<close>

datatype disk = Disk_Ok | Write_Fails string | Sync_Fails string

datatype fsync_mode = Fsync_Chain | Fsync_Always | Fsync_Never

record session_file =
  sf_lines :: "dict list"
  sf_durable :: nat

record jsonl_client =
  jc_files :: "string \<rightharpoonup> session_file"
  jc_fsync :: fsync_mode
  jc_idempotency :: store
  jc_chains :: registry

text \<open>What one call draws from its surroundings: the two readings of the clock, the id
  \<open>new_record_id()\<close> returns and the outcome of the append.\<close>

record call_env =
  ce_now_get :: int
  ce_now_set :: int
  ce_fresh :: uuid
  ce_disk :: disk

definition file_lines :: "jsonl_client \<Rightarrow> string \<Rightarrow> dict list" where
  "file_lines cl sid = (case jc_files cl sid of None \<Rightarrow> [] | Some f \<Rightarrow> sf_lines f)"

definition file_durable :: "jsonl_client \<Rightarrow> string \<Rightarrow> nat" where
  "file_durable cl sid = (case jc_files cl sid of None \<Rightarrow> 0 | Some f \<Rightarrow> sf_durable f)"

definition append_line :: "disk \<Rightarrow> string \<Rightarrow> dict \<Rightarrow> bool \<Rightarrow> jsonl_client \<Rightarrow> (pyexc + unit) \<times> jsonl_client" where
  "append_line d sid r do_fsync cl =
     (let lines = file_lines cl sid @ [r];
          written = cl\<lparr>jc_files := (jc_files cl)(sid \<mapsto>
                      \<lparr>sf_lines = lines, sf_durable = file_durable cl sid\<rparr>)\<rparr>;
          synced = cl\<lparr>jc_files := (jc_files cl)(sid \<mapsto>
                      \<lparr>sf_lines = lines, sf_durable = length lines\<rparr>)\<rparr>
      in case d of
           Write_Fails e \<Rightarrow> (Inl (OSError e), cl)
         | Sync_Fails e \<Rightarrow> if do_fsync then (Inl (OSError e), written) else (Inr (), written)
         | Disk_Ok \<Rightarrow> (Inr (), if do_fsync then synced else written))"

definition should_fsync :: "fsync_mode \<Rightarrow> json \<Rightarrow> bool" where
  "should_fsync mode event_type =
     (case mode of
        Fsync_Always \<Rightarrow> True
      | Fsync_Never \<Rightarrow> False
      | Fsync_Chain \<Rightarrow> event_type = JStr ''ACTION_RECORD'' \<or> event_type = JStr ''APPROVAL_RECORD'')"

definition append_annotation :: "disk \<Rightarrow> string \<Rightarrow> dict \<Rightarrow> jsonl_client \<Rightarrow> (pyexc + unit) \<times> jsonl_client" where
  "append_annotation d sid r cl = append_line d sid r True cl"

definition parse_dt :: "(string \<Rightarrow> instant option) \<Rightarrow> int \<Rightarrow> json \<Rightarrow> instant" where
  "parse_dt fromiso now value =
     (case value of
        JStr s \<Rightarrow> (case fromiso s of Some t \<Rightarrow> t | None \<Rightarrow> \<lparr>micros = now, aware = True\<rparr>)
      | _ \<Rightarrow> \<lparr>micros = now, aware = True\<rparr>)"

definition action_line :: "dict \<Rightarrow> uuid \<Rightarrow> string \<Rightarrow> dict \<Rightarrow> sealed_action \<Rightarrow> pyexc + dict" where
  "action_line envelope event_id sid payload sealed =
     sbind (dindex payload ''tool_name'') (\<lambda>tool_name.
     sbind (dindex payload ''input_hash'') (\<lambda>input_hash.
     sbind (dindex payload ''timestamp'') (\<lambda>timestamp.
     Inr [(''schema_version'', dget envelope ''schema_version''),
          (''sdk_version'', dget envelope ''sdk_version''),
          (''event_type'', JStr ''ACTION_RECORD''),
          (''event_id'', JStr (uuid_str event_id)),
          (''emitted_at'', dget envelope ''emitted_at''),
          (''agent_id'', dget envelope ''agent_id''),
          (''session_id'', JStr sid),
          (''action_id'', JStr (uuid_str (sa_action_id sealed))),
          (''tool_name'', tool_name),
          (''input_hash'', input_hash),
          (''output_hash'', dget payload ''output_hash''),
          (''prev_action_hash'', sa_prev_action_hash sealed),
          (''timestamp'', timestamp),
          (''sequence_number'', JInt (sa_sequence_number sealed)),
          (''self_hash'', JStr (sa_self_hash sealed)),
          (''input_redacted'', dget payload ''input_redacted''),
          (''output_redacted'', dget payload ''output_redacted''),
          (''authorization_status'', dget_or payload ''authorization_status'' (JStr ''auto_authorized'')),
          (''decision_id'', dget payload ''decision_id''),
          (''duration_ms'', dget payload ''duration_ms''),
          (''policy_id'', dget payload ''policy_id'')])))"

definition build_action ::
  "uuid \<Rightarrow> dict \<Rightarrow> uuid \<Rightarrow> string \<Rightarrow> jsonl_client \<Rightarrow> (pyexc + response \<times> dict) \<times> jsonl_client" where
  "build_action fresh envelope event_id sid cl =
     (case dict_or_empty (dget envelope ''payload'') of
        Inl e \<Rightarrow> (Inl e, cl)
      | Inr payload \<Rightarrow>
          (case registry_seal fresh sid payload (jc_chains cl) of
             (Inl e, reg) \<Rightarrow> (Inl e, cl\<lparr>jc_chains := reg\<rparr>)
           | (Inr sealed, reg) \<Rightarrow>
               (sbind (action_line envelope event_id sid payload sealed) (\<lambda>line.
                  Inr (accepted event_id (Some (sa_action_id sealed))
                         (Some (sa_sequence_number sealed)) (Some (sa_self_hash sealed)), line)),
                cl\<lparr>jc_chains := reg\<rparr>)))"

definition build_non_action :: "uuid \<Rightarrow> dict \<Rightarrow> uuid \<Rightarrow> json \<Rightarrow> response \<times> dict" where
  "build_non_action fresh envelope event_id event_type =
     (if event_type = JStr ''DECISION_RECORD''
      then (accepted event_id (Some fresh) None None, dset ''decision_id'' (JStr (uuid_str fresh)) envelope)
      else if event_type = JStr ''APPROVAL_RECORD''
      then (accepted event_id (Some fresh) None None, dset ''approval_id'' (JStr (uuid_str fresh)) envelope)
      else (accepted event_id None None None, envelope))"

text \<open>The response leaves the lock only when the append did not raise.\<close>

definition after_append ::
  "response \<Rightarrow> (pyexc + unit) \<times> jsonl_client \<Rightarrow> (pyexc + response) \<times> jsonl_client" where
  "after_append rsp appended =
     (case appended of (Inl e, cl) \<Rightarrow> (Inl e, cl) | (Inr _, cl) \<Rightarrow> (Inr rsp, cl))"

lemma after_append_simps [simp]:
  "after_append rsp (Inl e, cl) = (Inl e, cl)"
  "after_append rsp (Inr u, cl) = (Inr rsp, cl)"
  "snd (after_append rsp ap) = snd ap"
  by (simp_all add: after_append_def split: prod.splits sum.splits)

lemma after_append_Inr: "after_append rsp ap = (Inr r, cl) \<longleftrightarrow> r = rsp \<and> ap = (Inr (), cl)"
  by (auto simp: after_append_def split: prod.splits sum.splits)

lemma after_append_state: "after_append rsp ap = (res, cl) \<Longrightarrow> \<exists>r. ap = (r, cl)"
  by (auto simp: after_append_def split: prod.splits sum.splits)

definition jsonl_record ::
  "call_env \<Rightarrow> dict \<Rightarrow> uuid \<Rightarrow> json \<Rightarrow> string \<Rightarrow> jsonl_client \<Rightarrow> (pyexc + response) \<times> jsonl_client" where
  "jsonl_record env envelope event_id event_type sid cl =
     (case (if event_type = JStr ''ACTION_RECORD''
            then build_action (ce_fresh env) envelope event_id sid cl
            else (Inr (build_non_action (ce_fresh env) envelope event_id event_type), cl)) of
        (Inl e, cl1) \<Rightarrow> (Inl e, cl1)
      | (Inr (rsp, line), cl1) \<Rightarrow>
          after_append rsp
            (append_line (ce_disk env) sid line (should_fsync (jc_fsync cl1) event_type) cl1))"

definition jsonl_handle ::
  "(string \<Rightarrow> instant option) \<Rightarrow> call_env \<Rightarrow> dict \<Rightarrow> jsonl_client \<Rightarrow> (pyexc + response) \<times> jsonl_client" where
  "jsonl_handle fromiso env envelope cl =
     (case sbind (dindex envelope ''event_id'') (\<lambda>e.
             case uuid_of_str (py_str e) of
               None \<Rightarrow> Inl (ValueError ''badly formed hexadecimal UUID string'')
             | Some event_id \<Rightarrow>
                 sbind (dindex envelope ''event_type'') (\<lambda>event_type.
                 sbind (dindex envelope ''session_id'') (\<lambda>sid. Inr (event_id, event_type, py_str sid)))) of
        Inl e \<Rightarrow> (Inl e, cl)
      | Inr (event_id, event_type, sid) \<Rightarrow>
          (let emitted_at = parse_dt fromiso (ce_now_get env) (dget envelope ''emitted_at'') in
           case idem_get (ce_now_get env) event_id (jc_idempotency cl) of
             (Some _, cache) \<Rightarrow>
               (Inr (rejected event_id DUPLICATE_EVENT
                       (''event_id '' @ uuid_str event_id @ '' already handled (jsonl backend, in-process)'')
                       False),
                cl\<lparr>jc_idempotency := cache\<rparr>)
           | (None, cache) \<Rightarrow>
               (case jsonl_record env envelope event_id event_type sid (cl\<lparr>jc_idempotency := cache\<rparr>) of
                  (Inl e, cl2) \<Rightarrow> (Inl e, cl2)
                | (Inr rsp, cl2) \<Rightarrow>
                    (case idem_set (ce_now_set env) event_id rsp emitted_at (jc_idempotency cl2) of
                       (Inl e, cache2) \<Rightarrow> (Inl e, cl2\<lparr>jc_idempotency := cache2\<rparr>)
                     | (Inr _, cache2) \<Rightarrow> (Inr rsp, cl2\<lparr>jc_idempotency := cache2\<rparr>)))))"

section \<open>A sealed line is the next link\<close>

lemma action_line_total:
  "list_all (dhas payload) [''tool_name'', ''input_hash'', ''timestamp''] \<Longrightarrow>
    \<exists>line. action_line envelope event_id sid payload sealed = Inr line"
  by (simp add: action_line_def dhas_dindex)

lemma action_line_fields:
  assumes "action_line envelope event_id sid payload sealed = Inr line"
  shows "dget line ''action_id'' = JStr (uuid_str (sa_action_id sealed))"
    and "dget line ''session_id'' = JStr sid"
    and "dget line ''tool_name'' = dget payload ''tool_name''"
    and "dget line ''input_hash'' = dget payload ''input_hash''"
    and "dget line ''output_hash'' = dget payload ''output_hash''"
    and "dget line ''prev_action_hash'' = sa_prev_action_hash sealed"
    and "dget line ''timestamp'' = dget payload ''timestamp''"
    and "dget line ''sequence_number'' = JInt (sa_sequence_number sealed)"
    and "dget line ''self_hash'' = JStr (sa_self_hash sealed)"
    and "dget line ''input_redacted'' = dget payload ''input_redacted''"
    and "dget line ''output_redacted'' = dget payload ''output_redacted''"
    and "list_all (dhas line) canonical_keys"
    and "is_action_record line"
  using assms dindex_Inr_dget
  by (auto simp: action_line_def sbind_eq_Inr dict_simps canonical_keys_def is_action_record_def)

lemma action_line_canonical:
  "action_line envelope event_id sid payload sealed = Inr line \<Longrightarrow>
    sa_prev_action_hash sealed = opt_str prev \<Longrightarrow>
    canonical_of line = canonical_of (link_dict (sa_action_id sealed) sid prev (sa_sequence_number sealed) payload)"
  by (simp add: canonical_of_def action_line_fields link_dict_def dict_simps)

lemma action_line_bound:
  "action_line envelope event_id sid payload sealed = Inr line \<Longrightarrow> bound line = bound payload"
  by (simp add: bound_def binding_broken_def action_line_fields)

text \<open>One record of the local backend, as a builder of chains.\<close>

type_synonym jsonl_input = "uuid \<times> dict \<times> uuid \<times> string \<times> dict"

fun jsonl_extend :: "jsonl_input \<Rightarrow> chain_state \<Rightarrow> (dict \<times> chain_state) option" where
  "jsonl_extend (fresh, envelope, event_id, sid, payload) st =
     (if is_sealed payload then None
      else (case seal fresh sid payload st of
              (Inr sealed, st') \<Rightarrow>
                (case action_line envelope event_id sid payload sealed of
                   Inr line \<Rightarrow> Some (line, st')
                 | Inl _ \<Rightarrow> None)
            | (Inl _, _) \<Rightarrow> None))"

fun input_payload :: "jsonl_input \<Rightarrow> dict" where
  "input_payload (fresh, envelope, event_id, sid, payload) = payload"

lemma jsonl_extend_Some:
  assumes "jsonl_extend i st = Some (line, st')"
  shows "next_link (cs_tail st) (cs_count st) line"
    and "cs_tail st' = Some (hash_of line) \<and> cs_count st' = cs_count st + 1"
    and "bound (input_payload i) \<Longrightarrow> bound line"
proof -
  obtain fresh envelope event_id sid payload where i: "i = (fresh, envelope, event_id, sid, payload)"
    by (cases i)
  from assms obtain sealed where ns: "\<not> is_sealed payload"
    and sl: "seal fresh sid payload st = (Inr sealed, st')"
    and ln: "action_line envelope event_id sid payload sealed = Inr line"
    by (auto simp: i split: if_splits sum.splits prod.splits)
  from sealable_if_sealed [OF ns sl] have "sealable payload" .
  from sl [unfolded seal_fresh [OF this] Let_def]
  have sa: "sa_action_id sealed = fresh" "sa_sequence_number sealed = cs_count st + 1"
    "sa_prev_action_hash sealed = opt_str (cs_tail st)"
    "sa_self_hash sealed = hash_of (link_dict fresh sid (cs_tail st) (cs_count st + 1) payload)"
    and st': "st' = \<lparr>cs_tail = Some (sa_self_hash sealed), cs_count = cs_count st + 1\<rparr>"
    by auto
  have h: "hash_of line = sa_self_hash sealed"
    using action_line_canonical [OF ln sa(3)] sa by (simp add: hash_of_def)
  show "next_link (cs_tail st) (cs_count st) line"
    using action_line_fields [OF ln] sa h by (simp add: next_link_def seq_key_def)
  show "cs_tail st' = Some (hash_of line) \<and> cs_count st' = cs_count st + 1"
    using h st' by simp
  show "bound (input_payload i) \<Longrightarrow> bound line"
    using action_line_bound [OF ln] by (simp add: i)
qed

interpretation memory: chain_builder cs_tail cs_count jsonl_extend "\<lambda>i. bound (input_payload i)"
  by unfold_locales (use jsonl_extend_Some in blast)+

section \<open>A session file under failing writes\<close>

text \<open>Whatever writes failed, the actions of a session file are a subsequence of one chain, and
  the tail in memory is the tail of that chain.\<close>

definition session_inv :: "string \<Rightarrow> jsonl_client \<Rightarrow> bool" where
  "session_inv sid cl \<longleftrightarrow>
     (\<exists>rs. chained None 0 rs \<and>
        state_for (jc_chains cl) sid = \<lparr>cs_tail = tail_of None rs, cs_count = int (length rs)\<rparr> \<and>
        subseq (filter is_action_record (file_lines cl sid)) rs)"

text \<open>Envelopes the tracer emits: an action carries no seal, and its redacted payloads hash to
  the hashes beside them.\<close>

definition honest :: "dict \<Rightarrow> bool" where
  "honest envelope \<longleftrightarrow>
     (case dict_or_empty (dget envelope ''payload'') of
        Inr payload \<Rightarrow> \<not> is_sealed payload \<and> bound payload
      | Inl _ \<Rightarrow> True)"

definition empty_client :: "fsync_mode \<Rightarrow> jsonl_client" where
  "empty_client mode =
     \<lparr>jc_files = Map.empty, jc_fsync = mode, jc_idempotency = [], jc_chains = Map.empty\<rparr>"

lemma session_inv_empty [simp]: "session_inv sid (empty_client mode)"
  by (auto simp: session_inv_def empty_client_def file_lines_def state_for_def new_chain_def
      tail_of_def intro!: exI [of _ "[]"])

lemma session_inv_cong:
  "jc_files cl' sid = jc_files cl sid \<Longrightarrow> state_for (jc_chains cl') sid = state_for (jc_chains cl) sid \<Longrightarrow>
    session_inv sid cl \<Longrightarrow> session_inv sid cl'"
  by (simp add: session_inv_def file_lines_def)

lemma append_line_files:
  assumes "append_line d sid r b cl = (res, cl')"
  shows "jc_chains cl' = jc_chains cl" and "jc_idempotency cl' = jc_idempotency cl"
    and "jc_fsync cl' = jc_fsync cl"
    and "\<And>sid'. sid' \<noteq> sid \<Longrightarrow> jc_files cl' sid' = jc_files cl sid'"
    and "file_lines cl' sid = file_lines cl sid \<or> file_lines cl' sid = file_lines cl sid @ [r]"
    and "res = Inr () \<Longrightarrow> file_lines cl' sid = file_lines cl sid @ [r]"
    and "res = Inr () \<Longrightarrow> b \<Longrightarrow> file_durable cl' sid = length (file_lines cl' sid)"
  using assms
  by (auto simp: append_line_def file_lines_def file_durable_def Let_def split: disk.splits if_splits)

lemma subseq_append_line:
  "file_lines cl' sid = file_lines cl sid \<or> file_lines cl' sid = file_lines cl sid @ [r] \<Longrightarrow>
    subseq (filter is_action_record (file_lines cl sid)) rs \<Longrightarrow> is_action_record r \<Longrightarrow>
    subseq (filter is_action_record (file_lines cl' sid)) (rs @ [r])"
  using list_emb_append_mono [of "(=)" "filter is_action_record (file_lines cl sid)" rs "[]" "[r]"]
    list_emb_append_mono [of "(=)" "filter is_action_record (file_lines cl sid)" rs "[r]" "[r]"]
  by auto

lemma jsonl_record_inv:
  assumes inv: "session_inv sid cl" and ok: "honest envelope"
    and ty: "dget envelope ''event_type'' = event_type" "dhas envelope ''event_type''"
    and rec: "jsonl_record env envelope event_id event_type sid' cl = (res, cl')"
  shows "session_inv sid cl'"
proof -
  from inv obtain rs where chain: "chained None 0 rs"
    and st: "state_for (jc_chains cl) sid = \<lparr>cs_tail = tail_of None rs, cs_count = int (length rs)\<rparr>"
    and sub: "subseq (filter is_action_record (file_lines cl sid)) rs"
    by (auto simp: session_inv_def)
  show ?thesis
  proof (cases "event_type = JStr ''ACTION_RECORD''")
    case False
    then have "is_action_record (snd (build_non_action (ce_fresh env) envelope event_id event_type)) = False"
      using ty by (auto simp: build_non_action_def is_action_record_def dget_def dget_or_def dhas_def
          map_of_dset split: option.splits)
    moreover obtain r where ap: "append_line (ce_disk env) sid'
        (snd (build_non_action (ce_fresh env) envelope event_id event_type))
        (should_fsync (jc_fsync cl) event_type) cl = (r, cl')"
    proof -
      have "after_append (fst (build_non_action (ce_fresh env) envelope event_id event_type))
          (append_line (ce_disk env) sid' (snd (build_non_action (ce_fresh env) envelope event_id event_type))
            (should_fsync (jc_fsync cl) event_type) cl) = (res, cl')"
        using rec False by (simp add: jsonl_record_def split: prod.splits)
      with after_append_state that show ?thesis by blast
    qed
    ultimately have "filter is_action_record (file_lines cl' sid) = filter is_action_record (file_lines cl sid)"
      using append_line_files(4,5) [OF ap] by (cases "sid = sid'") (auto simp: file_lines_def)
    with chain st sub append_line_files(1) [OF ap] show ?thesis by (auto simp: session_inv_def)
  next
    case True
    show ?thesis
    proof (cases "dict_or_empty (dget envelope ''payload'')")
      case (Inl e)
      with rec True inv show ?thesis
        by (simp add: jsonl_record_def build_action_def)
    next
      case (Inr payload)
      with ok have ns: "\<not> is_sealed payload" and bd: "bound payload" by (simp_all add: honest_def)
      obtain sl st' where sl: "seal (ce_fresh env) sid' payload (state_for (jc_chains cl) sid') = (sl, st')"
        by (cases "seal (ce_fresh env) sid' payload (state_for (jc_chains cl) sid')")
      let ?cl1 = "cl\<lparr>jc_chains := (jc_chains cl)(sid' \<mapsto> st')\<rparr>"
      show ?thesis
      proof (cases sl)
        case (Inl e)
        then have "st' = state_for (jc_chains cl) sid'" using seal_error_keeps [OF ns] sl by blast
        moreover have "cl' = ?cl1"
          using rec True Inr Inl sl by (simp add: jsonl_record_def build_action_def registry_seal_def)
        ultimately show ?thesis using inv by (auto intro: session_inv_cong [rotated 2])
      next
        case sealed: (Inr sealed)
        have "sealable payload" using sealable_if_sealed [OF ns] sl sealed by blast
        then obtain line where ln: "action_line envelope event_id sid' payload sealed = Inr line"
          using action_line_total [of payload envelope event_id sid' sealed]
          unfolding sealable_def by blast
        have ex: "jsonl_extend (ce_fresh env, envelope, event_id, sid', payload)
            (state_for (jc_chains cl) sid') = Some (line, st')"
          using ns sl sealed ln by simp
        obtain r where ap: "append_line (ce_disk env) sid' line
            (should_fsync (jc_fsync ?cl1) event_type) ?cl1 = (r, cl')"
          using rec True Inr sl sealed ln
        proof -
          from rec have "after_append (accepted event_id (Some (sa_action_id sealed))
              (Some (sa_sequence_number sealed)) (Some (sa_self_hash sealed)))
            (append_line (ce_disk env) sid' line (should_fsync (jc_fsync ?cl1) event_type) ?cl1) = (res, cl')"
            using True Inr sl sealed ln
            by (simp add: jsonl_record_def build_action_def registry_seal_def)
          with after_append_state that show ?thesis by blast
        qed
        show ?thesis
        proof (cases "sid = sid'")
          case False
          with inv append_line_files(1,4) [OF ap] show ?thesis
            by (auto intro: session_inv_cong [rotated 2])
        next
          case same: True
          have "record_sound line" "seq_key line = JInt (int (length rs) + 1)"
            "dget line ''prev_action_hash'' = opt_str (tail_of None rs)"
            and st'': "st' = \<lparr>cs_tail = Some (hash_of line), cs_count = int (length rs) + 1\<rparr>"
            using jsonl_extend_Some [OF ex] st same bd
            by (auto simp: next_link_def record_sound_def bound_def)
          then have "chained None 0 (rs @ [line])" using chain by (simp add: chained_append)
          moreover have "state_for (jc_chains cl') sid =
              \<lparr>cs_tail = tail_of None (rs @ [line]), cs_count = int (length (rs @ [line]))\<rparr>"
            using append_line_files(1) [OF ap] st'' same by (simp add: tail_of_def)
          moreover have "subseq (filter is_action_record (file_lines cl' sid)) (rs @ [line])"
            using append_line_files(5) [OF ap] sub same action_line_fields(13) [OF ln]
            by (intro subseq_append_line [of cl' sid cl]) (auto simp: file_lines_def)
          ultimately show ?thesis unfolding session_inv_def by blast
        qed
      qed
    qed
  qed
qed

lemma jsonl_handle_record:
  "snd (jsonl_handle fromiso env envelope cl) = cl \<or>
   (\<exists>x. snd (jsonl_handle fromiso env envelope cl) = cl\<lparr>jc_idempotency := x\<rparr>) \<or>
   (\<exists>x y event_id event_type sid res cl1. dindex envelope ''event_type'' = Inr event_type \<and>
      jsonl_record env envelope event_id event_type sid (cl\<lparr>jc_idempotency := x\<rparr>) = (res, cl1) \<and>
      (snd (jsonl_handle fromiso env envelope cl) = cl1 \<or>
       snd (jsonl_handle fromiso env envelope cl) = cl1\<lparr>jc_idempotency := y\<rparr>))"
proof (cases "sbind (dindex envelope ''event_id'') (\<lambda>e.
             case uuid_of_str (py_str e) of
               None \<Rightarrow> Inl (ValueError ''badly formed hexadecimal UUID string'')
             | Some event_id \<Rightarrow>
                 sbind (dindex envelope ''event_type'') (\<lambda>event_type.
                 sbind (dindex envelope ''session_id'') (\<lambda>sid. Inr (event_id, event_type, py_str sid))))")
  case (Inl e)
  then show ?thesis by (simp add: jsonl_handle_def)
next
  case (Inr t)
  obtain event_id event_type sid where t: "t = (event_id, event_type, sid)" by (cases t)
  have ty: "dindex envelope ''event_type'' = Inr event_type"
    using Inr t by (auto simp: sbind_eq_Inr split: option.splits)
  obtain hit cache where g: "idem_get (ce_now_get env) event_id (jc_idempotency cl) = (hit, cache)"
    by (cases "idem_get (ce_now_get env) event_id (jc_idempotency cl)")
  show ?thesis
  proof (cases hit)
    case (Some r)
    then show ?thesis by (auto simp: jsonl_handle_def Inr t g Let_def)
  next
    case None
    obtain res cl1 where r: "jsonl_record env envelope event_id event_type sid (cl\<lparr>jc_idempotency := cache\<rparr>) = (res, cl1)"
      by (cases "jsonl_record env envelope event_id event_type sid (cl\<lparr>jc_idempotency := cache\<rparr>)")
    have "snd (jsonl_handle fromiso env envelope cl) = cl1 \<or>
      (\<exists>y. snd (jsonl_handle fromiso env envelope cl) = cl1\<lparr>jc_idempotency := y\<rparr>)"
      by (auto simp: jsonl_handle_def Inr t g None r Let_def split: sum.splits prod.splits)
    with ty r show ?thesis by blast
  qed
qed

lemma session_inv_idempotency [simp]: "session_inv sid (c\<lparr>jc_idempotency := x\<rparr>) = session_inv sid c"
  by (simp add: session_inv_def file_lines_def)

lemma jsonl_handle_inv:
  assumes inv: "session_inv sid cl" and ok: "honest envelope"
  shows "session_inv sid (snd (jsonl_handle fromiso env envelope cl))"
proof -
  have "session_inv sid cl1"
    if "dindex envelope ''event_type'' = Inr event_type"
      "jsonl_record env envelope event_id event_type sid' (cl\<lparr>jc_idempotency := x\<rparr>) = (res, cl1)"
    for x event_id event_type sid' res cl1
    using jsonl_record_inv [OF _ ok _ _ that(2)] inv that(1)
    by (auto simp: dindex_Inr_dget dindex_eq_Inr dhas_def)
  with jsonl_handle_record [of fromiso env envelope cl] inv show ?thesis by auto
qed

fun jsonl_run ::
  "(string \<Rightarrow> instant option) \<Rightarrow> (call_env \<times> dict) list \<Rightarrow> jsonl_client \<Rightarrow> jsonl_client" where
  "jsonl_run fromiso [] cl = cl"
| "jsonl_run fromiso ((env, envelope) # calls) cl =
     jsonl_run fromiso calls (snd (jsonl_handle fromiso env envelope cl))"

lemma jsonl_run_inv:
  "session_inv sid cl \<Longrightarrow> list_all (\<lambda>(env, envelope). honest envelope) calls \<Longrightarrow>
    session_inv sid (jsonl_run fromiso calls cl)"
  by (induction fromiso calls cl rule: jsonl_run.induct) (simp_all add: jsonl_handle_inv)

lemma session_inv_verdict:
  assumes inv: "session_inv sid cl" and ne: "file_lines cl sid \<noteq> []"
  shows "\<exists>v. verify_session_local (file_of (file_lines cl sid)) = Inr v \<and>
    vr_verdict v \<in> {VALID, INCOMPLETE} \<and>
    covered (vr_missing_ranges v) = absent (seqs (filter is_action_record (file_lines cl sid)))"
proof -
  let ?ys = "filter is_action_record (file_lines cl sid)"
  from inv obtain rs where "chained None 0 rs" "subseq ?ys rs" by (auto simp: session_inv_def)
  then have i: "intact ?ys" "int_keyed ?ys" using intact_subchain [of rs ?ys ?ys] by simp_all
  have "covered (missing_ranges (map seq_key ?ys)) = absent (seqs ?ys)"
    unfolding missing_ranges_cover present_seqs_int_keyed [OF i(2)] ..
  then show ?thesis
    using verify_local_characterised [OF ne i(2)] i(1) by auto
qed

section \<open>One call\<close>

definition envelope_head :: "dict \<Rightarrow> uuid \<Rightarrow> json \<Rightarrow> string \<Rightarrow> bool" where
  "envelope_head envelope event_id event_type sid \<longleftrightarrow>
     dindex envelope ''event_id'' = Inr (JStr (uuid_str event_id)) \<and>
     dindex envelope ''event_type'' = Inr event_type \<and>
     dindex envelope ''session_id'' = Inr (JStr sid)"

lemma jsonl_handle_head:
  assumes "envelope_head envelope event_id event_type sid"
  shows "jsonl_handle fromiso env envelope cl =
    (let emitted_at = parse_dt fromiso (ce_now_get env) (dget envelope ''emitted_at'') in
     case idem_get (ce_now_get env) event_id (jc_idempotency cl) of
       (Some _, cache) \<Rightarrow>
         (Inr (rejected event_id DUPLICATE_EVENT
                 (''event_id '' @ uuid_str event_id @ '' already handled (jsonl backend, in-process)'')
                 False),
          cl\<lparr>jc_idempotency := cache\<rparr>)
     | (None, cache) \<Rightarrow>
         (case jsonl_record env envelope event_id event_type sid (cl\<lparr>jc_idempotency := cache\<rparr>) of
            (Inl e, cl2) \<Rightarrow> (Inl e, cl2)
          | (Inr rsp, cl2) \<Rightarrow>
              (case idem_set (ce_now_set env) event_id rsp emitted_at (jc_idempotency cl2) of
                 (Inl e, cache2) \<Rightarrow> (Inl e, cl2\<lparr>jc_idempotency := cache2\<rparr>)
               | (Inr _, cache2) \<Rightarrow> (Inr rsp, cl2\<lparr>jc_idempotency := cache2\<rparr>))))"
  using assms by (simp add: jsonl_handle_def envelope_head_def uuid_parse_str)

text \<open>A record that is acknowledged was appended.\<close>

lemma jsonl_record_Inr:
  assumes "jsonl_record env envelope event_id ty sid cl = (Inr rsp, cl2)"
  shows "\<exists>line cl1. append_line (ce_disk env) sid line (should_fsync (jc_fsync cl) ty) cl1 = (Inr (), cl2) \<and>
    jc_fsync cl1 = jc_fsync cl \<and> jc_idempotency cl1 = jc_idempotency cl"
proof (cases "ty = JStr ''ACTION_RECORD''")
  case False
  then show ?thesis
    using assms by (fastforce simp: jsonl_record_def after_append_Inr split: prod.splits)
next
  case True
  obtain b cl1 where b: "build_action (ce_fresh env) envelope event_id sid cl = (b, cl1)"
    by (cases "build_action (ce_fresh env) envelope event_id sid cl")
  then have "jc_fsync cl1 = jc_fsync cl \<and> jc_idempotency cl1 = jc_idempotency cl"
    by (auto simp: build_action_def split: sum.splits prod.splits)
  with True b assms show ?thesis
    by (cases b) (auto simp: jsonl_record_def after_append_Inr split: prod.splits)
qed

text \<open>A sealable action reaches the append with its chain already advanced.\<close>

lemma jsonl_record_sealable:
  assumes p: "dict_or_empty (dget envelope ''payload'') = Inr payload" and s: "sealable payload"
  shows "\<exists>sealed st' line.
    seal (ce_fresh env) sid payload (state_for (jc_chains cl) sid) = (Inr sealed, st') \<and>
    action_line envelope event_id sid payload sealed = Inr line \<and>
    jsonl_record env envelope event_id (JStr ''ACTION_RECORD'') sid cl =
      after_append (accepted event_id (Some (sa_action_id sealed)) (Some (sa_sequence_number sealed))
                      (Some (sa_self_hash sealed)))
        (append_line (ce_disk env) sid line (should_fsync (jc_fsync cl) (JStr ''ACTION_RECORD''))
           (cl\<lparr>jc_chains := (jc_chains cl)(sid \<mapsto> st')\<rparr>))"
proof -
  obtain sealed st' where sl: "seal (ce_fresh env) sid payload (state_for (jc_chains cl) sid) = (Inr sealed, st')"
    by (simp add: seal_fresh [OF s] Let_def)
  obtain line where "action_line envelope event_id sid payload sealed = Inr line"
    using action_line_total [of payload envelope event_id sid sealed] s unfolding sealable_def by blast
  with sl p show ?thesis by (simp add: jsonl_record_def build_action_def registry_seal_def)
qed

definition sample_envelope :: dict where
  "sample_envelope =
     [(''event_id'', JStr (uuid_str 5)), (''event_type'', JStr ''ACTION_RECORD''),
      (''session_id'', JStr ''s''), (''payload'', JObj sample_payload)]"

definition sample_env :: "disk \<Rightarrow> call_env" where
  "sample_env d = \<lparr>ce_now_get = 0, ce_now_set = 0, ce_fresh = 7, ce_disk = d\<rparr>"

lemma sample_envelope_facts:
  "envelope_head sample_envelope 5 (JStr ''ACTION_RECORD'') ''s''"
  "dict_or_empty (dget sample_envelope ''payload'') = Inr sample_payload"
  "honest sample_envelope"
  by (simp_all add: envelope_head_def sample_envelope_def dict_simps honest_def sample_payload_def
      is_sealed_def bound_def binding_broken_def)

definition sample_approval :: dict where
  "sample_approval = dset ''event_type'' (JStr ''APPROVAL_RECORD'') sample_envelope"

lemma sample_approval_head: "envelope_head sample_approval 5 (JStr ''APPROVAL_RECORD'') ''s''"
  by (simp add: sample_approval_def envelope_head_def sample_envelope_def dict_simps)

lemma sample_approval_emitted: "dget sample_approval ''emitted_at'' = JNull"
  by (simp add: sample_approval_def sample_envelope_def dict_simps)

lemma sample_approval_call:
  "\<exists>cl'. jsonl_handle (\<lambda>_. None) (sample_env Disk_Ok) sample_approval (empty_client Fsync_Chain) =
     (Inr (accepted 5 (Some 7) None None), cl')"
  by (simp add: jsonl_handle_head [OF sample_approval_head] idem_get_def evict_expired_def Let_def
      jsonl_record_def build_non_action_def append_line_def sample_env_def idem_set_def parse_dt_def
      sample_approval_emitted empty_client_def)

section \<open>Properties of the local backend\<close>



text \<open>A failing write still consumes its sequence number: the call raises \<open>OSError\<close>, the file
  keeps its lines, and the chain in memory has moved on, so the gap stays provable.\<close>

theorem failed_write_leaves_gap:
  assumes "envelope_head envelope event_id (JStr ''ACTION_RECORD'') sid"
    and "dict_or_empty (dget envelope ''payload'') = Inr payload" and "sealable payload"
    and "fst (idem_get (ce_now_get env) event_id (jc_idempotency cl)) = None"
    and "ce_disk env = Write_Fails e"
  shows "fst (jsonl_handle fromiso env envelope cl) = Inl (OSError e) \<and>
    file_lines (snd (jsonl_handle fromiso env envelope cl)) sid = file_lines cl sid \<and>
    cs_count (state_for (jc_chains (snd (jsonl_handle fromiso env envelope cl))) sid)
      = cs_count (state_for (jc_chains cl) sid) + 1"
proof -
  obtain cache where g: "idem_get (ce_now_get env) event_id (jc_idempotency cl) = (None, cache)"
    using assms(4) by (cases "idem_get (ce_now_get env) event_id (jc_idempotency cl)") auto
  let ?cl = "cl\<lparr>jc_idempotency := cache\<rparr>"
  have chs: "jc_chains ?cl = jc_chains cl" by simp
  obtain sealed st' line rsp where
    sl: "seal (ce_fresh env) sid payload (state_for (jc_chains cl) sid) = (Inr sealed, st')"
    and r: "jsonl_record env envelope event_id (JStr ''ACTION_RECORD'') sid ?cl =
      after_append rsp (append_line (ce_disk env) sid line
        (should_fsync (jc_fsync ?cl) (JStr ''ACTION_RECORD'')) (?cl\<lparr>jc_chains := (jc_chains ?cl)(sid \<mapsto> st')\<rparr>))"
    using jsonl_record_sealable [OF assms(2,3), of env sid ?cl event_id, unfolded chs] unfolding chs by blast
  from sl have "cs_count st' = cs_count (state_for (jc_chains cl) sid) + 1"
    by (auto simp: seal_fresh [OF assms(3)] Let_def)
  then show ?thesis
    by (simp add: jsonl_handle_head [OF assms(1)] g r append_line_def assms(5) file_lines_def Let_def)
qed

theorem failed_write_leaves_gap_witness:
  "cs_count (state_for (jc_chains (snd (jsonl_handle (\<lambda>_. None) (sample_env (Write_Fails ''disk full''))
     sample_envelope (empty_client Fsync_Chain)))) ''s'') = 1"
  using failed_write_leaves_gap [OF sample_envelope_facts(1,2) sealable_sample,
      of "sample_env (Write_Fails ''disk full'')" "empty_client Fsync_Chain" "''disk full''" "\<lambda>_. None"]
  by (simp add: idem_get_def evict_expired_def Let_def empty_client_def sample_env_def state_for_def new_chain_def)

text \<open>Under the default durability policy an acknowledged action or approval is durable, and with
  it every earlier line of its session file.\<close>

theorem acknowledged_control_lines_durable:
  assumes "envelope_head envelope event_id (JStr ty) sid"
    and "ty = ''ACTION_RECORD'' \<or> ty = ''APPROVAL_RECORD''" and "jc_fsync cl \<noteq> Fsync_Never"
    and "jsonl_handle fromiso env envelope cl = (Inr rsp, cl')" and "rsp_status rsp = ''accepted''"
  shows "file_durable cl' sid = length (file_lines cl' sid)"
proof -
  obtain cache where g: "idem_get (ce_now_get env) event_id (jc_idempotency cl) = (None, cache)"
    using assms(4,5)
    by (cases "idem_get (ce_now_get env) event_id (jc_idempotency cl)")
      (auto simp: jsonl_handle_head [OF assms(1)] Let_def split: option.splits)
  obtain cl2 where r: "jsonl_record env envelope event_id (JStr ty) sid (cl\<lparr>jc_idempotency := cache\<rparr>) = (Inr rsp, cl2)"
    and files: "jc_files cl' = jc_files cl2"
    using assms(4) by (auto simp: jsonl_handle_head [OF assms(1)] g Let_def split: prod.splits sum.splits)
  obtain line cl1 where "append_line (ce_disk env) sid line (should_fsync (jc_fsync cl1) (JStr ty)) cl1 = (Inr (), cl2)"
    and "jc_fsync cl1 = jc_fsync cl"
    using jsonl_record_Inr [OF r] by auto
  moreover have "should_fsync (jc_fsync cl) (JStr ty)"
    using assms(2,3) by (cases "jc_fsync cl") (auto simp: should_fsync_def)
  ultimately have "file_durable cl2 sid = length (file_lines cl2 sid)"
    using append_line_files(7) by auto
  with files show ?thesis by (simp add: file_durable_def file_lines_def)
qed

theorem acknowledged_control_lines_durable_witness:
  "\<exists>rsp cl'. jsonl_handle (\<lambda>_. None) (sample_env Disk_Ok) sample_approval (empty_client Fsync_Chain)
     = (Inr rsp, cl') \<and> file_durable cl' ''s'' = length (file_lines cl' ''s'')"
proof -
  obtain cl' where "jsonl_handle (\<lambda>_. None) (sample_env Disk_Ok) sample_approval (empty_client Fsync_Chain) =
      (Inr (accepted 5 (Some 7) None None), cl')" using sample_approval_call by blast
  then show ?thesis
    using acknowledged_control_lines_durable [OF sample_approval_head, of "empty_client Fsync_Chain"]
    by (fastforce simp: empty_client_def)
qed

text \<open>An event handled once is not written twice: within the day a second call with its id is
  rejected as a duplicate, not retryable, and neither a file nor a chain changes.\<close>

theorem duplicate_event_writes_nothing:
  assumes "envelope_head envelope event_id ty sid" and "envelope_head envelope2 event_id ty2 sid2"
    and "store_inv (jc_idempotency cl)"
    and "jsonl_handle fromiso env envelope cl = (Inr rsp, cl1)" and "rsp_status rsp = ''accepted''"
    and "ce_now_set env \<le> ce_now_get env2" and "ce_now_get env2 < ce_now_set env + ttl"
    and "ce_now_get env2 < micros (parse_dt fromiso (ce_now_get env) (dget envelope ''emitted_at'')) + ttl"
  shows "\<exists>m cl2. jsonl_handle fromiso env2 envelope2 cl1 = (Inr (rejected event_id DUPLICATE_EVENT m False), cl2) \<and>
    jc_files cl2 = jc_files cl1 \<and> jc_chains cl2 = jc_chains cl1"
proof -
  obtain cache where g: "idem_get (ce_now_get env) event_id (jc_idempotency cl) = (None, cache)"
    using assms(4,5)
    by (cases "idem_get (ce_now_get env) event_id (jc_idempotency cl)")
      (auto simp: jsonl_handle_head [OF assms(1)] Let_def split: option.splits)
  let ?em = "parse_dt fromiso (ce_now_get env) (dget envelope ''emitted_at'')"
  obtain cl2 where r: "jsonl_record env envelope event_id ty sid (cl\<lparr>jc_idempotency := cache\<rparr>) = (Inr rsp, cl2)"
    and s: "idem_set (ce_now_set env) event_id rsp ?em (jc_idempotency cl2) = (Inr (), jc_idempotency cl1)"
    using assms(4) by (auto simp: jsonl_handle_head [OF assms(1)] g Let_def split: prod.splits sum.splits)
  have "jc_idempotency cl2 = cache"
    using jsonl_record_Inr [OF r] append_line_files(2) by fastforce
  then have "store_inv (jc_idempotency cl2)" using get_inv [OF assms(3)] g by (metis snd_conv)
  then have "fst (idem_get (ce_now_get env2) event_id (jc_idempotency cl1)) = Some rsp"
    using idem.lookup_stored [OF _ s] assms(7,8) by simp
  then obtain cache2 where "idem_get (ce_now_get env2) event_id (jc_idempotency cl1) = (Some rsp, cache2)"
    by (metis prod.collapse)
  then show ?thesis by (simp add: jsonl_handle_head [OF assms(2)] Let_def) blast
qed

theorem duplicate_event_writes_nothing_witness:
  "\<exists>rsp cl1 m cl2. jsonl_handle (\<lambda>_. None) (sample_env Disk_Ok) sample_approval (empty_client Fsync_Chain)
       = (Inr rsp, cl1) \<and>
     jsonl_handle (\<lambda>_. None) (sample_env Disk_Ok) sample_envelope cl1 = (Inr (rejected 5 DUPLICATE_EVENT m False), cl2)"
proof -
  obtain cl1 where c: "jsonl_handle (\<lambda>_. None) (sample_env Disk_Ok) sample_approval (empty_client Fsync_Chain) =
      (Inr (accepted 5 (Some 7) None None), cl1)" using sample_approval_call by blast
  have "store_inv (jc_idempotency (empty_client Fsync_Chain))" by (simp add: empty_client_def)
  from duplicate_event_writes_nothing [OF sample_approval_head sample_envelope_facts(1) this c,
      of "sample_env Disk_Ok"] c
  show ?thesis by (auto simp: sample_env_def ttl_def parse_dt_def sample_approval_emitted)
qed

text \<open>An \<open>emitted_at\<close> without a zone makes the call raise \<open>TypeError\<close> after the line has been
  appended and without the event being remembered, so a retry of it is written again.\<close>

theorem naive_emitted_at_raises_after_write:
  assumes "envelope_head envelope event_id ty sid"
    and "\<not> aware (parse_dt fromiso (ce_now_get env) (dget envelope ''emitted_at''))"
    and "idem_get (ce_now_get env) event_id (jc_idempotency cl) = (None, cache)"
    and "jsonl_record env envelope event_id ty sid (cl\<lparr>jc_idempotency := cache\<rparr>) = (Inr rsp, cl2)"
  shows "fst (jsonl_handle fromiso env envelope cl) = Inl TypeError \<and>
    jc_files (snd (jsonl_handle fromiso env envelope cl)) = jc_files cl2 \<and>
    jc_idempotency (snd (jsonl_handle fromiso env envelope cl))
      = evict_expired (ce_now_set env) (jc_idempotency cl2)"
  using assms(2-4) by (simp add: jsonl_handle_head [OF assms(1)] idem_set_def Let_def)

theorem naive_emitted_at_raises_after_write_witness:
  "let envelope = dset ''event_type'' (JStr ''SESSION_OPEN'') (dset ''emitted_at'' (JStr ''n'') sample_envelope);
       fromiso = (\<lambda>_. Some \<lparr>micros = 0, aware = False\<rparr>);
       r = jsonl_handle fromiso (sample_env Disk_Ok) envelope (empty_client Fsync_Chain)
   in fst r = Inl TypeError \<and> file_lines (snd r) ''s'' = [envelope]"
proof -
  let ?e = "dset ''event_type'' (JStr ''SESSION_OPEN'') (dset ''emitted_at'' (JStr ''n'') sample_envelope)"
  have h: "envelope_head ?e 5 (JStr ''SESSION_OPEN'') ''s''"
    by (simp add: envelope_head_def sample_envelope_def dict_simps)
  have g: "idem_get (ce_now_get (sample_env Disk_Ok)) 5 (jc_idempotency (empty_client Fsync_Chain)) = (None, [])"
    by (simp add: idem_get_def evict_expired_def empty_client_def Let_def)
  have a: "\<not> aware (parse_dt (\<lambda>_. Some \<lparr>micros = 0, aware = False\<rparr>) (ce_now_get (sample_env Disk_Ok))
      (dget ?e ''emitted_at''))"
    by (simp add: parse_dt_def dict_simps)
  obtain rsp cl2 where r: "jsonl_record (sample_env Disk_Ok) ?e 5 (JStr ''SESSION_OPEN'') ''s''
      ((empty_client Fsync_Chain)\<lparr>jc_idempotency := []\<rparr>) = (Inr rsp, cl2)"
    and f: "file_lines cl2 ''s'' = [?e]"
    by (simp add: jsonl_record_def build_non_action_def append_line_def sample_env_def Let_def
        file_lines_def empty_client_def should_fsync_def)
  from naive_emitted_at_raises_after_write [OF h a g r] f show ?thesis
    by (simp add: Let_def file_lines_def)
qed

end
