(* ===== verification/Loss_Ledger.thy ===== *)
theory Loss_Ledger
  imports Py_Values
begin

text \<open>
  \<^verbatim>\<open>rootsign/sdk/loss_ledger.py\<close>: what one session lost, and why. Instants are
  microseconds; \<open>isoformat\<close> is an argument of the annotation line.
\<close>

definition loss_record_event_type :: string where
  "loss_record_event_type = ''RECORD_LOSS''"

record ledger =
  ll_session_id :: string
  ll_count :: nat
  ll_first_sequence :: json
  ll_last_sequence :: json
  ll_reasons :: "(string \<times> nat) list"
  ll_first_at :: "int option"
  ll_last_at :: "int option"

definition new_ledger :: "string \<Rightarrow> ledger" where
  "new_ledger sid = \<lparr>ll_session_id = sid, ll_count = 0, ll_first_sequence = JNull,
     ll_last_sequence = JNull, ll_reasons = [], ll_first_at = None, ll_last_at = None\<rparr>"

definition is_empty_ledger :: "ledger \<Rightarrow> bool" where
  "is_empty_ledger l \<longleftrightarrow> ll_count l = 0"

definition reason_count :: "string \<Rightarrow> ledger \<Rightarrow> nat" where
  "reason_count reason l = (case map_of (ll_reasons l) reason of None \<Rightarrow> 0 | Some n \<Rightarrow> n)"

text \<open>The result says whether this was the first loss.\<close>

definition record_loss :: "int \<Rightarrow> json \<Rightarrow> string \<Rightarrow> ledger \<Rightarrow> bool \<times> ledger" where
  "record_loss now sequence_number reason l =
     (let first = (ll_count l = 0);
          l1 = l\<lparr>ll_count := ll_count l + 1,
                ll_reasons := AList.update reason (reason_count reason l + 1) (ll_reasons l),
                ll_last_at := Some now,
                ll_first_at := (if first then Some now else ll_first_at l)\<rparr>;
          l2 = (if sequence_number = JNull then l1
                else l1\<lparr>ll_first_sequence := (if ll_first_sequence l = JNull then sequence_number
                                              else ll_first_sequence l),
                        ll_last_sequence := sequence_number\<rparr>)
      in (first, l2))"

definition sequence_range :: "ledger \<Rightarrow> string" where
  "sequence_range l =
     (if ll_first_sequence l = JNull then ''n/a''
      else if ll_first_sequence l = ll_last_sequence l then py_str (ll_first_sequence l)
      else py_str (ll_first_sequence l) @ ''-'' @ py_str (ll_last_sequence l))"

text \<open>\<open>sorted(self.reasons.items())\<close>; the keys are distinct.\<close>

definition sorted_reasons :: "ledger \<Rightarrow> (string \<times> nat) list" where
  "sorted_reasons l = sort_key fst (ll_reasons l)"

definition ledger_summary :: "ledger \<Rightarrow> string" where
  "ledger_summary l =
     (let reasons = str_join '', '' (map (\<lambda>(r, n). r @ '' (x'' @ nat_str n @ '')'') (sorted_reasons l))
      in nat_str (ll_count l) @ '' record(s) lost, sequence '' @ sequence_range l @ ''; cause: ''
         @ (if reasons = [] then ''unknown'' else reasons))"

definition ledger_record :: "(int \<Rightarrow> string) \<Rightarrow> int \<Rightarrow> ledger \<Rightarrow> dict" where
  "ledger_record isoformat now l =
     (let iso_or_null = (\<lambda>t. case t of None \<Rightarrow> JNull | Some m \<Rightarrow> JStr (isoformat m)) in
      [(''event_type'', JStr loss_record_event_type),
       (''session_id'', JStr (ll_session_id l)),
       (''lost_count'', JInt (int (ll_count l))),
       (''first_sequence'', ll_first_sequence l),
       (''last_sequence'', ll_last_sequence l),
       (''reasons'', JObj (map (\<lambda>(r, n). (r, JInt (int n))) (sorted_reasons l))),
       (''first_loss_at'', iso_or_null (ll_first_at l)),
       (''last_loss_at'', iso_or_null (ll_last_at l)),
       (''recorded_at'', JStr (isoformat now))])"

section \<open>Accounting\<close>

definition ledger_inv :: "ledger \<Rightarrow> bool" where
  "ledger_inv l \<longleftrightarrow>
     distinct (map fst (ll_reasons l)) \<and> sum_list (map snd (ll_reasons l)) = ll_count l \<and>
     (ll_first_sequence l = JNull \<longleftrightarrow> ll_last_sequence l = JNull)"

lemma ledger_inv_new [simp]: "ledger_inv (new_ledger sid)"
  by (simp add: ledger_inv_def new_ledger_def)

lemma sum_update:
  "distinct (map fst xs) \<Longrightarrow>
    sum_list (map snd (AList.update k ((case map_of xs k of None \<Rightarrow> 0 | Some n \<Rightarrow> n) + 1) xs))
      = sum_list (map snd xs) + (1::nat)"
proof (induction xs)
  case (Cons x xs)
  obtain a b where "x = (a, b)" by (cases x)
  with Cons show ?case by auto
qed simp

lemma record_loss_inv: "ledger_inv l \<Longrightarrow> ledger_inv (snd (record_loss now sq reason l))"
  using sum_update [of "ll_reasons l" reason]
  by (auto simp: ledger_inv_def record_loss_def reason_count_def Let_def distinct_update)

fun losses :: "(int \<times> json \<times> string) list \<Rightarrow> ledger \<Rightarrow> ledger" where
  "losses [] l = l"
| "losses ((now, sq, reason) # ls) l = losses ls (snd (record_loss now sq reason l))"

lemma losses_inv: "ledger_inv l \<Longrightarrow> ledger_inv (losses ls l)"
  by (induction ls l rule: losses.induct) (simp_all add: record_loss_inv)

lemma losses_count: "ll_count (losses ls l) = ll_count l + length ls"
  by (induction ls l rule: losses.induct) (simp_all add: record_loss_def Let_def)

lemma losses_reason:
  "reason_count r (losses ls l) = reason_count r l + length (filter (\<lambda>(_, _, r'). r' = r) ls)"
proof (induction ls l rule: losses.induct)
  case (2 now sq reason ls l)
  have "reason_count r (snd (record_loss now sq reason l)) = reason_count r l + (if reason = r then 1 else 0)"
    by (simp add: record_loss_def reason_count_def Let_def update_conv')
  with 2 show ?case by simp
qed simp

lemma losses_sequence:
  "ll_first_sequence l = JNull \<Longrightarrow> ll_last_sequence l = JNull \<Longrightarrow>
    (let sqs = filter (\<lambda>s. s \<noteq> JNull) (map (\<lambda>(_, s, _). s) ls) in
      ll_first_sequence (losses ls l) = (if sqs = [] then JNull else hd sqs) \<and>
      ll_last_sequence (losses ls l) = (if sqs = [] then JNull else last sqs))"
proof (induction ls rule: rev_induct)
  case Nil
  then show ?case by simp
next
  case (snoc x ls)
  have app: "losses (xs @ [(n, s, r)]) k = snd (record_loss n s r (losses xs k))" for xs n s r k
    by (induction xs k rule: losses.induct) simp_all
  obtain n s r where x: "x = (n, s, r)" by (cases x)
  have "hd (filter (\<lambda>s. s \<noteq> JNull) ss) \<noteq> JNull" if "filter (\<lambda>s. s \<noteq> JNull) ss \<noteq> []" for ss
    using hd_in_set [OF that] by (auto simp del: hd_in_set)
  with snoc show ?case
    by (auto simp: x app record_loss_def Let_def hd_append)
qed

text \<open>The ledger of a session accounts for every loss: its count is their number, each reason is
  counted as often as it occurred, the counts add up, and the range runs from the first lost
  sequence number to the last one.\<close>

theorem ledger_accounts:
  "let l = losses ls (new_ledger sid); sqs = filter (\<lambda>s. s \<noteq> JNull) (map (\<lambda>(_, s, _). s) ls) in
     ll_count l = length ls \<and> sum_list (map snd (ll_reasons l)) = length ls \<and>
     reason_count r l = length (filter (\<lambda>(_, _, r'). r' = r) ls) \<and>
     ll_first_sequence l = (if sqs = [] then JNull else hd sqs) \<and>
     ll_last_sequence l = (if sqs = [] then JNull else last sqs)"
proof -
  have z: "ll_count (new_ledger sid) = 0" "reason_count r (new_ledger sid) = 0"
    "ll_first_sequence (new_ledger sid) = JNull" "ll_last_sequence (new_ledger sid) = JNull"
    by (simp_all add: new_ledger_def reason_count_def)
  have "sum_list (map snd (ll_reasons (losses ls (new_ledger sid)))) = ll_count (losses ls (new_ledger sid))"
    using losses_inv [OF ledger_inv_new] by (simp add: ledger_inv_def)
  then show ?thesis
    using losses_sequence [OF z(3,4), of ls] by (simp add: losses_count losses_reason z Let_def)
qed

end
