(* ===== verification/Http_Client.thy ===== *)
theory Http_Client
  imports Jsonl_Client Loss_Ledger
begin

text \<open>
  \<^verbatim>\<open>HttpIngestClient\<close> of \<^verbatim>\<open>rootsign/sdk/client.py\<close>: sealing in place, posting with
  per-element retry, failing over to the spool for good, and the two ways a spool write can fail
  (control records raise, telemetry is accounted for). What each POST does, how pydantic reads
  one element of a response, the ids drawn for sealing and the surroundings of each spool write
  are arguments. The spool is a JSONL client on the same chain registry, so the registry is the
  one inside it. Log lines that must appear exactly once are kept as a list of events.
\<close>

section \<open>Surroundings\<close>

text \<open>A POST times out, fails in transport, or returns a status, a body (\<open>None\<close> when it is not
  JSON) and a \<open>Retry-After\<close> header already parsed.\<close>

datatype http_outcome =
    Http_Timeout
  | Http_Failure string
  | Http_Response int "json option" "rat option"

record http_env =
  hx_post :: "nat \<Rightarrow> http_outcome"
  hx_parse :: "json \<Rightarrow> response option"
  hx_seal_id :: "nat \<Rightarrow> uuid"
  hx_spool :: "nat \<Rightarrow> call_env"
  hx_annotate :: "nat \<Rightarrow> disk"
  hx_now :: int
  hx_isoformat :: "int \<Rightarrow> string"
  hx_fromiso :: "string \<Rightarrow> instant option"

datatype log_event =
    Spool_Warning error_code nat
  | Record_Lost string
  | Closed_With_Losses string
  | Annotation_Failed string

datatype loss_policy = Loss_Warn | Loss_Fail

record http_client =
  hc_max_retries :: nat
  hc_spool :: jsonl_client
  hc_spool_enabled :: bool
  hc_spooling :: bool
  hc_spool_reason :: "error_code option"
  hc_on_record_loss :: loss_policy
  hc_ledgers :: "string \<rightharpoonup> ledger"
  hc_log :: "log_event list"

datatype http_exn = Raised pyexc | HiTL_Persistence | Record_Persistence

section \<open>Helpers\<close>

definition event_id_of :: "dict \<Rightarrow> uuid" where
  "event_id_of envelope =
     (case uuid_of_str (py_str (dget envelope ''event_id'')) of Some u \<Rightarrow> u | None \<Rightarrow> 0)"

definition is_control_record :: "dict \<Rightarrow> pyexc + bool" where
  "is_control_record envelope =
     (let event_type = dget envelope ''event_type'' in
      if event_type = JStr ''APPROVAL_RECORD'' then Inr True
      else if event_type \<noteq> JStr ''ACTION_RECORD'' then Inr False
      else sbind (dict_or_empty (dget envelope ''payload'')) (\<lambda>payload.
             Inr (dget payload ''authorization_status'' = JStr ''pending'')))"

definition needs_retry :: "response \<Rightarrow> bool" where
  "needs_retry r \<longleftrightarrow> rsp_status r = ''rejected'' \<and> rsp_retryable r = Some True"

definition backoff_base :: rat where "backoff_base = 1 / 2"

definition backoff_max :: rat where "backoff_max = 60"

text \<open>\<open>u\<close> is the sample \<open>random.uniform(0, ceiling)\<close> draws, as a fraction of the ceiling.\<close>

definition backoff_delay :: "nat \<Rightarrow> rat option \<Rightarrow> rat \<Rightarrow> rat" where
  "backoff_delay attempt retry_after u =
     (let ceiling = min (backoff_base * 2 ^ attempt) backoff_max;
          delay = u * ceiling
      in case retry_after of None \<Rightarrow> delay | Some r \<Rightarrow> max delay (min r backoff_max))"

definition placeholder :: response where
  "placeholder = rejected 0 INTERNAL_ERROR ''no response recorded'' True"

section \<open>Sealing in place\<close>

definition seal_one :: "uuid \<Rightarrow> dict \<Rightarrow> registry \<Rightarrow> (pyexc + dict) \<times> registry" where
  "seal_one fresh envelope reg =
     (if dget envelope ''event_type'' \<noteq> JStr ''ACTION_RECORD'' then (Inr envelope, reg)
      else (case dget envelope ''payload'' of
              JObj payload \<Rightarrow>
                if is_sealed payload then (Inr envelope, reg)
                else (case registry_seal fresh (py_str (dget envelope ''session_id'')) payload reg of
                        (Inl e, reg') \<Rightarrow> (Inl e, reg')
                      | (Inr sealed, reg') \<Rightarrow>
                          (Inr (dset ''payload'' (JObj (carry sealed payload)) envelope), reg'))
            | _ \<Rightarrow> (Inr envelope, reg)))"

text \<open>The caller's envelopes afterwards, sealed up to the one that raised.\<close>

fun seal_all :: "(nat \<Rightarrow> uuid) \<Rightarrow> nat \<Rightarrow> dict list \<Rightarrow> registry \<Rightarrow> pyexc option \<times> dict list \<times> registry" where
  "seal_all ids i [] reg = (None, [], reg)"
| "seal_all ids i (e # es) reg =
     (case seal_one (ids i) e reg of
        (Inl ex, reg') \<Rightarrow> (Some ex, e # es, reg')
      | (Inr e', reg') \<Rightarrow>
          (case seal_all ids (Suc i) es reg' of (ex, es', reg'') \<Rightarrow> (ex, e' # es', reg'')))"

section \<open>One POST\<close>

definition reject_batch :: "dict list \<Rightarrow> error_code \<Rightarrow> string \<Rightarrow> bool \<Rightarrow> response list" where
  "reject_batch batch code msg retryable =
     map (\<lambda>e. rejected (event_id_of e) code msg retryable) batch"

fun all_some :: "'a option list \<Rightarrow> 'a list option" where
  "all_some [] = Some []"
| "all_some (None # xs) = None"
| "all_some (Some x # xs) = map_option (Cons x) (all_some xs)"

definition parse_body :: "(json \<Rightarrow> response option) \<Rightarrow> dict list \<Rightarrow> json option \<Rightarrow> response list option" where
  "parse_body parse batch body =
     (case body of
        Some (JArr items) \<Rightarrow>
          if length items \<noteq> length batch then None else all_some (map parse items)
      | _ \<Rightarrow> None)"

definition interpret_status :: "dict list \<Rightarrow> int \<Rightarrow> response list" where
  "interpret_status batch status =
     (if status = 200
      then reject_batch batch INTERNAL_ERROR
             (''malformed or misaligned batch response (expected '' @ nat_str (length batch) @ '' elements)'') True
      else if status = 401 \<or> status = 403
      then reject_batch batch VALIDATION_ERROR
             (''authentication rejected (HTTP '' @ int_str status @ '')'') False
      else if status = 429 then reject_batch batch RATE_LIMITED ''rate limited (HTTP 429)'' True
      else if status = 500 then reject_batch batch INTERNAL_ERROR ''server error (HTTP 500)'' True
      else if status > 500
      then reject_batch batch STORE_UNAVAILABLE (''server unavailable (HTTP '' @ int_str status @ '')'') True
      else reject_batch batch VALIDATION_ERROR (''request rejected (HTTP '' @ int_str status @ '')'') False)"

definition post_once :: "(json \<Rightarrow> response option) \<Rightarrow> http_outcome \<Rightarrow> dict list \<Rightarrow> response list" where
  "post_once parse out batch =
     (case out of
        Http_Timeout \<Rightarrow> reject_batch batch WRITE_TIMEOUT ''request timed out'' True
      | Http_Failure m \<Rightarrow> reject_batch batch STORE_UNAVAILABLE (''transport failure: '' @ m) True
      | Http_Response status body _ \<Rightarrow>
          (case parse_body parse batch body of
             Some rs \<Rightarrow> rs
           | None \<Rightarrow> interpret_status batch status))"

section \<open>The retry loop\<close>

text \<open>\<open>left\<close> attempts remain; the trace lists the batches posted. Sleeping between attempts has no
  effect on the state.\<close>

fun send_attempts ::
  "http_env \<Rightarrow> dict list \<Rightarrow> nat \<Rightarrow> nat \<Rightarrow> nat list \<Rightarrow> response list \<Rightarrow> response list \<times> nat list list" where
  "send_attempts hx envelopes attempt 0 pending results = (results, [])"
| "send_attempts hx envelopes attempt (Suc left) pending results =
     (let answers = zip pending (post_once (hx_parse hx) (hx_post hx attempt) (map (\<lambda>i. envelopes ! i) pending));
          results' = fold (\<lambda>(slot, r) rs. rs[slot := r]) answers results;
          pending' = map fst (filter (\<lambda>(_, r). needs_retry r) answers)
      in if pending' = [] then (results', [pending])
         else (case send_attempts hx envelopes (Suc attempt) left pending' results' of
                 (rs, trace) \<Rightarrow> (rs, pending # trace)))"

section \<open>The spool\<close>

definition enter_spool_mode :: "response \<Rightarrow> nat \<Rightarrow> http_client \<Rightarrow> http_client" where
  "enter_spool_mode cause n cl =
     (if hc_spooling cl then cl
      else cl\<lparr>hc_spooling := True, hc_spool_reason := rsp_error_code cause,
             hc_log := hc_log cl @ [Spool_Warning
               (case rsp_error_code cause of Some c \<Rightarrow> c | None \<Rightarrow> INTERNAL_ERROR) n]\<rparr>)"

definition ledger_for :: "http_client \<Rightarrow> string \<Rightarrow> ledger" where
  "ledger_for cl sid = (case hc_ledgers cl sid of Some l \<Rightarrow> l | None \<Rightarrow> new_ledger sid)"

definition on_spool_write_failure ::
  "http_env \<Rightarrow> dict \<Rightarrow> string \<Rightarrow> http_client \<Rightarrow> (http_exn + response) \<times> http_client" where
  "on_spool_write_failure hx envelope reason cl =
     (let sid = py_str (dget envelope ''session_id'') in
      case is_control_record envelope of
        Inl e \<Rightarrow> (Inl (Raised e), cl)
      | Inr True \<Rightarrow> (Inl HiTL_Persistence, cl)
      | Inr False \<Rightarrow>
          (case dict_or_empty (dget envelope ''payload'') of
             Inl e \<Rightarrow> (Inl (Raised e), cl\<lparr>hc_ledgers := (hc_ledgers cl)(sid \<mapsto> ledger_for cl sid)\<rparr>)
           | Inr payload \<Rightarrow>
               (case record_loss (hx_now hx) (dget payload ''sequence_number'') reason (ledger_for cl sid) of
                  (first, l) \<Rightarrow>
                    let cl' = cl\<lparr>hc_ledgers := (hc_ledgers cl)(sid \<mapsto> l),
                                hc_log := hc_log cl @ (if first then [Record_Lost sid] else [])\<rparr>
                    in (if hc_on_record_loss cl = Loss_Fail then Inl Record_Persistence
                        else Inr (rejected (event_id_of envelope) INTERNAL_ERROR
                                    (''record dropped: spool write failed ('' @ reason @ '')'') False),
                        cl'))))"

definition spool_one :: "http_env \<Rightarrow> nat \<Rightarrow> dict \<Rightarrow> http_client \<Rightarrow> (http_exn + response) \<times> http_client" where
  "spool_one hx i envelope cl =
     (case jsonl_handle (hx_fromiso hx) (hx_spool hx i) envelope (hc_spool cl) of
        (Inr r, sp) \<Rightarrow> (Inr r, cl\<lparr>hc_spool := sp\<rparr>)
      | (Inl (OSError m), sp) \<Rightarrow> on_spool_write_failure hx envelope m (cl\<lparr>hc_spool := sp\<rparr>)
      | (Inl e, sp) \<Rightarrow> (Inl (Raised e), cl\<lparr>hc_spool := sp\<rparr>))"

definition flush_ledger :: "http_env \<Rightarrow> nat \<Rightarrow> string \<Rightarrow> http_client \<Rightarrow> http_client" where
  "flush_ledger hx i sid cl =
     (case hc_ledgers cl sid of
        None \<Rightarrow> cl
      | Some l \<Rightarrow>
          if is_empty_ledger l then cl
          else (case append_annotation (hx_annotate hx i) sid
                       (ledger_record (hx_isoformat hx) (hx_now hx) l) (hc_spool cl) of
                  (Inr _, sp) \<Rightarrow> cl\<lparr>hc_spool := sp, hc_log := hc_log cl @ [Closed_With_Losses sid]\<rparr>
                | (Inl _, sp) \<Rightarrow>
                    cl\<lparr>hc_spool := sp, hc_log := hc_log cl @ [Closed_With_Losses sid, Annotation_Failed sid]\<rparr>))"

fun write_to_spool ::
  "http_env \<Rightarrow> nat \<Rightarrow> dict list \<Rightarrow> http_client \<Rightarrow> (http_exn + response list) \<times> http_client" where
  "write_to_spool hx i [] cl = (Inr [], cl)"
| "write_to_spool hx i (e # es) cl =
     (case spool_one hx i e cl of
        (Inl ex, cl1) \<Rightarrow> (Inl ex, cl1)
      | (Inr r, cl1) \<Rightarrow>
          let cl2 = (if dget e ''event_type'' = JStr ''SESSION_CLOSE''
                     then flush_ledger hx i (py_str (dget e ''session_id'')) cl1 else cl1)
          in (case write_to_spool hx (Suc i) es cl2 of
                (Inl ex, cl3) \<Rightarrow> (Inl ex, cl3)
              | (Inr rs, cl3) \<Rightarrow> (Inr (r # rs), cl3)))"

section \<open>A batch\<close>

definition unsent_slots :: "response list \<Rightarrow> nat list" where
  "unsent_slots results = map fst (filter (\<lambda>(_, r). needs_retry r) (numbered 0 results))"

text \<open>The result, the caller's envelopes as sealed, and the slots of each POST.\<close>

definition send_batch ::
  "http_env \<Rightarrow> dict list \<Rightarrow> http_client \<Rightarrow> (http_exn + response list) \<times> nat list list \<times> http_client" where
  "send_batch hx envelopes cl =
     (if hc_spooling cl then (case write_to_spool hx 0 envelopes cl of (r, cl') \<Rightarrow> (r, [], cl'))
      else
        (case send_attempts hx envelopes 0 (hc_max_retries cl) [0 ..< length envelopes]
                (replicate (length envelopes) placeholder) of
           (results, trace) \<Rightarrow>
             let unsent = unsent_slots results in
             if unsent = [] \<or> \<not> hc_spool_enabled cl then (Inr results, trace, cl)
             else
               (case write_to_spool hx 0 (map (\<lambda>i. envelopes ! i) unsent)
                       (enter_spool_mode (results ! hd unsent) (length unsent) cl) of
                  (Inl ex, cl') \<Rightarrow> (Inl ex, trace, cl')
                | (Inr spooled, cl') \<Rightarrow>
                    (Inr (fold (\<lambda>(slot, r) rs. rs[slot := r]) (zip unsent spooled) results), trace, cl'))))"

definition handle_batch ::
  "http_env \<Rightarrow> dict list \<Rightarrow> http_client \<Rightarrow>
    (http_exn + response list) \<times> dict list \<times> nat list list \<times> http_client" where
  "handle_batch hx envelopes cl =
     (if envelopes = [] then (Inr [], [], [], cl)
      else (case seal_all (hx_seal_id hx) 0 envelopes (jc_chains (hc_spool cl)) of
              (Some e, sealed, reg) \<Rightarrow>
                (Inl (Raised e), sealed, [], cl\<lparr>hc_spool := (hc_spool cl)\<lparr>jc_chains := reg\<rparr>\<rparr>)
            | (None, sealed, reg) \<Rightarrow>
                (case send_batch hx sealed (cl\<lparr>hc_spool := (hc_spool cl)\<lparr>jc_chains := reg\<rparr>\<rparr>) of
                   (r, trace, cl') \<Rightarrow> (r, sealed, trace, cl'))))"

definition http_handle ::
  "http_env \<Rightarrow> dict \<Rightarrow> http_client \<Rightarrow> (http_exn + response) \<times> http_client" where
  "http_handle hx envelope cl =
     (case handle_batch hx [envelope] cl of
        (Inl e, _, _, cl') \<Rightarrow> (Inl e, cl')
      | (Inr rs, _, _, cl') \<Rightarrow> (Inr (hd rs), cl'))"

section \<open>Alignment and attempts\<close>

lemma length_reject_batch [simp]: "length (reject_batch b c m r) = length b"
  by (simp add: reject_batch_def)

lemma all_some_length: "all_some xs = Some ys \<Longrightarrow> length ys = length xs"
  by (induction xs arbitrary: ys rule: all_some.induct) auto

lemma length_post_once [simp]: "length (post_once parse out batch) = length batch"
  by (auto simp: post_once_def interpret_status_def parse_body_def dest!: all_some_length
      split: http_outcome.splits option.splits json.splits if_splits)

lemma length_fold_update [simp]: "length (fold (\<lambda>(i, r) rs. rs[i := r]) us xs) = length xs"
  by (induction us arbitrary: xs) (auto simp: case_prod_beta)

lemma set_pending: "length rs = length ps \<Longrightarrow> set (map fst (filter Q (zip ps rs))) \<subseteq> set ps"
  by (auto dest: set_zip_leftD)

lemma distinct_pending: "distinct ps \<Longrightarrow> distinct (map fst (filter Q (zip ps rs)))"
  by (rule distinct_map_filter) (simp add: map_fst_zip_take)

lemma send_attempts_shape:
  "send_attempts hx es k left pending results = (rs, trace) \<Longrightarrow> distinct pending \<Longrightarrow>
    length rs = length results \<and> length trace \<le> left \<and>
    (\<forall>p \<in> set trace. distinct p \<and> set p \<subseteq> set pending) \<and>
    sorted_wrt (\<lambda>p q. set q \<subseteq> set p) trace"
proof (induction hx es k left pending results arbitrary: rs trace rule: send_attempts.induct)
  case (2 hx es k left pending results)
  let ?answers = "zip pending (post_once (hx_parse hx) (hx_post hx k) (map (\<lambda>i. es ! i) pending))"
  let ?results = "fold (\<lambda>(slot, r) rs. rs[slot := r]) ?answers results"
  let ?pending = "map fst (filter (\<lambda>(_, r). needs_retry r) ?answers)"
  have sub: "set ?pending \<subseteq> set pending" by (rule set_pending) simp
  show ?case
  proof (cases "?pending = []")
    case True
    with "2.prems" show ?thesis by (auto simp: Let_def)
  next
    case False
    obtain rs' tr' where r: "send_attempts hx es (Suc k) left ?pending ?results = (rs', tr')"
      by (cases "send_attempts hx es (Suc k) left ?pending ?results")
    with False "2.prems" have eq: "rs = rs'" "trace = pending # tr'" by (auto simp: Let_def)
    have "distinct ?pending" using "2.prems"(2) by (rule distinct_pending)
    from "2.IH" [OF refl refl refl False r this] sub eq "2.prems"(2) show ?thesis by fastforce
  qed
qed simp

lemma write_to_spool_length: "write_to_spool hx i es cl = (Inr rs, cl') \<Longrightarrow> length rs = length es"
  by (induction hx i es cl arbitrary: rs cl' rule: write_to_spool.induct)
    (auto simp: Let_def split: prod.splits sum.splits)

lemma seal_all_length: "seal_all ids i es reg = (ex, es', reg') \<Longrightarrow> length es' = length es"
  by (induction ids i es reg arbitrary: ex es' reg' rule: seal_all.induct)
    (auto split: prod.splits sum.splits)

section \<open>Sealing is idempotent\<close>

definition settled :: "dict \<Rightarrow> bool" where
  "settled envelope \<longleftrightarrow>
     dget envelope ''event_type'' = JStr ''ACTION_RECORD'' \<longrightarrow>
     (\<forall>payload. dget envelope ''payload'' = JObj payload \<longrightarrow> is_sealed payload)"

lemma seal_one_settled: "settled e \<Longrightarrow> seal_one fresh e reg = (Inr e, reg)"
  by (auto simp: seal_one_def settled_def split: json.splits)

lemma seal_one_settles: "seal_one fresh e reg = (Inr e', reg') \<Longrightarrow> settled e'"
  by (auto simp: seal_one_def settled_def dict_simps split: json.splits if_splits prod.splits sum.splits)

lemma seal_all_settles: "seal_all ids i es reg = (None, es', reg') \<Longrightarrow> list_all settled es'"
  by (induction ids i es reg arbitrary: es' reg' rule: seal_all.induct)
    (auto split: prod.splits sum.splits intro: seal_one_settles)

lemma seal_all_settled: "list_all settled es \<Longrightarrow> seal_all ids i es reg = (None, es, reg)"
  by (induction ids i es reg rule: seal_all.induct) (simp_all add: seal_one_settled)

section \<open>Spool mode and the log\<close>

definition warnings :: "http_client \<Rightarrow> nat" where
  "warnings cl = length (filter (\<lambda>e. case e of Spool_Warning _ _ \<Rightarrow> True | _ \<Rightarrow> False) (hc_log cl))"

definition alarms :: "http_client \<Rightarrow> string \<Rightarrow> nat" where
  "alarms cl sid = length (filter (\<lambda>e. e = Record_Lost sid) (hc_log cl))"

definition lost_count :: "http_client \<Rightarrow> string \<Rightarrow> nat" where
  "lost_count cl sid = (case hc_ledgers cl sid of None \<Rightarrow> 0 | Some l \<Rightarrow> ll_count l)"

text \<open>One warning per client, one alarm per session that lost something.\<close>

definition log_inv :: "http_client \<Rightarrow> bool" where
  "log_inv cl \<longleftrightarrow>
     warnings cl = (if hc_spooling cl then 1 else 0) \<and>
     (\<forall>sid. alarms cl sid = (if 0 < lost_count cl sid then 1 else 0))"

definition kept :: "http_client \<Rightarrow> http_client \<Rightarrow> bool" where
  "kept cl cl' \<longleftrightarrow> hc_spooling cl' = hc_spooling cl \<and> hc_max_retries cl' = hc_max_retries cl \<and>
     hc_spool_enabled cl' = hc_spool_enabled cl \<and> hc_on_record_loss cl' = hc_on_record_loss cl \<and>
     (log_inv cl \<longrightarrow> log_inv cl') \<and> (\<forall>sid. lost_count cl sid \<le> lost_count cl' sid)"

lemma kept_refl [simp]: "kept cl cl"
  by (simp add: kept_def)

lemma kept_trans: "kept a b \<Longrightarrow> kept b c \<Longrightarrow> kept a c"
  by (auto simp: kept_def intro: order_trans)

lemma kept_spool [simp]: "kept cl (cl\<lparr>hc_spool := sp\<rparr>)"
  by (simp add: kept_def log_inv_def warnings_def alarms_def lost_count_def)

lemma kept_log:
  assumes "list_all (\<lambda>e. case e of Spool_Warning _ _ \<Rightarrow> False | Record_Lost _ \<Rightarrow> False | _ \<Rightarrow> True) es"
  shows "kept cl (cl\<lparr>hc_spool := sp, hc_log := hc_log cl @ es\<rparr>)"
proof -
  have "filter (\<lambda>e. case e of Spool_Warning _ _ \<Rightarrow> True | _ \<Rightarrow> False) es = []"
    "filter (\<lambda>e. e = Record_Lost sid) es = []" for sid
    using assms by (induction es) (auto split: log_event.splits)
  then show ?thesis
    by (simp add: kept_def log_inv_def warnings_def alarms_def lost_count_def)
qed

lemma on_failure_kept: "on_spool_write_failure hx e reason cl = (r, cl') \<Longrightarrow> kept cl cl'"
proof -
  assume f: "on_spool_write_failure hx e reason cl = (r, cl')"
  let ?sid = "py_str (dget e ''session_id'')"
  have same: "lost_count (cl\<lparr>hc_ledgers := (hc_ledgers cl)(?sid \<mapsto> ledger_for cl ?sid)\<rparr>) sid = lost_count cl sid" for sid
    by (auto simp: lost_count_def ledger_for_def new_ledger_def split: option.splits)
  have lc: "ll_count (ledger_for cl ?sid) = lost_count cl ?sid"
    by (simp add: lost_count_def ledger_for_def new_ledger_def split: option.splits)
  have first: "fst (record_loss now sq reason l) = (ll_count l = 0)"
    and count: "ll_count (snd (record_loss now sq reason l)) = ll_count l + 1" for now sq l
    by (simp_all add: record_loss_def Let_def)
  have more: "kept cl (cl\<lparr>hc_ledgers := (hc_ledgers cl)(?sid \<mapsto> l'),
      hc_log := hc_log cl @ (if b then [Record_Lost ?sid] else [])\<rparr>)"
    if "ll_count l' = lost_count cl ?sid + 1" "b = (lost_count cl ?sid = 0)" for l' b
    using that by (auto simp: kept_def log_inv_def warnings_def alarms_def lost_count_def)
  have empty: "kept cl (cl\<lparr>hc_ledgers := (hc_ledgers cl)(?sid \<mapsto> ledger_for cl ?sid)\<rparr>)"
    using same by (simp add: kept_def log_inv_def warnings_def alarms_def)
  show ?thesis
  proof (cases "is_control_record e")
    case (Inl ex)
    with f show ?thesis by (auto simp: on_spool_write_failure_def Let_def)
  next
    case (Inr b)
    show ?thesis
    proof (cases b)
      case True
      with f Inr show ?thesis by (auto simp: on_spool_write_failure_def Let_def)
    next
      case False
      show ?thesis
      proof (cases "dict_or_empty (dget e ''payload'')")
        case (Inl ex)
        with f Inr False empty show ?thesis by (auto simp: on_spool_write_failure_def Let_def)
      next
        case pay: (Inr payload)
        obtain fr l' where rl: "record_loss (hx_now hx) (dget payload ''sequence_number'') reason (ledger_for cl ?sid) = (fr, l')"
          by (cases "record_loss (hx_now hx) (dget payload ''sequence_number'') reason (ledger_for cl ?sid)")
        then have "ll_count l' = lost_count cl ?sid + 1" "fr = (lost_count cl ?sid = 0)"
          using first [of "hx_now hx" "dget payload ''sequence_number''" "ledger_for cl ?sid"]
            count [of "hx_now hx" "dget payload ''sequence_number''" "ledger_for cl ?sid"] lc by simp_all
        from more [OF this] f Inr False pay rl show ?thesis
          by (simp add: on_spool_write_failure_def Let_def)
      qed
    qed
  qed
qed

lemma spool_one_kept:
  assumes "spool_one hx i e cl = (r, cl')"
  shows "kept cl cl'"
proof (cases "jsonl_handle (hx_fromiso hx) (hx_spool hx i) e (hc_spool cl)")
  case (Pair q sp)
  show ?thesis
  proof (cases "\<exists>m. q = Inl (OSError m)")
    case True
    with assms Pair show ?thesis
      by (auto simp: spool_one_def intro: kept_trans [OF kept_spool on_failure_kept])
  next
    case False
    with assms Pair show ?thesis
      by (auto simp: spool_one_def split: sum.splits pyexc.splits)
  qed
qed

lemma flush_ledger_kept: "kept cl (flush_ledger hx i sid cl)"
  by (auto simp: flush_ledger_def intro!: kept_log split: option.splits prod.splits sum.splits)

lemma write_to_spool_kept: "write_to_spool hx i es cl = (r, cl') \<Longrightarrow> kept cl cl'"
proof (induction hx i es cl arbitrary: r cl' rule: write_to_spool.induct)
  case (2 hx i e es cl)
  obtain s cl1 where s: "spool_one hx i e cl = (s, cl1)" by (cases "spool_one hx i e cl")
  have k1: "kept cl cl1" by (rule spool_one_kept [OF s])
  show ?case
  proof (cases s)
    case (Inl ex)
    with "2.prems" s k1 show ?thesis by simp
  next
    case (Inr rsp)
    let ?cl2 = "if dget e ''event_type'' = JStr ''SESSION_CLOSE''
      then flush_ledger hx i (py_str (dget e ''session_id'')) cl1 else cl1"
    obtain w cl3 where w: "write_to_spool hx (Suc i) es ?cl2 = (w, cl3)"
      by (cases "write_to_spool hx (Suc i) es ?cl2")
    have "cl' = cl3" using "2.prems" s Inr w by (cases w) (simp_all add: Let_def)
    moreover have "kept ?cl2 cl3" using "2.IH" [OF s [symmetric] Inr refl w] by simp
    moreover have "kept cl1 ?cl2" by (simp add: flush_ledger_kept)
    ultimately show ?thesis using k1 kept_trans by blast
  qed
qed simp

lemma enter_spool_inv:
  "log_inv cl \<Longrightarrow> log_inv (enter_spool_mode c n cl)" "hc_spooling (enter_spool_mode c n cl)"
  "lost_count (enter_spool_mode c n cl) sid = lost_count cl sid"
  by (auto simp: enter_spool_mode_def log_inv_def warnings_def alarms_def lost_count_def)

lemma handle_batch_log:
  assumes "handle_batch hx es cl = (r, es', trace, cl')"
  shows "log_inv cl \<Longrightarrow> log_inv cl'" and "hc_spooling cl \<Longrightarrow> hc_spooling cl'"
    and "lost_count cl sid \<le> lost_count cl' sid"
proof -
  have "(log_inv cl \<longrightarrow> log_inv cl') \<and> (hc_spooling cl \<longrightarrow> hc_spooling cl') \<and> lost_count cl sid \<le> lost_count cl' sid"
  proof (cases "es = []")
    case True
    with assms show ?thesis by (simp add: handle_batch_def)
  next
    case False
    obtain ex sealed reg where s: "seal_all (hx_seal_id hx) 0 es (jc_chains (hc_spool cl)) = (ex, sealed, reg)"
      by (cases "seal_all (hx_seal_id hx) 0 es (jc_chains (hc_spool cl))") auto
    let ?cl = "cl\<lparr>hc_spool := (hc_spool cl)\<lparr>jc_chains := reg\<rparr>\<rparr>"
    have k0: "kept cl ?cl" by simp
    show ?thesis
    proof (cases ex)
      case (Some e)
      with assms False s k0 show ?thesis by (auto simp: handle_batch_def kept_def)
    next
      case None
      obtain q tr c1 where b: "send_batch hx sealed ?cl = (q, tr, c1)" by (cases "send_batch hx sealed ?cl") auto
      have c1: "c1 = cl'" using assms False s None b by (simp add: handle_batch_def)
      have "kept ?cl c1 \<or> (\<exists>c n. kept (enter_spool_mode c n ?cl) c1)"
        using b write_to_spool_kept
        by (auto simp: send_batch_def Let_def split: prod.splits if_splits sum.splits) blast+
      then show ?thesis
      proof
        assume "kept ?cl c1"
        with kept_trans [OF k0] show ?thesis unfolding c1 by (auto simp: kept_def)
      next
        assume "\<exists>c n. kept (enter_spool_mode c n ?cl) c1"
        then obtain c n where "kept (enter_spool_mode c n ?cl) cl'" unfolding c1 by blast
        then have "log_inv ?cl \<longrightarrow> log_inv cl'" "hc_spooling cl'" "lost_count ?cl sid \<le> lost_count cl' sid"
          using enter_spool_inv [where cl = ?cl and c = c and n = n] unfolding kept_def by metis+
        with k0 show ?thesis unfolding kept_def by (metis order_trans)
      qed
    qed
  qed
  then show "log_inv cl \<Longrightarrow> log_inv cl'" and "hc_spooling cl \<Longrightarrow> hc_spooling cl'"
    and "lost_count cl sid \<le> lost_count cl' sid" by blast+
qed

section \<open>The spool's answers\<close>

lemma on_failure_spool: "hc_spool (snd (on_spool_write_failure hx e m cl)) = hc_spool cl"
  by (auto simp: on_spool_write_failure_def Let_def split: sum.splits bool.splits prod.splits)

lemma on_failure_control: "is_control_record e = Inr True \<Longrightarrow> fst (on_spool_write_failure hx e m cl) = Inl HiTL_Persistence"
  by (simp add: on_spool_write_failure_def Let_def)

lemma spool_one_spool:
  "hc_spool (snd (spool_one hx i e cl)) = snd (jsonl_handle (hx_fromiso hx) (hx_spool hx i) e (hc_spool cl))"
  by (auto simp: spool_one_def on_failure_spool split: prod.splits sum.splits pyexc.splits)

lemma spool_one_control:
  assumes "spool_one hx i e cl = (Inr r, cl')" and "is_control_record e = Inr True"
  shows "\<exists>sp'. jsonl_handle (hx_fromiso hx) (hx_spool hx i) e (hc_spool cl) = (Inr r, sp')"
proof (cases "jsonl_handle (hx_fromiso hx) (hx_spool hx i) e (hc_spool cl)")
  case (Pair q sp)
  with assms on_failure_control [OF assms(2)] show ?thesis
    by (cases q) (auto simp: spool_one_def split: pyexc.splits dest: arg_cong [of _ _ fst])
qed

lemma write_to_spool_control:
  "write_to_spool hx i es cl = (Inr rs, cl') \<Longrightarrow> k < length es \<Longrightarrow> is_control_record (es ! k) = Inr True \<Longrightarrow>
    \<exists>sp sp'. jsonl_handle (hx_fromiso hx) (hx_spool hx (i + k)) (es ! k) sp = (Inr (rs ! k), sp')"
proof (induction hx i es cl arbitrary: rs cl' k rule: write_to_spool.induct)
  case (2 hx i e es cl)
  let ?flushed = "\<lambda>c. if dget e ''event_type'' = JStr ''SESSION_CLOSE''
      then flush_ledger hx i (py_str (dget e ''session_id'')) c else c"
  obtain r cl1 rs' cl3 where s: "spool_one hx i e cl = (Inr r, cl1)"
    and w: "write_to_spool hx (Suc i) es (?flushed cl1) = (Inr rs', cl3)" and rs: "rs = r # rs'"
    using "2.prems"(1) by (auto simp: Let_def split: prod.splits sum.splits)
  show ?case
  proof (cases k)
    case 0
    with "2.prems"(3) spool_one_control [OF s] rs show ?thesis by auto
  next
    case (Suc j)
    with "2.prems" "2.IH" [OF s [symmetric] refl refl w, of j] rs show ?thesis by simp
  qed
qed simp

lemma jsonl_handle_adopts:
  assumes h: "envelope_head e event_id (JStr ''ACTION_RECORD'') sid"
    and p: "dget e ''payload'' = JObj (carry sa payload)"
    and g: "fst (idem_get (ce_now_get env) event_id (jc_idempotency cl)) = None"
  shows "state_for (jc_chains (snd (jsonl_handle fromiso env e cl))) sid =
    \<lparr>cs_tail = Some (sa_self_hash sa),
     cs_count = max (cs_count (state_for (jc_chains cl) sid)) (sa_sequence_number sa)\<rparr>"
proof -
  obtain cache where g: "idem_get (ce_now_get env) event_id (jc_idempotency cl) = (None, cache)"
    using g by (cases "idem_get (ce_now_get env) event_id (jc_idempotency cl)") auto
  have "carry sa payload \<noteq> []" using dhas_carry [of sa payload "''self_hash''"] by (auto simp: sealed_fields_def dhas_def)
  then have d: "dict_or_empty (dget e ''payload'') = Inr (carry sa payload)"
    by (simp add: p dict_or_empty_def py_or_def)
  obtain b where b: "build_action (ce_fresh env) e event_id sid (cl\<lparr>jc_idempotency := cache\<rparr>) =
    (b, cl\<lparr>jc_idempotency := cache, jc_chains := (jc_chains cl)(sid \<mapsto>
      \<lparr>cs_tail = Some (sa_self_hash sa),
       cs_count = max (cs_count (state_for (jc_chains cl) sid)) (sa_sequence_number sa)\<rparr>)\<rparr>)"
    by (simp add: build_action_def d registry_seal_def seal_carry)
  obtain r cl2 where r: "jsonl_record env e event_id (JStr ''ACTION_RECORD'') sid (cl\<lparr>jc_idempotency := cache\<rparr>) = (r, cl2)"
    by (cases "jsonl_record env e event_id (JStr ''ACTION_RECORD'') sid (cl\<lparr>jc_idempotency := cache\<rparr>)")
  have "jc_chains cl2 = (jc_chains cl)(sid \<mapsto>
      \<lparr>cs_tail = Some (sa_self_hash sa),
       cs_count = max (cs_count (state_for (jc_chains cl) sid)) (sa_sequence_number sa)\<rparr>)"
    using r by (cases b) (auto simp: jsonl_record_def b dest!: after_append_state append_line_files(1))
  then show ?thesis
    by (auto simp: jsonl_handle_head [OF h] g r Let_def split: sum.splits prod.splits)
qed

text \<open>Without a spool and on sealed envelopes a batch is always answered and the client keeps its
  state.\<close>

lemma handle_batch_returns:
  assumes "list_all settled es" and "\<not> hc_spooling cl" and "\<not> hc_spool_enabled cl"
  shows "\<exists>rs trace. handle_batch hx es cl = (Inr rs, es, trace, cl)"
proof -
  have "seal_all (hx_seal_id hx) 0 es (jc_chains (hc_spool cl)) = (None, es, jc_chains (hc_spool cl))"
    by (rule seal_all_settled [OF assms(1)])
  then show ?thesis
    using assms(2,3) by (auto simp: handle_batch_def send_batch_def Let_def split: prod.splits)
qed

section \<open>Properties of the transport\<close>

definition sample_http :: http_client where
  "sample_http =
     \<lparr>hc_max_retries = 2, hc_spool = empty_client Fsync_Chain, hc_spool_enabled = True,
      hc_spooling = False, hc_spool_reason = None, hc_on_record_loss = Loss_Warn,
      hc_ledgers = Map.empty, hc_log = []\<rparr>"

definition sample_http_env :: "http_outcome \<Rightarrow> http_env" where
  "sample_http_env out =
     \<lparr>hx_post = (\<lambda>_. out), hx_parse = (\<lambda>_. None), hx_seal_id = (\<lambda>i. 7), hx_spool = (\<lambda>_. sample_env Disk_Ok),
      hx_annotate = (\<lambda>_. Disk_Ok), hx_now = 0, hx_isoformat = (\<lambda>_. ''t''), hx_fromiso = (\<lambda>_. None)\<rparr>"

lemma sample_http_log: "log_inv sample_http"
  by (simp add: log_inv_def warnings_def alarms_def lost_count_def sample_http_def)

lemma sample_approval_type: "dget sample_approval ''event_type'' = JStr ''APPROVAL_RECORD''"
  by (simp add: sample_approval_def dict_simps)

lemma sample_spool_call:
  "\<exists>cl'. write_to_spool (sample_http_env out) 0 [sample_approval] (enter_spool_mode c n sample_http) =
     (Inr [accepted 5 (Some 7) None None], cl')"
  using sample_approval_call
  by (auto simp: spool_one_def sample_http_env_def enter_spool_mode_def sample_http_def
      sample_approval_type)

lemma sample_batch:
  "\<exists>cl'. handle_batch (sample_http_env Http_Timeout) [sample_approval] sample_http =
     (Inr [accepted 5 (Some 7) None None], [sample_approval], [[0], [0]], cl') \<and> hc_spooling cl'"
proof -
  have clean: "(hc_spool sample_http)\<lparr>jc_chains := jc_chains (hc_spool sample_http)\<rparr> = hc_spool sample_http"
    "sample_http\<lparr>hc_spool := hc_spool sample_http\<rparr> = sample_http" by simp_all
  have sl: "seal_all (hx_seal_id (sample_http_env Http_Timeout)) 0 [sample_approval] reg =
      (None, [sample_approval], reg)" for reg
    by (simp add: seal_one_def sample_approval_type)
  let ?r = "rejected 5 WRITE_TIMEOUT ''request timed out'' True"
  have ev: "event_id_of sample_approval = 5"
    by (simp add: event_id_of_def sample_approval_def sample_envelope_def dict_simps uuid_parse_str)
  have at: "send_attempts (sample_http_env Http_Timeout) [sample_approval] 0 (hc_max_retries sample_http)
      [0] [placeholder] = ([?r], [[0], [0]])"
    by (simp add: sample_http_def numeral_2_eq_2 post_once_def sample_http_env_def reject_batch_def ev
        needs_retry_def)
  have un: "unsent_slots [?r] = [0]" by (simp add: unsent_slots_def needs_retry_def)
  obtain cl' where w: "write_to_spool (sample_http_env Http_Timeout) 0 [sample_approval]
      (enter_spool_mode ?r 1 sample_http) = (Inr [accepted 5 (Some 7) None None], cl')"
    using sample_spool_call by blast
  have "hc_spooling cl'"
    using write_to_spool_kept [OF w] enter_spool_inv(2) by (auto simp: kept_def)
  moreover have "hc_spooling sample_http = False" "hc_spool_enabled sample_http"
    by (simp_all add: sample_http_def)
  ultimately show ?thesis
    using w by (simp add: handle_batch_def sl clean send_batch_def at un
        del: send_attempts.simps seal_all.simps write_to_spool.simps)
qed

lemma handle_batch_aligned:
  assumes "handle_batch hx es cl = (Inr rs, es', trace, cl')"
  shows "length rs = length es \<and> length es' = length es \<and> length trace \<le> hc_max_retries cl \<and>
    (\<forall>p \<in> set trace. distinct p \<and> set p \<subseteq> {..<length es}) \<and> sorted_wrt (\<lambda>p q. set q \<subseteq> set p) trace"
proof (cases "es = []")
  case True
  with assms show ?thesis by (simp add: handle_batch_def)
next
  case False
  obtain sealed reg where s: "seal_all (hx_seal_id hx) 0 es (jc_chains (hc_spool cl)) = (None, sealed, reg)"
    and b: "send_batch hx sealed (cl\<lparr>hc_spool := (hc_spool cl)\<lparr>jc_chains := reg\<rparr>\<rparr>) = (Inr rs, trace, cl')"
    and es': "es' = sealed"
    using assms False by (auto simp: handle_batch_def split: prod.splits option.splits)
  have len: "length sealed = length es" by (rule seal_all_length [OF s])
  let ?cl = "cl\<lparr>hc_spool := (hc_spool cl)\<lparr>jc_chains := reg\<rparr>\<rparr>"
  obtain rs0 tr where a: "send_attempts hx sealed 0 (hc_max_retries cl) [0 ..< length sealed]
      (replicate (length sealed) placeholder) = (rs0, tr)" by fastforce
  note shape = send_attempts_shape [OF a distinct_upt]
  have "length rs = length es \<and> (trace = [] \<or> trace = tr)"
    using b len shape
    by (auto simp: send_batch_def a [unfolded len] Let_def dest: write_to_spool_length split: if_splits prod.splits sum.splits)
  with shape len es' show ?thesis by (auto simp: atLeast0LessThan)
qed

text \<open>The answers of a batch are aligned with its envelopes, at most \<open>max_retries\<close> POSTs are made,
  and each POST carries distinct elements of the batch, no element that an earlier POST left out.\<close>

theorem batch_answers_aligned:
  assumes "handle_batch hx es cl = (Inr rs, es', trace, cl')"
  shows "length rs = length es \<and> length es' = length es \<and> length trace \<le> hc_max_retries cl \<and>
    (\<forall>p \<in> set trace. distinct p \<and> set p \<subseteq> {..<length es}) \<and> sorted_wrt (\<lambda>p q. set q \<subseteq> set p) trace"
  by (rule handle_batch_aligned [OF assms])

theorem batch_answers_aligned_witness:
  "\<exists>rs es' trace cl'. handle_batch (sample_http_env Http_Timeout) [sample_approval] sample_http =
     (Inr rs, es', trace, cl') \<and> length rs = 1 \<and> length trace \<le> 2"
proof -
  obtain rs es' trace cl' where b: "handle_batch (sample_http_env Http_Timeout) [sample_approval] sample_http =
      (Inr rs, es', trace, cl')" using sample_batch by blast
  from batch_answers_aligned [OF b] b show ?thesis by (auto simp: sample_http_def)
qed

text \<open>Sealing a batch happens once: sending the caller's envelopes again, through any client and
  after any state of the chains, leaves them as they are and keeps the event ids the batch was
  first given.\<close>

theorem resend_is_identical:
  assumes "handle_batch hx es cl = (Inr rs, es', trace, cl')"
  shows "seal_all ids 0 es' reg = (None, es', reg) \<and> fst (snd (handle_batch hx2 es' cl2)) = es' \<and>
    map event_id_of es' = map event_id_of es"
proof (cases "es = []")
  case True
  with assms show ?thesis by (simp add: handle_batch_def)
next
  case False
  obtain r where s: "seal_all (hx_seal_id hx) 0 es (jc_chains (hc_spool cl)) = (None, es', r)"
    using assms False by (auto simp: handle_batch_def split: prod.splits option.splits)
  have again: "seal_all ids' 0 es' reg' = (None, es', reg')" for ids' reg'
    by (rule seal_all_settled [OF seal_all_settles [OF s]])
  have "event_id_of e' = event_id_of e" if "seal_one f e g = (Inr e', g')" for f e g e' g'
    using that by (auto simp: seal_one_def event_id_of_def dict_simps split: json.splits if_splits prod.splits sum.splits)
  then have "seal_all ids' i xs g = (None, ys, g') \<Longrightarrow> map event_id_of ys = map event_id_of xs" for ids' i xs g ys g'
    by (induction ids' i xs g arbitrary: ys g' rule: seal_all.induct) (auto split: prod.splits sum.splits)
  with s again show ?thesis by (simp add: handle_batch_def split: prod.splits)
qed

theorem resend_is_identical_witness:
  "\<exists>rs es' trace cl'. handle_batch (sample_http_env Http_Timeout) [sample_approval] sample_http =
     (Inr rs, es', trace, cl') \<and> fst (snd (handle_batch (sample_http_env Http_Timeout) es' cl')) = es'"
proof -
  obtain rs es' trace cl' where b: "handle_batch (sample_http_env Http_Timeout) [sample_approval] sample_http =
      (Inr rs, es', trace, cl')" using sample_batch by blast
  from resend_is_identical [OF b] b show ?thesis by auto
qed

text \<open>Spool mode is entered once, with one warning, and never left: a spooling client posts
  nothing. Each session that lost telemetry raised exactly one alarm, and losses are never
  forgotten.\<close>

theorem spool_mode_one_way:
  assumes "handle_batch hx es cl = (r, es', trace, cl')" and "log_inv cl"
  shows "log_inv cl' \<and> (hc_spooling cl \<longrightarrow> hc_spooling cl' \<and> trace = []) \<and>
    (\<forall>sid. lost_count cl sid \<le> lost_count cl' sid)"
proof -
  have "trace = []" if "hc_spooling cl"
    using assms(1) that by (auto simp: handle_batch_def send_batch_def split: if_splits prod.splits option.splits)
  with handle_batch_log [OF assms(1)] assms(2) show ?thesis by blast
qed

theorem spool_mode_one_way_witness:
  "\<exists>r es' trace cl'. handle_batch (sample_http_env Http_Timeout) [sample_approval] sample_http =
     (r, es', trace, cl') \<and> warnings cl' = 1"
proof -
  obtain rs es' trace cl' where b: "handle_batch (sample_http_env Http_Timeout) [sample_approval] sample_http =
      (Inr rs, es', trace, cl')" and "hc_spooling cl'" using sample_batch by blast
  with spool_mode_one_way [OF b sample_http_log] show ?thesis by (auto simp: log_inv_def)
qed

text \<open>C33. A control record is never dropped: when writing a batch to the spool returns, every approval
  and every pending action in it was answered by the spool's own JSONL client; a write that
  failed raised instead.\<close>

theorem control_record_never_dropped:
  assumes "write_to_spool hx i es cl = (Inr rs, cl')" and "k < length es"
    and "is_control_record (es ! k) = Inr True"
  shows "(\<exists>sp sp'. jsonl_handle (hx_fromiso hx) (hx_spool hx (i + k)) (es ! k) sp = (Inr (rs ! k), sp')) \<and>
    (\<forall>m c. fst (on_spool_write_failure hx (es ! k) m c) = Inl HiTL_Persistence)"
  using write_to_spool_control [OF assms] on_failure_control [OF assms(3)] by blast

theorem control_record_never_dropped_witness:
  "\<exists>rs cl' sp sp'. write_to_spool (sample_http_env Http_Timeout) 0 [sample_approval]
       (enter_spool_mode placeholder 1 sample_http) = (Inr rs, cl') \<and>
     jsonl_handle (\<lambda>_. None) (sample_env Disk_Ok) sample_approval sp = (Inr (rs ! 0), sp')"
proof -
  obtain rs cl' where w: "write_to_spool (sample_http_env Http_Timeout) 0 [sample_approval]
       (enter_spool_mode placeholder 1 sample_http) = (Inr rs, cl')" using sample_spool_call by blast
  have "is_control_record ([sample_approval] ! 0) = Inr True"
    by (simp add: is_control_record_def sample_approval_type)
  from control_record_never_dropped [OF w _ this] w show ?thesis
    by (auto simp: sample_http_env_def)
qed

lemma head_dget:
  "envelope_head e event_id ty sid \<Longrightarrow> dget e ''event_type'' = ty \<and> dget e ''session_id'' = JStr sid"
  by (auto simp: envelope_head_def dindex_eq_Inr dget_def)

lemma head_dset_payload: "envelope_head (dset ''payload'' x e) event_id ty sid = envelope_head e event_id ty sid"
  by (simp add: envelope_head_def dict_simps)

lemma seal_one_action:
  assumes "envelope_head e event_id (JStr ''ACTION_RECORD'') sid" and "dget e ''payload'' = JObj p" and "sealable p"
  obtains sa where
    "seal_one fresh e reg = (Inr (dset ''payload'' (JObj (carry sa p)) e),
       reg(sid \<mapsto> \<lparr>cs_tail = Some (sa_self_hash sa), cs_count = sa_sequence_number sa\<rparr>))"
    and "sa_sequence_number sa = cs_count (state_for reg sid) + 1"
    and "sa_prev_action_hash sa = opt_str (cs_tail (state_for reg sid))"
proof -
  let ?st = "state_for reg sid"
  define sa where "sa = \<lparr>sa_action_id = fresh, sa_sequence_number = cs_count ?st + 1,
    sa_prev_action_hash = opt_str (cs_tail ?st),
    sa_self_hash = hash_of (link_dict fresh sid (cs_tail ?st) (cs_count ?st + 1) p), sa_adopted = False\<rparr>"
  have "seal_one fresh e reg = (Inr (dset ''payload'' (JObj (carry sa p)) e),
      reg(sid \<mapsto> \<lparr>cs_tail = Some (sa_self_hash sa), cs_count = sa_sequence_number sa\<rparr>))"
    using head_dget [OF assms(1)] assms(2,3) unsealed_not_sealed [of p]
    by (simp add: seal_one_def sealable_def registry_seal_def seal_fresh [OF assms(3)] Let_def sa_def)
  then show ?thesis by (rule that) (simp_all add: sa_def)
qed

text \<open>C17. A batch of two actions of which the server takes the second and keeps the first retryable: the
  first alone is spooled, which adopts the older seal, so the session's next action takes number
  three but links to the first record and the honest session forks.\<close>

theorem partial_rejection_forks_session:
  assumes "envelope_head e1 id1 (JStr ''ACTION_RECORD'') sid" and "dget e1 ''payload'' = JObj p1" and "sealable p1"
    and "envelope_head e2 id2 (JStr ''ACTION_RECORD'') sid" and "dget e2 ''payload'' = JObj p2" and "sealable p2"
    and "\<not> hc_spooling cl" and "hc_spool_enabled cl" and "hc_max_retries cl = 1"
    and "hx_post hx 0 = Http_Response 200 (Some (JArr [x1, x2])) ra"
    and "hx_parse hx x1 = Some r1" and "needs_retry r1" and "hx_parse hx x2 = Some r2" and "\<not> needs_retry r2"
    and "fst (idem_get (ce_now_get (hx_spool hx 0)) id1 (jc_idempotency (hc_spool cl))) = None"
    and "handle_batch hx [e1, e2] cl = (r, es', trace, cl')" and "sealable p3"
    and "seal f3 sid p3 (state_for (jc_chains (hc_spool cl')) sid) = (Inr sa3, st3)"
  shows "\<exists>sa1 sa2. es' = [dset ''payload'' (JObj (carry sa1 p1)) e1, dset ''payload'' (JObj (carry sa2 p2)) e2] \<and>
    sa_sequence_number sa2 = sa_sequence_number sa1 + 1 \<and> sa_prev_action_hash sa2 = JStr (sa_self_hash sa1) \<and>
    sa_sequence_number sa3 = sa_sequence_number sa2 + 1 \<and> sa_prev_action_hash sa3 = JStr (sa_self_hash sa1)"
proof -
  let ?reg = "jc_chains (hc_spool cl)"
  obtain sa1 where s1: "seal_one (hx_seal_id hx 0) e1 ?reg = (Inr (dset ''payload'' (JObj (carry sa1 p1)) e1),
      ?reg(sid \<mapsto> \<lparr>cs_tail = Some (sa_self_hash sa1), cs_count = sa_sequence_number sa1\<rparr>))"
    and n1: "sa_sequence_number sa1 = cs_count (state_for ?reg sid) + 1"
    by (rule seal_one_action [OF assms(1-3)])
  let ?reg1 = "?reg(sid \<mapsto> \<lparr>cs_tail = Some (sa_self_hash sa1), cs_count = sa_sequence_number sa1\<rparr>)"
  obtain sa2 where s2: "seal_one (hx_seal_id hx (Suc 0)) e2 ?reg1 = (Inr (dset ''payload'' (JObj (carry sa2 p2)) e2),
      ?reg1(sid \<mapsto> \<lparr>cs_tail = Some (sa_self_hash sa2), cs_count = sa_sequence_number sa2\<rparr>))"
    and n2': "sa_sequence_number sa2 = cs_count (state_for ?reg1 sid) + 1"
    and p2': "sa_prev_action_hash sa2 = opt_str (cs_tail (state_for ?reg1 sid))"
    by (rule seal_one_action [OF assms(4-6)])
  have n2: "sa_sequence_number sa2 = sa_sequence_number sa1 + 1"
    and p2: "sa_prev_action_hash sa2 = JStr (sa_self_hash sa1)"
    using n2' p2' by (simp_all add: opt_str_def)
  define reg2 where "reg2 = ?reg1(sid \<mapsto> \<lparr>cs_tail = Some (sa_self_hash sa2), cs_count = sa_sequence_number sa2\<rparr>)"
  have st2: "cs_count (state_for reg2 sid) = sa_sequence_number sa2" by (simp add: reg2_def)
  let ?e1 = "dset ''payload'' (JObj (carry sa1 p1)) e1" and ?e2 = "dset ''payload'' (JObj (carry sa2 p2)) e2"
  let ?cl = "cl\<lparr>hc_spool := (hc_spool cl)\<lparr>jc_chains := reg2\<rparr>\<rparr>"
  let ?sp = "enter_spool_mode r1 (Suc 0) ?cl"
  have seal: "seal_all (hx_seal_id hx) 0 [e1, e2] ?reg = (None, [?e1, ?e2], reg2)"
    using s1 s2 by (simp add: reg2_def)
  have post: "post_once (hx_parse hx) (hx_post hx 0) [?e1, ?e2] = [r1, r2]"
    by (simp add: assms post_once_def parse_body_def)
  have sent: "send_attempts hx [?e1, ?e2] 0 (hc_max_retries cl) [0, Suc 0] [placeholder, placeholder] = ([r1, r2], [[0, Suc 0]])"
    by (simp add: assms(9,12,14) post numeral_2_eq_2)
  have unsent: "unsent_slots [r1, r2] = [0]" by (simp add: unsent_slots_def assms)
  obtain q cl1 where w: "spool_one hx 0 ?e1 ?sp = (q, cl1)" by (cases "spool_one hx 0 ?e1 ?sp")
  have h1: "envelope_head ?e1 id1 (JStr ''ACTION_RECORD'') sid" using assms(1) by (simp add: head_dset_payload)
  have "\<exists>rs. write_to_spool hx 0 [?e1] ?sp = (rs, cl1)"
    using head_dget [OF h1] by (cases q) (simp_all add: w)
  then have "es' = [?e1, ?e2] \<and> cl' = cl1"
    using assms(7,8,16) seal
    by (auto simp: handle_batch_def send_batch_def sent unsent upt_conv_Cons
        simp del: seal_all.simps send_attempts.simps write_to_spool.simps split: sum.splits prod.splits)
  moreover have "state_for (jc_chains (hc_spool cl1)) sid =
      \<lparr>cs_tail = Some (sa_self_hash sa1), cs_count = sa_sequence_number sa2\<rparr>"
    using spool_one_spool [of hx 0 ?e1 ?sp] w assms(7,15) n2 st2
      jsonl_handle_adopts [OF h1, of sa1 p1 "hx_spool hx 0" "hc_spool ?sp" "hx_fromiso hx"]
    by (simp add: enter_spool_mode_def dict_simps)
  ultimately have "es' = [?e1, ?e2]" and "sa_sequence_number sa3 = sa_sequence_number sa2 + 1"
    and "sa_prev_action_hash sa3 = JStr (sa_self_hash sa1)"
    using assms(18) by (auto simp: seal_fresh [OF assms(17)] Let_def opt_str_def)
  with n2 p2 show ?thesis by blast
qed

definition sample_partial_env :: http_env where
  "sample_partial_env = (sample_http_env (Http_Response 200 (Some (JArr [JNull, JBool True])) None))
     \<lparr>hx_parse := (\<lambda>j. Some (if j = JNull then placeholder else accepted 6 None None None))\<rparr>"

definition sample_one_try :: http_client where
  "sample_one_try = sample_http\<lparr>hc_max_retries := 1\<rparr>"

definition sample_second :: dict where
  "sample_second = dset ''event_id'' (JStr (uuid_str 6)) sample_envelope"

theorem partial_rejection_forks_session_witness:
  "\<exists>r es' trace cl' sa3 st3. handle_batch sample_partial_env [sample_envelope, sample_second] sample_one_try =
       (r, es', trace, cl') \<and>
     seal 3 ''s'' sample_payload (state_for (jc_chains (hc_spool cl')) ''s'') = (Inr sa3, st3) \<and>
     (\<exists>(sa1 :: sealed_action) (sa2 :: sealed_action). sa_prev_action_hash sa2 = JStr (sa_self_hash sa1) \<and>
       sa_sequence_number sa3 = sa_sequence_number sa2 + 1 \<and> sa_prev_action_hash sa3 = JStr (sa_self_hash sa1))"
proof -
  have p: "dget sample_envelope ''payload'' = JObj sample_payload"
    "dget sample_second ''payload'' = JObj sample_payload"
    by (simp_all add: sample_second_def sample_envelope_def dict_simps)
  have h2: "envelope_head sample_second 6 (JStr ''ACTION_RECORD'') ''s''"
    by (simp add: sample_second_def envelope_head_def sample_envelope_def dict_simps)
  obtain r es' trace cl' where b:
    "handle_batch sample_partial_env [sample_envelope, sample_second] sample_one_try = (r, es', trace, cl')"
    by (cases "handle_batch sample_partial_env [sample_envelope, sample_second] sample_one_try") auto
  obtain sa3 st3 where s3: "seal 3 ''s'' sample_payload (state_for (jc_chains (hc_spool cl')) ''s'') = (Inr sa3, st3)"
    by (simp add: seal_fresh [OF sealable_sample] Let_def)
  have "hx_parse sample_partial_env JNull = Some placeholder" "needs_retry placeholder"
    "hx_parse sample_partial_env (JBool True) = Some (accepted 6 None None None)"
    "\<not> needs_retry (accepted 6 None None None)"
    "hx_post sample_partial_env 0 = Http_Response 200 (Some (JArr [JNull, JBool True])) None"
    "\<not> hc_spooling sample_one_try" "hc_spool_enabled sample_one_try" "hc_max_retries sample_one_try = 1"
    "fst (idem_get (ce_now_get (hx_spool sample_partial_env 0)) 5 (jc_idempotency (hc_spool sample_one_try))) = None"
    by (simp_all add: sample_partial_env_def sample_http_env_def needs_retry_def placeholder_def
        sample_one_try_def sample_http_def empty_client_def idem_get_def evict_expired_def Let_def)
  from partial_rejection_forks_session [OF sample_envelope_facts(1) p(1) sealable_sample h2 p(2) sealable_sample
      this(6-8) this(5) this(1-4) this(9) b sealable_sample s3]
  show ?thesis using b s3 by blast
qed

end
