(* ===== verification/Replay.thy ===== *)
theory Replay
  imports Http_Client
begin

text \<open>
  \<^verbatim>\<open>rootsign/replay.py\<close>: a list of envelopes is sent in order, in batches, until the first
  refusal. A client is given by its batch method or, when it has none, by its \<open>handle\<close>; both
  thread the client's state and may raise. The progress callback has no effect on the report.

  The lemmas show that the report the loop fills in is a function of the answers alone
  (\<open>report_of\<close>), and, for a client whose answers are aligned with its batches, that the answers
  are those of a prefix of the envelopes that ends with the batch of the first refusal. The
  contract is the locale \<open>aligned_transport\<close>; the HTTP client meets it.
\<close>

section \<open>The walk\<close>

record replay_report =
  rr_total :: nat
  rr_accepted :: nat
  rr_duplicates :: nat
  rr_failed_index :: "nat option"
  rr_error_code :: "error_code option"
  rr_error_message :: "string option"
  rr_responses :: "response list"

definition new_report :: "nat \<Rightarrow> replay_report" where
  "new_report n =
     \<lparr>rr_total = n, rr_accepted = 0, rr_duplicates = 0, rr_failed_index = None, rr_error_code = None,
      rr_error_message = None, rr_responses = []\<rparr>"

definition report_complete :: "replay_report \<Rightarrow> bool" where
  "report_complete r \<longleftrightarrow> rr_failed_index r = None"

definition delivered :: "replay_report \<Rightarrow> nat" where
  "delivered r = rr_accepted r + rr_duplicates r"

definition is_success :: "response \<Rightarrow> bool" where
  "is_success r \<longleftrightarrow> rsp_status r = ''accepted'' \<or> rsp_error_code r = Some DUPLICATE_EVENT"

datatype ('s, 'e) transport =
    Batching "dict list \<Rightarrow> 's \<Rightarrow> ('e + response list) \<times> 's"
  | Single "dict \<Rightarrow> 's \<Rightarrow> ('e + response) \<times> 's"

fun send_each ::
  "(dict \<Rightarrow> 's \<Rightarrow> ('e + response) \<times> 's) \<Rightarrow> dict list \<Rightarrow> 's \<Rightarrow> ('e + response list) \<times> 's" where
  "send_each h [] s = (Inr [], s)"
| "send_each h (e # es) s =
     (case h e s of
        (Inl ex, s') \<Rightarrow> (Inl ex, s')
      | (Inr r, s') \<Rightarrow>
          (case send_each h es s' of
             (Inl ex, s'') \<Rightarrow> (Inl ex, s'')
           | (Inr rs, s'') \<Rightarrow> (Inr (r # rs), s'')))"

definition replay_send :: "('s, 'e) transport \<Rightarrow> dict list \<Rightarrow> 's \<Rightarrow> ('e + response list) \<times> 's" where
  "replay_send t batch s = (case t of Batching f \<Rightarrow> f batch s | Single h \<Rightarrow> send_each h batch s)"

definition tally_one :: "nat \<Rightarrow> response \<Rightarrow> replay_report \<Rightarrow> replay_report" where
  "tally_one index r rep =
     (let rep' = rep\<lparr>rr_responses := rr_responses rep @ [r]\<rparr> in
      if rsp_status r = ''accepted'' then rep'\<lparr>rr_accepted := rr_accepted rep + 1\<rparr>
      else if rsp_error_code r = Some DUPLICATE_EVENT then rep'\<lparr>rr_duplicates := rr_duplicates rep + 1\<rparr>
      else if rr_failed_index rep = None
      then rep'\<lparr>rr_failed_index := Some index, rr_error_code := rsp_error_code r,
                rr_error_message := rsp_error_message r\<rparr>
      else rep')"

fun tally :: "nat \<Rightarrow> response list \<Rightarrow> replay_report \<Rightarrow> replay_report" where
  "tally index [] rep = rep"
| "tally index (r # rs) rep = tally (Suc index) rs (tally_one index r rep)"

definition short_answer :: "nat \<Rightarrow> nat \<Rightarrow> nat \<Rightarrow> replay_report \<Rightarrow> replay_report" where
  "short_answer start got asked rep =
     rep\<lparr>rr_failed_index := Some (start + got), rr_error_code := Some INTERNAL_ERROR,
         rr_error_message := Some (''store returned '' @ nat_str got @ '' response(s) for a '' @
           nat_str asked @ ''-envelope batch'')\<rparr>"

text \<open>A batch has \<open>Suc k\<close> envelopes, the last one fewer.\<close>

fun replay_from ::
  "('s, 'e) transport \<Rightarrow> nat \<Rightarrow> nat \<Rightarrow> dict list \<Rightarrow> replay_report \<Rightarrow> 's \<Rightarrow> ('e + replay_report) \<times> 's" where
  "replay_from t k start [] rep s = (Inr rep, s)"
| "replay_from t k start (e # es) rep s =
     (let batch = take (Suc k) (e # es) in
      case replay_send t batch s of
        (Inl ex, s') \<Rightarrow> (Inl ex, s')
      | (Inr rs, s') \<Rightarrow>
          let rep' = tally start rs rep in
          if rr_failed_index rep' \<noteq> None then (Inr rep', s')
          else if length rs < length batch then (Inr (short_answer start (length rs) (length batch) rep'), s')
          else replay_from t k (start + Suc k) (drop k es) rep' s')"

definition replay_envelopes ::
  "('s, 'e) transport \<Rightarrow> dict list \<Rightarrow> int \<Rightarrow> 's \<Rightarrow> ('e + replay_report) \<times> 's" where
  "replay_envelopes t envelopes batch_size s =
     (if envelopes = [] then (Inr (new_report 0), s)
      else replay_from t (nat (max 1 batch_size) - 1) 0 envelopes (new_report (length envelopes)) s)"

definition default_batch_size :: int where
  "default_batch_size = 100"

section \<open>The report is a function of the answers\<close>

definition first_refusal :: "response list \<Rightarrow> nat option" where
  "first_refusal rs =
     (let i = length (takeWhile is_success rs) in if i = length rs then None else Some i)"

definition report_of :: "nat \<Rightarrow> response list \<Rightarrow> replay_report" where
  "report_of n rs =
     \<lparr>rr_total = n,
      rr_accepted = length (filter (\<lambda>r. rsp_status r = ''accepted'') rs),
      rr_duplicates = length (filter (\<lambda>r. rsp_status r \<noteq> ''accepted'' \<and> rsp_error_code r = Some DUPLICATE_EVENT) rs),
      rr_failed_index = first_refusal rs,
      rr_error_code = (case first_refusal rs of None \<Rightarrow> None | Some i \<Rightarrow> rsp_error_code (rs ! i)),
      rr_error_message = (case first_refusal rs of None \<Rightarrow> None | Some i \<Rightarrow> rsp_error_message (rs ! i)),
      rr_responses = rs\<rparr>"

lemma first_refusal_Nil [simp]: "first_refusal [] = None"
  by (simp add: first_refusal_def)

lemma first_refusal_None: "first_refusal rs = None \<longleftrightarrow> list_all is_success rs"
proof -
  have "length (takeWhile is_success rs) = length rs \<longleftrightarrow> takeWhile is_success rs = rs"
    by (metis takeWhile_dropWhile_id append_eq_append_conv append_Nil2)
  then have "length (takeWhile is_success rs) = length rs \<longleftrightarrow> list_all is_success rs"
    by (metis takeWhile_eq_all_conv list_all_iff)
  then show ?thesis unfolding first_refusal_def Let_def by (metis option.distinct(1))
qed

lemma first_refusal_Some:
  assumes "first_refusal rs = Some i"
  shows "i < length rs" and "\<not> is_success (rs ! i)" and "\<forall>j < i. is_success (rs ! j)"
proof -
  have i: "i = length (takeWhile is_success rs)" "i \<noteq> length rs"
    using assms by (auto simp: first_refusal_def Let_def split: if_splits)
  then show lt: "i < length rs" using length_takeWhile_le [of is_success rs] by linarith
  then show "\<not> is_success (rs ! i)" using nth_length_takeWhile [of is_success rs] i by simp
  show "\<forall>j < i. is_success (rs ! j)"
    using i by (metis nth_mem set_takeWhileD takeWhile_nth)
qed

lemma first_refusal_snoc:
  "first_refusal (rs @ [r]) =
     (case first_refusal rs of
        Some i \<Rightarrow> Some i
      | None \<Rightarrow> if is_success r then None else Some (length rs))"
proof (cases "first_refusal rs")
  case None
  then have all: "list_all is_success rs" by (simp add: first_refusal_None)
  show ?thesis
  proof (cases "is_success r")
    case True
    with all have "first_refusal (rs @ [r]) = None" by (simp add: first_refusal_None)
    with None True show ?thesis by simp
  next
    case False
    from all have "takeWhile is_success (rs @ [r]) = rs @ takeWhile is_success [r]"
      by (intro takeWhile_append2) (simp add: list_all_iff)
    with None False show ?thesis by (simp add: first_refusal_def Let_def)
  qed
next
  case (Some i)
  have "\<exists>x \<in> set rs. \<not> is_success x"
    using first_refusal_Some [OF Some] by (meson nth_mem)
  then have "takeWhile is_success (rs @ [r]) = takeWhile is_success rs"
    by (auto simp: takeWhile_append)
  with Some first_refusal_Some(1) [OF Some] show ?thesis
    by (auto simp: first_refusal_def Let_def split: if_splits)
qed

lemma tally_one_report: "tally_one (length xs) r (report_of n xs) = report_of n (xs @ [r])"
  by (auto simp: tally_one_def report_of_def Let_def first_refusal_snoc is_success_def nth_append
      split: option.splits dest: first_refusal_Some(1))

lemma tally_report: "tally (length xs) rs (report_of n xs) = report_of n (xs @ rs)"
proof (induction rs arbitrary: xs)
  case (Cons r rs)
  show ?case using Cons.IH [of "xs @ [r]"] by (simp add: tally_one_report)
qed simp

lemma new_report_of: "new_report n = report_of n []"
  by (simp add: new_report_def report_of_def)

section \<open>Answers aligned with batches\<close>

text \<open>The reference the loop is compared with: all batches of a list, whatever is answered.\<close>

fun send_all :: "('s, 'e) transport \<Rightarrow> nat \<Rightarrow> dict list \<Rightarrow> 's \<Rightarrow> ('e + response list) \<times> 's" where
  "send_all t k [] s = (Inr [], s)"
| "send_all t k (e # es) s =
     (case replay_send t (take (Suc k) (e # es)) s of
        (Inl ex, s') \<Rightarrow> (Inl ex, s')
      | (Inr rs, s') \<Rightarrow>
          (case send_all t k (drop k es) s' of
             (Inl ex, s'') \<Rightarrow> (Inl ex, s'')
           | (Inr rs', s'') \<Rightarrow> (Inr (rs @ rs'), s'')))"

text \<open>The answers stop with the batch of the first refusal, counted from \<open>start\<close>.\<close>

definition stops_with_batch :: "nat \<Rightarrow> nat \<Rightarrow> nat \<Rightarrow> nat option \<Rightarrow> nat \<Rightarrow> bool" where
  "stops_with_batch k start m failed got \<longleftrightarrow>
     (case failed of
        None \<Rightarrow> got = m
      | Some i \<Rightarrow> start \<le> i \<and> got = min m (((i - start) div Suc k + 1) * Suc k))"

lemma first_refusal_ge: "first_refusal xs = None \<Longrightarrow> first_refusal (xs @ rs) = Some i \<Longrightarrow> length xs \<le> i"
  using first_refusal_Some(2) [of "xs @ rs" i]
  by (auto simp: first_refusal_None list_all_iff nth_append split: if_splits intro: leI)

lemma take_whole_batches:
  assumes "length rs1 = min (Suc k) (Suc (length es))" and "length rs2 \<le> length (drop k es)"
  shows "take (length (rs1 @ rs2)) (e # es) = e # take (k + length rs2) es"
    and "take (Suc k) (e # take (k + length rs2) es) = take (Suc k) (e # es)"
    and "drop k (take (k + length rs2) es) = take (length rs2) (drop k es)"
proof -
  show "take (length (rs1 @ rs2)) (e # es) = e # take (k + length rs2) es"
  proof (cases "k \<le> length es")
    case True
    with assms(1) show ?thesis by simp
  next
    case False
    with assms show ?thesis by simp
  qed
qed (simp_all add: drop_take min_def)

locale aligned_transport =
  fixes t :: "('s, 'e) transport"
  assumes aligned: "replay_send t batch s = (Inr rs, s') \<Longrightarrow> length rs = length batch"
begin

lemma walk_prefix:
  assumes "replay_from t k (length xs) es (report_of n xs) s = (Inr rep, s')" and "first_refusal xs = None"
  shows "\<exists>rs. rep = report_of n (xs @ rs) \<and> length rs \<le> length es \<and>
    send_all t k (take (length rs) es) s = (Inr rs, s') \<and>
    stops_with_batch k (length xs) (length es) (first_refusal (xs @ rs)) (length rs)"
  using assms
proof (induction "length es" arbitrary: xs es s rule: less_induct)
  case less
  show ?case
  proof (cases es)
    case Nil
    with less.prems show ?thesis by (simp add: stops_with_batch_def)
  next
    case (Cons e es')
    obtain rs1 s1 where send: "replay_send t (take (Suc k) (e # es')) s = (Inr rs1, s1)"
      using less.prems(1) Cons by (auto simp: Let_def split: prod.splits sum.splits)
    have len: "length rs1 = min (Suc k) (Suc (length es'))" using aligned [OF send] by simp
    have tl: "tally (length xs) rs1 (report_of n xs) = report_of n (xs @ rs1)" by (rule tally_report)
    have full: "\<not> length rs1 < length (take (Suc k) (e # es'))" using len by simp
    show ?thesis
    proof (cases "first_refusal (xs @ rs1)")
      case (Some i)
      have i: "length xs \<le> i" "i - length xs < length rs1"
        using first_refusal_ge [OF less.prems(2) Some] first_refusal_Some(1) [OF Some] by simp_all
      then have "(i - length xs) div Suc k = 0" using len by simp
      with i len have stop: "stops_with_batch k (length xs) (length es) (first_refusal (xs @ rs1)) (length rs1)"
        by (simp add: Some stops_with_batch_def Cons)
      have "rep = report_of n (xs @ rs1)" "s' = s1"
        using less.prems(1) Cons send Some tl by (simp_all add: Let_def report_of_def)
      moreover have "send_all t k (take (length rs1) es) s = (Inr rs1, s1)"
        using send len take_whole_batches(1,2) [of rs1 k es' "[]" e] by (simp add: Cons)
      ultimately show ?thesis using len stop by (intro exI [of _ rs1]) (simp add: Cons)
    next
      case None
      have next_: "replay_from t k (length (xs @ rs1)) (drop k es') (report_of n (xs @ rs1)) s1 = (Inr rep, s')"
      proof (cases "drop k es'")
        case Nil
        with less.prems(1) Cons send None tl full show ?thesis by (simp add: Let_def report_of_def)
      next
        case Cons': (Cons a b)
        then have "k < length es'" by (metis drop_eq_Nil2 list.distinct(1) not_le)
        with less.prems(1) Cons send None tl full len show ?thesis by (simp add: Let_def report_of_def)
      qed
      have smaller: "length (drop k es') < length es" by (simp add: Cons)
      obtain rs2 where rep: "rep = report_of n ((xs @ rs1) @ rs2)" and l2: "length rs2 \<le> length (drop k es')"
        and all: "send_all t k (take (length rs2) (drop k es')) s1 = (Inr rs2, s')"
        and stop: "stops_with_batch k (length (xs @ rs1)) (length (drop k es')) (first_refusal ((xs @ rs1) @ rs2)) (length rs2)"
        using less.hyps [OF smaller next_ None] by blast
      note tk = take_whole_batches(1,2) [OF len l2, of e] take_whole_batches(3) [OF len l2]
      have "send_all t k (take (length (rs1 @ rs2)) es) s = (Inr (rs1 @ rs2), s')"
        unfolding Cons tk(1) send_all.simps tk(2,3) send by (simp add: all)
      moreover have "stops_with_batch k (length xs) (length es) (first_refusal (xs @ rs1 @ rs2)) (length (rs1 @ rs2))"
      proof (cases "first_refusal (xs @ rs1 @ rs2)")
        case None
        with stop len show ?thesis by (simp add: stops_with_batch_def Cons min_def split: if_splits)
      next
        case (Some i)
        with stop have i: "length (xs @ rs1) \<le> i"
          "length rs2 = min (length (drop k es')) (((i - length (xs @ rs1)) div Suc k + 1) * Suc k)"
          by (simp_all add: stops_with_batch_def)
        have "i < length (xs @ rs1 @ rs2)" by (rule first_refusal_Some(1) [OF Some])
        with i l2 have "rs2 \<noteq> []" by auto
        with l2 have "k < length es'" by (cases rs2) simp_all
        with len have l1: "length rs1 = Suc k" by simp
        with i(1) have "i - length xs = Suc k + (i - length (xs @ rs1))" by simp
        then have "(i - length xs) div Suc k = Suc ((i - length (xs @ rs1)) div Suc k)"
          using div_add_self1 [of "Suc k" "i - length (xs @ rs1)"] by simp
        moreover have "min (Suc k + a) (Suc k + b) = Suc k + min a b" for a b by simp
        from this [of "length es' - k" "((i - length (xs @ rs1)) div Suc k + 1) * Suc k"]
        have "min (Suc (length es')) ((Suc ((i - length (xs @ rs1)) div Suc k) + 1) * Suc k) =
            Suc k + min (length es' - k) (((i - length (xs @ rs1)) div Suc k + 1) * Suc k)"
          using \<open>k < length es'\<close> by (simp add: ac_simps)
        ultimately show ?thesis
          using i l1 by (simp only: Some stops_with_batch_def Cons option.case list.size length_append length_drop) simp
      qed
      ultimately show ?thesis using rep l2 len
        by (intro exI [of _ "rs1 @ rs2"]) (simp add: Cons min_def split: if_splits)
    qed
  qed
qed

end

lemma send_each_length: "send_each h es s = (Inr rs, s') \<Longrightarrow> length rs = length es"
  by (induction h es s arbitrary: rs s' rule: send_each.induct) (auto split: prod.splits sum.splits)

interpretation each: aligned_transport "Single h" for h
  by unfold_locales (simp add: replay_send_def send_each_length)

text \<open>The transport of \<open>rootsign-admin sync\<close>: the HTTP client, each batch in its own surroundings.\<close>

definition http_transport :: "(nat \<Rightarrow> http_env) \<Rightarrow> (nat \<times> http_client, http_exn) transport" where
  "http_transport hxs =
     Batching (\<lambda>batch (n, cl). case handle_batch (hxs n) batch cl of (r, _, _, cl') \<Rightarrow> (r, (Suc n, cl')))"

interpretation http: aligned_transport "http_transport hxs" for hxs
  by unfold_locales
    (auto simp: replay_send_def http_transport_def split: prod.splits dest: handle_batch_aligned)

section \<open>Properties of the replay\<close>

lemma delivered_all: "list_all is_success rs \<Longrightarrow> delivered (report_of n rs) = length rs"
  by (induction rs) (auto simp: delivered_def report_of_def is_success_def)

lemma http_walk_returns:
  assumes "list_all settled es" and "\<not> hc_spooling cl" and "\<not> hc_spool_enabled cl"
  shows "\<exists>rep n'. replay_from (http_transport hxs) k start es rep0 (n, cl) = (Inr rep, (n', cl))"
  using assms(1)
proof (induction "length es" arbitrary: es start rep0 n rule: less_induct)
  case less
  show ?case
  proof (cases es)
    case (Cons e es')
    have "list_all settled (take (Suc k) es)" "list_all settled (drop k es')"
      using less.prems Cons by (auto simp: list_all_iff dest: in_set_takeD in_set_dropD)
    moreover from this obtain rs trace where
      "handle_batch (hxs n) (take (Suc k) es) cl = (Inr rs, take (Suc k) es, trace, cl)"
      using handle_batch_returns [OF _ assms(2,3)] by blast
    ultimately show ?thesis
      using less.hyps [of "drop k es'" _ _ "Suc n"] Cons
      by (simp add: replay_send_def http_transport_def Let_def)
  qed simp
qed

definition sample_sync_client :: http_client where
  "sample_sync_client = sample_http\<lparr>hc_spool_enabled := False\<rparr>"

lemma sample_settled: "list_all settled [sample_approval]"
  by (simp add: settled_def sample_approval_type)

text \<open>C19. A replay over the HTTP client delivers a prefix: the report is a function of the answers, the
  answers are exactly those to a prefix of the envelopes sent in order, and that prefix is
  everything, or ends with the batch of the first refusal, after which nothing is sent.\<close>

theorem replay_delivers_prefix:
  assumes "replay_envelopes (http_transport hxs) es bs st = (Inr rep, st')"
    and "k = nat (max 1 bs) - 1"
  shows "\<exists>rs. rep = report_of (length es) rs \<and> length rs \<le> length es \<and>
    send_all (http_transport hxs) k (take (length rs) es) st = (Inr rs, st') \<and>
    stops_with_batch k 0 (length es) (first_refusal rs) (length rs)"
proof (cases "es = []")
  case True
  with assms show ?thesis by (simp add: replay_envelopes_def new_report_of stops_with_batch_def)
next
  case False
  with assms have "replay_from (http_transport hxs) k (length ([] :: response list)) es (report_of (length es) []) st = (Inr rep, st')"
    by (simp add: replay_envelopes_def new_report_of)
  from http.walk_prefix [OF this] show ?thesis by simp
qed

theorem replay_delivers_prefix_witness:
  "\<exists>rep st' rs. replay_envelopes (http_transport (\<lambda>_. sample_http_env Http_Timeout)) [sample_approval] 100
       (0, sample_sync_client) = (Inr rep, st') \<and> rep = report_of 1 rs"
proof -
  have "\<not> hc_spooling sample_sync_client" "\<not> hc_spool_enabled sample_sync_client"
    by (simp_all add: sample_sync_client_def sample_http_def)
  from http_walk_returns [OF sample_settled this, of "\<lambda>_. sample_http_env Http_Timeout" 99 0 "new_report 1" 0]
  obtain rep st' where r: "replay_envelopes (http_transport (\<lambda>_. sample_http_env Http_Timeout)) [sample_approval] 100
       (0, sample_sync_client) = (Inr rep, st')"
    by (auto simp: replay_envelopes_def)
  from replay_delivers_prefix [OF r refl] r show ?thesis by auto
qed

text \<open>C39. Replaying a spooled session always returns a report and leaves the client as it was; when every
  answer given is a success (accepted, or a duplicate of what the store has), the session is
  complete and every record is delivered.\<close>

theorem sync_replay_returns:
  assumes "list_all settled es" and "\<not> hc_spooling cl" and "\<not> hc_spool_enabled cl"
  shows "\<exists>rep n'. replay_envelopes (http_transport hxs) es bs (n, cl) = (Inr rep, (n', cl)) \<and>
    (report_complete rep \<longleftrightarrow> list_all is_success (rr_responses rep)) \<and>
    (report_complete rep \<longrightarrow> delivered rep = length es)"
proof (cases "es = []")
  case True
  then show ?thesis by (simp add: replay_envelopes_def new_report_def report_complete_def delivered_def)
next
  case False
  let ?k = "nat (max 1 bs) - 1"
  obtain rep n' where r: "replay_from (http_transport hxs) ?k (length ([] :: response list)) es (report_of (length es) []) (n, cl) = (Inr rep, (n', cl))"
    using http_walk_returns [OF assms] by blast
  obtain rs where rs: "rep = report_of (length es) rs"
    "stops_with_batch ?k 0 (length es) (first_refusal rs) (length rs)"
    using http.walk_prefix [OF r] by auto
  have "report_complete rep \<longleftrightarrow> list_all is_success rs"
    by (simp add: rs(1) report_complete_def report_of_def first_refusal_None)
  moreover have "delivered rep = length es" if "list_all is_success rs"
    using that rs(2) delivered_all [OF that] by (simp add: rs(1) stops_with_batch_def first_refusal_None [THEN iffD2])
  moreover have "rr_responses rep = rs" by (simp add: rs(1) report_of_def)
  moreover have "replay_envelopes (http_transport hxs) es bs (n, cl) = (Inr rep, (n', cl))"
    using r False by (simp add: replay_envelopes_def new_report_of)
  ultimately show ?thesis by auto
qed

theorem sync_replay_returns_witness:
  "\<exists>rep n'. replay_envelopes (http_transport (\<lambda>_. sample_http_env Http_Timeout)) [sample_approval] 100
     (0, sample_sync_client) = (Inr rep, (n', sample_sync_client))"
proof -
  have "\<not> hc_spooling sample_sync_client" "\<not> hc_spool_enabled sample_sync_client"
    by (simp_all add: sample_sync_client_def sample_http_def)
  from sync_replay_returns [OF sample_settled this] show ?thesis by blast
qed

end
