(* ===== verification/Spool.thy ===== *)
theory Spool
  imports Jsonl_Client "HOL-Library.Sublist"
begin

text \<open>
  \<^verbatim>\<open>rootsign/sdk/spool.py\<close>: the offline spool read back. A spool file is the lines
  \<open>splitlines()\<close> gives, each blank, not JSON or a value, or the exception \<open>read_text()\<close>
  raises; the tree holds the files of \<open>sessions/\<close> and \<open>synced/\<close> by name. \<open>sdk_version\<close>
  is the version of the installed package. Sequence numbers that are neither numbers nor strings
  count as not comparable.
\<close>

section \<open>Envelopes from records\<close>

definition envelope_fields :: "string list" where
  "envelope_fields =
     [''schema_version'', ''sdk_version'', ''event_type'', ''event_id'', ''emitted_at'', ''agent_id'',
      ''session_id'', ''payload'']"

definition action_payload_fields :: "string list" where
  "action_payload_fields =
     [''tool_name'', ''input_hash'', ''output_hash'', ''input_redacted'', ''output_redacted'', ''timestamp'',
      ''duration_ms'', ''decision_id'', ''policy_id'', ''authorization_status'',
      ''action_id'', ''sequence_number'', ''prev_action_hash'', ''self_hash'']"

definition schema_version :: string where
  "schema_version = ''1.1''"

datatype spool_format_error =
    Truncated_Final
  | Malformed_At nat
  | Out_Of_Order json nat json
  | Missing_Canonical nat
  | No_Payload_Object json nat

datatype read_exn = Spool_Format spool_format_error | Read_Exn pyexc

definition pick :: "string list \<Rightarrow> dict \<Rightarrow> dict" where
  "pick ks record = map (\<lambda>k. (k, dget record k)) (filter (dhas record) ks)"

definition set_default :: "string \<Rightarrow> json \<Rightarrow> dict \<Rightarrow> dict" where
  "set_default k v d = (if dhas d k then d else dset k v d)"

definition envelope_shell :: "string \<Rightarrow> dict \<Rightarrow> dict \<Rightarrow> dict" where
  "envelope_shell sdk_version record payload =
     set_default ''sdk_version'' (JStr sdk_version)
       (set_default ''schema_version'' (JStr schema_version)
         (dset ''payload'' (JObj payload) (pick envelope_fields record)))"

definition envelope_from_action :: "string \<Rightarrow> nat \<Rightarrow> dict \<Rightarrow> spool_format_error + dict" where
  "envelope_from_action sdk_version line record =
     (let payload = pick action_payload_fields record
      in if \<not> dhas payload ''tool_name'' \<or> \<not> dhas payload ''input_hash''
         then Inl (Missing_Canonical line)
         else Inr (envelope_shell sdk_version record payload))"

definition envelope_from_record :: "string \<Rightarrow> nat \<Rightarrow> dict \<Rightarrow> spool_format_error + dict" where
  "envelope_from_record sdk_version line record =
     (case dget record ''payload'' of
        JObj payload \<Rightarrow> Inr (envelope_shell sdk_version record payload)
      | _ \<Rightarrow> Inl (No_Payload_Object (dget record ''event_type'') line))"

section \<open>Reading a file\<close>

datatype spool_line = Blank | Not_Json | Parsed json

record spool_session =
  ss_session_id :: string
  ss_envelopes :: "dict list"
  ss_annotations :: nat

record read_state =
  rd_session_id :: "string option"
  rd_previous :: "json option"
  rd_envelopes :: "dict list"
  rd_annotations :: nat

definition py_le :: "json \<Rightarrow> json \<Rightarrow> pyexc + bool" where
  "py_le a b =
     (case (num_of a, num_of b) of
        (Some p, Some q) \<Rightarrow> Inr (p \<le> q)
      | _ \<Rightarrow> (case (str_of a, str_of b) of
                (Some s, Some t) \<Rightarrow> Inr (s \<le> t)
              | _ \<Rightarrow> Inl TypeError))"

text \<open>\<open>event_type not in _EVENT_TYPES\<close> hashes its operand.\<close>

definition known_event :: "json \<Rightarrow> pyexc + bool" where
  "known_event event_type =
     (case event_type of
        JArr _ \<Rightarrow> Inl TypeError
      | JObj _ \<Rightarrow> Inl TypeError
      | JStr s \<Rightarrow> Inr (event_of_value s \<noteq> None)
      | _ \<Rightarrow> Inr False)"

definition check_order :: "nat \<Rightarrow> json \<Rightarrow> read_state \<Rightarrow> read_exn + read_state" where
  "check_order number sequence st =
     (if sequence = JNull then Inr st
      else (case rd_previous st of
              None \<Rightarrow> Inr (st\<lparr>rd_previous := Some sequence\<rparr>)
            | Some previous \<Rightarrow>
                (case py_le sequence previous of
                   Inl e \<Rightarrow> Inl (Read_Exn e)
                 | Inr True \<Rightarrow> Inl (Spool_Format (Out_Of_Order sequence number previous))
                 | Inr False \<Rightarrow> Inr (st\<lparr>rd_previous := Some sequence\<rparr>))))"

definition payload_of :: "dict \<Rightarrow> dict" where
  "payload_of envelope = (case dget envelope ''payload'' of JObj p \<Rightarrow> p | _ \<Rightarrow> [])"

definition read_record :: "string \<Rightarrow> nat \<Rightarrow> dict \<Rightarrow> read_state \<Rightarrow> read_exn + read_state" where
  "read_record sdk_version number record st =
     (case known_event (dget record ''event_type'') of
        Inl e \<Rightarrow> Inl (Read_Exn e)
      | Inr False \<Rightarrow> Inr (st\<lparr>rd_annotations := rd_annotations st + 1\<rparr>)
      | Inr True \<Rightarrow>
          let st1 = (if rd_session_id st = None
                     then st\<lparr>rd_session_id := Some (py_str (dget record ''session_id''))\<rparr> else st)
          in if dget record ''event_type'' = JStr ''ACTION_RECORD''
             then (case envelope_from_action sdk_version number record of
                     Inl e \<Rightarrow> Inl (Spool_Format e)
                   | Inr envelope \<Rightarrow>
                       sbind (check_order number (dget (payload_of envelope) ''sequence_number'') st1) (\<lambda>st2.
                         Inr (st2\<lparr>rd_envelopes := rd_envelopes st2 @ [envelope]\<rparr>)))
             else (case envelope_from_record sdk_version number record of
                     Inl e \<Rightarrow> Inl (Spool_Format e)
                   | Inr envelope \<Rightarrow> Inr (st1\<lparr>rd_envelopes := rd_envelopes st1 @ [envelope]\<rparr>)))"

fun read_lines :: "string \<Rightarrow> nat \<Rightarrow> spool_line list \<Rightarrow> read_state \<Rightarrow> read_exn + read_state" where
  "read_lines sdk_version number [] st = Inr st"
| "read_lines sdk_version number (Blank # ls) st = read_lines sdk_version (Suc number) ls st"
| "read_lines sdk_version number (Not_Json # ls) st =
     Inl (Spool_Format (if ls = [] then Truncated_Final else Malformed_At number))"
| "read_lines sdk_version number (Parsed j # ls) st =
     (case as_dict j of
        Inl e \<Rightarrow> Inl (Read_Exn e)
      | Inr record \<Rightarrow> sbind (read_record sdk_version number record st) (read_lines sdk_version (Suc number) ls))"

type_synonym spool_file = "pyexc + spool_line list"

definition read_spool_session :: "string \<Rightarrow> string \<Rightarrow> spool_file \<Rightarrow> read_exn + spool_session" where
  "read_spool_session sdk_version stem content =
     (case content of
        Inl e \<Rightarrow> Inl (Read_Exn e)
      | Inr lines \<Rightarrow>
          sbind (read_lines sdk_version 1 lines
                   \<lparr>rd_session_id = None, rd_previous = None, rd_envelopes = [], rd_annotations = 0\<rparr>) (\<lambda>st.
            Inr \<lparr>ss_session_id = (case rd_session_id st of None \<Rightarrow> stem | Some s \<Rightarrow> s),
                 ss_envelopes = rd_envelopes st, ss_annotations = rd_annotations st\<rparr>))"

definition action_count :: "spool_session \<Rightarrow> nat" where
  "action_count s =
     length (filter (\<lambda>e. dget e ''event_type'' = JStr ''ACTION_RECORD'') (ss_envelopes s))"

fun py_min :: "json \<Rightarrow> json list \<Rightarrow> pyexc + json" where
  "py_min m [] = Inr m"
| "py_min m (x # xs) = sbind (py_le m x) (\<lambda>b. py_min (if b then m else x) xs)"

fun py_max :: "json \<Rightarrow> json list \<Rightarrow> pyexc + json" where
  "py_max m [] = Inr m"
| "py_max m (x # xs) = sbind (py_le x m) (\<lambda>b. py_max (if b then m else x) xs)"

definition sequences_of :: "spool_session \<Rightarrow> json list" where
  "sequences_of s =
     filter (\<lambda>x. x \<noteq> JNull) (map (\<lambda>e. dget (payload_of e) ''sequence_number'')
       (filter (\<lambda>e. dget e ''event_type'' = JStr ''ACTION_RECORD'') (ss_envelopes s)))"

definition spool_span :: "spool_session \<Rightarrow> pyexc + (json \<times> json) option" where
  "spool_span s =
     (case sequences_of s of
        [] \<Rightarrow> Inr None
      | x # xs \<Rightarrow> sbind (py_min x xs) (\<lambda>lo. sbind (py_max x xs) (\<lambda>hi. Inr (Some (lo, hi)))))"

section \<open>The spool tree\<close>

record 'f spool_tree =
  sp_sessions :: "(string \<times> 'f) list"
  sp_synced :: "(string \<times> 'f) list"

definition ends_with :: "string \<Rightarrow> string \<Rightarrow> bool" where
  "ends_with e s \<longleftrightarrow> length e \<le> length s \<and> drop (length s - length e) s = e"

definition spool_files :: "'f spool_tree \<Rightarrow> string list" where
  "spool_files t = sort (filter (ends_with ''.jsonl'') (map fst (sp_sessions t)))"

text \<open>\<open>Path.suffix\<close>: from the last dot, unless it is the first or the last character.\<close>

definition path_suffix :: "string \<Rightarrow> string" where
  "path_suffix name =
     (let tail = rev (takeWhile (\<lambda>c. c \<noteq> CHR ''.'') (rev name)) in
      if tail = [] \<or> length name \<le> length tail + 1 then [] else CHR ''.'' # tail)"

definition path_stem :: "string \<Rightarrow> string" where
  "path_stem name = take (length name - length (path_suffix name)) name"

definition numbered_name :: "string \<Rightarrow> nat \<Rightarrow> string" where
  "numbered_name name counter = path_stem name @ ''.'' @ nat_str counter @ path_suffix name"

definition synced_name :: "string \<Rightarrow> string list \<Rightarrow> string" where
  "synced_name name taken =
     (if name \<notin> set taken then name
      else the (first_free (numbered_name name) (Suc (length taken)) 1 taken))"

definition mark_synced :: "string \<Rightarrow> 'f spool_tree \<Rightarrow> pyexc + string \<times> 'f spool_tree" where
  "mark_synced name t =
     (case map_of (sp_sessions t) name of
        None \<Rightarrow> Inl FileNotFoundError
      | Some f \<Rightarrow>
          let destination = synced_name name (map fst (sp_synced t))
          in Inr (destination,
               t\<lparr>sp_sessions := AList.delete name (sp_sessions t),
                 sp_synced := AList.update destination f (sp_synced t)\<rparr>))"

section \<open>What an envelope keeps of its record\<close>

lemma map_of_pick: "map_of (pick ks r) k = (if k \<in> set ks \<and> dhas r k then Some (dget r k) else None)"
  by (induction ks) (auto simp: pick_def)

lemma dget_pick [dict_simps]: "dget (pick ks r) k = (if k \<in> set ks then dget r k else JNull)"
  by (simp add: dget_def map_of_pick dhas_def split: option.splits)

lemma dhas_pick [dict_simps]: "dhas (pick ks r) k \<longleftrightarrow> k \<in> set ks \<and> dhas r k"
  by (simp add: dhas_def map_of_pick)

lemma dget_set_default [dict_simps]:
  "dget (set_default k v d) k' = (if k' = k \<and> \<not> dhas d k then v else dget d k')"
  by (simp add: set_default_def dget_dset)

lemma dhas_set_default [dict_simps]: "dhas (set_default k v d) k' \<longleftrightarrow> k' = k \<or> dhas d k'"
  by (auto simp: set_default_def dhas_dset)

lemma shell_payload [simp]: "dget (envelope_shell v record payload) ''payload'' = JObj payload"
  by (simp add: envelope_shell_def dict_simps)

lemma shell_field:
  "k \<in> set envelope_fields \<Longrightarrow> k \<noteq> ''payload'' \<Longrightarrow> dhas record k \<Longrightarrow>
    dget (envelope_shell v record payload) k = dget record k"
  by (auto simp: envelope_shell_def dict_simps envelope_fields_def)

lemma shell_type: "dget record ''event_type'' \<noteq> JNull \<Longrightarrow>
    dget (envelope_shell v record payload) ''event_type'' = dget record ''event_type''"
  by (simp add: envelope_shell_def dict_simps envelope_fields_def)

lemma payload_of_shell [simp]: "payload_of (envelope_shell v record payload) = payload"
  by (simp add: payload_of_def)

section \<open>A file the local client wrote\<close>

definition replayable_line :: "dict \<Rightarrow> bool" where
  "replayable_line line \<longleftrightarrow>
     (if dget line ''event_type'' = JStr ''ACTION_RECORD''
      then dhas line ''tool_name'' \<and> dhas line ''input_hash''
      else (\<exists>e. dget line ''event_type'' = JStr (event_value e)) \<and> (\<exists>p. dget line ''payload'' = JObj p))"

definition well_formed_call :: "dict \<Rightarrow> bool" where
  "well_formed_call envelope \<longleftrightarrow>
     (\<exists>e. dget envelope ''event_type'' = JStr (event_value e)) \<and> (\<exists>p. dget envelope ''payload'' = JObj p)"

lemma jsonl_record_replayable:
  assumes inv: "list_all replayable_line (file_lines cl sid)" and wf: "well_formed_call envelope"
    and ty: "dget envelope ''event_type'' = event_type"
    and rec: "jsonl_record env envelope event_id event_type sid' cl = (res, cl')"
  shows "list_all replayable_line (file_lines cl' sid)"
proof -
  obtain b cl1 where b: "(if event_type = JStr ''ACTION_RECORD'' then build_action (ce_fresh env) envelope event_id sid' cl
      else (Inr (build_non_action (ce_fresh env) envelope event_id event_type), cl)) = (b, cl1)"
    by (cases "if event_type = JStr ''ACTION_RECORD'' then build_action (ce_fresh env) envelope event_id sid' cl
      else (Inr (build_non_action (ce_fresh env) envelope event_id event_type), cl)") auto
  have files: "jc_files cl1 = jc_files cl"
    using b by (auto simp: build_action_def split: if_splits sum.splits prod.splits)
  show ?thesis
  proof (cases b)
    case (Inl e)
    with rec b files inv show ?thesis by (simp add: jsonl_record_def file_lines_def)
  next
    case (Inr q)
    obtain rsp line where q: "q = (rsp, line)" by (cases q)
    have line: "replayable_line line"
    proof (cases "event_type = JStr ''ACTION_RECORD''")
      case True
      with b Inr q have "\<exists>payload sealed. action_line envelope event_id sid' payload sealed = Inr line"
        by (auto simp: build_action_def sbind_eq_Inr split: sum.splits prod.splits)
      then show ?thesis
        by (auto simp: action_line_def sbind_eq_Inr replayable_line_def dict_simps)
    next
      case False
      with b Inr q have "dget line ''event_type'' = dget envelope ''event_type''"
        "dget line ''payload'' = dget envelope ''payload''"
        by (auto simp: build_non_action_def dict_simps split: if_splits)
      with False wf ty show ?thesis by (simp add: replayable_line_def well_formed_call_def)
    qed
    have "after_append rsp (append_line (ce_disk env) sid' line (should_fsync (jc_fsync cl1) event_type) cl1) = (res, cl')"
      using rec b Inr q by (simp add: jsonl_record_def)
    then obtain r where "append_line (ce_disk env) sid' line (should_fsync (jc_fsync cl1) event_type) cl1 = (r, cl')"
      using after_append_state by blast
    note ap = append_line_files(4,5) [OF this]
    show ?thesis
    proof (cases "sid = sid'")
      case True
      with ap(2) inv line files show ?thesis by (auto simp: file_lines_def)
    next
      case False
      with ap(1) inv files show ?thesis by (simp add: file_lines_def)
    qed
  qed
qed

lemma jsonl_run_replayable:
  "list_all replayable_line (file_lines cl sid) \<Longrightarrow> list_all (\<lambda>(env, e). well_formed_call e) calls \<Longrightarrow>
    list_all replayable_line (file_lines (jsonl_run fromiso calls cl) sid)"
proof (induction fromiso calls cl rule: jsonl_run.induct)
  case (2 fromiso env e calls cl)
  have wf: "well_formed_call e" using "2.prems"(2) by simp
  have "list_all replayable_line (file_lines cl1 sid)"
    if "dindex e ''event_type'' = Inr ty" "jsonl_record env e i ty sid' (cl\<lparr>jc_idempotency := x\<rparr>) = (res, cl1)"
    for x i ty sid' res cl1
    using jsonl_record_replayable [OF _ wf _ that(2), of sid] "2.prems"(1) that(1)
    by (auto simp: dindex_Inr_dget file_lines_def)
  with jsonl_handle_record [of fromiso env e cl] "2.prems"(1)
  have "list_all replayable_line (file_lines (snd (jsonl_handle fromiso env e cl)) sid)"
    by (fastforce simp: file_lines_def)
  with "2.IH" "2.prems"(2) show ?case by simp
qed simp

definition respool :: "string \<Rightarrow> dict \<Rightarrow> dict" where
  "respool v line =
     envelope_shell v line
       (if dget line ''event_type'' = JStr ''ACTION_RECORD'' then pick action_payload_fields line else payload_of line)"

lemma known_event_value [simp]: "known_event (JStr (event_value e)) = Inr True"
  by (simp add: known_event_def)

lemma known_action [simp]: "known_event (JStr ''ACTION_RECORD'') = Inr True"
  using known_event_value [of ACTION_RECORD] by simp

lemma read_record_other:
  assumes "replayable_line line" and "dget line ''event_type'' \<noteq> JStr ''ACTION_RECORD''"
  shows "\<exists>s. read_record v n line st =
    Inr (st\<lparr>rd_session_id := s, rd_envelopes := rd_envelopes st @ [respool v line]\<rparr>)"
proof -
  obtain e p where "dget line ''event_type'' = JStr (event_value e)" "dget line ''payload'' = JObj p"
    using assms by (auto simp: replayable_line_def)
  with assms(2) show ?thesis
    by (auto simp: read_record_def envelope_from_record_def respool_def payload_of_def Let_def
        intro: exI [of _ "rd_session_id st"])
qed

lemma read_record_action:
  assumes "replayable_line line" and "dget line ''event_type'' = JStr ''ACTION_RECORD''"
    and "dget line ''sequence_number'' = JInt i"
    and "\<forall>j. rd_previous st = Some j \<longrightarrow> (\<exists>m. j = JInt m \<and> m < i)"
  shows "\<exists>s. read_record v n line st =
    Inr (st\<lparr>rd_session_id := s, rd_previous := Some (JInt i), rd_envelopes := rd_envelopes st @ [respool v line]\<rparr>)"
proof -
  have e: "envelope_from_action v n line = Inr (respool v line)"
    using assms(1,2)
    by (simp add: envelope_from_action_def respool_def replayable_line_def dict_simps action_payload_fields_def)
  have sq: "dget (payload_of (respool v line)) ''sequence_number'' = JInt i"
    using assms(2,3) by (simp add: respool_def dict_simps action_payload_fields_def)
  have "check_order n (JInt i) st' = Inr (st'\<lparr>rd_previous := Some (JInt i)\<rparr>)"
    if "rd_previous st' = rd_previous st" for st'
    using assms(4) that by (cases "rd_previous st") (auto simp: check_order_def py_le_def num_of_def)
  with assms(2) e sq show ?thesis
    by (auto simp: read_record_def Let_def intro: exI [of _ "rd_session_id st"])
qed

lemma read_lines_replayable:
  assumes "list_all replayable_line ls" and "int_keyed (filter is_action_record ls)"
    and "sorted_wrt (<) (map seq_of (filter is_action_record ls))"
    and "\<forall>j. rd_previous st = Some j \<longrightarrow> (\<exists>m. j = JInt m \<and> (\<forall>r \<in> set (filter is_action_record ls). m < seq_of r))"
  shows "\<exists>st'. read_lines v n (map (\<lambda>l. Parsed (JObj l)) ls) st = Inr st' \<and>
    rd_envelopes st' = rd_envelopes st @ map (respool v) ls \<and> rd_annotations st' = rd_annotations st"
  using assms
proof (induction ls arbitrary: n st)
  case (Cons line ls)
  have ty: "is_action_record line = (dget line ''event_type'' = JStr ''ACTION_RECORD'')"
    using Cons.prems(1) by (auto simp: is_action_record_def dget_def dget_or_def replayable_line_def split: option.splits)
  show ?case
  proof (cases "is_action_record line")
    case True
    have "dget line ''sequence_number'' = JInt (seq_of line)"
      using Cons.prems(2) True by (simp add: seq_key_def)
    moreover have "\<forall>j. rd_previous st = Some j \<longrightarrow> (\<exists>m. j = JInt m \<and> m < seq_of line)"
      using Cons.prems(4) True by auto
    ultimately obtain s where r: "read_record v n line st = Inr (st\<lparr>rd_session_id := s,
        rd_previous := Some (JInt (seq_of line)), rd_envelopes := rd_envelopes st @ [respool v line]\<rparr>)"
      (is "_ = Inr ?st") using read_record_action [of line "seq_of line" st v n] Cons.prems(1) True ty by auto
    have "\<exists>st'. read_lines v (Suc n) (map (\<lambda>l. Parsed (JObj l)) ls) ?st = Inr st' \<and>
        rd_envelopes st' = rd_envelopes ?st @ map (respool v) ls \<and> rd_annotations st' = rd_annotations ?st"
      by (rule Cons.IH) (use Cons.prems True in auto)
    with r show ?thesis by auto
  next
    case False
    then obtain s where r: "read_record v n line st =
        Inr (st\<lparr>rd_session_id := s, rd_envelopes := rd_envelopes st @ [respool v line]\<rparr>)" (is "_ = Inr ?st")
      using read_record_other [of line v n st] Cons.prems(1) ty by auto
    have "\<exists>st'. read_lines v (Suc n) (map (\<lambda>l. Parsed (JObj l)) ls) ?st = Inr st' \<and>
        rd_envelopes st' = rd_envelopes ?st @ map (respool v) ls \<and> rd_annotations st' = rd_annotations ?st"
      by (rule Cons.IH) (use Cons.prems False in auto)
    with r show ?thesis by auto
  qed
qed auto

section \<open>Moving a file\<close>

lemma inj_numbered_name: "inj (numbered_name name)"
  by (auto intro: injI simp: numbered_name_def)

lemma synced_name_fresh: "synced_name name taken \<notin> set taken"
proof -
  obtain x where "first_free (numbered_name name) (Suc (length taken)) 1 taken = Some x" "x \<notin> set taken"
    by (rule first_free_total [OF inj_numbered_name])
  then show ?thesis by (simp add: synced_name_def)
qed

section \<open>Properties of the spool\<close>



text \<open>The seal survives the round trip: the envelope read back from an action's line has the header
  the action was recorded with and the payload fields that were hashed, and sealing its payload
  in any process adopts exactly the seal on the line.\<close>

theorem spooled_seal_survives:
  assumes "action_line envelope event_id sid payload sealed = Inr line"
  shows "\<exists>e. envelope_from_action v n line = Inr e \<and>
    dget e ''event_id'' = JStr (uuid_str event_id) \<and> dget e ''session_id'' = JStr sid \<and>
    dget e ''event_type'' = JStr ''ACTION_RECORD'' \<and>
    list_all (\<lambda>k. dget e k = dget envelope k) [''schema_version'', ''sdk_version'', ''emitted_at'', ''agent_id''] \<and>
    list_all (\<lambda>k. dget (payload_of e) k = dget payload k)
      [''tool_name'', ''input_hash'', ''output_hash'', ''timestamp'', ''input_redacted'', ''output_redacted'',
       ''duration_ms'', ''decision_id'', ''policy_id''] \<and>
    seal fresh sid2 (payload_of e) st =
      (Inr (sealed\<lparr>sa_adopted := True\<rparr>),
       \<lparr>cs_tail = Some (sa_self_hash sealed), cs_count = max (cs_count st) (sa_sequence_number sealed)\<rparr>)"
proof -
  let ?p = "pick action_payload_fields line" and ?e = "envelope_shell v line (pick action_payload_fields line)"
  obtain tool input_hash stamp where idx: "dindex payload ''tool_name'' = Inr tool"
    "dindex payload ''input_hash'' = Inr input_hash" "dindex payload ''timestamp'' = Inr stamp"
    using assms by (auto simp: action_line_def sbind_eq_Inr)
  have h: "dhas line k" if "k \<in> {''tool_name'', ''input_hash'', ''event_id'', ''session_id'', ''event_type'',
      ''schema_version'', ''sdk_version'', ''emitted_at'', ''agent_id''}" for k
    using assms that by (auto simp: action_line_def sbind_eq_Inr dict_simps)
  have e: "envelope_from_action v n line = Inr ?e"
    using h by (simp add: envelope_from_action_def dict_simps action_payload_fields_def)
  have head: "dget ?e k = dget line k"
    if "k \<in> {''event_id'', ''session_id'', ''event_type'', ''schema_version'', ''sdk_version'', ''emitted_at'', ''agent_id''}" for k
    by (rule shell_field) (use that h in \<open>auto simp: envelope_fields_def\<close>)
  have line: "dget line ''event_id'' = JStr (uuid_str event_id)" "dget line ''session_id'' = JStr sid"
    "dget line ''event_type'' = JStr ''ACTION_RECORD''"
    "list_all (\<lambda>k. dget line k = dget envelope k) [''schema_version'', ''sdk_version'', ''emitted_at'', ''agent_id'']"
    "list_all (\<lambda>k. dget line k = dget payload k)
      [''tool_name'', ''input_hash'', ''output_hash'', ''timestamp'', ''input_redacted'', ''output_redacted'',
       ''duration_ms'', ''decision_id'', ''policy_id'']"
    using assms idx by (auto simp: action_line_def dict_simps dest: dindex_Inr_dget)
  have seal_fields: "dget ?p ''action_id'' = JStr (uuid_str (sa_action_id sealed))"
    "dget ?p ''sequence_number'' = JInt (sa_sequence_number sealed)"
    "dget ?p ''prev_action_hash'' = sa_prev_action_hash sealed"
    "dget ?p ''self_hash'' = JStr (sa_self_hash sealed)"
    using assms by (auto simp: action_line_def sbind_eq_Inr dict_simps action_payload_fields_def)
  have "seal fresh sid2 ?p st = (Inr (sealed\<lparr>sa_adopted := True\<rparr>),
       \<lparr>cs_tail = Some (sa_self_hash sealed), cs_count = max (cs_count st) (sa_sequence_number sealed)\<rparr>)"
    by (simp add: seal_def is_sealed_def adopt_def seal_fields uuid_parse_str Let_def)
  moreover have "list_all (\<lambda>k. dget ?p k = dget payload k)
      [''tool_name'', ''input_hash'', ''output_hash'', ''timestamp'', ''input_redacted'', ''output_redacted'',
       ''duration_ms'', ''decision_id'', ''policy_id'']"
    using line(5) by (simp add: dict_simps action_payload_fields_def)
  ultimately show ?thesis using e line head by (intro exI [of _ ?e]) simp
qed

definition sample_seal :: sealed_action where
  "sample_seal = \<lparr>sa_action_id = 3, sa_sequence_number = 4, sa_prev_action_hash = JNull, sa_self_hash = ''ab'', sa_adopted = False\<rparr>"

theorem spooled_seal_survives_witness:
  "\<exists>line e. action_line sample_envelope 5 ''s'' sample_payload sample_seal = Inr line \<and>
     envelope_from_action ''0'' 1 line = Inr e \<and> dget e ''event_id'' = JStr (uuid_str 5)"
proof -
  obtain line where l: "action_line sample_envelope 5 ''s'' sample_payload sample_seal = Inr line"
    using action_line_total [of sample_payload sample_envelope 5 "''s''" sample_seal] sealable_sample
    unfolding sealable_def by blast
  from spooled_seal_survives [OF l, of "''0''" 1 0 "''s''" new_chain] l show ?thesis by blast
qed

text \<open>Retiring a file moves it whole and overwrites nothing: its content is found under the name
  returned, every file retired before is still there, and only this file leaves the spool.\<close>

theorem mark_synced_never_overwrites:
  assumes "mark_synced name t = Inr (destination, t')"
  shows "map_of (sp_synced t') destination = map_of (sp_sessions t) name \<and>
    map_of (sp_sessions t') = (map_of (sp_sessions t))(name := None) \<and>
    (\<forall>f c. map_of (sp_synced t) f = Some c \<longrightarrow> map_of (sp_synced t') f = Some c) \<and>
    destination \<notin> fst ` set (sp_synced t)"
proof -
  obtain f where f: "map_of (sp_sessions t) name = Some f"
    and d: "destination = synced_name name (map fst (sp_synced t))"
    and t': "t' = t\<lparr>sp_sessions := AList.delete name (sp_sessions t),
      sp_synced := AList.update destination f (sp_synced t)\<rparr>"
    using assms by (auto simp: mark_synced_def Let_def split: option.splits)
  have fresh: "destination \<notin> fst ` set (sp_synced t)"
    using synced_name_fresh [of name "map fst (sp_synced t)"] d by simp
  then have "map_of (sp_synced t) destination = None" by (simp add: map_of_eq_None_iff)
  with f fresh show ?thesis
    by (auto simp: t' update_conv' delete_conv' restrict_map_def fun_eq_iff)
qed

theorem mark_synced_never_overwrites_witness:
  "\<exists>d t'. mark_synced ''a.jsonl'' \<lparr>sp_sessions = [(''a.jsonl'', 1 :: nat)], sp_synced = [(''a.jsonl'', 0)]\<rparr> = Inr (d, t') \<and>
     map_of (sp_synced t') ''a.jsonl'' = Some 0 \<and> map_of (sp_synced t') d = Some 1"
proof -
  let ?t = "\<lparr>sp_sessions = [(''a.jsonl'', 1 :: nat)], sp_synced = [(''a.jsonl'', 0)]\<rparr>"
  obtain d t' where m: "mark_synced ''a.jsonl'' ?t = Inr (d, t')" by (simp add: mark_synced_def Let_def)
  from mark_synced_never_overwrites [OF m] m show ?thesis by auto
qed

end
