(* ===== verification/Receipt.thy ===== *)
theory Receipt
  imports Replay Spool
begin

text \<open>
  \<^verbatim>\<open>rootsign/sdk/receipt.py\<close>: the durable record of a replay attempt. Clock readings, the
  attempt id and the user name are arguments. A receipt file is the value its JSON text parses
  to, \<open>None\<close> for text that is not JSON, or the exception reading it raises; writing it is atomic
  and may fail. Where the code iterates over an outcome bucket that is not a list, or indexes a
  pair that is not one, the model raises \<open>TypeError\<close>.
\<close>

section \<open>Ranges of positions\<close>

fun compress_from :: "int \<Rightarrow> int \<Rightarrow> int list \<Rightarrow> (int \<times> int) list" where
  "compress_from start previous [] = [(start, previous)]"
| "compress_from start previous (p # ps) =
     (if p = previous + 1 then compress_from start p ps else (start, previous) # compress_from p p ps)"

definition compress_ranges :: "int list \<Rightarrow> (int \<times> int) list" where
  "compress_ranges positions =
     (case sort (remdups positions) of [] \<Rightarrow> [] | p # ps \<Rightarrow> compress_from p p ps)"

definition ranges_json :: "(int \<times> int) list \<Rightarrow> json" where
  "ranges_json rs = JArr (map (\<lambda>(a, b). JArr [JInt a, JInt b]) rs)"

definition items :: "json \<Rightarrow> pyexc + json list" where
  "items j = (if \<not> truthy j then Inr [] else (case j of JArr xs \<Rightarrow> Inr xs | _ \<Rightarrow> Inl TypeError))"

definition pair_range :: "json \<Rightarrow> pyexc + int list" where
  "pair_range pair =
     (case pair of
        JArr (a # b # _) \<Rightarrow> sbind (py_int a) (\<lambda>start. sbind (py_int b) (\<lambda>end. Inr [start .. end]))
      | JArr [a] \<Rightarrow> sbind (py_int a) (\<lambda>_. Inl IndexError)
      | JArr [] \<Rightarrow> Inl IndexError
      | _ \<Rightarrow> Inl TypeError)"

text \<open>The set as the list of its elements.\<close>

fun expand_ranges :: "json list \<Rightarrow> pyexc + int list" where
  "expand_ranges [] = Inr []"
| "expand_ranges (pair # pairs) =
     sbind (pair_range pair) (\<lambda>xs. sbind (expand_ranges pairs) (\<lambda>ys. Inr (remdups (xs @ ys))))"

fun record_numbers :: "json list \<Rightarrow> pyexc + int list" where
  "record_numbers [] = Inr []"
| "record_numbers (entry # entries) =
     (case entry of
        JObj d \<Rightarrow> sbind (dindex d ''record'') (\<lambda>v. sbind (py_int v) (\<lambda>n.
                    sbind (record_numbers entries) (\<lambda>ns. Inr (n # ns))))
      | _ \<Rightarrow> Inl TypeError)"

definition bucket :: "dict \<Rightarrow> string \<Rightarrow> pyexc + int list" where
  "bucket outcomes key = sbind (items (dget outcomes key)) expand_ranges"

definition partition_is_total :: "dict \<Rightarrow> pyexc + bool" where
  "partition_is_total attempt =
     sbind (dict_or_empty (dget attempt ''outcomes'')) (\<lambda>outcomes.
     sbind (bucket outcomes ''accepted'') (\<lambda>accepted.
     sbind (bucket outcomes ''duplicate'') (\<lambda>duplicate.
     sbind (bucket outcomes ''not_attempted'') (\<lambda>not_attempted.
     sbind (items (dget outcomes ''rejected'')) (\<lambda>entries.
     sbind (record_numbers entries) (\<lambda>rejected.
     sbind (py_int (py_or (dget attempt ''record_count'') (JInt 0))) (\<lambda>n.
       Inr (sort (accepted @ duplicate @ not_attempted @ rejected) = [1 .. n]))))))))"

section \<open>An attempt\<close>

fun code_value :: "error_code \<Rightarrow> string" where
  "code_value SCHEMA_VERSION_MISMATCH = ''SCHEMA_VERSION_MISMATCH''"
| "code_value UNKNOWN_AGENT = ''UNKNOWN_AGENT''"
| "code_value SESSION_NOT_FOUND = ''SESSION_NOT_FOUND''"
| "code_value SESSION_CLOSED = ''SESSION_CLOSED''"
| "code_value SESSION_ALREADY_EXISTS = ''SESSION_ALREADY_EXISTS''"
| "code_value DUPLICATE_EVENT = ''DUPLICATE_EVENT''"
| "code_value ACTION_NOT_FOUND = ''ACTION_NOT_FOUND''"
| "code_value ACTION_ALREADY_RESOLVED = ''ACTION_ALREADY_RESOLVED''"
| "code_value APPROVAL_PARENT_NOT_FOUND = ''APPROVAL_PARENT_NOT_FOUND''"
| "code_value VALIDATION_ERROR = ''VALIDATION_ERROR''"
| "code_value HASH_CHAIN_BROKEN = ''HASH_CHAIN_BROKEN''"
| "code_value STORE_UNAVAILABLE = ''STORE_UNAVAILABLE''"
| "code_value WRITE_TIMEOUT = ''WRITE_TIMEOUT''"
| "code_value RATE_LIMITED = ''RATE_LIMITED''"
| "code_value INTERNAL_ERROR = ''INTERNAL_ERROR''"

definition code_json :: "error_code option \<Rightarrow> json" where
  "code_json c = (case c of None \<Rightarrow> JNull | Some e \<Rightarrow> JStr (code_value e))"

definition opt_bool :: "bool option \<Rightarrow> json" where
  "opt_bool b = (case b of None \<Rightarrow> JNull | Some x \<Rightarrow> JBool x)"

definition sequence_of :: "dict \<Rightarrow> pyexc + int option" where
  "sequence_of envelope =
     sbind (dict_or_empty (dget envelope ''payload'')) (\<lambda>payload.
       Inr (as_int (dget payload ''sequence_number'')))"

definition rejected_entry :: "nat \<Rightarrow> dict list \<Rightarrow> response \<Rightarrow> pyexc + json" where
  "rejected_entry index envelopes r =
     (let entry = [(''record'', JInt (int index + 1)), (''error_code'', code_json (rsp_error_code r)),
                   (''retryable'', opt_bool (rsp_retryable r)), (''error_message'', opt_str (rsp_error_message r))]
      in sbind (if index < length envelopes then sequence_of (envelopes ! index) else Inr None) (\<lambda>sequence.
           Inr (JObj (case sequence of None \<Rightarrow> entry | Some n \<Rightarrow> dset ''sequence'' (JInt n) entry))))"

fun classify :: "nat \<Rightarrow> dict list \<Rightarrow> response list \<Rightarrow> pyexc + int list \<times> int list \<times> json list" where
  "classify index envelopes [] = Inr ([], [], [])"
| "classify index envelopes (r # rs) =
     (if rsp_status r = ''accepted''
      then sbind (classify (Suc index) envelopes rs) (\<lambda>(a, d, j). Inr ((int index + 1) # a, d, j))
      else if rsp_error_code r = Some DUPLICATE_EVENT
      then sbind (classify (Suc index) envelopes rs) (\<lambda>(a, d, j). Inr (a, (int index + 1) # d, j))
      else sbind (rejected_entry index envelopes r) (\<lambda>entry.
             sbind (classify (Suc index) envelopes rs) (\<lambda>(a, d, j). Inr (a, d, entry # j))))"

text \<open>What an attempt records about its surroundings.\<close>

record attempt_meta =
  am_endpoint :: string
  am_spool_sha :: string
  am_started_at :: string
  am_finished_at :: string
  am_attempt_id :: string
  am_operator :: string
  am_sdk_version :: string

definition receipt_schema_version :: string where
  "receipt_schema_version = ''receipt/1.1''"

definition halting_response :: "replay_report \<Rightarrow> pyexc + response option" where
  "halting_response report =
     (case rr_failed_index report of
        None \<Rightarrow> Inr None
      | Some i \<Rightarrow> if i < length (rr_responses report) then Inr (Some (rr_responses report ! i)) else Inl IndexError)"

definition halted_at :: "dict list \<Rightarrow> replay_report \<Rightarrow> pyexc + json" where
  "halted_at envelopes report =
     (case rr_failed_index report of
        Some i \<Rightarrow>
          if i < length envelopes
          then sbind (sequence_of (envelopes ! i)) (\<lambda>s. Inr (case s of None \<Rightarrow> JNull | Some n \<Rightarrow> JInt n))
          else Inr JNull
      | None \<Rightarrow> Inr JNull)"

definition halt_text :: "response \<Rightarrow> string" where
  "halt_text r =
     (case rsp_error_code r of None \<Rightarrow> ''None'' | Some e \<Rightarrow> code_value e) @ '': '' @
     (case rsp_error_message r of None \<Rightarrow> ''None'' | Some m \<Rightarrow> m)"

definition gave_up :: "string option \<Rightarrow> response option \<Rightarrow> bool" where
  "gave_up transport_error halting \<longleftrightarrow>
     transport_error \<noteq> None \<or> (case halting of None \<Rightarrow> False | Some r \<Rightarrow> rsp_retryable r = Some True)"

definition disposition_of :: "string option \<Rightarrow> response option \<Rightarrow> replay_report \<Rightarrow> json list \<Rightarrow> string" where
  "disposition_of transport_error halting report refused =
     (if gave_up transport_error halting then ''transport_failed''
      else if rr_failed_index report = None \<and> refused = [] then ''fully_accepted''
      else ''partial'')"

definition attempt_fields ::
  "attempt_meta \<Rightarrow> int \<Rightarrow> int list \<Rightarrow> int list \<Rightarrow> json list \<Rightarrow> int list \<Rightarrow> json \<Rightarrow> string \<Rightarrow> dict" where
  "attempt_fields m n acc dup refused unsent halted disposition =
     [(''schema_version'', JStr receipt_schema_version),
      (''attempt_id'', JStr (am_attempt_id m)),
      (''started_at'', JStr (am_started_at m)),
      (''finished_at'', JStr (am_finished_at m)),
      (''endpoint'', JStr (am_endpoint m)),
      (''sdk_version'', JStr (am_sdk_version m)),
      (''operator'', JStr (am_operator m)),
      (''spool_file_sha256'', JStr (am_spool_sha m)),
      (''record_count'', JInt n),
      (''outcomes'', JObj
        [(''accepted'', ranges_json (compress_ranges acc)),
         (''duplicate'', ranges_json (compress_ranges dup)),
         (''rejected'', JArr refused),
         (''not_attempted'', ranges_json (compress_ranges unsent))]),
      (''halted_at_sequence'', halted),
      (''disposition'', JStr disposition)]"

definition note_transport_error :: "string option \<Rightarrow> response option \<Rightarrow> dict \<Rightarrow> dict" where
  "note_transport_error transport_error halting attempt =
     (case transport_error of
        Some e \<Rightarrow> dset ''transport_error'' (JStr e) attempt
      | None \<Rightarrow> (case halting of
                   Some r \<Rightarrow> if gave_up transport_error halting
                             then dset ''transport_error'' (JStr (halt_text r)) attempt else attempt
                 | None \<Rightarrow> attempt))"

definition build_attempt ::
  "attempt_meta \<Rightarrow> dict list \<Rightarrow> replay_report \<Rightarrow> string option \<Rightarrow> pyexc + dict" where
  "build_attempt m envelopes report transport_error =
     (let n = int (length envelopes);
          not_attempted = [int (length (rr_responses report)) + 1 .. n] in
      sbind (classify 0 envelopes (rr_responses report)) (\<lambda>(accepted, duplicate, rejected).
      sbind (halting_response report) (\<lambda>halting.
      sbind (halted_at envelopes report) (\<lambda>halted.
        Inr (note_transport_error transport_error halting
              (attempt_fields m n accepted duplicate rejected not_attempted halted
                (disposition_of transport_error halting report rejected)))))))"

section \<open>Receipt files\<close>

type_synonym receipt_file = "pyexc + json option"

record receipt_tree =
  rt_live :: "(string \<times> receipt_file) list"
  rt_synced :: "(string \<times> receipt_file) list"

definition receipt_name :: "string \<Rightarrow> nat \<Rightarrow> string" where
  "receipt_name sid suffix_index =
     (if suffix_index = 0 then sid else sid @ ''.'' @ nat_str suffix_index) @ ''.sync.json''"

text \<open>Where a receipt was found: \<open>True\<close> for \<open>synced/\<close>.\<close>

definition find_receipt :: "string \<Rightarrow> receipt_tree \<Rightarrow> (bool \<times> string) option" where
  "find_receipt sid t =
     (if receipt_name sid 0 \<in> fst ` set (rt_live t) then Some (False, receipt_name sid 0)
      else if receipt_name sid 0 \<in> fst ` set (rt_synced t) then Some (True, receipt_name sid 0)
      else None)"

definition load_receipt :: "receipt_file \<Rightarrow> pyexc + dict" where
  "load_receipt f =
     (case f of
        Inl e \<Rightarrow> Inl e
      | Inr None \<Rightarrow> Inl (ValueError ''not valid JSON'')
      | Inr (Some (JObj d)) \<Rightarrow>
          if dhas d ''attempts'' then Inr d else Inl (ValueError ''not a sync receipt (no `attempts`)'')
      | Inr (Some _) \<Rightarrow> Inl (ValueError ''not a sync receipt (no `attempts`)''))"

text \<open>\<open>json.dumps(document, indent=2, ensure_ascii=False)\<close>.\<close>

definition esc_raw :: "char \<Rightarrow> string" where
  "esc_raw c = (if (126::nat) < of_char c then [c] else esc_char c)"

definition quote_raw :: "string \<Rightarrow> string" where
  "quote_raw s = [CHR 0x22] @ concat (map esc_raw s) @ [CHR 0x22]"

definition new_line :: "nat \<Rightarrow> string" where
  "new_line depth = CHR 0x0A # replicate (2 * depth) (CHR '' '')"

fun dumps_indent :: "nat \<Rightarrow> json \<Rightarrow> string" where
  "dumps_indent depth (JArr xs) =
     (if xs = [] then ''[]''
      else ''['' @ new_line (Suc depth) @
        str_join ('','' @ new_line (Suc depth)) (map (dumps_indent (Suc depth)) xs) @ new_line depth @ '']'')"
| "dumps_indent depth (JObj d) =
     (if d = [] then ''{}''
      else ''{'' @ new_line (Suc depth) @
        str_join ('','' @ new_line (Suc depth))
          (map (\<lambda>(k, v). quote_raw k @ '': '' @ dumps_indent (Suc depth) v) d) @ new_line depth @ ''}'')"
| "dumps_indent depth (JStr s) = quote_raw s"
| "dumps_indent depth JNull = ''null''"
| "dumps_indent depth (JBool b) = (if b then ''true'' else ''false'')"
| "dumps_indent depth (JInt i) = int_str i"
| "dumps_indent depth (JFloat q t) = t"

definition document_text :: "json \<Rightarrow> string" where
  "document_text j = dumps_indent 0 j @ [CHR 0x0A]"

definition sha256_text :: "string \<Rightarrow> string" where
  "sha256_text t = sha256_hex t"

definition corrupt_name :: "string \<Rightarrow> nat \<Rightarrow> string" where
  "corrupt_name name counter = name @ ''.corrupt-'' @ nat_str counter"

definition corrupt_sibling :: "string \<Rightarrow> string list \<Rightarrow> string" where
  "corrupt_sibling name taken = the (first_free (corrupt_name name) (Suc (length taken)) 1 taken)"

definition append_target :: "string \<Rightarrow> (string \<times> receipt_file) list \<Rightarrow> string \<times> dict" where
  "append_target sid live =
     (let path = receipt_name sid 0; fresh = [(''session_id'', JStr sid), (''attempts'', JArr [])] in
      case map_of live path of
        None \<Rightarrow> (path, fresh)
      | Some f \<Rightarrow>
          (case load_receipt f of
             Inr d \<Rightarrow> (path, d)
           | Inl _ \<Rightarrow> (corrupt_sibling path (map fst live), fresh)))"

text \<open>\<open>disk\<close> is the error of the atomic write, if it fails.\<close>

definition append_attempt ::
  "string option \<Rightarrow> string \<Rightarrow> dict \<Rightarrow> (string \<times> receipt_file) list \<Rightarrow>
    (pyexc + string \<times> string) \<times> (string \<times> receipt_file) list" where
  "append_attempt disk sid attempt live =
     (case append_target sid live of
        (path, d) \<Rightarrow>
          (case dget d ''attempts'' of
             JArr attempts \<Rightarrow>
               let document = JObj (dset ''attempts'' (JArr (attempts @ [JObj attempt])) d) in
               (case disk of
                  Some e \<Rightarrow> (Inl (OSError e), live)
                | None \<Rightarrow> (Inr (path, sha256_text (document_text document)),
                            AList.update path (Inr (Some document)) live))
           | _ \<Rightarrow> (Inl AttributeError, live)))"

definition synced_receipt_name :: "string \<Rightarrow> nat \<Rightarrow> string list \<Rightarrow> string" where
  "synced_receipt_name sid suffix_index taken =
     (let destination = receipt_name sid suffix_index
      in if destination \<notin> set taken then destination
         else the (first_free (receipt_name sid) (Suc (length taken)) (max suffix_index 1) taken))"

definition mark_receipt_synced :: "string \<Rightarrow> nat \<Rightarrow> receipt_tree \<Rightarrow> string option \<times> receipt_tree" where
  "mark_receipt_synced sid suffix_index t =
     (case map_of (rt_live t) (receipt_name sid 0) of
        None \<Rightarrow> (None, t)
      | Some f \<Rightarrow>
          let destination = synced_receipt_name sid suffix_index (map fst (rt_synced t))
          in (Some destination,
              t\<lparr>rt_live := AList.delete (receipt_name sid 0) (rt_live t),
                rt_synced := AList.update destination f (rt_synced t)\<rparr>))"

definition replay_summary :: "dict \<Rightarrow> pyexc + dict" where
  "replay_summary document =
     sbind (items (dget document ''attempts'')) (\<lambda>attempts.
     sbind (if attempts = [] then Inr [] else as_dict (last attempts)) (\<lambda>latest.
     sbind (dict_or_empty (dget latest ''outcomes'')) (\<lambda>outcomes.
       Inr [(''attempts'', JInt (int (length attempts))),
            (''latest_attempt_id'', dget latest ''attempt_id''),
            (''latest_disposition'', dget latest ''disposition''),
            (''finished_at'', dget latest ''finished_at''),
            (''endpoint'', dget latest ''endpoint''),
            (''spool_file_sha256'', dget latest ''spool_file_sha256''),
            (''record_count'', dget latest ''record_count''),
            (''halted_at_sequence'', dget latest ''halted_at_sequence''),
            (''observed_and_rejected'', py_or (dget outcomes ''rejected'') (JArr [])),
            (''not_attempted'', py_or (dget outcomes ''not_attempted'') (JArr []))])))"

section \<open>Ranges\<close>

abbreviation positions :: "(int \<times> int) list \<Rightarrow> int list" where
  "positions rs \<equiv> concat (map (\<lambda>(a, b). [a .. b]) rs)"

lemma compress_from_positions:
  "start \<le> previous \<Longrightarrow> sorted_wrt (<) (previous # ps) \<Longrightarrow>
    positions (compress_from start previous ps) = [start .. previous] @ ps"
proof (induction start previous ps rule: compress_from.induct)
  case (2 start previous p ps)
  show ?case
  proof (cases "p = previous + 1")
    case True
    with "2.IH"(1) "2.prems" show ?thesis by (auto simp: upto_rec2)
  next
    case False
    with "2.IH"(2) "2.prems" show ?thesis by auto
  qed
qed simp

lemma compress_from_separated:
  "start \<le> previous \<Longrightarrow> sorted_wrt (<) (previous # ps) \<Longrightarrow>
    sorted_wrt (\<lambda>(a, b) (c, d). b + 1 < c) (compress_from start previous ps) \<and>
    (\<forall>(a, b) \<in> set (compress_from start previous ps). start \<le> a \<and> a \<le> b)"
proof (induction start previous ps rule: compress_from.induct)
  case (2 start previous p ps)
  show ?case
  proof (cases "p = previous + 1")
    case True
    with "2.IH"(1) "2.prems" show ?thesis by auto
  next
    case False
    with "2.prems" have "previous + 1 < p" "start \<le> p" by auto
    with False "2.IH"(2) "2.prems" show ?thesis by fastforce
  qed
qed simp

lemma strict_sort_remdups: "sorted_wrt (<) (sort (remdups (xs :: int list)))"
  unfolding strict_sorted_iff by simp

lemma compress_positions: "positions (compress_ranges xs) = sort (remdups xs)"
  using compress_from_positions [of _ _] strict_sort_remdups [of xs]
  by (auto simp: compress_ranges_def split: list.splits)

lemma compress_separated:
  "sorted_wrt (\<lambda>(a, b) (c, d). b + 1 < c) (compress_ranges xs) \<and> (\<forall>(a, b) \<in> set (compress_ranges xs). a \<le> b)"
proof (cases "sort (remdups xs)")
  case (Cons p ps)
  with strict_sort_remdups [of xs] compress_from_separated [of p p ps] show ?thesis
    by (auto simp: compress_ranges_def)
qed (simp add: compress_ranges_def)

lemma expand_positions:
  "distinct (positions rs) \<Longrightarrow>
    expand_ranges (map (\<lambda>(a, b). JArr [JInt a, JInt b]) rs) = Inr (positions rs)"
  by (induction rs) (auto simp: pair_range_def distinct_remdups_id case_prod_beta)

lemma items_JArr [simp]: "items (JArr xs) = Inr xs"
  by (simp add: items_def)

lemma expand_compressed: "sbind (items (ranges_json (compress_ranges xs))) expand_ranges = Inr (sort (remdups xs))"
  using expand_positions [of "compress_ranges xs"] by (simp add: ranges_json_def compress_positions)

section \<open>An attempt accounts for every record\<close>

lemma rejected_entry_record: "rejected_entry i es r = Inr j \<Longrightarrow> \<exists>d. j = JObj d \<and> dindex d ''record'' = Inr (JInt (int i + 1))"
  by (auto simp: rejected_entry_def Let_def sbind_eq_Inr dict_simps split: option.splits)

lemma classify_accounts:
  "classify k es rs = Inr (a, d, j) \<Longrightarrow>
    \<exists>r. record_numbers j = Inr r \<and> mset (a @ d @ r) = mset [int k + 1 .. int (k + length rs)] \<and>
      distinct a \<and> distinct d \<and> length r = length j \<and>
      (j = [] \<longleftrightarrow> list_all is_success rs)"
proof (induction k es rs arbitrary: a d j rule: classify.induct)
  case (2 k es x rs)
  have up: "[int k + 1 .. int (k + length (x # rs))] = (int k + 1) # [int (Suc k) + 1 .. int (Suc k + length rs)]"
    by (simp add: upto_rec1 add.commute)
  consider (acc) "rsp_status x = ''accepted''"
    | (dup) "rsp_status x \<noteq> ''accepted''" "rsp_error_code x = Some DUPLICATE_EVENT"
    | (rej) "rsp_status x \<noteq> ''accepted''" "rsp_error_code x \<noteq> Some DUPLICATE_EVENT" by blast
  then show ?case
  proof cases
    case acc
    then obtain a' where c: "classify (Suc k) es rs = Inr (a', d, j)" and a: "a = (int k + 1) # a'"
      using "2.prems" by (auto simp: sbind_eq_Inr)
    from "2.IH"(1) [OF acc c] obtain r where r: "record_numbers j = Inr r"
      "mset (a' @ d @ r) = mset [int (Suc k) + 1 .. int (Suc k + length rs)]" "distinct a'" "distinct d"
      "length r = length j" "j = [] \<longleftrightarrow> list_all is_success rs" by blast
    have "int k + 1 \<notin> set (a' @ d @ r)" using arg_cong [OF r(2), of set_mset] by auto
    moreover have "is_success x" using acc by (simp add: is_success_def)
    ultimately show ?thesis using r a up by auto
  next
    case dup
    then obtain d' where c: "classify (Suc k) es rs = Inr (a, d', j)" and d: "d = (int k + 1) # d'"
      using "2.prems" by (auto simp: sbind_eq_Inr)
    from "2.IH"(2) [OF dup c] obtain r where r: "record_numbers j = Inr r"
      "mset (a @ d' @ r) = mset [int (Suc k) + 1 .. int (Suc k + length rs)]" "distinct a" "distinct d'"
      "length r = length j" "j = [] \<longleftrightarrow> list_all is_success rs" by blast
    have "int k + 1 \<notin> set (a @ d' @ r)" using arg_cong [OF r(2), of set_mset] by auto
    moreover have "is_success x" using dup by (simp add: is_success_def)
    ultimately show ?thesis using r d up by auto
  next
    case rej
    then obtain e j' where e: "rejected_entry k es x = Inr e" and c: "classify (Suc k) es rs = Inr (a, d, j')"
      and j: "j = e # j'"
      using "2.prems" by (auto simp: sbind_eq_Inr)
    from "2.IH"(3) [OF rej c] obtain r where r: "record_numbers j' = Inr r"
      "mset (a @ d @ r) = mset [int (Suc k) + 1 .. int (Suc k + length rs)]" "distinct a" "distinct d"
      "length r = length j'" by blast
    from rejected_entry_record [OF e] r j have "record_numbers j = Inr ((int k + 1) # r)" by auto
    moreover have "\<not> is_success x" using rej by (simp add: is_success_def)
    ultimately show ?thesis using r j up by auto
  qed
qed simp

definition attempt_outcomes :: "dict \<Rightarrow> int list \<Rightarrow> int list \<Rightarrow> json list \<Rightarrow> int list \<Rightarrow> int \<Rightarrow> bool" where
  "attempt_outcomes attempt a d j na n \<longleftrightarrow>
     dget attempt ''outcomes'' = JObj
       [(''accepted'', ranges_json (compress_ranges a)), (''duplicate'', ranges_json (compress_ranges d)),
        (''rejected'', JArr j), (''not_attempted'', ranges_json (compress_ranges na))] \<and>
     dget attempt ''record_count'' = JInt n"

lemma dget_note_error:
  "k \<noteq> ''transport_error'' \<Longrightarrow> dget (note_transport_error te h d) k = dget d k"
  by (simp add: note_transport_error_def dget_dset split: option.splits)

lemma build_attempt_Inr:
  assumes "build_attempt m es rep te = Inr attempt"
  shows "\<exists>a d j h. classify 0 es (rr_responses rep) = Inr (a, d, j) \<and> halting_response rep = Inr h \<and>
    attempt_outcomes attempt a d j [int (length (rr_responses rep)) + 1 .. int (length es)] (int (length es)) \<and>
    dget attempt ''disposition'' = JStr (disposition_of te h rep j)"
  using assms
  by (fastforce simp: build_attempt_def Let_def sbind_eq_Inr attempt_outcomes_def dget_note_error
      attempt_fields_def dict_simps)

lemma partition_of_outcomes:
  assumes "attempt_outcomes attempt a d j na n"
  shows "partition_is_total attempt = sbind (record_numbers j) (\<lambda>r.
    Inr (sort (sort (remdups a) @ sort (remdups d) @ sort (remdups na) @ r) = [1 .. n]))"
proof -
  have "dict_or_empty (dget attempt ''outcomes'') = Inr
       [(''accepted'', ranges_json (compress_ranges a)), (''duplicate'', ranges_json (compress_ranges d)),
        (''rejected'', JArr j), (''not_attempted'', ranges_json (compress_ranges na))]" (is "_ = Inr ?o")
    using assms by (simp add: attempt_outcomes_def)
  moreover have "bucket ?o ''accepted'' = Inr (sort (remdups a))" "bucket ?o ''duplicate'' = Inr (sort (remdups d))"
    "bucket ?o ''not_attempted'' = Inr (sort (remdups na))"
    by (simp_all add: bucket_def dict_simps expand_compressed)
  moreover have "py_int (py_or (dget attempt ''record_count'') (JInt 0)) = Inr n"
    using assms by (simp add: attempt_outcomes_def py_or_def)
  ultimately show ?thesis by (simp add: partition_is_total_def dict_simps)
qed

lemma accounts_for_all:
  assumes "build_attempt m es rep te = Inr attempt" and "length (rr_responses rep) \<le> length es"
  shows "partition_is_total attempt = Inr True"
proof -
  let ?L = "int (length (rr_responses rep))" and ?n = "int (length es)"
  obtain a d j where c: "classify 0 es (rr_responses rep) = Inr (a, d, j)"
    and out: "attempt_outcomes attempt a d j [?L + 1 .. ?n] ?n"
    using build_attempt_Inr [OF assms(1)] by blast
  obtain r where r: "record_numbers j = Inr r" "mset (a @ d @ r) = mset [1 .. ?L]" "distinct a" "distinct d"
    using classify_accounts [OF c] by auto
  have split: "[1 .. ?n] = [1 .. ?L] @ [?L + 1 .. ?n]"
    using assms(2) upto_split1 [of 1 "?L + 1" "?n"] by (cases "?L = ?n") auto
  have "mset (sort (remdups a) @ sort (remdups d) @ sort (remdups [?L + 1 .. ?n]) @ r)
      = mset (a @ d @ r) + mset [?L + 1 .. ?n]"
    using r(3,4) by (simp add: distinct_remdups_id ac_simps)
  then have "mset [1 .. ?n] = mset (sort (remdups a) @ sort (remdups d) @ sort (remdups [?L + 1 .. ?n]) @ r)"
    using r(2) by (simp only: split mset_append)
  then have "sort (sort (remdups a) @ sort (remdups d) @ sort (remdups [?L + 1 .. ?n]) @ r) = [1 .. ?n]"
    by (intro properties_for_sort) simp_all
  then show ?thesis by (simp add: partition_of_outcomes [OF out] r(1))
qed

section \<open>Receipts of a replay\<close>

definition payload_objects :: "dict list \<Rightarrow> bool" where
  "payload_objects es \<longleftrightarrow> list_all (\<lambda>e. \<exists>p. dget e ''payload'' = JObj p) es"

lemma sequence_of_total: "payload_objects es \<Longrightarrow> i < length es \<Longrightarrow> \<exists>n. sequence_of (es ! i) = Inr n"
  by (auto simp: payload_objects_def list_all_length sequence_of_def)

lemma classify_total: "payload_objects es \<Longrightarrow> \<exists>a d j. classify k es rs = Inr (a, d, j)"
proof (induction rs arbitrary: k)
  case (Cons r rs)
  obtain a d j where "classify (Suc k) es rs = Inr (a, d, j)" using Cons by blast
  moreover have "\<exists>e. rejected_entry k es r = Inr e"
    using sequence_of_total [OF Cons.prems, of k] by (auto simp: rejected_entry_def Let_def)
  ultimately show ?case by auto
qed simp

lemma build_attempt_total:
  assumes "payload_objects es" and "\<forall>i. rr_failed_index rep = Some i \<longrightarrow> i < length (rr_responses rep)"
  shows "\<exists>attempt. build_attempt m es rep te = Inr attempt"
proof -
  obtain a d j where "classify 0 es (rr_responses rep) = Inr (a, d, j)"
    using classify_total [OF assms(1)] by blast
  moreover obtain h where "halting_response rep = Inr h"
    using assms(2) by (cases "rr_failed_index rep") (auto simp: halting_response_def)
  moreover have "\<exists>x. halted_at es rep = Inr x"
  proof (cases "rr_failed_index rep")
    case (Some i)
    then show ?thesis
      using sequence_of_total [OF assms(1), of i] by (cases "i < length es") (auto simp: halted_at_def)
  qed (simp add: halted_at_def)
  ultimately show ?thesis by (auto simp: build_attempt_def Let_def)
qed

lemma disposition_complete:
  assumes "build_attempt m es rep None = Inr attempt" and "rep = report_of n rs"
  shows "dget attempt ''disposition'' = JStr ''fully_accepted'' \<longleftrightarrow> report_complete rep"
proof -
  obtain a d j h where c: "classify 0 es (rr_responses rep) = Inr (a, d, j)"
    and h: "halting_response rep = Inr h"
    and disp: "dget attempt ''disposition'' = JStr (disposition_of None h rep j)"
    using build_attempt_Inr [OF assms(1)] by blast
  have "rr_responses rep = rs" "rr_failed_index rep = first_refusal rs"
    by (simp_all add: assms(2) report_of_def)
  then have "j = [] \<longleftrightarrow> rr_failed_index rep = None"
    using classify_accounts [OF c] by (auto simp: first_refusal_None)
  with h disp show ?thesis
    by (cases "rr_failed_index rep")
      (auto simp: disposition_of_def gave_up_def halting_response_def report_complete_def)
qed

definition sample_meta :: attempt_meta where
  "sample_meta =
     \<lparr>am_endpoint = ''e'', am_spool_sha = ''h'', am_started_at = ''t'', am_finished_at = ''t'', am_attempt_id = ''1'',
      am_operator = ''o'', am_sdk_version = ''0''\<rparr>"

text \<open>Compression and expansion of positions are inverse: expanding the compressed ranges gives the
  distinct positions in order, and the ranges are non-empty with a gap between any two.\<close>

theorem ranges_round_trip:
  "sbind (items (ranges_json (compress_ranges xs))) expand_ranges = Inr (sort (remdups xs)) \<and>
   list_all (\<lambda>(a, b). a \<le> b) (compress_ranges xs) \<and>
   sorted_wrt (\<lambda>(a, b) (c, d). b + 1 < c) (compress_ranges xs)"
  using compress_separated [of xs] expand_compressed [of xs] by (auto simp: list_all_iff)


lemma sample_replay:
  "\<exists>rep n. replay_envelopes (http_transport (\<lambda>_. sample_http_env Http_Timeout)) [sample_approval] 100
     (0, sample_sync_client) = (Inr rep, (n, sample_sync_client))"
proof -
  have "\<not> hc_spooling sample_sync_client" "\<not> hc_spool_enabled sample_sync_client"
    by (simp_all add: sample_sync_client_def sample_http_def)
  from http_walk_returns [OF sample_settled this, of "\<lambda>_. sample_http_env Http_Timeout" 99 0 "new_report 1" 0]
  show ?thesis by (auto simp: replay_envelopes_def)
qed

lemma sample_payload_objects: "payload_objects [sample_approval]"
  by (simp add: payload_objects_def sample_approval_def sample_envelope_def dict_simps)


text \<open>A client that answers a batch short makes the replay report the first unanswered record as
  failed, and building the receipt of that report raises \<open>IndexError\<close>: the attempt that should be
  recorded is lost.\<close>

theorem short_answer_loses_receipt:
  assumes "es \<noteq> []" and "payload_objects es" and "length es \<le> nat (max 1 bs)"
    and "f es s = (Inr rs, s')" and "length rs < length es" and "list_all is_success rs"
  shows "\<exists>rep. replay_envelopes (Batching f) es bs s = (Inr rep, s') \<and>
    rr_failed_index rep = Some (length rs) \<and> build_attempt m es rep None = Inl IndexError"
proof -
  obtain e es' where es: "es = e # es'" using assms(1) by (cases es) auto
  let ?k = "nat (max 1 bs) - 1"
  have tk: "take (Suc ?k) es = es" using assms(3) by simp
  have t: "tally 0 rs (new_report (length es)) = report_of (length es) rs"
    using tally_report [of "[]" rs "length es"] by (simp add: new_report_of)
  let ?rep = "short_answer 0 (length rs) (length es) (report_of (length es) rs)"
  have "replay_from (Batching f) ?k 0 (e # es') (new_report (length es)) s = (Inr ?rep, s')"
    using tk t assms(4,5,6) unfolding es replay_from.simps Let_def
    by (simp add: replay_send_def report_of_def first_refusal_None [THEN iffD2])
  then have r: "replay_envelopes (Batching f) es bs s = (Inr ?rep, s')"
    by (simp add: replay_envelopes_def es)
  have fi: "rr_failed_index ?rep = Some (length rs)" "rr_responses ?rep = rs"
    by (simp_all add: short_answer_def report_of_def)
  obtain a d j where "classify 0 es rs = Inr (a, d, j)" using classify_total [OF assms(2)] by blast
  with fi have "build_attempt m es ?rep None = Inl IndexError"
    by (simp add: build_attempt_def Let_def halting_response_def)
  with r fi show ?thesis by blast
qed

theorem short_answer_loses_receipt_witness:
  "\<exists>rep. replay_envelopes (Batching (\<lambda>_ s. (Inr [] :: string + response list, s))) [sample_approval] 100 (0 :: nat) = (Inr rep, 0) \<and>
     build_attempt sample_meta [sample_approval] rep None = Inl IndexError"
  using short_answer_loses_receipt [OF _ sample_payload_objects, of 100
      "\<lambda>_ s. (Inr [] :: string + response list, s)" "0 :: nat" "[]" 0 sample_meta]
  by auto

text \<open>Receipts are append-only: a written attempt is the last of the document at the path returned,
  after every attempt that document had; no other receipt changes, a receipt that cannot be read
  is never overwritten, and a failing write changes nothing.\<close>

theorem append_attempt_keeps_history:
  assumes "append_attempt disk sid attempt live = (res, live')"
  shows "case res of
      Inl e \<Rightarrow> live' = live
    | Inr (path, digest) \<Rightarrow>
        \<exists>old doc. map_of live' path = Some (Inr (Some (JObj doc))) \<and> dget doc ''attempts'' = JArr (old @ [JObj attempt]) \<and>
          digest = sha256_text (document_text (JObj doc)) \<and>
          (\<forall>q. q \<noteq> path \<longrightarrow> map_of live' q = map_of live q) \<and>
          (case map_of live path of
             None \<Rightarrow> old = []
           | Some f \<Rightarrow> \<exists>d. load_receipt f = Inr d \<and> dget d ''attempts'' = JArr old)"
proof -
  obtain path d where tg: "append_target sid live = (path, d)" by (cases "append_target sid live")
  have target: "case map_of live path of None \<Rightarrow> dget d ''attempts'' = JArr [] | Some f \<Rightarrow> load_receipt f = Inr d"
  proof (cases "map_of live (receipt_name sid 0)")
    case None
    with tg show ?thesis by (auto simp: append_target_def Let_def dict_simps)
  next
    case (Some f)
    show ?thesis
    proof (cases "load_receipt f")
      case (Inr d')
      with tg Some show ?thesis by (auto simp: append_target_def Let_def)
    next
      case (Inl e)
      have "inj (corrupt_name (receipt_name sid 0))" by (auto intro: injI simp: corrupt_name_def)
      then obtain x where "first_free (corrupt_name (receipt_name sid 0)) (Suc (length (map fst live))) 1 (map fst live) = Some x"
        "x \<notin> set (map fst live)" by (rule first_free_total)
      with tg Some Inl have "path \<notin> fst ` set live" "dget d ''attempts'' = JArr []"
        by (auto simp: append_target_def Let_def corrupt_sibling_def dict_simps)
      then show ?thesis by (simp add: map_of_eq_None_iff [THEN iffD2])
    qed
  qed
  show ?thesis
  proof (cases "\<exists>old. dget d ''attempts'' = JArr old \<and> disk = None")
    case True
    then obtain old where old: "dget d ''attempts'' = JArr old" "disk = None" by blast
    let ?doc = "dset ''attempts'' (JArr (old @ [JObj attempt])) d"
    have "res = Inr (path, sha256_text (document_text (JObj ?doc)))"
      "live' = AList.update path (Inr (Some (JObj ?doc))) live"
      using assms tg old by (simp_all add: append_attempt_def Let_def)
    moreover have "case map_of live path of None \<Rightarrow> old = [] | Some f \<Rightarrow> \<exists>d. load_receipt f = Inr d \<and> dget d ''attempts'' = JArr old"
      using target old by (auto split: option.splits)
    ultimately show ?thesis
      by (auto simp: update_conv' dict_simps intro!: exI [of _ old] exI [of _ ?doc])
  next
    case False
    with assms tg have "live' = live" "\<exists>e. res = Inl e"
      by (auto simp: append_attempt_def Let_def split: json.splits option.splits)
    then show ?thesis by auto
  qed
qed

theorem append_attempt_keeps_history_witness:
  "\<exists>res live'. append_attempt None ''s'' [] [(''s.sync.json'', Inr None)] = (res, live') \<and>
     map_of live' ''s.sync.json'' = Some (Inr None)"
proof -
  obtain res live' where a: "append_attempt None ''s'' [] [(''s.sync.json'', Inr None)] = (res, live')" by fastforce
  have n: "receipt_name ''s'' 0 = ''s.sync.json''" by (simp add: receipt_name_def)
  have "res \<noteq> Inr (''s.sync.json'', x)" for x
    using append_attempt_keeps_history [OF a] by (auto simp: load_receipt_def)
  with append_attempt_keeps_history [OF a] have "map_of live' ''s.sync.json'' = Some (Inr None)"
    by (cases res) (auto split: prod.splits if_splits)
  with a show ?thesis by blast
qed

end
