(* ===== verification/Admin_Sync.thy ===== *)
theory Admin_Sync
  imports Receipt
begin

text \<open>
  \<^verbatim>\<open>rootsign-admin sync\<close> (\<^verbatim>\<open>rootsign/cli.py\<close>): read every spooled session, replay each over
  the cloud client, record a receipt whatever happened, and retire the file only when the store
  has all of it. A spool file is kept with the SHA-256 of its bytes. What is echoed is a list of
  messages, one constructor per line of output; the client, the settings and the description of
  a transport exception are arguments.
\<close>

section \<open>State\<close>

type_synonym spool_entry = "string \<times> spool_file"

record sync_root =
  sy_tree :: "spool_entry spool_tree"
  sy_receipts :: receipt_tree

datatype position = At_Sequence json | At_Record nat

datatype message =
    Nothing_To_Sync
  | Sessions_Found nat nat
  | Skipped string read_exn
  | Would_Upload string nat "(json \<times> json) option"
  | Dry_Run_Done
  | No_Api_Key
  | Cloud_Extra_Missing
  | Uploading_To string
  | Transport_Failed string string
  | Session_Synced string nat nat string
  | Session_Rejected string nat nat position "error_code option" "string option"
  | Receipt_Written bool string string
  | Not_Finished nat
  | All_Uploaded

section \<open>Reading the spool\<close>

definition skippable :: "read_exn \<Rightarrow> bool" where
  "skippable e =
     (case e of
        Spool_Format _ \<Rightarrow> True
      | Read_Exn (OSError _) \<Rightarrow> True
      | Read_Exn FileNotFoundError \<Rightarrow> True
      | Read_Exn UnicodeDecodeError \<Rightarrow> True
      | Read_Exn _ \<Rightarrow> False)"

definition entry_content :: "spool_entry spool_tree \<Rightarrow> string \<Rightarrow> spool_file" where
  "entry_content t name =
     (case map_of (sp_sessions t) name of None \<Rightarrow> Inl FileNotFoundError | Some e \<Rightarrow> snd e)"

fun read_spool_sessions ::
  "string \<Rightarrow> spool_entry spool_tree \<Rightarrow> string list \<Rightarrow>
    read_exn + (string \<times> spool_session) list \<times> (string \<times> read_exn) list" where
  "read_spool_sessions v t [] = Inr ([], [])"
| "read_spool_sessions v t (path # paths) =
     (case read_spool_session v (path_stem path) (entry_content t path) of
        Inr s \<Rightarrow> sbind (read_spool_sessions v t paths) (\<lambda>(ss, bad). Inr ((path, s) # ss, bad))
      | Inl e \<Rightarrow>
          if skippable e
          then sbind (read_spool_sessions v t paths) (\<lambda>(ss, bad). Inr (ss, (path, e) # bad))
          else Inl e)"

section \<open>One session\<close>

record sync_env =
  se_sdk_version :: string
  se_endpoint :: string
  se_meta :: "nat \<Rightarrow> attempt_meta"
  se_disk :: "nat \<Rightarrow> string option"

fun split_dots :: "string \<Rightarrow> string list" where
  "split_dots [] = [[]]"
| "split_dots (c # cs) =
     (if c = CHR ''.'' then [] # split_dots cs
      else (case split_dots cs of [] \<Rightarrow> [[c]] | p # ps \<Rightarrow> (c # p) # ps))"

text \<open>\<open>str.isdigit\<close> also holds of superscript digits, which \<open>int\<close> refuses.\<close>

definition py_isdigit :: "string \<Rightarrow> bool" where
  "py_isdigit s \<longleftrightarrow>
     s \<noteq> [] \<and> list_all (\<lambda>c. is_digit 10 c \<or> of_char c \<in> {178, 179, 185 :: nat}) s"

definition suffix_index_of :: "string \<Rightarrow> pyexc + nat" where
  "suffix_index_of name =
     (let parts = split_dots name in
      if 3 \<le> length parts \<and> py_isdigit (parts ! (length parts - 2))
      then (case parse_int 10 (parts ! (length parts - 2)) of
              Some i \<Rightarrow> Inr (nat i)
            | None \<Rightarrow> Inl (ValueError ''invalid literal for int()''))
      else Inr 0)"

definition move_receipt :: "string \<Rightarrow> string \<Rightarrow> receipt_tree \<Rightarrow> pyexc + receipt_tree" where
  "move_receipt sid destination rt =
     sbind (suffix_index_of destination) (\<lambda>i. Inr (snd (mark_receipt_synced sid i rt)))"

definition moved_receipt_path :: "string \<Rightarrow> receipt_tree \<Rightarrow> bool \<times> string" where
  "moved_receipt_path sid rt =
     (case find_receipt sid rt of Some p \<Rightarrow> p | None \<Rightarrow> (True, receipt_name sid 0))"

definition replay_outcome ::
  "('e \<Rightarrow> string) \<Rightarrow> nat \<Rightarrow> 'e + replay_report \<Rightarrow> replay_report \<times> string option" where
  "replay_outcome describe n r =
     (case r of Inl ex \<Rightarrow> (new_report n, Some (describe ex)) | Inr rep \<Rightarrow> (rep, None))"

definition stuck_position :: "dict list \<Rightarrow> nat \<Rightarrow> pyexc + position" where
  "stuck_position envelopes i =
     (if i < length envelopes
      then sbind (dict_or_empty (dget (envelopes ! i) ''payload'')) (\<lambda>payload.
             Inr (if dget payload ''sequence_number'' = JNull then At_Record (i + 1)
                  else At_Sequence (dget payload ''sequence_number'')))
      else Inl IndexError)"

text \<open>After the receipt is written: what is echoed and returned, and the file's move.\<close>

definition conclude ::
  "string \<Rightarrow> spool_session \<Rightarrow> replay_report \<Rightarrow> string option \<Rightarrow> string \<Rightarrow> string \<Rightarrow> sync_root \<Rightarrow>
    (pyexc + nat \<times> message list) \<times> sync_root" where
  "conclude name session report transport_error receipt digest sr =
     (let sid = ss_session_id session in
      case transport_error of
        Some e \<Rightarrow> (Inr (1, [Transport_Failed sid e, Receipt_Written False receipt digest]), sr)
      | None \<Rightarrow>
          (case rr_failed_index report of
             None \<Rightarrow>
               (case mark_synced name (sy_tree sr) of
                  Inl e \<Rightarrow> (Inl e, sr)
                | Inr (destination, tree) \<Rightarrow>
                    (case move_receipt sid destination (sy_receipts sr) of
                       Inl e \<Rightarrow> (Inl e, sr\<lparr>sy_tree := tree\<rparr>)
                     | Inr rt \<Rightarrow>
                         (case moved_receipt_path sid rt of
                            (synced, path) \<Rightarrow>
                              (Inr (0, [Session_Synced sid (rr_accepted report) (rr_duplicates report) destination,
                                        Receipt_Written synced path digest]),
                               \<lparr>sy_tree = tree, sy_receipts = rt\<rparr>))))
           | Some i \<Rightarrow>
               (case stuck_position (ss_envelopes session) i of
                  Inl e \<Rightarrow> (Inl e, sr)
                | Inr p \<Rightarrow>
                    (Inr (1, [Session_Rejected sid (delivered report) (rr_total report) p
                                (rr_error_code report) (rr_error_message report),
                              Receipt_Written False receipt digest]), sr))))"

definition sync_one ::
  "sync_env \<Rightarrow> ('s, 'e) transport \<Rightarrow> ('e \<Rightarrow> string) \<Rightarrow> nat \<Rightarrow> string \<times> spool_session \<Rightarrow> sync_root \<times> 's \<Rightarrow>
    (pyexc + nat \<times> message list) \<times> sync_root \<times> 's" where
  "sync_one env t describe k item st =
     (case item of (name, session) \<Rightarrow> case st of (sr, client) \<Rightarrow>
      case map_of (sp_sessions (sy_tree sr)) name of
        None \<Rightarrow> (Inl FileNotFoundError, st)
      | Some (spool_sha, _) \<Rightarrow>
          (case replay_envelopes t (ss_envelopes session) default_batch_size client of
             (r, client') \<Rightarrow>
               (case replay_outcome describe (length (ss_envelopes session)) r of
                  (report, transport_error) \<Rightarrow>
                    (case build_attempt
                            ((se_meta env k)\<lparr>am_spool_sha := spool_sha, am_endpoint := se_endpoint env,
                                             am_sdk_version := se_sdk_version env\<rparr>)
                            (ss_envelopes session) report transport_error of
                       Inl e \<Rightarrow> (Inl e, sr, client')
                     | Inr attempt \<Rightarrow>
                         (case append_attempt (se_disk env k) (ss_session_id session) attempt (rt_live (sy_receipts sr)) of
                            (Inl e, live) \<Rightarrow> (Inl e, sr\<lparr>sy_receipts := (sy_receipts sr)\<lparr>rt_live := live\<rparr>\<rparr>, client')
                          | (Inr (receipt, digest), live) \<Rightarrow>
                              (case conclude name session report transport_error receipt digest
                                      (sr\<lparr>sy_receipts := (sy_receipts sr)\<lparr>rt_live := live\<rparr>\<rparr>) of
                                 (res, sr') \<Rightarrow> (res, sr', client')))))))"

section \<open>The command\<close>

fun sync_sessions ::
  "sync_env \<Rightarrow> ('s, 'e) transport \<Rightarrow> ('e \<Rightarrow> string) \<Rightarrow> nat \<Rightarrow> (string \<times> spool_session) list \<Rightarrow> sync_root \<times> 's \<Rightarrow>
    (pyexc + nat \<times> message list) \<times> sync_root \<times> 's" where
  "sync_sessions env t describe k [] st = (Inr (0, []), st)"
| "sync_sessions env t describe k (s # ss) st =
     (case sync_one env t describe k s st of
        (Inl e, st') \<Rightarrow> (Inl e, st')
      | (Inr (n, out), st') \<Rightarrow>
          (case sync_sessions env t describe (Suc k) ss st' of
             (Inl e, st'') \<Rightarrow> (Inl e, st'')
           | (Inr (m, out'), st'') \<Rightarrow> (Inr (n + m, out @ out'), st'')))"

datatype sync_exit = Exit nat "message list" | Crash_Reading read_exn | Crash pyexc

fun dry_run_lines :: "(string \<times> spool_session) list \<Rightarrow> pyexc + message list" where
  "dry_run_lines [] = Inr []"
| "dry_run_lines ((_, s) # ss) =
     sbind (spool_span s) (\<lambda>span. sbind (dry_run_lines ss) (\<lambda>out.
       Inr (Would_Upload (ss_session_id s) (length (ss_envelopes s)) span # out)))"

definition upload ::
  "sync_env \<Rightarrow> ('s, 'e) transport \<Rightarrow> ('e \<Rightarrow> string) \<Rightarrow> (string \<times> spool_session) list \<Rightarrow> nat \<Rightarrow> message list \<Rightarrow>
    sync_root \<times> 's \<Rightarrow> sync_exit \<times> sync_root \<times> 's" where
  "upload env t describe sessions unreadable out st =
     (case sync_sessions env t describe 0 sessions st of
        (Inl e, st') \<Rightarrow> (Crash e, st')
      | (Inr (n, out'), st') \<Rightarrow>
          (if unreadable + n = 0 then Exit 0 (out @ [Uploading_To (se_endpoint env)] @ out' @ [All_Uploaded])
           else Exit 1 (out @ [Uploading_To (se_endpoint env)] @ out' @ [Not_Finished (unreadable + n)]), st'))"

definition sync_command ::
  "bool \<Rightarrow> bool \<Rightarrow> bool \<Rightarrow> sync_env \<Rightarrow> ('s, 'e) transport \<Rightarrow> ('e \<Rightarrow> string) \<Rightarrow> sync_root \<times> 's \<Rightarrow>
    sync_exit \<times> sync_root \<times> 's" where
  "sync_command dry_run api_key cloud_extra env t describe st =
     (let paths = spool_files (sy_tree (fst st)) in
      if paths = [] then (Exit 0 [Nothing_To_Sync], st)
      else (case read_spool_sessions (se_sdk_version env) (sy_tree (fst st)) paths of
              Inl e \<Rightarrow> (Crash_Reading e, st)
            | Inr (sessions, bad) \<Rightarrow>
                let out = map (\<lambda>(p, e). Skipped p e) bad @
                          [Sessions_Found (length sessions) (sum_list (map (\<lambda>(_, s). length (ss_envelopes s)) sessions))]
                in if dry_run
                   then (case dry_run_lines sessions of
                           Inl e \<Rightarrow> (Crash e, st)
                         | Inr ls \<Rightarrow> (Exit (if bad = [] then 0 else 1) (out @ ls @ [Dry_Run_Done]), st))
                   else if \<not> api_key then (Exit 1 (out @ [No_Api_Key]), st)
                   else if \<not> cloud_extra then (Exit 1 (out @ [Cloud_Extra_Missing]), st)
                   else upload env t describe sessions (length bad) out st))"

section \<open>What one session's sync changes\<close>

lemma mark_receipt_keeps:
  assumes "mark_receipt_synced sid i rt = (x, rt')"
  shows "receipt_name sid 0 \<notin> fst ` set (rt_live rt')"
    and "map_of (rt_synced rt) f = Some c \<Longrightarrow> map_of (rt_synced rt') f = Some c"
proof -
  show "receipt_name sid 0 \<notin> fst ` set (rt_live rt')"
    using assms
    by (auto simp: mark_receipt_synced_def Let_def delete_conv' map_of_eq_None_iff [symmetric]
        split: option.splits)
  assume f: "map_of (rt_synced rt) f = Some c"
  have "inj (receipt_name sid)" by (auto intro!: injI simp: receipt_name_def split: if_splits)
  then obtain d where "first_free (receipt_name sid) (Suc (length (map fst (rt_synced rt)))) (max i 1) (map fst (rt_synced rt)) = Some d"
    and "d \<notin> set (map fst (rt_synced rt))" by (rule first_free_total)
  then have "synced_receipt_name sid i (map fst (rt_synced rt)) \<notin> fst ` set (rt_synced rt)"
    by (auto simp: synced_receipt_name_def Let_def)
  with f have "f \<noteq> synced_receipt_name sid i (map fst (rt_synced rt))"
    by (metis domI dom_map_of_conv_image_fst)
  with f assms show "map_of (rt_synced rt') f = Some c"
    by (auto simp: mark_receipt_synced_def Let_def update_conv' split: option.splits)
qed

text \<open>The cases of a session that was dealt with: the attempt is on disk, and the rest is \<open>conclude\<close>.\<close>

lemma sync_one_Inr:
  assumes "sync_one env t describe k (name, session) (sr, c) = (Inr (n, out), sr', c')"
  obtains r rep te attempt receipt digest live where
    "replay_envelopes t (ss_envelopes session) default_batch_size c = (r, c')"
    and "replay_outcome describe (length (ss_envelopes session)) r = (rep, te)"
    and "append_attempt (se_disk env k) (ss_session_id session) attempt (rt_live (sy_receipts sr)) = (Inr (receipt, digest), live)"
    and "conclude name session rep te receipt digest (sr\<lparr>sy_receipts := (sy_receipts sr)\<lparr>rt_live := live\<rparr>\<rparr>) = (Inr (n, out), sr')"
proof -
  obtain sha content where e: "map_of (sp_sessions (sy_tree sr)) name = Some (sha, content)"
    using assms by (auto simp: sync_one_def split: option.splits)
  obtain r c1 where r: "replay_envelopes t (ss_envelopes session) default_batch_size c = (r, c1)"
    by (cases "replay_envelopes t (ss_envelopes session) default_batch_size c")
  obtain rep te where o: "replay_outcome describe (length (ss_envelopes session)) r = (rep, te)"
    by (cases "replay_outcome describe (length (ss_envelopes session)) r")
  let ?m = "(se_meta env k)\<lparr>am_spool_sha := sha, am_endpoint := se_endpoint env, am_sdk_version := se_sdk_version env\<rparr>"
  obtain attempt where b: "build_attempt ?m (ss_envelopes session) rep te = Inr attempt"
    using assms by (cases "build_attempt ?m (ss_envelopes session) rep te") (simp_all add: sync_one_def e r o)
  obtain q live where a: "append_attempt (se_disk env k) (ss_session_id session) attempt (rt_live (sy_receipts sr)) = (q, live)"
    by (cases "append_attempt (se_disk env k) (ss_session_id session) attempt (rt_live (sy_receipts sr))")
  obtain receipt digest where q: "q = Inr (receipt, digest)"
    using assms by (cases q) (auto simp: sync_one_def e r o b a)
  have "conclude name session rep te receipt digest (sr\<lparr>sy_receipts := (sy_receipts sr)\<lparr>rt_live := live\<rparr>\<rparr>) = (Inr (n, out), sr')"
    and "c1 = c'"
    using assms by (auto simp: sync_one_def e r o b a q split: prod.splits)
  with r o a q that show thesis by blast
qed

lemma conclude_cases:
  assumes "conclude name session rep te receipt digest sr = (Inr (n, out), sr')"
  shows "(n = 0 \<and> te = None \<and> report_complete rep \<and>
      (\<exists>d i rt. mark_synced name (sy_tree sr) = Inr (d, sy_tree sr') \<and>
        mark_receipt_synced (ss_session_id session) i (sy_receipts sr) = (rt, sy_receipts sr') \<and>
        (case moved_receipt_path (ss_session_id session) (sy_receipts sr') of
           (b, p) \<Rightarrow> Receipt_Written b p digest \<in> set out))) \<or>
    (n = 1 \<and> (te \<noteq> None \<or> \<not> report_complete rep) \<and> sr' = sr)"
proof (cases te)
  case (Some e)
  with assms show ?thesis by (auto simp: conclude_def Let_def)
next
  case None
  show ?thesis
  proof (cases "rr_failed_index rep")
    case (Some i)
    with assms None show ?thesis
      by (auto simp: conclude_def Let_def report_complete_def split: sum.splits)
  next
    case complete: None
    obtain d tree where m: "mark_synced name (sy_tree sr) = Inr (d, tree)"
      using assms None complete by (auto simp: conclude_def Let_def split: sum.splits)
    obtain rt where r: "move_receipt (ss_session_id session) d (sy_receipts sr) = Inr rt"
      using assms None complete m by (auto simp: conclude_def Let_def split: sum.splits)
    obtain b p where p: "moved_receipt_path (ss_session_id session) rt = (b, p)" by fastforce
    have sr': "sr' = \<lparr>sy_tree = tree, sy_receipts = rt\<rparr>" "n = 0" "Receipt_Written b p digest \<in> set out"
      using assms None complete m r p by (auto simp: conclude_def Let_def)
    obtain i x where "mark_receipt_synced (ss_session_id session) i (sy_receipts sr) = (x, rt)"
      using r by (auto simp: move_receipt_def sbind_eq_Inr prod_eq_iff)
    with sr' m p None complete show ?thesis
      by (auto simp: report_complete_def)
  qed
qed

lemma sync_one_cases:
  assumes "sync_one env t describe k (name, session) (sr, c) = (Inr (n, out), sr', c')"
  shows "(n = 0 \<and> (\<exists>rep. replay_envelopes t (ss_envelopes session) default_batch_size c = (Inr rep, c') \<and> report_complete rep) \<and>
      (\<exists>d. mark_synced name (sy_tree sr) = Inr (d, sy_tree sr'))) \<or>
    (n = 1 \<and> sy_tree sr' = sy_tree sr \<and>
      \<not> (\<exists>rep. replay_envelopes t (ss_envelopes session) default_batch_size c = (Inr rep, c') \<and> report_complete rep))"
proof -
  obtain r rep te receipt digest sr1 where r: "replay_envelopes t (ss_envelopes session) default_batch_size c = (r, c')"
    and o: "replay_outcome describe (length (ss_envelopes session)) r = (rep, te)"
    and c: "conclude name session rep te receipt digest sr1 = (Inr (n, out), sr')"
    and tree: "sy_tree sr1 = sy_tree sr"
    by (rule sync_one_Inr [OF assms]) (metis sync_root.select_convs(1) sync_root.surjective sync_root.update_convs(2))
  from r o have "(te = None \<and> report_complete rep) =
      (\<exists>rep. replay_envelopes t (ss_envelopes session) default_batch_size c = (Inr rep, c') \<and> report_complete rep)"
    by (auto simp: replay_outcome_def split: sum.splits)
  with conclude_cases [OF c] r o tree show ?thesis
    by (auto simp: replay_outcome_def split: sum.splits)
qed

section \<open>The whole spool\<close>

lemma mark_synced_names:
  "mark_synced name t = Inr (d, t') \<Longrightarrow> fst ` set (sp_sessions t') = fst ` set (sp_sessions t) - {name}"
  by (auto simp: mark_synced_def Let_def AList.delete_eq image_iff split: option.splits)

lemma sync_sessions_zero:
  "sync_sessions env t describe k ss (sr, c) = (Inr (0, out), sr', c') \<Longrightarrow>
    fst ` set (sp_sessions (sy_tree sr')) = fst ` set (sp_sessions (sy_tree sr)) - fst ` set ss"
proof (induction ss arbitrary: k sr c out)
  case (Cons s ss)
  obtain name session where s: "s = (name, session)" by (cases s)
  obtain n m out1 out2 sr1 c1 where one: "sync_one env t describe k s (sr, c) = (Inr (n, out1), sr1, c1)"
    and rest: "sync_sessions env t describe (Suc k) ss (sr1, c1) = (Inr (m, out2), sr', c')" and "n + m = 0"
    using Cons.prems by (auto split: prod.splits sum.splits)
  then have "n = 0" "m = 0" by simp_all
  with sync_one_cases [OF one [unfolded s]] obtain d where "mark_synced name (sy_tree sr) = Inr (d, sy_tree sr1)"
    by auto
  from mark_synced_names [OF this] Cons.IH [OF rest [unfolded \<open>m = 0\<close>]] show ?case
    by (auto simp: s)
qed simp

lemma read_sessions_names:
  "read_spool_sessions v t paths = Inr (ss, bad) \<Longrightarrow> fst ` set ss \<union> fst ` set bad = set paths"
proof (induction paths arbitrary: ss bad)
  case (Cons path paths)
  show ?case
  proof (cases "read_spool_session v (path_stem path) (entry_content t path)")
    case (Inr s)
    with Cons.prems obtain ss' where "read_spool_sessions v t paths = Inr (ss', bad)" "ss = (path, s) # ss'"
      by (auto simp: sbind_eq_Inr)
    with Cons.IH [of ss' bad] show ?thesis by auto
  next
    case (Inl e)
    with Cons.prems have "skippable e" by (auto split: if_splits)
    with Inl Cons.prems obtain bad' where "read_spool_sessions v t paths = Inr (ss, bad')" "bad = (path, e) # bad'"
      by (auto simp: sbind_eq_Inr)
    with Cons.IH [of ss bad'] show ?thesis by auto
  qed
qed simp

lemma read_sessions_strands:
  "name \<in> set paths \<Longrightarrow> read_spool_session v (path_stem name) (entry_content t name) = Inl e \<Longrightarrow>
    \<not> skippable e \<Longrightarrow> \<exists>e'. read_spool_sessions v t paths = Inl e'"
  by (induction paths) (auto simp: sbind_def split: sum.splits)

lemma spool_files_set: "set (spool_files t) = {f \<in> fst ` set (sp_sessions t). ends_with ''.jsonl'' f}"
  by (auto simp: spool_files_def)

definition sample_root :: sync_root where
  "sample_root =
     \<lparr>sy_tree = \<lparr>sp_sessions = [(''s.jsonl'', ''h'', Inr [Parsed (JObj sample_approval)])], sp_synced = []\<rparr>,
      sy_receipts = \<lparr>rt_live = [], rt_synced = [(''s.sync.json'', Inr None)]\<rparr>\<rparr>"

definition sample_sync_env :: sync_env where
  "sample_sync_env = \<lparr>se_sdk_version = ''0'', se_endpoint = ''e'', se_meta = (\<lambda>_. sample_meta), se_disk = (\<lambda>_. None)\<rparr>"

definition sample_store :: "(nat, string) transport" where
  "sample_store = Single (\<lambda>e s. (Inr (accepted 5 None None None), Suc s))"

definition sample_session_read :: spool_session where
  "sample_session_read = \<lparr>ss_session_id = ''s'', ss_envelopes = [respool ''0'' sample_approval], ss_annotations = 0\<rparr>"

lemma sample_read: "read_spool_session ''0'' stem (Inr [Parsed (JObj sample_approval)]) = Inr sample_session_read"
proof -
  have k: "known_event (JStr ''APPROVAL_RECORD'') = Inr True"
    using known_event_value [of APPROVAL_RECORD] by simp
  have p: "dget sample_approval ''payload'' = JObj sample_payload" "dget sample_approval ''session_id'' = JStr ''s''"
    by (simp_all add: sample_approval_def sample_envelope_def dict_simps)
  show ?thesis
    by (simp add: read_spool_session_def read_record_def k p sample_approval_type envelope_from_record_def
        sample_session_read_def respool_def payload_of_def Let_def)
qed

lemma sample_replay_complete:
  "replay_envelopes sample_store (ss_envelopes sample_session_read) default_batch_size 0 =
     (Inr (report_of 1 [accepted 5 None None None]), 1)"
  by (simp add: replay_envelopes_def sample_session_read_def default_batch_size_def replay_send_def
      sample_store_def Let_def new_report_def report_of_def tally_one_def first_refusal_def is_success_def)

lemma sample_mark:
  "mark_synced ''s.jsonl'' (sy_tree sample_root) =
     Inr (''s.jsonl'', \<lparr>sp_sessions = [], sp_synced = [(''s.jsonl'', ''h'', Inr [Parsed (JObj sample_approval)])]\<rparr>)"
  by (simp add: mark_synced_def sample_root_def synced_name_def Let_def)

lemma sample_suffix: "suffix_index_of ''s.jsonl'' = Inr 0"
  by (simp add: suffix_index_of_def Let_def)

lemma sample_conclude:
  assumes "sy_tree sr = sy_tree sample_root"
  shows "\<exists>out sr'. conclude ''s.jsonl'' sample_session_read (report_of (Suc 0) [accepted 5 None None None]) None receipt digest sr =
    (Inr (0, out), sr')"
  by (cases "moved_receipt_path ''s'' (snd (mark_receipt_synced ''s'' 0 (sy_receipts sr)))")
    (simp add: conclude_def Let_def report_of_def first_refusal_def is_success_def assms sample_mark
      move_receipt_def sample_suffix sample_session_read_def)

lemma sample_sync:
  "\<exists>out sr'. sync_one sample_sync_env sample_store (\<lambda>e. e) 0 (''s.jsonl'', sample_session_read) (sample_root, 0) =
     (Inr (0, out), sr', 1)"
proof -
  let ?rep = "report_of (Suc 0) [accepted 5 None None None]"
  let ?m = "(se_meta sample_sync_env 0)\<lparr>am_spool_sha := ''h'', am_endpoint := se_endpoint sample_sync_env,
      am_sdk_version := se_sdk_version sample_sync_env\<rparr>"
  have "payload_objects (ss_envelopes sample_session_read)"
    by (simp add: payload_objects_def sample_session_read_def respool_def)
  moreover have "\<forall>i. rr_failed_index ?rep = Some i \<longrightarrow> i < length (rr_responses ?rep)"
    by (simp add: report_of_def first_refusal_def is_success_def)
  ultimately obtain attempt where b: "build_attempt ?m (ss_envelopes sample_session_read) ?rep None = Inr attempt"
    using build_attempt_total by blast
  have "\<exists>path digest live. append_attempt (se_disk sample_sync_env 0) ''s'' attempt (rt_live (sy_receipts sample_root)) =
      (Inr (path, digest), live)"
    by (simp add: append_attempt_def append_target_def sample_sync_env_def sample_root_def Let_def dict_simps)
  then obtain path digest live where a: "append_attempt (se_disk sample_sync_env 0) (ss_session_id sample_session_read) attempt
      (rt_live (sy_receipts sample_root)) = (Inr (path, digest), live)"
    by (auto simp: sample_session_read_def)
  let ?sr = "sample_root\<lparr>sy_receipts := (sy_receipts sample_root)\<lparr>rt_live := live\<rparr>\<rparr>"
  obtain out sr' where c: "conclude ''s.jsonl'' sample_session_read ?rep None path digest ?sr = (Inr (0, out), sr')"
    using sample_conclude [of ?sr path digest] by auto
  have e: "map_of (sp_sessions (sy_tree sample_root)) ''s.jsonl'' = Some (''h'', Inr [Parsed (JObj sample_approval)])"
    by (simp add: sample_root_def)
  show ?thesis
    by (simp add: sync_one_def e sample_replay_complete replay_outcome_def b a c)
qed

lemma sample_aligned: "aligned_transport sample_store"
  unfolding sample_store_def by (rule each.aligned_transport_axioms)

section \<open>Properties of the sync command\<close>

text \<open>C20. A spooled session leaves the spool only when the store answered every one of its records with
  a success; otherwise its file stays where it is, and the session counts as unfinished.\<close>

theorem only_delivered_sessions_leave:
  assumes "sync_one env t describe k (name, session) (sr, c) = (Inr (n, out), sr', c')"
    and "aligned_transport t"
  shows "(n = 0 \<longrightarrow> name \<notin> fst ` set (sp_sessions (sy_tree sr')) \<and>
      (\<exists>rep. replay_envelopes t (ss_envelopes session) default_batch_size c = (Inr rep, c') \<and>
        list_all is_success (rr_responses rep) \<and> length (rr_responses rep) = length (ss_envelopes session))) \<and>
    (n \<noteq> 0 \<longrightarrow> n = 1 \<and> sy_tree sr' = sy_tree sr)"
proof (cases "n = 0")
  case True
  with sync_one_cases [OF assms(1)] obtain rep d where
    r: "replay_envelopes t (ss_envelopes session) default_batch_size c = (Inr rep, c')" "report_complete rep"
    and m: "mark_synced name (sy_tree sr) = Inr (d, sy_tree sr')" by auto
  have "list_all is_success (rr_responses rep) \<and> length (rr_responses rep) = length (ss_envelopes session)"
  proof (cases "ss_envelopes session = []")
    case True
    with r(1) show ?thesis by (auto simp: replay_envelopes_def new_report_def)
  next
    case False
    with r(1) have "replay_from t (nat (max 1 default_batch_size) - 1) (length ([] :: response list)) (ss_envelopes session)
        (report_of (length (ss_envelopes session)) []) c = (Inr rep, c')"
      by (simp add: replay_envelopes_def new_report_of)
    from aligned_transport.walk_prefix [OF assms(2) this] obtain rs
      where rs: "rep = report_of (length (ss_envelopes session)) rs"
        "stops_with_batch (nat (max 1 default_batch_size) - 1) 0 (length (ss_envelopes session)) (first_refusal rs) (length rs)"
      by auto
    from r(2) have none: "first_refusal rs = None" by (simp add: rs(1) report_complete_def report_of_def)
    with rs show ?thesis by (simp add: stops_with_batch_def report_of_def first_refusal_None)
  qed
  with r(1) mark_synced_names [OF m] True show ?thesis by auto
next
  case False
  with sync_one_cases [OF assms(1)] show ?thesis by auto
qed

theorem only_delivered_sessions_leave_witness:
  "\<exists>out sr'. sync_one sample_sync_env sample_store (\<lambda>e. e) 0 (''s.jsonl'', sample_session_read) (sample_root, 0) =
     (Inr (0, out), sr', 1) \<and> ''s.jsonl'' \<notin> fst ` set (sp_sessions (sy_tree sr'))"
proof -
  obtain out sr' where s: "sync_one sample_sync_env sample_store (\<lambda>e. e) 0 (''s.jsonl'', sample_session_read) (sample_root, 0) =
     (Inr (0, out), sr', 1)" using sample_sync by blast
  from only_delivered_sessions_leave [OF s sample_aligned] s show ?thesis by auto
qed

text \<open>An upload that exits with 0 has emptied the spool: no session file is left in it.\<close>

theorem exit_zero_empties_spool:
  assumes "sync_command False api_key cloud_extra env t describe (sr, c) = (Exit 0 out, sr', c')"
  shows "spool_files (sy_tree sr') = []"
proof (cases "spool_files (sy_tree sr) = []")
  case True
  with assms show ?thesis by (simp add: sync_command_def Let_def)
next
  case False
  obtain sessions bad where r: "read_spool_sessions (se_sdk_version env) (sy_tree sr) (spool_files (sy_tree sr)) = Inr (sessions, bad)"
    using assms False by (auto simp: sync_command_def Let_def split: sum.splits)
  obtain out1 where "upload env t describe sessions (length bad) out1 (sr, c) = (Exit 0 out, sr', c')"
    using assms False r by (auto simp: sync_command_def Let_def split: if_splits)
  then obtain n out2 where s: "sync_sessions env t describe 0 sessions (sr, c) = (Inr (n, out2), sr', c')"
    and "length bad + n = 0"
    by (auto simp: upload_def split: prod.splits sum.splits if_splits)
  then have bad: "bad = []" and n: "n = 0" by simp_all
  have "fst ` set sessions = set (spool_files (sy_tree sr))"
    using read_sessions_names [OF r] bad by simp
  with sync_sessions_zero [OF s [unfolded n]] have "set (spool_files (sy_tree sr')) = {}"
    by (auto simp: spool_files_set)
  then show ?thesis by simp
qed

theorem exit_zero_empties_spool_witness:
  "\<exists>out sr'. sync_command False True True sample_sync_env sample_store (\<lambda>e. e) (sample_root, 0) = (Exit 0 out, sr', 1) \<and>
     spool_files (sy_tree sr') = []"
proof -
  obtain out sr' where s: "sync_one sample_sync_env sample_store (\<lambda>e. e) 0 (''s.jsonl'', sample_session_read) (sample_root, 0) =
     (Inr (0, out), sr', 1)" using sample_sync by blast
  have files: "spool_files (sy_tree sample_root) = [''s.jsonl'']"
    by (simp add: spool_files_def sample_root_def ends_with_def)
  have content: "entry_content (sy_tree sample_root) ''s.jsonl'' = Inr [Parsed (JObj sample_approval)]"
    by (simp add: entry_content_def sample_root_def)
  have "read_spool_sessions (se_sdk_version sample_sync_env) (sy_tree sample_root) [''s.jsonl''] =
      Inr ([(''s.jsonl'', sample_session_read)], [])"
    by (simp add: content sample_read) (simp add: sample_sync_env_def sample_read)
  moreover have "sync_sessions sample_sync_env sample_store (\<lambda>e. e) 0 [(''s.jsonl'', sample_session_read)] (sample_root, 0) =
      (Inr (0, out), sr', 1)"
    by (simp add: s)
  ultimately obtain out' where x: "sync_command False True True sample_sync_env sample_store (\<lambda>e. e) (sample_root, 0) = (Exit 0 out', sr', 1)"
    by (simp add: sync_command_def files upload_def Let_def del: read_spool_sessions.simps sync_sessions.simps)
  from exit_zero_empties_spool [OF x] x show ?thesis by blast
qed

text \<open>One record that is JSON but not an object strands the whole spool: reading it raises
  \<open>AttributeError\<close>, which is not among the errors a bad file is skipped for, and no session is
  uploaded.\<close>

theorem non_object_line_strands_spool:
  assumes "name \<in> set (spool_files (sy_tree sr))"
    and "entry_content (sy_tree sr) name = Inr (Parsed j # ls)" and "\<forall>d. j \<noteq> JObj d"
  shows "\<exists>e. sync_command dry_run api_key cloud_extra env t describe (sr, c) = (Crash_Reading e, sr, c)"
proof -
  have "read_spool_session (se_sdk_version env) (path_stem name) (entry_content (sy_tree sr) name) = Inl (Read_Exn AttributeError)"
    using assms(2,3) by (cases j) (simp_all add: read_spool_session_def as_dict_def)
  then obtain e where "read_spool_sessions (se_sdk_version env) (sy_tree sr) (spool_files (sy_tree sr)) = Inl e"
    using read_sessions_strands [OF assms(1)] by (fastforce simp: skippable_def)
  with assms(1) show ?thesis by (auto simp: sync_command_def Let_def)
qed

definition stranded_root :: sync_root where
  "stranded_root =
     \<lparr>sy_tree = \<lparr>sp_sessions = [(''a.jsonl'', ''h'', Inr [Parsed (JInt 1)]), (''s.jsonl'', ''h'', Inr [Parsed (JObj sample_approval)])],
                sp_synced = []\<rparr>,
      sy_receipts = \<lparr>rt_live = [], rt_synced = []\<rparr>\<rparr>"

theorem non_object_line_strands_spool_witness:
  "\<exists>e. sync_command False True True sample_sync_env sample_store (\<lambda>e. e) (stranded_root, 0) = (Crash_Reading e, stranded_root, 0)"
proof -
  have "''a.jsonl'' \<in> set (spool_files (sy_tree stranded_root))"
    by (simp add: spool_files_def stranded_root_def ends_with_def)
  moreover have "entry_content (sy_tree stranded_root) ''a.jsonl'' = Inr [Parsed (JInt 1)]"
    by (simp add: entry_content_def stranded_root_def)
  ultimately show ?thesis by (rule non_object_line_strands_spool) simp
qed

text \<open>When a session is synced a second time, the receipt's digest is printed beside the path of the
  receipt of the first sync, which still holds the earlier document.\<close>

theorem second_sync_names_first_receipt:
  assumes "sync_one env t describe k (name, session) (sr, c) = (Inr (0, out), sr', c')"
    and "map_of (rt_synced (sy_receipts sr)) (receipt_name (ss_session_id session) 0) = Some earlier"
  shows "\<exists>attempt receipt digest live.
    append_attempt (se_disk env k) (ss_session_id session) attempt (rt_live (sy_receipts sr)) = (Inr (receipt, digest), live) \<and>
    Receipt_Written True (receipt_name (ss_session_id session) 0) digest \<in> set out \<and>
    map_of (rt_synced (sy_receipts sr')) (receipt_name (ss_session_id session) 0) = Some earlier"
proof -
  let ?sid = "ss_session_id session"
  obtain rep te attempt receipt digest live where
    a: "append_attempt (se_disk env k) ?sid attempt (rt_live (sy_receipts sr)) = (Inr (receipt, digest), live)"
    and c: "conclude name session rep te receipt digest (sr\<lparr>sy_receipts := (sy_receipts sr)\<lparr>rt_live := live\<rparr>\<rparr>) = (Inr (0, out), sr')"
    by (rule sync_one_Inr [OF assms(1)])
  obtain i x where m: "mark_receipt_synced ?sid i ((sy_receipts sr)\<lparr>rt_live := live\<rparr>) = (x, sy_receipts sr')"
    and p: "case moved_receipt_path ?sid (sy_receipts sr') of (b, p) \<Rightarrow> Receipt_Written b p digest \<in> set out"
    using conclude_cases [OF c] by auto
  have keep: "map_of (rt_synced (sy_receipts sr')) (receipt_name ?sid 0) = Some earlier"
    using mark_receipt_keeps(2) [OF m] assms(2) by simp
  then have "receipt_name ?sid 0 \<in> fst ` set (rt_synced (sy_receipts sr'))"
    by (metis domI dom_map_of_conv_image_fst)
  with mark_receipt_keeps(1) [OF m] have "moved_receipt_path ?sid (sy_receipts sr') = (True, receipt_name ?sid 0)"
    by (simp add: moved_receipt_path_def find_receipt_def)
  with a p keep show ?thesis by auto
qed

theorem second_sync_names_first_receipt_witness:
  "\<exists>out sr' digest. sync_one sample_sync_env sample_store (\<lambda>e. e) 0 (''s.jsonl'', sample_session_read) (sample_root, 0) =
     (Inr (0, out), sr', 1) \<and> Receipt_Written True ''s.sync.json'' digest \<in> set out \<and>
     map_of (rt_synced (sy_receipts sr')) ''s.sync.json'' = Some (Inr None)"
proof -
  obtain out sr' where s: "sync_one sample_sync_env sample_store (\<lambda>e. e) 0 (''s.jsonl'', sample_session_read) (sample_root, 0) =
     (Inr (0, out), sr', 1)" using sample_sync by blast
  have n: "receipt_name (ss_session_id sample_session_read) 0 = ''s.sync.json''"
    by (simp add: receipt_name_def sample_session_read_def)
  have "map_of (rt_synced (sy_receipts sample_root)) ''s.sync.json'' = Some (Inr None)"
    by (simp add: sample_root_def)
  from second_sync_names_first_receipt [OF s, unfolded n, OF this] s show ?thesis by blast
qed

end
