(* ===== verification/Local_Client.thy ===== *)
theory Local_Client
  imports Ingest_Handler
begin

text \<open>
  \<^verbatim>\<open>rootsign/sdk/client.py\<close>, the in-process clients: \<open>LocalIngestClient\<close>, which
  writes through the caller's database session and never commits, and \<open>ManagedLocalIngestClient\<close>,
  which opens a session for every record and commits it; and the missing-extra errors of
  \<^verbatim>\<open>rootsign/errors.py\<close>. The lock of each client makes its calls a sequence. What a
  commit raises is an argument of the call; leaving the session without a commit rolls it back.
\<close>

section \<open>Missing extras\<close>

definition postgres_install_hint :: string where
  "postgres_install_hint =
     ''ROOTSIGN_BACKEND=postgres requires the database extra. Install with:  '' @
     ''pip install '' @ [CHR 0x27] @ ''rootsign[postgres]'' @ [CHR 0x27]"

definition cloud_install_hint :: string where
  "cloud_install_hint =
     ''ROOTSIGN_BACKEND=cloud requires the cloud extra. Install with:  '' @
     ''pip install '' @ [CHR 0x27] @ ''rootsign[cloud]'' @ [CHR 0x27]"

definition extra_message :: "string \<Rightarrow> string option \<Rightarrow> string" where
  "extra_message hint detail =
     (case detail of None \<Rightarrow> hint | Some d \<Rightarrow> hint @ ''  ('' @ d @ '')'')"

datatype sdk_error =
    Value_Error string
  | Postgres_Extra_Required string
  | Cloud_Extra_Required string
  | Not_Initialized string
  | Database_Error string
  | Module_Not_Found string
  | Other_Error pyexc

text \<open>An import gives the module or the name of the one that is missing.\<close>

definition postgres_extra_required :: "string + 'a \<Rightarrow> sdk_error + 'a" where
  "postgres_extra_required imported =
     (case imported of
        Inl m \<Rightarrow> Inl (Postgres_Extra_Required (extra_message postgres_install_hint (Some (''missing module: '' @ m))))
      | Inr x \<Rightarrow> Inr x)"

section \<open>The client over a caller's session\<close>

record local_client =
  lc_idempotency :: store

definition new_local_client :: "'d option \<Rightarrow> store option \<Rightarrow> sdk_error + local_client" where
  "new_local_client session idempotency =
     (case session of
        None \<Rightarrow> Inl (Value_Error
          (''LocalIngestClient requires a db session. Pass an AsyncSession or switch to '' @
           ''HttpIngestClient via ROOTSIGN_BACKEND=cloud (Phase 2 only).''))
      | Some _ \<Rightarrow> Inr \<lparr>lc_idempotency = (case idempotency of None \<Rightarrow> [] | Some st \<Rightarrow> st)\<rparr>)"

definition local_handle ::
  "schemas \<Rightarrow> handler_env \<Rightarrow> json \<Rightarrow> db \<times> local_client \<Rightarrow> (handle_exn + response) \<times> db \<times> local_client" where
  "local_handle sc he raw st =
     (case handle sc he raw (fst st, lc_idempotency (snd st)) of
        (r, d, cache) \<Rightarrow> (r, d, (snd st)\<lparr>lc_idempotency := cache\<rparr>))"

section \<open>The client with a session per record\<close>

record 'f managed_client =
  mc_session_factory :: "'f option"
  mc_idempotency :: store

definition new_managed_client :: "'f option \<Rightarrow> store option \<Rightarrow> 'f managed_client" where
  "new_managed_client session_factory idempotency =
     \<lparr>mc_session_factory = session_factory,
      mc_idempotency = (case idempotency of None \<Rightarrow> [] | Some st \<Rightarrow> st)\<rparr>"

definition factory :: "string + 'f \<Rightarrow> 'f managed_client \<Rightarrow> (sdk_error + 'f) \<times> 'f managed_client" where
  "factory imported c =
     (case mc_session_factory c of
        Some f \<Rightarrow> (Inr f, c)
      | None \<Rightarrow>
          (case postgres_extra_required imported of
             Inl e \<Rightarrow> (Inl e, c)
           | Inr f \<Rightarrow> (Inr f, c\<lparr>mc_session_factory := Some f\<rparr>)))"

datatype 'e managed_exn = Factory_Failed sdk_error | Handle_Raised handle_exn | Commit_Raised 'e

text \<open>The tables are those committed; the session's own are dropped unless the commit succeeds, the
  idempotency store is the client's and keeps what the handler wrote.\<close>

definition managed_handle ::
  "schemas \<Rightarrow> handler_env \<Rightarrow> string + 'f \<Rightarrow> 'e option \<Rightarrow> json \<Rightarrow> db \<times> 'f managed_client \<Rightarrow>
   ('e managed_exn + response) \<times> db \<times> 'f managed_client" where
  "managed_handle sc he imported commit raw st =
     (case factory imported (snd st) of
        (Inl e, c) \<Rightarrow> (Inl (Factory_Failed e), fst st, c)
      | (Inr _, c) \<Rightarrow>
          (case new_local_client (Some (fst st)) (Some (mc_idempotency c)) of
             Inl e \<Rightarrow> (Inl (Factory_Failed e), fst st, c)
           | Inr lc \<Rightarrow>
               (case local_handle sc he raw (fst st, lc) of
                  (Inl e, _, lc') \<Rightarrow> (Inl (Handle_Raised e), fst st, c\<lparr>mc_idempotency := lc_idempotency lc'\<rparr>)
                | (Inr r, d', lc') \<Rightarrow>
                    (case commit of
                       Some e \<Rightarrow> (Inl (Commit_Raised e), fst st, c\<lparr>mc_idempotency := lc_idempotency lc'\<rparr>)
                     | None \<Rightarrow> (Inr r, d', c\<lparr>mc_idempotency := lc_idempotency lc'\<rparr>)))))"

section \<open>What a call does\<close>

lemma factory_idempotency [simp]: "mc_idempotency (snd (factory imported c)) = mc_idempotency c"
  by (auto simp: factory_def split: option.splits sum.splits)

lemma factory_available:
  assumes "mc_session_factory c \<noteq> None \<or> (\<exists>f. imported = Inr f)"
  shows "\<exists>f. factory imported c = (Inr f, c\<lparr>mc_session_factory := Some f\<rparr>)"
proof (cases "mc_session_factory c")
  case None
  with assms show ?thesis by (auto simp: factory_def postgres_extra_required_def)
next
  case (Some f)
  then have "c\<lparr>mc_session_factory := Some f\<rparr> = c" by simp
  with Some show ?thesis by (simp add: factory_def)
qed

definition available :: "string + 'f \<Rightarrow> 'f managed_client \<Rightarrow> bool" where
  "available imported c \<longleftrightarrow> mc_session_factory c \<noteq> None \<or> (case imported of Inl _ \<Rightarrow> False | Inr _ \<Rightarrow> True)"

lemma managed_handle_eq:
  assumes "available imported c"
  shows "\<exists>f. managed_handle sc he imported commit raw (d, c) =
    (case handle sc he raw (d, mc_idempotency c) of
       (Inl e, _, cache) \<Rightarrow> (Inl (Handle_Raised e), d, c\<lparr>mc_session_factory := Some f, mc_idempotency := cache\<rparr>)
     | (Inr r, d', cache) \<Rightarrow>
         (case commit of
            Some e \<Rightarrow> (Inl (Commit_Raised e), d, c\<lparr>mc_session_factory := Some f, mc_idempotency := cache\<rparr>)
          | None \<Rightarrow> (Inr r, d', c\<lparr>mc_session_factory := Some f, mc_idempotency := cache\<rparr>)))"
proof -
  obtain f where "factory imported c = (Inr f, c\<lparr>mc_session_factory := Some f\<rparr>)"
    using factory_available assms unfolding available_def by (metis sum.case_eq_if sum.collapse(2))
  then show ?thesis
    by (auto simp: managed_handle_def new_local_client_def local_handle_def split: prod.splits sum.splits option.splits
        intro!: exI [of _ f])
qed

text \<open>Whatever a call does, the committed tables are as they were or as the handler left them.\<close>

lemma managed_handle_db:
  "fst (snd (managed_handle sc he imported commit raw (d, c))) = d \<or>
   fst (snd (managed_handle sc he imported commit raw (d, c))) = fst (snd (handle sc he raw (d, mc_idempotency c)))"
proof (cases "available imported c")
  case True
  obtain r d' cache where h: "handle sc he raw (d, mc_idempotency c) = (r, d', cache)"
    by (cases "handle sc he raw (d, mc_idempotency c)")
  from managed_handle_eq [OF True, of sc he commit raw d] h show ?thesis
    by (cases r; cases commit) auto
next
  case False
  then obtain m where "mc_session_factory c = None" "imported = Inl m"
    by (cases imported) (auto simp: available_def)
  then show ?thesis
    by (simp add: managed_handle_def factory_def postgres_extra_required_def)
qed

fun managed_run ::
  "schemas \<Rightarrow> (handler_env \<times> (string + 'f) \<times> 'e option \<times> json) list \<Rightarrow> db \<times> 'f managed_client \<Rightarrow>
   db \<times> 'f managed_client" where
  "managed_run sc [] st = st"
| "managed_run sc ((he, imported, commit, raw) # calls) st =
     managed_run sc calls (snd (managed_handle sc he imported commit raw st))"

lemma managed_run_inv:
  assumes "db_inv (fst st)"
    and "list_all (\<lambda>(he, _, _, raw). \<forall>env p. sc_envelope sc raw = Some env \<longrightarrow>
      sc_action sc (ev_payload env) = Some p \<longrightarrow> action_payload_ok he p) calls"
  shows "db_inv (fst (managed_run sc calls st))"
  using assms
proof (induction sc calls st rule: managed_run.induct)
  case (2 sc he imported commit raw calls st)
  obtain d c where st: "st = (d, c)" by (cases st)
  have "db_inv (fst (handle_all sc [(he, raw)] (d, mc_idempotency c)))"
    by (rule handle_all_inv) (use "2.prems" st in auto)
  then have "db_inv (fst (snd (managed_handle sc he imported commit raw st)))"
    using managed_handle_db [of sc he imported commit raw d c] "2.prems"(1) st by auto
  with 2 show ?case by simp
qed simp

text \<open>A second attempt after a failed commit is answered from the store.\<close>

lemma managed_retry:
  assumes "sc_envelope sc raw = Some env" and "major_of (ev_schema_version env) = supported_schema_major"
    and "aware (ev_emitted_at env)" and "store_inv (mc_idempotency c)"
    and "fst (idem_get (he_now_get he) (ev_event_id env) (mc_idempotency c)) = None"
    and "available imported c"
    and "handle sc he raw (d, mc_idempotency c) = (Inr rsp, d', cache)"
    and "he_now_get he2 < micros (ev_emitted_at env) + ttl" and "he_now_get he2 < he_now_set he + ttl"
  shows "\<exists>c1 c2. managed_handle sc he imported (Some (e :: 'e)) raw (d, c) = (Inl (Commit_Raised e), d, c1) \<and>
    managed_handle sc he2 imported (commit2 :: 'e option) raw (d, c1) =
      ((case commit2 of None \<Rightarrow> Inr rsp | Some e2 \<Rightarrow> Inl (Commit_Raised e2)), d, c2)"
proof -
  obtain cache1 where miss: "idem_get (he_now_get he) (ev_event_id env) (mc_idempotency c) = (None, cache1)"
    using assms(5) by (cases "idem_get (he_now_get he) (ev_event_id env) (mc_idempotency c)") simp
  have "store_inv cache1" using get_inv [OF assms(4)] miss by (metis snd_conv)
  then have "fst (idem_get (he_now_get he2) (ev_event_id env) cache) = Some rsp"
    using idem.answer_once assms(3,8,9) handle_miss(1) [OF assms(1-3) miss assms(7)] by simp
  then obtain cache2 where "idem_get (he_now_get he2) (ev_event_id env) cache = (Some rsp, cache2)"
    by (metis prod.collapse)
  then have again: "handle sc he2 raw (d, cache) = (Inr rsp, d, cache2)"
    using assms(1,2) by (simp add: handle_def handle_parsed_def)
  from managed_handle_eq [OF assms(6), of sc he "Some e" raw d] assms(7) obtain f where
    first: "managed_handle sc he imported (Some e) raw (d, c) =
      (Inl (Commit_Raised e), d, c\<lparr>mc_session_factory := Some f, mc_idempotency := cache\<rparr>)" by auto
  have "available imported (c\<lparr>mc_session_factory := Some f, mc_idempotency := cache\<rparr>)"
    by (simp add: available_def)
  from managed_handle_eq [OF this, of sc he2 commit2 raw d] again first show ?thesis
    by (cases commit2) auto
qed

section \<open>Properties\<close>

text \<open>Through the managed client every session of the committed tables keeps a chain the store's
  verifier calls VALID, over any run of records, whichever commits fail.\<close>

theorem committed_sessions_verify:
  assumes "db_inv (fst st)"
    and "list_all (\<lambda>(he, _, _, raw). \<forall>env p. sc_envelope sc raw = Some env \<longrightarrow>
      sc_action sc (ev_payload env) = Some p \<longrightarrow> action_payload_ok he p) calls"
    and "db_sessions (fst (managed_run sc calls st)) sid = Some s"
  shows "\<exists>r. verify_chain sid (fst (managed_run sc calls st)) = Inr r \<and> cr_verdict r = VALID \<and>
    int (cr_record_count r) = sr_action_count s"
  using inv_valid [OF managed_run_inv [OF assms(1,2)] assms(3)] by blast

definition sample_managed :: "unit managed_client" where
  "sample_managed = new_managed_client (Some ()) None"

lemma sample_available: "available (Inl ''sqlalchemy'') sample_managed"
  by (simp add: available_def sample_managed_def new_managed_client_def)

lemma sample_session_kept:
  "db_sessions (fst (snd (handle (sample_schemas sample_raw_envelope sample_action) sample_he JNull (sample_db, [])))) 3 \<noteq> None"
  by (simp add: handle_def handle_parsed_def sample_schemas_def sample_raw_envelope_def sample_action_def
      sample_he_def major_of_def supported_schema_major_def idem_get_def evict_expired_def Let_def
      dispatch_def handle_action_record_def require_running_session_def sample_db_def sample_session_def
      action_statuses_def action_create_of_def create_with_hash_def finish_def maybe_cache_def idem_set_def)

theorem committed_sessions_verify_witness:
  "\<exists>r. verify_chain 3 (fst (managed_run (sample_schemas sample_raw_envelope sample_action)
     [(sample_he, Inr (), None :: string option, JNull)] (sample_db, sample_managed))) = Inr r \<and> cr_verdict r = VALID"
proof -
  let ?sc = "sample_schemas sample_raw_envelope sample_action"
  let ?calls = "[(sample_he, Inr (), None, JNull)] :: (handler_env \<times> (string + unit) \<times> string option \<times> json) list"
  have "list_all (\<lambda>(he, _, _, raw). \<forall>env p. sc_envelope ?sc raw = Some env \<longrightarrow>
      sc_action ?sc (ev_payload env) = Some p \<longrightarrow> action_payload_ok he p) ?calls"
    by (simp add: sample_schemas_def sample_action_def action_payload_ok_def sample_he_def)
  moreover have "db_sessions (fst (managed_run ?sc ?calls (sample_db, sample_managed))) 3 \<noteq> None"
    using managed_handle_db [of ?sc sample_he "Inr () :: string + unit" "None :: string option" JNull sample_db sample_managed]
      sample_session_kept
    by (auto simp: sample_managed_def new_managed_client_def sample_db_def)
  ultimately show ?thesis
    using committed_sessions_verify [of "(sample_db, sample_managed)" ?sc ?calls 3] sample_db_inv by fastforce
qed

text \<open>The answer is stored before the commit. When the commit of an accepted record fails, a second
  attempt within the day is answered \<open>accepted\<close> from the store, and the committed tables
  do not have the record.\<close>

theorem failed_commit_answered_accepted:
  assumes "sc_envelope sc raw = Some env" and "major_of (ev_schema_version env) = supported_schema_major"
    and "aware (ev_emitted_at env)" and "store_inv (mc_idempotency c)"
    and "fst (idem_get (he_now_get he) (ev_event_id env) (mc_idempotency c)) = None"
    and "available imported c"
    and "handle sc he raw (d, mc_idempotency c) = (Inr rsp, d', cache)"
    and "he_now_get he2 < micros (ev_emitted_at env) + ttl" and "he_now_get he2 < he_now_set he + ttl"
  shows "\<exists>c1 c2. managed_handle sc he imported (Some (e :: 'e)) raw (d, c) = (Inl (Commit_Raised e), d, c1) \<and>
    managed_handle sc he2 imported (commit2 :: 'e option) raw (d, c1) =
      ((case commit2 of None \<Rightarrow> Inr rsp | Some e2 \<Rightarrow> Inl (Commit_Raised e2)), d, c2)"
  by (rule managed_retry [OF assms])

theorem failed_commit_answered_accepted_witness:
  "\<exists>rsp c1 c2. rsp_status rsp = ''accepted'' \<and>
     managed_handle (sample_schemas sample_raw_envelope sample_action) sample_he (Inl ''sqlalchemy'')
       (Some ''connection lost'') JNull (sample_db, sample_managed) = (Inl (Commit_Raised ''connection lost''), sample_db, c1) \<and>
     managed_handle (sample_schemas sample_raw_envelope sample_action) sample_he (Inl ''sqlalchemy'')
       (None :: string option) JNull (sample_db, c1) = (Inr rsp, sample_db, c2)"
proof -
  let ?sc = "sample_schemas sample_raw_envelope sample_action"
  obtain rsp d' cache where h: "handle ?sc sample_he JNull (sample_db, mc_idempotency sample_managed) = (Inr rsp, d', cache)"
    "rsp_status rsp = ''accepted''"
    using sample_handle_accepts by (auto simp: sample_managed_def new_managed_client_def)
  have env: "sc_envelope ?sc JNull = Some sample_raw_envelope" "aware (ev_emitted_at sample_raw_envelope)"
    "major_of (ev_schema_version sample_raw_envelope) = supported_schema_major"
    by (simp_all add: sample_schemas_def sample_raw_envelope_def major_of_def supported_schema_major_def)
  have "store_inv (mc_idempotency sample_managed)"
    "fst (idem_get (he_now_get sample_he) (ev_event_id sample_raw_envelope) (mc_idempotency sample_managed)) = None"
    "he_now_get sample_he < micros (ev_emitted_at sample_raw_envelope) + ttl"
    "he_now_get sample_he < he_now_set sample_he + ttl"
    by (simp_all add: sample_he_def sample_raw_envelope_def ttl_def sample_managed_def new_managed_client_def
        idem_get_def evict_expired_def Let_def)
  from failed_commit_answered_accepted [OF env(1,3,2) this(1,2) sample_available h(1) this(3,4), of "''connection lost''" None]
  show ?thesis using h(2) by auto
qed

end
