(* ===== verification/Json_Decode.thy ===== *)
theory Json_Decode
  imports Json_Text
begin

text \<open>
  \<open>json.loads\<close>, as the program uses it: the grammar of RFC 8259 with Python's
  \<open>NaN\<close> and \<open>Infinity\<close>, the last of several equal keys winning, control characters in a
  string refused. What a float's text is worth is an argument (\<open>parse_float\<close>), and an escape for a
  character beyond 255 is refused, such characters being outside the model's strings. The recursion is
  bounded by the length of the text, which is enough for every text \<open>json.dumps\<close> writes: the
  values without floats come back from every compact or spaced layout.
\<close>

section \<open>Tokens\<close>

definition json_space :: "char \<Rightarrow> bool" where
  "json_space c \<longleftrightarrow> c \<in> set [CHR '' '', CHR 0x09, CHR 0x0A, CHR 0x0D]"

definition skip_ws :: "string \<Rightarrow> string" where
  "skip_ws s = dropWhile json_space s"

definition starts_with :: "string \<Rightarrow> string \<Rightarrow> bool" where
  "starts_with p s \<longleftrightarrow> take (length p) s = p"

definition unescape :: "string \<Rightarrow> (char \<times> string) option" where
  "unescape s =
     (case s of
        [] \<Rightarrow> None
      | e # r \<Rightarrow>
          if e = CHR 0x22 \<or> e = CHR 0x5C \<or> e = CHR ''/'' then Some (e, r)
          else if e = CHR ''n'' then Some (CHR 0x0A, r)
          else if e = CHR ''r'' then Some (CHR 0x0D, r)
          else if e = CHR ''t'' then Some (CHR 0x09, r)
          else if e = CHR ''f'' then Some (CHR 0x0C, r)
          else if e = CHR ''b'' then Some (CHR 0x08, r)
          else if e = CHR ''u''
          then (let h = take 4 r in
                if length h = 4 \<and> list_all (is_digit 16) h \<and> digits_val 16 h < 256
                then Some (char_of (digits_val 16 h), drop 4 r) else None)
          else None)"

definition string_char :: "string \<Rightarrow> (char \<times> string) option" where
  "string_char s =
     (case s of
        [] \<Rightarrow> None
      | c # r \<Rightarrow> if c = CHR 0x22 then None
                 else if c = CHR 0x5C then unescape r
                 else if (of_char c :: nat) < 32 then None
                 else Some (c, r))"

lemma string_char_shorter: "string_char s = Some (c, r) \<Longrightarrow> length r < length s"
  by (auto simp: string_char_def unescape_def Let_def split: list.splits if_splits)

text \<open>The rest of a string after its opening quote.\<close>

function parse_string :: "string \<Rightarrow> (string \<times> string) option" where
  "parse_string s =
     (case string_char s of
        Some (c, r) \<Rightarrow> map_option (\<lambda>(t, q). (c # t, q)) (parse_string r)
      | None \<Rightarrow> (case s of [] \<Rightarrow> None | c # r \<Rightarrow> if c = CHR 0x22 then Some ([], r) else None))"
  by pat_completeness auto

termination parse_string
  by (relation "measure length") (auto dest: string_char_shorter)

declare parse_string.simps [simp del]

lemma hex_pad_list: "list_all (is_digit 16) (hex_pad n v)"
proof (unfold list_all_iff, intro ballI)
  fix c assume "c \<in> set (hex_pad n v)"
  then obtain d where "d < 16" "c = digit_char d" using hex_pad_digits by blast
  then show "is_digit 16 c" by (simp add: is_digit_def)
qed

lemma string_char_esc: "string_char (esc_char c @ r) = Some (c, r)"
proof -
  have small: "(of_char c :: nat) < 256" by simp
  have "digits_val 16 (hex_pad 4 (of_char c)) = of_char c"
    by (intro digits_val_hex_pad order.strict_trans2 [OF small]) simp
  moreover have "take 4 (hex_pad 4 (of_char c) @ r) = hex_pad 4 (of_char c)" by simp
  ultimately show ?thesis
    using small hex_pad_list [of 4 "of_char c"]
    by (auto simp: string_char_def unescape_def esc_char_def Let_def)
qed

lemma parse_string_esc: "parse_string (concat (map esc_char t) @ CHR 0x22 # r) = Some (t, r)"
proof (induction t)
  case Nil
  then show ?case by (subst parse_string.simps) (simp add: string_char_def)
next
  case (Cons c t)
  then show ?case
    by (subst parse_string.simps) (simp add: string_char_esc)
qed

definition number_char :: "char \<Rightarrow> bool" where
  "number_char c \<longleftrightarrow> is_digit 10 c"

text \<open>\<open>(-?(?:0|[1-9]\d*))(\.\d+)?([eE][-+]?\d+)?\<close>\<close>

definition int_token :: "string \<Rightarrow> string" where
  "int_token s =
     (case s of [] \<Rightarrow> [] | c # r \<Rightarrow> if c = CHR ''0'' then [c] else takeWhile number_char s)"

definition frac_token :: "string \<Rightarrow> string" where
  "frac_token s =
     (case s of
        c # r \<Rightarrow> if c = CHR ''.'' \<and> takeWhile number_char r \<noteq> [] then c # takeWhile number_char r else []
      | [] \<Rightarrow> [])"

definition exp_token :: "string \<Rightarrow> string" where
  "exp_token s =
     (case s of
        [] \<Rightarrow> []
      | c # r \<Rightarrow>
          if c = CHR ''e'' \<or> c = CHR ''E''
          then (let sign = takeWhile (\<lambda>d. d = CHR ''+'' \<or> d = CHR ''-'') (take 1 r);
                    ds = takeWhile number_char (drop (length sign) r)
                in if ds = [] then [] else c # sign @ ds)
          else [])"

definition parse_number :: "(string \<Rightarrow> json) \<Rightarrow> string \<Rightarrow> (json \<times> string) option" where
  "parse_number parse_float s =
     (let minus = (case s of c # r \<Rightarrow> c = CHR ''-'' | [] \<Rightarrow> False);
          r = (if minus then tl s else s);
          digits = int_token r
      in if digits = [] then None
         else let r1 = drop (length digits) r;
                  frac = frac_token r1;
                  r2 = drop (length frac) r1;
                  ex = exp_token r2;
                  rest = drop (length ex) r2
              in if frac = [] \<and> ex = []
                 then Some (JInt (if minus then - int (digits_val 10 digits) else int (digits_val 10 digits)), rest)
                 else Some (parse_float ((if minus then ''-'' else []) @ digits @ frac @ ex), rest))"

definition parse_scalar :: "(string \<Rightarrow> json) \<Rightarrow> string \<Rightarrow> (json \<times> string) option" where
  "parse_scalar parse_float s =
     (if starts_with ''null'' s then Some (JNull, drop 4 s)
      else if starts_with ''true'' s then Some (JBool True, drop 4 s)
      else if starts_with ''false'' s then Some (JBool False, drop 5 s)
      else if starts_with ''NaN'' s then Some (parse_float ''NaN'', drop 3 s)
      else if starts_with ''Infinity'' s then Some (parse_float ''Infinity'', drop 8 s)
      else if starts_with ''-Infinity'' s then Some (parse_float ''-Infinity'', drop 9 s)
      else parse_number parse_float s)"

section \<open>Values\<close>

fun parse_value :: "(string \<Rightarrow> json) \<Rightarrow> nat \<Rightarrow> string \<Rightarrow> (json \<times> string) option"
and parse_elems :: "(string \<Rightarrow> json) \<Rightarrow> nat \<Rightarrow> string \<Rightarrow> (json list \<times> string) option"
and parse_members :: "(string \<Rightarrow> json) \<Rightarrow> nat \<Rightarrow> string \<Rightarrow> (dict \<times> string) option" where
  "parse_value pf 0 s = None"
| "parse_value pf (Suc n) s =
     (case s of
        [] \<Rightarrow> None
      | c # r \<Rightarrow>
          if c = CHR 0x22 then map_option (\<lambda>(t, q). (JStr t, q)) (parse_string r)
          else if c = CHR ''['' then
            (case skip_ws r of
               [] \<Rightarrow> None
             | d # r' \<Rightarrow> if d = CHR '']'' then Some (JArr [], r')
                        else map_option (\<lambda>(xs, q). (JArr xs, q)) (parse_elems pf n (d # r')))
          else if c = CHR ''{'' then
            (case skip_ws r of
               [] \<Rightarrow> None
             | d # r' \<Rightarrow> if d = CHR ''}'' then Some (JObj [], r')
                        else map_option (\<lambda>(m, q). (JObj (dupdate [] m), q)) (parse_members pf n (d # r')))
          else parse_scalar pf s)"
| "parse_elems pf 0 s = None"
| "parse_elems pf (Suc n) s =
     (case parse_value pf n s of
        None \<Rightarrow> None
      | Some (x, r) \<Rightarrow>
          (case skip_ws r of
             [] \<Rightarrow> None
           | c # r' \<Rightarrow>
               if c = CHR '']'' then Some ([x], r')
               else if c = CHR '','' then map_option (\<lambda>(xs, q). (x # xs, q)) (parse_elems pf n (skip_ws r'))
               else None))"
| "parse_members pf 0 s = None"
| "parse_members pf (Suc n) s =
     (case s of
        [] \<Rightarrow> None
      | c # r \<Rightarrow>
          if c \<noteq> CHR 0x22 then None
          else (case parse_string r of
                  None \<Rightarrow> None
                | Some (k, r1) \<Rightarrow>
                    (case skip_ws r1 of
                       [] \<Rightarrow> None
                     | d # r2 \<Rightarrow>
                         if d \<noteq> CHR '':'' then None
                         else (case parse_value pf n (skip_ws r2) of
                                 None \<Rightarrow> None
                               | Some (v, r3) \<Rightarrow>
                                   (case skip_ws r3 of
                                      [] \<Rightarrow> None
                                    | e # r4 \<Rightarrow>
                                        if e = CHR ''}'' then Some ([(k, v)], r4)
                                        else if e = CHR '','' then
                                          map_option (\<lambda>(m, q). ((k, v) # m, q)) (parse_members pf n (skip_ws r4))
                                        else None)))))"

definition loads_with :: "(string \<Rightarrow> json) \<Rightarrow> string \<Rightarrow> json option" where
  "loads_with pf s =
     (case parse_value pf (Suc (length s)) (skip_ws s) of
        None \<Rightarrow> None
      | Some (v, r) \<Rightarrow> if skip_ws r = [] then Some v else None)"

section \<open>What \<open>dumps\<close> writes comes back\<close>

fun plain :: "json \<Rightarrow> bool" where
  "plain (JFloat q t) = False"
| "plain (JArr xs) = list_all plain xs"
| "plain (JObj d) = (distinct (map fst d) \<and> list_all (\<lambda>(k, v). plain v) d)"
| "plain j = True"

definition spaced :: "char \<Rightarrow> string \<Rightarrow> bool" where
  "spaced c s \<longleftrightarrow> (\<exists>w. s = c # w \<and> list_all json_space w)"

definition ends :: "string \<Rightarrow> bool" where
  "ends r \<longleftrightarrow> (case r of [] \<Rightarrow> True | c # q \<Rightarrow> \<not> number_char c \<and> c \<notin> set [CHR ''.'', CHR ''e'', CHR ''E''])"

lemma ends_simps [simp]:
  "ends []" "ends (CHR '','' # r)" "ends (CHR '']'' # r)" "ends (CHR ''}'' # r)"
  by (simp_all add: ends_def number_char_def is_digit_def digit_val_def Let_def)

lemma skip_ws_spaces: "list_all json_space w \<Longrightarrow> skip_ws (w @ s) = skip_ws s"
  by (induction w) (simp_all add: skip_ws_def)

lemma skip_ws_none: "s \<noteq> [] \<Longrightarrow> \<not> json_space (hd s) \<Longrightarrow> skip_ws s = s"
  by (cases s) (simp_all add: skip_ws_def)

lemma skip_ws_mark [simp]:
  "skip_ws (CHR '','' # r) = CHR '','' # r" "skip_ws (CHR '']'' # r) = CHR '']'' # r"
  "skip_ws (CHR ''}'' # r) = CHR ''}'' # r" "skip_ws (CHR '':'' # r) = CHR '':'' # r"
  "skip_ws (CHR 0x22 # r) = CHR 0x22 # r" "skip_ws [] = []"
  by (simp_all add: skip_ws_def json_space_def)

lemma digit_not_space: "is_digit 10 c \<Longrightarrow> \<not> json_space c \<and> c \<noteq> CHR 0x22 \<and> c \<noteq> CHR ''['' \<and> c \<noteq> CHR ''{'' \<and> c \<noteq> CHR ''-'' \<and>
    c \<noteq> CHR ''n'' \<and> c \<noteq> CHR ''t'' \<and> c \<noteq> CHR ''f'' \<and> c \<noteq> CHR ''N'' \<and> c \<noteq> CHR ''I'' \<and> c \<noteq> CHR '']'' \<and> c \<noteq> CHR ''}''"
  using digit_chars [of c] by (auto simp: json_space_def)

lemma nat_str_hd_digit: "\<exists>c r. nat_str n = c # r \<and> is_digit 10 c"
  using nat_str_digits [of n] nat_str_not_Nil [of n] by (cases "nat_str n") auto

lemma nat_str_zero: "hd (nat_str n) = CHR ''0'' \<Longrightarrow> n = 0"
proof (induction n rule: nat_str.induct)
  case (1 n)
  show ?case
  proof (cases "n < 10")
    case True
    with "1.prems" have "digit_char n = CHR ''0''" by (simp add: nat_str.simps)
    then have "digit_val (digit_char n) = 0" by (simp add: digit_val_def Let_def)
    with True show ?thesis by simp
  next
    case False
    with "1.prems" have "hd (nat_str (n div 10)) = CHR ''0''" by (simp add: nat_str.simps [of n])
    with "1.IH" False have "n div 10 = 0" by blast
    with False show ?thesis by simp
  qed
qed

lemma nat_str_0 [simp]: "nat_str 0 = ''0''"
  by code_simp

lemma takeWhile_digits: "ends r \<Longrightarrow> takeWhile number_char (nat_str n @ r) = nat_str n"
  using nat_str_digits [of n]
  by (subst takeWhile_append2) (auto simp: number_char_def ends_def split: list.splits)

lemma int_token_nat: "ends r \<Longrightarrow> int_token (nat_str n @ r) = nat_str n"
proof (cases "n = 0")
  case False
  then have "hd (nat_str n) \<noteq> CHR ''0''" using nat_str_zero by blast
  moreover assume "ends r"
  ultimately show ?thesis
    using takeWhile_digits [of r n] by (cases "nat_str n") (auto simp: int_token_def)
qed (simp add: int_token_def)

lemma no_fraction: "ends r \<Longrightarrow> frac_token r = []" "ends r \<Longrightarrow> exp_token r = []"
  by (auto simp: ends_def frac_token_def exp_token_def split: list.splits)

lemma parse_number_nat: "ends r \<Longrightarrow> parse_number pf (nat_str n @ r) = Some (JInt (int n), r)"
proof -
  assume r: "ends r"
  obtain c q where c: "nat_str n = c # q" "is_digit 10 c" using nat_str_hd_digit by blast
  then have "(case nat_str n @ r of c # r \<Rightarrow> c = CHR ''-'' | [] \<Rightarrow> False) = False"
    using digit_not_space [of c] by simp
  then show ?thesis
    using int_token_nat [OF r] no_fraction [OF r] by (simp add: parse_number_def Let_def digits_val_nat_str)
qed

lemma parse_number_int: "ends r \<Longrightarrow> parse_number pf (int_str i @ r) = Some (JInt i, r)"
proof (cases "i < 0")
  case False
  moreover assume "ends r"
  ultimately show ?thesis using parse_number_nat [of r pf "nat i"] by (simp add: int_str_def)
next
  case True
  moreover assume r: "ends r"
  ultimately show ?thesis
    using int_token_nat [OF r] no_fraction [OF r] by (simp add: parse_number_def Let_def int_str_def digits_val_nat_str)
qed

lemma parse_scalar_int: "ends r \<Longrightarrow> parse_scalar pf (int_str i @ r) = Some (JInt i, r)"
proof -
  assume r: "ends r"
  obtain c q where c: "nat_str (nat \<bar>i\<bar>) = c # q" "is_digit 10 c" using nat_str_hd_digit by blast
  note d = digit_not_space [OF c(2)]
  have "int_str i = c # q \<or> int_str i = CHR ''-'' # c # q"
    using c(1) by (auto simp: int_str_def)
  then have "\<not> starts_with ''null'' (int_str i @ r)" "\<not> starts_with ''true'' (int_str i @ r)"
    "\<not> starts_with ''false'' (int_str i @ r)" "\<not> starts_with ''NaN'' (int_str i @ r)"
    "\<not> starts_with ''Infinity'' (int_str i @ r)" "\<not> starts_with ''-Infinity'' (int_str i @ r)"
    using d by (auto simp: starts_with_def)
  then show ?thesis using parse_number_int [OF r] by (simp add: parse_scalar_def)
qed

lemma scalar_heads:
  "plain v \<Longrightarrow> \<exists>c q. dumps_sep si sk v = c # q \<and> \<not> json_space c \<and> c \<noteq> CHR '']'' \<and> c \<noteq> CHR ''}''"
proof (cases v)
  case (JInt i)
  obtain c q where c: "nat_str (nat \<bar>i\<bar>) = c # q" "is_digit 10 c" using nat_str_hd_digit by blast
  then have "int_str i = c # q \<or> int_str i = CHR ''-'' # c # q"
    by (auto simp: int_str_def)
  with digit_not_space [OF c(2)] JInt show ?thesis by (auto simp: json_space_def)
qed (auto simp: json_space_def quote_def)

lemma skip_before [simp]: "plain v \<Longrightarrow> skip_ws (dumps_sep si sk v @ r) = dumps_sep si sk v @ r"
  using scalar_heads [of v si sk] by (auto simp: skip_ws_def)

lemma skip_sep: "spaced c s \<Longrightarrow> \<exists>w. s = c # w \<and> (\<forall>q. skip_ws (w @ q) = skip_ws q)"
  by (auto simp: spaced_def skip_ws_spaces)

definition comes_back :: "(string \<Rightarrow> json) \<Rightarrow> string \<Rightarrow> string \<Rightarrow> json \<Rightarrow> bool" where
  "comes_back pf si sk v \<longleftrightarrow>
     (\<forall>n r. ends r \<longrightarrow> length (dumps_sep si sk v) \<le> n \<longrightarrow>
        parse_value pf n (dumps_sep si sk v @ r) = Some (v, r))"

lemma elems_back:
  assumes si: "spaced (CHR '','') si"
  shows "xs \<noteq> [] \<Longrightarrow> \<forall>x \<in> set xs. plain x \<and> comes_back pf si sk x \<Longrightarrow>
    length (str_join si (map (dumps_sep si sk) xs)) < n \<Longrightarrow>
    parse_elems pf n (str_join si (map (dumps_sep si sk) xs) @ CHR '']'' # r) = Some (xs, r)"
proof (induction xs arbitrary: n rule: induct_list012)
  case (2 x)
  then obtain k where n: "n = Suc k" by (cases n) auto
  with 2 show ?case by (simp add: comes_back_def)
next
  case (3 x y zs)
  obtain w where w: "si = CHR '','' # w" "\<And>q. skip_ws (w @ q) = skip_ws q"
    using skip_sep [OF si] by blast
  let ?j = "str_join si (map (dumps_sep si sk) (y # zs))"
  from 3 obtain k where n: "n = Suc k" by (cases n) auto
  have len: "length (dumps_sep si sk x) + length si + length ?j < Suc k" using "3.prems"(3) n by simp
  have "dumps_sep si sk x \<noteq> []" using scalar_heads [of x si sk] "3.prems"(2) by auto
  then have "0 < length (dumps_sep si sk x)" by blast
  with len w(1) have k: "length (dumps_sep si sk x) \<le> k" "length ?j < k" by auto
  have first: "parse_value pf k (dumps_sep si sk x @ si @ ?j @ CHR '']'' # r) = Some (x, si @ ?j @ CHR '']'' # r)"
    using "3.prems"(2) k(1) w(1) by (simp add: comes_back_def)
  have "parse_elems pf k (?j @ CHR '']'' # r) = Some (y # zs, r)"
    using "3.IH"(2) [of k] "3.prems"(2) k(2) by simp
  moreover have "\<exists>q. ?j = dumps_sep si sk y @ q" by (cases zs) auto
  ultimately have rest: "parse_elems pf k (skip_ws (w @ ?j @ CHR '']'' # r)) = Some (y # zs, r)"
    using w(2) skip_before [of y si sk] "3.prems"(2) by auto
  show ?case using first rest w(1) n by simp
qed simp

lemma quote_back: "\<exists>q. quote k = CHR 0x22 # q \<and> (\<forall>r. parse_string (q @ r) = Some (k, r))"
  by (simp add: quote_def parse_string_esc)

definition object_member :: "string \<Rightarrow> string \<Rightarrow> string \<times> json \<Rightarrow> string" where
  "object_member si sk m = quote (fst m) @ sk @ dumps_sep si sk (snd m)"

lemma member_quoted: "\<exists>q. object_member si sk m = CHR 0x22 # q"
  by (simp add: object_member_def quote_def)

lemma members_back:
  assumes si: "spaced (CHR '','') si" and sk: "spaced (CHR '':'') sk"
  shows "ms \<noteq> [] \<Longrightarrow> \<forall>m \<in> set ms. plain (snd m) \<and> comes_back pf si sk (snd m) \<Longrightarrow>
    length (str_join si (map (object_member si sk) ms)) < n \<Longrightarrow>
    parse_members pf n (str_join si (map (object_member si sk) ms) @ CHR ''}'' # r) = Some (ms, r)"
proof (induction ms arbitrary: n rule: induct_list012)
  case (2 m)
  obtain q where q: "quote (fst m) = CHR 0x22 # q" "\<And>r. parse_string (q @ r) = Some (fst m, r)"
    using quote_back by blast
  obtain w where w: "sk = CHR '':'' # w" "\<And>q. skip_ws (w @ q) = skip_ws q"
    using skip_sep [OF sk] by blast
  from 2 obtain k where n: "n = Suc k" by (cases n) auto
  have "length (dumps_sep si sk (snd m)) \<le> k" using "2.prems"(3) n by (simp add: object_member_def)
  then show ?case
    using 2 n q w by (simp add: object_member_def comes_back_def)
next
  case (3 m y zs)
  obtain q where q: "quote (fst m) = CHR 0x22 # q" "\<And>r. parse_string (q @ r) = Some (fst m, r)"
    using quote_back by blast
  obtain w where w: "sk = CHR '':'' # w" "\<And>q. skip_ws (w @ q) = skip_ws q"
    using skip_sep [OF sk] by blast
  obtain w' where w': "si = CHR '','' # w'" "\<And>q. skip_ws (w' @ q) = skip_ws q"
    using skip_sep [OF si] by blast
  let ?j = "str_join si (map (object_member si sk) (y # zs))"
  from 3 obtain k where n: "n = Suc k" by (cases n) auto
  have "length (object_member si sk m) + length si + length ?j < Suc k" using "3.prems"(3) n by simp
  moreover have "length (dumps_sep si sk (snd m)) < length (object_member si sk m)" "0 < length si"
    using q(1) w'(1) by (simp_all add: object_member_def)
  ultimately have k: "length (dumps_sep si sk (snd m)) \<le> k" "length ?j < k" by linarith+
  have first: "parse_value pf k (dumps_sep si sk (snd m) @ si @ ?j @ CHR ''}'' # r) = Some (snd m, si @ ?j @ CHR ''}'' # r)"
    using "3.prems"(2) k(1) w'(1) by (simp add: comes_back_def)
  have "parse_members pf k (?j @ CHR ''}'' # r) = Some (y # zs, r)"
    using "3.IH"(2) [of k] "3.prems"(2) k(2) by simp
  moreover obtain z where "?j = CHR 0x22 # z" using member_quoted [of si sk y] by (cases zs) auto
  ultimately have rest: "parse_members pf k (skip_ws (w' @ ?j @ CHR ''}'' # r)) = Some (y # zs, r)"
    using w'(2) by simp
  have eq: "str_join si (map (object_member si sk) (m # y # zs)) @ CHR ''}'' # r =
      CHR 0x22 # q @ sk @ dumps_sep si sk (snd m) @ si @ ?j @ CHR ''}'' # r"
    using q(1) by (simp add: object_member_def)
  show ?case using first rest q(2) w w'(1) n "3.prems"(2) unfolding eq by simp
qed simp

lemma dset_new: "k \<notin> fst ` set a \<Longrightarrow> dset k v a = a @ [(k, v)]"
  by (induction a) (auto simp: dset_def)

lemma dupdate_new: "distinct (map fst (a @ d)) \<Longrightarrow> dupdate a d = a @ d"
proof (induction d arbitrary: a)
  case (Cons m d)
  obtain k v where m: "m = (k, v)" by (cases m)
  with Cons.prems have "dset k v a = a @ [(k, v)]" by (intro dset_new) auto
  with Cons m show ?case by simp
qed simp

lemma literals_back:
  "parse_scalar pf (''null'' @ r) = Some (JNull, r)"
  "parse_scalar pf (''true'' @ r) = Some (JBool True, r)"
  "parse_scalar pf (''false'' @ r) = Some (JBool False, r)"
  by (simp_all add: parse_scalar_def starts_with_def)

lemma scalar_back:
  "comes_back pf si sk JNull" "comes_back pf si sk (JBool b)" "comes_back pf si sk (JInt i)"
  "comes_back pf si sk (JStr t)"
proof -
  obtain c q where c: "int_str i = c # q" "c \<noteq> CHR 0x22" "c \<noteq> CHR ''[''" "c \<noteq> CHR ''{''"
  proof -
    obtain c q where c: "nat_str (nat \<bar>i\<bar>) = c # q" "is_digit 10 c" using nat_str_hd_digit by blast
    have "int_str i = c # q \<or> int_str i = CHR ''-'' # c # q" using c(1) by (auto simp: int_str_def)
    with digit_not_space [OF c(2)] that show ?thesis by auto
  qed
  have at_least: "\<exists>k. n = Suc k" if "length (dumps_sep si sk v) \<le> n" "plain v" for n v
    using that scalar_heads [of v si sk] by (cases n) auto
  show "comes_back pf si sk (JInt i)"
  proof (unfold comes_back_def, intro allI impI)
    fix n r assume "ends r" "length (dumps_sep si sk (JInt i)) \<le> n"
    with at_least [of "JInt i" n] c parse_scalar_int [of r pf i]
    show "parse_value pf n (dumps_sep si sk (JInt i) @ r) = Some (JInt i, r)" by auto
  qed
  show "comes_back pf si sk JNull"
  proof (unfold comes_back_def, intro allI impI)
    fix n r assume "ends r" "length (dumps_sep si sk JNull) \<le> n"
    with at_least [of JNull n] literals_back [of pf r]
    show "parse_value pf n (dumps_sep si sk JNull @ r) = Some (JNull, r)" by auto
  qed
  show "comes_back pf si sk (JBool b)"
  proof (unfold comes_back_def, intro allI impI)
    fix n r assume "ends r" "length (dumps_sep si sk (JBool b)) \<le> n"
    with at_least [of "JBool b" n] literals_back [of pf r]
    show "parse_value pf n (dumps_sep si sk (JBool b) @ r) = Some (JBool b, r)" by (auto split: if_splits)
  qed
  show "comes_back pf si sk (JStr t)"
  proof (unfold comes_back_def, intro allI impI)
    fix n r assume "ends r" "length (dumps_sep si sk (JStr t)) \<le> n"
    with at_least [of "JStr t" n]
    show "parse_value pf n (dumps_sep si sk (JStr t) @ r) = Some (JStr t, r)"
      by (auto simp: quote_def parse_string_esc)
  qed
qed

lemma value_back:
  assumes si: "spaced (CHR '','') si" and sk: "spaced (CHR '':'') sk"
  shows "plain v \<Longrightarrow> comes_back pf si sk v"
proof (induction v)
  case (JArr xs)
  have ok: "\<forall>x \<in> set xs. plain x \<and> comes_back pf si sk x"
    using JArr by (auto simp: list_all_iff)
  show ?case unfolding comes_back_def
  proof (intro allI impI)
    fix n r assume "ends r" and "length (dumps_sep si sk (JArr xs)) \<le> n"
    then obtain k where n: "n = Suc k" "length (str_join si (map (dumps_sep si sk) xs)) < k"
      by (cases n) auto
    show "parse_value pf n (dumps_sep si sk (JArr xs) @ r) = Some (JArr xs, r)"
    proof (cases xs)
      case Nil
      with n show ?thesis by simp
    next
      case (Cons x ys)
      let ?j = "str_join si (map (dumps_sep si sk) xs)"
      have e: "parse_elems pf k (?j @ CHR '']'' # r) = Some (xs, r)"
        by (rule elems_back [OF si _ ok n(2)]) (simp add: Cons)
      have "plain x" using ok Cons by simp
      then obtain c q where "dumps_sep si sk x = c # q" "\<not> json_space c" "c \<noteq> CHR '']''"
        using scalar_heads [of x si sk] by blast
      then obtain z where "?j = c # z" "\<not> json_space c" "c \<noteq> CHR '']''" using Cons by (cases ys) auto
      with e n(1) show ?thesis by (simp add: skip_ws_def)
    qed
  qed
next
  case (JObj d)
  have ok: "\<forall>m \<in> set d. plain (snd m) \<and> comes_back pf si sk (snd m)"
    using JObj by (fastforce simp: list_all_iff)
  have written: "dumps_sep si sk (JObj d) = CHR ''{'' # str_join si (map (object_member si sk) d) @ ''}''"
    by (simp add: object_member_def [abs_def] case_prod_unfold)
  have dist: "dupdate [] d = d"
    using JObj.prems by (simp add: dupdate_new)
  show ?case unfolding comes_back_def
  proof (intro allI impI)
    fix n r assume "ends r" and "length (dumps_sep si sk (JObj d)) \<le> n"
    then obtain k where n: "n = Suc k" "length (str_join si (map (object_member si sk) d)) < k"
      unfolding written by (cases n) auto
    show "parse_value pf n (dumps_sep si sk (JObj d) @ r) = Some (JObj d, r)"
    proof (cases d)
      case Nil
      with n show ?thesis by simp
    next
      case (Cons m ms)
      let ?j = "str_join si (map (object_member si sk) d)"
      have e: "parse_members pf k (?j @ CHR ''}'' # r) = Some (d, r)"
        by (rule members_back [OF si sk _ ok n(2)]) (simp add: Cons)
      obtain z where "?j = CHR 0x22 # z" using member_quoted [of si sk m] Cons by (cases ms) auto
      with e n(1) dist show ?thesis unfolding written by simp
    qed
  qed
qed (simp_all add: scalar_back)

lemma dumps_not_Nil: "plain v \<Longrightarrow> dumps_sep si sk v \<noteq> []"
  using scalar_heads [of v si sk] by auto

lemma loads_dumps_sep:
  assumes "spaced (CHR '','') si" "spaced (CHR '':'') sk" "plain v" "list_all json_space w"
  shows "loads_with pf (dumps_sep si sk v @ w) = Some v"
proof -
  have "ends w"
    using assms(4) by (cases w) (auto simp: ends_def json_space_def number_char_def is_digit_def digit_val_def Let_def)
  then show ?thesis
    using value_back [OF assms(1-3), of pf] assms(3) skip_ws_spaces [OF assms(4), of "[]"]
    by (simp add: loads_with_def comes_back_def del: parse_value.simps)
qed

text \<open>The compact layout of the files the program appends to.\<close>

lemma loads_compact: "plain v \<Longrightarrow> loads_with pf (dumps_sep '','' '':'' v) = Some v"
  using loads_dumps_sep [of "'',''" "'':''" v "[]" pf] by (simp add: spaced_def)

end
