(* ===== verification/Agent_Registry.thy ===== *)
theory Agent_Registry
  imports Local_Client Json_Decode
begin

text \<open>
  Registering an agent, get-or-create on \<open>(name, environment)\<close>:
  \<^verbatim>\<open>rootsign/sdk/jsonl_registry.py\<close>, the append-only file of the file backend;
  \<^verbatim>\<open>rootsign/sdk/registration.py\<close>, the dispatch on the backend, the drift warning and the
  Postgres path; the bounds of \<^verbatim>\<open>rootsign/schemas/agent.py\<close>. The registry file is its
  text, or \<open>None\<close> when there is none; what the file system does to an append is an argument, and so
  are the fresh UUIDs. What Python makes of a float in a registry line (\<open>pf\<close>) never matters.
  The locale \<open>agent_registry\<close> is the contract both backends keep.
\<close>

section \<open>Lines of a text file\<close>

text \<open>\<open>str.splitlines()\<close> on characters up to 255.\<close>

definition line_boundary :: "char \<Rightarrow> bool" where
  "line_boundary c = (let n = of_char c :: nat in (10 \<le> n \<and> n \<le> 13) \<or> (28 \<le> n \<and> n \<le> 30) \<or> n = 133)"

fun split_from :: "string \<Rightarrow> string \<Rightarrow> string list" where
  "split_from line [] = (if line = [] then [] else [line])"
| "split_from line (c # cs) =
     (if c = CHR 0x0D \<and> cs \<noteq> [] \<and> hd cs = CHR 0x0A then split_from line cs
      else if line_boundary c then line # split_from [] cs
      else split_from (line @ [c]) cs)"

definition splitlines :: "string \<Rightarrow> string list" where
  "splitlines s = split_from [] s"

section \<open>The file\<close>

fun find_line :: "(string \<Rightarrow> json option) \<Rightarrow> string \<Rightarrow> string \<Rightarrow> string list \<Rightarrow> pyexc + dict option" where
  "find_line loads name environment [] = Inr None"
| "find_line loads name environment (l # ls) =
     (let line = strip_chars is_space l in
      if line = [] then find_line loads name environment ls
      else (case loads line of
              None \<Rightarrow> Inl (ValueError ''JSONDecodeError'')
            | Some (JObj agent) \<Rightarrow>
                if dget agent ''name'' = JStr name \<and> dget agent ''environment'' = JStr environment
                then Inr (Some agent) else find_line loads name environment ls
            | Some _ \<Rightarrow> Inl AttributeError))"

definition find_agent ::
  "(string \<Rightarrow> json option) \<Rightarrow> string option \<Rightarrow> string \<Rightarrow> string \<Rightarrow> pyexc + dict option" where
  "find_agent loads registry name environment =
     (case registry of
        None \<Rightarrow> Inr None
      | Some s \<Rightarrow> find_line loads name environment (splitlines s))"

datatype append_outcome =
    Line_Written
  | Line_Cut nat
  | No_Directory string
  | Not_Opened string
  | Not_Written string
  | Not_Synced string

definition contents :: "string option \<Rightarrow> string" where
  "contents registry = (case registry of None \<Rightarrow> [] | Some s \<Rightarrow> s)"

text \<open>\<open>os.write\<close> may write a part of its bytes and say so; its answer is not looked at.\<close>

definition append_agent :: "append_outcome \<Rightarrow> string \<Rightarrow> string option \<Rightarrow> (pyexc + unit) \<times> string option" where
  "append_agent outcome line registry =
     (case outcome of
        Line_Written \<Rightarrow> (Inr (), Some (contents registry @ line))
      | Line_Cut n \<Rightarrow> (Inr (), Some (contents registry @ take n line))
      | No_Directory e \<Rightarrow> (Inl (OSError e), registry)
      | Not_Opened e \<Rightarrow> (Inl (OSError e), registry)
      | Not_Written e \<Rightarrow> (Inl (OSError e), Some (contents registry))
      | Not_Synced e \<Rightarrow> (Inl (OSError e), Some (contents registry @ line)))"

definition agent_object :: "uuid \<Rightarrow> string \<Rightarrow> string \<Rightarrow> dict \<Rightarrow> dict" where
  "agent_object fresh name environment attrs =
     dupdate [(''agent_id'', JStr (uuid_str fresh)), (''name'', JStr name), (''environment'', JStr environment)] attrs"

definition agent_line :: "dict \<Rightarrow> string" where
  "agent_line agent = dumps_sep '','' '':'' (JObj agent) @ [CHR 0x0A]"

definition get_or_create_agent ::
  "(string \<Rightarrow> json option) \<Rightarrow> append_outcome \<Rightarrow> uuid \<Rightarrow> string \<Rightarrow> string \<Rightarrow> dict \<Rightarrow> string option \<Rightarrow>
   (pyexc + dict) \<times> string option" where
  "get_or_create_agent loads outcome fresh name environment attrs registry =
     (case find_agent loads registry name environment of
        Inl e \<Rightarrow> (Inl e, registry)
      | Inr (Some agent) \<Rightarrow> (Inr agent, registry)
      | Inr None \<Rightarrow>
          (let agent = agent_object fresh name environment attrs in
           case append_agent outcome (agent_line agent) registry of
             (Inl e, registry') \<Rightarrow> (Inl e, registry')
           | (Inr _, registry') \<Rightarrow> (Inr agent, registry')))"

section \<open>Requests and drift\<close>

record agent_request =
  rq_name :: string
  rq_environment :: string
  rq_owner :: string
  rq_risk_tier :: string
  rq_framework :: string
  rq_description :: "string option"
  rq_model_version :: "string option"
  rq_permitted_tools :: "string list"
  rq_regulatory_categories :: "string list"

definition requested :: "agent_request \<Rightarrow> dict" where
  "requested rq =
     [(''owner'', JStr (rq_owner rq)), (''risk_tier'', JStr (rq_risk_tier rq)),
      (''framework'', JStr (rq_framework rq)), (''description'', opt_str (rq_description rq)),
      (''model_version'', opt_str (rq_model_version rq)),
      (''permitted_tools'', JArr (map JStr (rq_permitted_tools rq))),
      (''regulatory_categories'', JArr (map JStr (rq_regulatory_categories rq)))]"

definition drift_fields :: "string list" where
  "drift_fields = [''owner'', ''risk_tier'', ''framework'', ''description'', ''model_version'',
     ''permitted_tools'', ''regulatory_categories'']"

definition drifts :: "dict \<Rightarrow> dict \<Rightarrow> string \<Rightarrow> bool" where
  "drifts stored wanted field \<longleftrightarrow>
     dhas wanted field \<and> dget wanted field \<noteq> JNull \<and> dget wanted field \<noteq> JArr [] \<and>
     dget stored field \<noteq> dget wanted field"

definition drift_text :: "dict \<Rightarrow> dict \<Rightarrow> string \<Rightarrow> string" where
  "drift_text stored wanted field =
     field @ '': stored='' @ py_repr (dget stored field) @ '' requested='' @ py_repr (dget wanted field)"

definition warn_on_drift :: "string \<Rightarrow> string \<Rightarrow> dict \<Rightarrow> dict \<Rightarrow> string option" where
  "warn_on_drift name environment stored wanted =
     (let drifted = map (drift_text stored wanted) (filter (drifts stored wanted) drift_fields) in
      if drifted = [] then None
      else Some (''rootsign: agent ('' @ name @ '', '' @ environment @
        '') already registered with different attributes; keeping the stored values. '' @
        ''Change them with an admin operation, not init(). Drift: '' @ str_join ''; '' drifted))"

definition stored_id :: "dict \<Rightarrow> sdk_error + uuid" where
  "stored_id agent =
     (case dindex agent ''agent_id'' of
        Inl e \<Rightarrow> Inl (Other_Error e)
      | Inr v \<Rightarrow> (case uuid_of_str (py_str v) of
                    None \<Rightarrow> Inl (Value_Error ''badly formed hexadecimal UUID string'')
                  | Some u \<Rightarrow> Inr u))"

text \<open>The file backend's branch: the answer, the warning logged and the file.\<close>

definition register_in_file ::
  "(string \<Rightarrow> json option) \<Rightarrow> append_outcome \<Rightarrow> uuid \<Rightarrow> agent_request \<Rightarrow> string option \<Rightarrow>
   (sdk_error + uuid) \<times> string option \<times> string option" where
  "register_in_file loads outcome fresh rq registry =
     (case find_agent loads registry (rq_name rq) (rq_environment rq) of
        Inl e \<Rightarrow> (Inl (Other_Error e), None, registry)
      | Inr (Some existing) \<Rightarrow>
          (stored_id existing, warn_on_drift (rq_name rq) (rq_environment rq) existing (requested rq), registry)
      | Inr None \<Rightarrow>
          (case get_or_create_agent loads outcome fresh (rq_name rq) (rq_environment rq) (requested rq) registry of
             (Inl e, registry') \<Rightarrow> (Inl (Other_Error e), None, registry')
           | (Inr created, registry') \<Rightarrow> (stored_id created, None, registry')))"

section \<open>The Postgres table\<close>

definition enum_value :: "string \<Rightarrow> string list \<Rightarrow> string \<Rightarrow> sdk_error + string" where
  "enum_value cls members v =
     (if v \<in> set members then Inr v else Inl (Value_Error (repr_str v @ '' is not a valid '' @ cls)))"

definition agent_environments :: "string list" where
  "agent_environments = [''development'', ''staging'', ''production'']"

definition agent_risk_tiers :: "string list" where
  "agent_risk_tiers = [''low'', ''medium'', ''high'', ''critical'']"

definition agent_frameworks :: "string list" where
  "agent_frameworks = [''langgraph'', ''crewai'', ''autogen'', ''custom'', ''unknown'']"

definition length_within :: "nat \<Rightarrow> nat \<Rightarrow> string \<Rightarrow> bool" where
  "length_within least most s \<longleftrightarrow> least \<le> length s \<and> length s \<le> most"

definition agent_create_ok :: "agent_request \<Rightarrow> bool" where
  "agent_create_ok rq \<longleftrightarrow> length_within 2 200 (rq_name rq) \<and> length_within 2 200 (rq_owner rq) \<and>
     (case rq_description rq of None \<Rightarrow> True | Some d \<Rightarrow> length d \<le> 2000) \<and>
     (case rq_model_version rq of None \<Rightarrow> True | Some v \<Rightarrow> length v \<le> 100)"

definition validate_agent :: "agent_request \<Rightarrow> sdk_error + unit" where
  "validate_agent rq =
     sbind (enum_value ''AgentEnvironment'' agent_environments (rq_environment rq)) (\<lambda>_.
     sbind (enum_value ''AgentRiskTier'' agent_risk_tiers (rq_risk_tier rq)) (\<lambda>_.
     sbind (enum_value ''AgentFramework'' agent_frameworks (rq_framework rq)) (\<lambda>_.
     if agent_create_ok rq then Inr () else Inl (Value_Error ''validation error for AgentCreate''))))"

record agent_row =
  gr_agent_id :: uuid
  gr_agent :: agent_request

definition key_of :: "agent_request \<Rightarrow> string \<times> string" where
  "key_of rq = (rq_name rq, rq_environment rq)"

definition row_matches :: "string \<times> string \<Rightarrow> agent_row \<Rightarrow> bool" where
  "row_matches k row \<longleftrightarrow> key_of (gr_agent row) = k"

definition new_row :: "uuid \<Rightarrow> agent_request \<Rightarrow> agent_row" where
  "new_row fresh rq = \<lparr>gr_agent_id = fresh, gr_agent = rq\<rparr>"

text \<open>\<open>INSERT .. ON CONFLICT (name, environment) DO NOTHING\<close>, committed; another row with the
  fresh id would break the primary key.\<close>

definition insert_or_nothing :: "uuid \<Rightarrow> agent_request \<Rightarrow> agent_row list \<Rightarrow> sdk_error + agent_row list" where
  "insert_or_nothing fresh rq t =
     (if list_ex (row_matches (key_of rq)) t then Inr t
      else if fresh \<in> gr_agent_id ` set t then Inl (Database_Error ''IntegrityError: agents_pkey'')
      else Inr (t @ [new_row fresh rq]))"

definition select_agent :: "string \<times> string \<Rightarrow> agent_row list \<Rightarrow> sdk_error + agent_row" where
  "select_agent k t =
     (case filter (row_matches k) t of
        [] \<Rightarrow> Inl (Database_Error ''NoResultFound'')
      | [row] \<Rightarrow> Inr row
      | _ \<Rightarrow> Inl (Database_Error ''MultipleResultsFound''))"

definition stored_answer :: "agent_request \<Rightarrow> agent_row list \<Rightarrow> (sdk_error + uuid) \<times> string option" where
  "stored_answer rq t =
     (case select_agent (key_of rq) t of
        Inl e \<Rightarrow> (Inl e, None)
      | Inr row \<Rightarrow> (Inr (gr_agent_id row),
          warn_on_drift (rq_name rq) (rq_environment rq) (requested (gr_agent row)) (requested rq)))"

definition register_in_table ::
  "string + unit \<Rightarrow> uuid \<Rightarrow> agent_request \<Rightarrow> agent_row list \<Rightarrow>
   (sdk_error + uuid) \<times> string option \<times> agent_row list" where
  "register_in_table imported fresh rq t =
     (case sbind (validate_agent rq) (\<lambda>_. sbind (postgres_extra_required imported) (\<lambda>_.
             insert_or_nothing fresh rq t)) of
        Inl e \<Rightarrow> (Inl e, None, t)
      | Inr t' \<Rightarrow> (case stored_answer rq t' of (answer, warning) \<Rightarrow> (answer, warning, t')))"

text \<open>\<open>register_agent\<close>, the one-shot variant: a second agent of the name and environment is refused.\<close>

definition register_agent ::
  "string + unit \<Rightarrow> uuid \<Rightarrow> agent_request \<Rightarrow> agent_row list \<Rightarrow> (sdk_error + agent_row) \<times> agent_row list" where
  "register_agent imported fresh rq t =
     (case sbind (postgres_extra_required imported) (\<lambda>_. validate_agent rq) of
        Inl e \<Rightarrow> (Inl e, t)
      | Inr _ \<Rightarrow>
          if list_ex (row_matches (key_of rq)) t
          then (Inl (Database_Error ''IntegrityError: uq_agents_name_environment''), t)
          else if fresh \<in> gr_agent_id ` set t then (Inl (Database_Error ''IntegrityError: agents_pkey''), t)
          else (Inr (new_row fresh rq), t @ [new_row fresh rq]))"

section \<open>Dispatch on the backend\<close>

record registries =
  rg_file :: "string option"
  rg_table :: "agent_row list"

definition get_or_register_agent ::
  "(string \<Rightarrow> json option) \<Rightarrow> append_outcome \<Rightarrow> string + unit \<Rightarrow> string \<Rightarrow> uuid \<Rightarrow> agent_request \<Rightarrow> registries \<Rightarrow>
   (sdk_error + uuid) \<times> string option \<times> registries" where
  "get_or_register_agent loads outcome imported backend fresh rq rs =
     (if backend = ''jsonl''
      then (case register_in_file loads outcome fresh rq (rg_file rs) of
              (answer, warning, f) \<Rightarrow> (answer, warning, rs\<lparr>rg_file := f\<rparr>))
      else if backend \<noteq> ''postgres''
      then (Inl (Value_Error (''rootsign.init() does not support ROOTSIGN_BACKEND='' @ repr_str backend @
              ''. Use '' @ repr_str ''jsonl'' @ '' (default) or '' @ repr_str ''postgres'' @ ''.'')), None, rs)
      else (case register_in_table imported fresh rq (rg_table rs) of
              (answer, warning, t) \<Rightarrow> (answer, warning, rs\<lparr>rg_table := t\<rparr>)))"

section \<open>What the file holds\<close>

lemma line_boundary_printable: "(32::nat) \<le> of_char c \<Longrightarrow> (of_char c :: nat) \<le> 126 \<Longrightarrow> \<not> line_boundary c"
  by (simp add: line_boundary_def Let_def)

definition printable_text :: "string \<Rightarrow> bool" where
  "printable_text s \<longleftrightarrow> (\<forall>c \<in> set s. (32::nat) \<le> of_char c \<and> (of_char c :: nat) \<le> 126)"

lemma printable_simps [simp]:
  "printable_text []" "printable_text (s @ t) \<longleftrightarrow> printable_text s \<and> printable_text t"
  "printable_text (c # s) \<longleftrightarrow> (32::nat) \<le> of_char c \<and> (of_char c :: nat) \<le> 126 \<and> printable_text s"
  by (auto simp: printable_text_def)

lemma clean_join: "printable_text sep \<Longrightarrow> \<forall>x \<in> set xs. printable_text x \<Longrightarrow> printable_text (str_join sep xs)"
  by (induction sep xs rule: str_join.induct) simp_all

lemma clean_digit: "is_digit 10 c \<Longrightarrow> (32::nat) \<le> of_char c \<and> (of_char c :: nat) \<le> 126"
  using digit_chars [of c] by auto

lemma clean_int: "printable_text (int_str i)"
  using int_str_chars [of _ i] clean_digit by (fastforce simp: printable_text_def)

lemma clean_hex: "printable_text (hex_pad n v)"
proof (unfold printable_text_def, intro ballI)
  fix c assume "c \<in> set (hex_pad n v)"
  then obtain d where "d < 16" "c = digit_char d" using hex_pad_digits by blast
  then show "(32::nat) \<le> of_char c \<and> (of_char c :: nat) \<le> 126"
    by (simp add: digit_char_def)
qed

lemma clean_quote: "printable_text (quote s)"
proof -
  have "printable_text (esc_char c)" for c by (auto simp: esc_char_def clean_hex)
  then have "printable_text (concat (map esc_char s))" by (induction s) simp_all
  then show ?thesis by (simp add: quote_def)
qed

lemma clean_dumps: "plain v \<Longrightarrow> printable_text (dumps_sep '','' '':'' v)"
proof (induction v)
  case (JArr xs)
  then show ?case by (auto simp: list_all_iff intro!: clean_join)
next
  case (JObj d)
  have "\<forall>x \<in> set (map (\<lambda>(k, v). quote k @ '':'' @ dumps_sep '','' '':'' v) d). printable_text x"
    using JObj by (fastforce simp: list_all_iff clean_quote)
  then show ?case by (auto intro!: clean_join)
qed (auto simp: clean_int clean_quote)

lemma split_line:
  "printable_text l \<Longrightarrow> split_from line (l @ CHR 0x0A # cs) = (line @ l) # split_from [] cs"
proof (induction l arbitrary: line)
  case Nil
  then show ?case by (simp add: line_boundary_def)
next
  case (Cons c l)
  then have "\<not> line_boundary c" "c \<noteq> CHR 0x0D" using line_boundary_printable by auto
  with Cons show ?case by simp
qed

lemma strip_object: "strip_chars is_space (dumps_sep '','' '':'' (JObj d)) = dumps_sep '','' '':'' (JObj d)"
proof -
  have "\<not> is_space (CHR ''{'')" "\<not> is_space (CHR ''}'')" by (simp_all add: is_space_def)
  then show ?thesis by (simp add: strip_chars_def)
qed

definition row_object :: "agent_row \<Rightarrow> dict" where
  "row_object row = agent_object (gr_agent_id row) (rq_name (gr_agent row)) (rq_environment (gr_agent row))
     (requested (gr_agent row))"

definition render :: "agent_row list \<Rightarrow> string" where
  "render t = concat (map (agent_line \<circ> row_object) t)"

lemma render_snoc: "render (t @ [row]) = render t @ agent_line (row_object row)"
  by (simp add: render_def)

lemma row_object_eq:
  "row_object row =
    [(''agent_id'', JStr (uuid_str (gr_agent_id row))), (''name'', JStr (rq_name (gr_agent row))),
     (''environment'', JStr (rq_environment (gr_agent row)))] @ requested (gr_agent row)"
  unfolding row_object_def agent_object_def
  by (rule dupdate_new) (simp add: requested_def)

lemma plain_row: "plain (JObj (row_object row))"
  by (auto simp: row_object_eq requested_def opt_str_def list_all_iff split: option.splits)

lemma lines_of_render: "splitlines (render t) = map (\<lambda>row. dumps_sep '','' '':'' (JObj (row_object row))) t"
  unfolding splitlines_def
proof (induction t)
  case (Cons row t)
  have "render (row # t) = dumps_sep '','' '':'' (JObj (row_object row)) @ CHR 0x0A # render t"
    by (simp add: render_def agent_line_def)
  then show ?case using Cons split_line [OF clean_dumps [OF plain_row]] by simp
qed (simp add: render_def)

lemma row_fields:
  "dget (row_object row) ''name'' = JStr (rq_name (gr_agent row))"
  "dget (row_object row) ''environment'' = JStr (rq_environment (gr_agent row))"
  "stored_id (row_object row) = Inr (gr_agent_id row)"
  by (simp_all add: row_object_eq requested_def dict_simps stored_id_def uuid_parse_str)

lemma find_rendered:
  "find_line (loads_with pf) n e (map (\<lambda>row. dumps_sep '','' '':'' (JObj (row_object row))) t) =
    Inr (map_option row_object (List.find (row_matches (n, e)) t))"
proof (induction t)
  case (Cons row t)
  have "dumps_sep '','' '':'' (JObj (row_object row)) \<noteq> []" by simp
  with Cons show ?case
    using loads_compact [OF plain_row, of pf row]
    by (simp add: strip_object row_fields row_matches_def key_of_def Let_def del: dumps_sep.simps)
qed simp

definition lists_rows :: "string option \<Rightarrow> agent_row list \<Rightarrow> bool" where
  "lists_rows registry t \<longleftrightarrow> contents registry = render t"

lemma find_in_registry:
  assumes "lists_rows registry t"
  shows "find_agent (loads_with pf) registry n e = Inr (map_option row_object (List.find (row_matches (n, e)) t))"
proof (cases registry)
  case None
  with assms have "t = []"
    by (cases t) (auto simp: lists_rows_def contents_def render_def agent_line_def)
  with None show ?thesis by (simp add: find_agent_def)
next
  case (Some s)
  with assms have "s = render t" by (simp add: lists_rows_def contents_def)
  with Some show ?thesis
    by (simp add: find_agent_def lines_of_render find_rendered del: dumps_sep.simps)
qed

section \<open>Both backends are one map\<close>

definition unique_keys :: "agent_row list \<Rightarrow> bool" where
  "unique_keys t \<longleftrightarrow> distinct (map (key_of \<circ> gr_agent) t) \<and> distinct (map gr_agent_id t)"

definition known :: "agent_row list \<Rightarrow> string \<times> string \<Rightarrow> uuid option" where
  "known t k = map_option gr_agent_id (List.find (row_matches k) t)"

lemma find_none: "List.find P xs = None \<longleftrightarrow> \<not> list_ex P xs"
  by (induction xs) auto

lemma find_some_in: "List.find P xs = Some x \<Longrightarrow> x \<in> set xs \<and> P x"
  by (induction xs) (auto split: if_splits)

lemma find_append: "List.find P (xs @ ys) = (case List.find P xs of None \<Rightarrow> List.find P ys | Some x \<Rightarrow> Some x)"
  by (induction xs) auto

lemma unique_filter:
  "distinct (map (key_of \<circ> gr_agent) t) \<Longrightarrow>
    filter (row_matches k) t = (case List.find (row_matches k) t of None \<Rightarrow> [] | Some row \<Rightarrow> [row])"
proof (induction t)
  case (Cons row t)
  show ?case
  proof (cases "row_matches k row")
    case True
    then have "filter (row_matches k) t = []"
      using Cons.prems by (auto simp: filter_empty_conv row_matches_def image_iff)
    with True show ?thesis by simp
  next
    case False
    with Cons show ?thesis by simp
  qed
qed simp

lemma select_found:
  assumes "unique_keys t" and "List.find (row_matches k) t = Some row"
  shows "select_agent k t = Inr row"
  using unique_filter [of t k] assms by (simp add: select_agent_def unique_keys_def)

lemma insert_known: "List.find (row_matches (key_of rq)) t = Some row \<Longrightarrow> insert_or_nothing fresh rq t = Inr t"
  using find_none [of "row_matches (key_of rq)" t] by (auto simp: insert_or_nothing_def)

lemma insert_new:
  assumes "List.find (row_matches (key_of rq)) t = None" "fresh \<notin> gr_agent_id ` set t"
  shows "insert_or_nothing fresh rq t = Inr (t @ [new_row fresh rq])"
  using assms find_none [of "row_matches (key_of rq)" t] by (simp add: insert_or_nothing_def)

lemma unique_snoc:
  assumes "unique_keys t" "List.find (row_matches (key_of rq)) t = None" "fresh \<notin> gr_agent_id ` set t"
  shows "unique_keys (t @ [new_row fresh rq])"
proof -
  have "\<not> list_ex (row_matches (key_of rq)) t" using assms(2) find_none by blast
  then have "key_of rq \<notin> (key_of \<circ> gr_agent) ` set t"
    by (auto simp: list_ex_iff row_matches_def)
  with assms(1,3) show ?thesis by (auto simp: unique_keys_def new_row_def)
qed

lemma find_new: "List.find (row_matches (key_of rq)) t = None \<Longrightarrow>
    List.find (row_matches (key_of rq)) (t @ [new_row fresh rq]) = Some (new_row fresh rq)"
  by (simp add: find_append row_matches_def new_row_def)

lemma no_drift [simp]: "warn_on_drift n e (requested rq) (requested rq) = None"
  by (simp add: warn_on_drift_def drifts_def)

text \<open>The fields the drift check looks at are not those the registry adds.\<close>

lemma row_drift: "warn_on_drift n e (row_object row) wanted = warn_on_drift n e (requested (gr_agent row)) wanted"
proof -
  have same: "dget (row_object row) f = dget (requested (gr_agent row)) f" if "f \<in> set drift_fields" for f
    using that by (auto simp: drift_fields_def row_object_eq dict_simps)
  have "filter (drifts (row_object row) wanted) drift_fields = filter (drifts (requested (gr_agent row)) wanted) drift_fields"
    by (rule filter_cong) (simp_all add: drifts_def same)
  moreover have "map (drift_text (row_object row) wanted) (filter P drift_fields) =
      map (drift_text (requested (gr_agent row)) wanted) (filter P drift_fields)" for P
    by (rule map_cong) (simp_all add: drift_text_def same)
  ultimately show ?thesis by (simp only: warn_on_drift_def Let_def)
qed

text \<open>What both branches do, over the rows.\<close>

definition register_row :: "uuid \<Rightarrow> agent_request \<Rightarrow> agent_row list \<Rightarrow> uuid \<times> string option \<times> agent_row list" where
  "register_row fresh rq t =
     (case List.find (row_matches (key_of rq)) t of
        Some row \<Rightarrow> (gr_agent_id row,
          warn_on_drift (rq_name rq) (rq_environment rq) (requested (gr_agent row)) (requested rq), t)
      | None \<Rightarrow> (fresh, None, t @ [new_row fresh rq]))"

lemma table_registers:
  assumes "unique_keys t" "fresh \<notin> gr_agent_id ` set t" "validate_agent rq = Inr ()"
  shows "register_in_table (Inr ()) fresh rq t =
    (case register_row fresh rq t of (u, warning, t') \<Rightarrow> (Inr u, warning, t'))"
proof (cases "List.find (row_matches (key_of rq)) t")
  case None
  with unique_snoc [OF assms(1)] assms(2) have "unique_keys (t @ [new_row fresh rq])" by blast
  from select_found [OF this find_new [OF None]] show ?thesis
    using assms(3) insert_new [OF None assms(2)] None
    by (simp add: register_in_table_def register_row_def postgres_extra_required_def stored_answer_def new_row_def)
next
  case (Some row)
  with select_found [OF assms(1) Some] show ?thesis
    using assms(3) insert_known [OF Some]
    by (simp add: register_in_table_def register_row_def postgres_extra_required_def stored_answer_def)
qed

lemma file_registers:
  assumes "lists_rows registry t"
  shows "\<exists>registry'. register_in_file (loads_with pf) Line_Written fresh rq registry =
    (case register_row fresh rq t of (u, warning, t') \<Rightarrow> (Inr u, warning, registry')) \<and>
    lists_rows registry' (snd (snd (register_row fresh rq t)))"
proof (cases "List.find (row_matches (key_of rq)) t")
  case None
  have "agent_object fresh (rq_name rq) (rq_environment rq) (requested rq) = row_object (new_row fresh rq)"
    by (simp add: row_object_def new_row_def)
  with None find_in_registry [OF assms, of pf "rq_name rq" "rq_environment rq"] show ?thesis
    using assms row_fields(3) [of "new_row fresh rq"]
    by (simp add: register_in_file_def register_row_def get_or_create_agent_def append_agent_def Let_def
        key_of_def lists_rows_def render_snoc contents_def [of "Some _"])
      (simp add: new_row_def)
next
  case (Some row)
  with find_in_registry [OF assms, of pf "rq_name rq" "rq_environment rq"] show ?thesis
    using assms by (simp add: register_in_file_def register_row_def key_of_def row_fields row_drift)
qed

section \<open>The contract\<close>

fun register_all ::
  "(uuid \<Rightarrow> agent_request \<Rightarrow> 's \<Rightarrow> 'a \<times> string option \<times> 's) \<Rightarrow> (uuid \<times> agent_request) list \<Rightarrow> 's \<Rightarrow>
   ('a \<times> string option) list \<times> 's" where
  "register_all f [] s = ([], s)"
| "register_all f ((u, rq) # calls) s =
     (case f u rq s of (a, w, s') \<Rightarrow> (case register_all f calls s' of (answers, s'') \<Rightarrow> ((a, w) # answers, s'')))"

definition fresh_calls :: "(uuid \<times> agent_request) list \<Rightarrow> agent_row list \<Rightarrow> bool" where
  "fresh_calls calls t \<longleftrightarrow>
     distinct (map fst calls) \<and> list_all (\<lambda>(u, rq). u \<notin> gr_agent_id ` set t \<and> validate_agent rq = Inr ()) calls"

lemma length_register_all [simp]: "length (fst (register_all f calls s)) = length calls"
  by (induction f calls s rule: register_all.induct) (auto split: prod.splits)

lemma register_row_unique:
  "unique_keys t \<Longrightarrow> u \<notin> gr_agent_id ` set t \<Longrightarrow> unique_keys (snd (snd (register_row u rq t)))"
  using unique_snoc by (auto simp: register_row_def split: option.splits)

lemma fresh_after:
  assumes "fresh_calls ((u, rq) # calls) t"
  shows "fresh_calls calls (snd (snd (register_row u rq t)))"
  using assms
  by (fastforce simp: fresh_calls_def register_row_def new_row_def list_all_iff image_iff split: option.splits)

lemma known_after: "known (snd (snd (register_row u rq t))) (key_of rq) = Some (fst (register_row u rq t))"
  by (auto simp: register_row_def known_def find_append row_matches_def new_row_def split: option.splits)

lemma known_kept: "known t k = Some v \<Longrightarrow> known (snd (snd (register_row u rq t))) k = Some v"
  by (auto simp: register_row_def known_def find_append split: option.splits)

text \<open>A registry stands for rows with unique names and ids, and registering does to it what
  \<open>register_row\<close> does to the rows.\<close>

locale agent_registry =
  fixes stands_for :: "'s \<Rightarrow> agent_row list \<Rightarrow> bool"
    and register :: "uuid \<Rightarrow> agent_request \<Rightarrow> 's \<Rightarrow> (sdk_error + uuid) \<times> string option \<times> 's"
  assumes simulates: "stands_for s t \<Longrightarrow> unique_keys t \<Longrightarrow> u \<notin> gr_agent_id ` set t \<Longrightarrow> validate_agent rq = Inr () \<Longrightarrow>
    \<exists>s'. register u rq s = (case register_row u rq t of (v, w, t') \<Rightarrow> (Inr v, w, s')) \<and>
      stands_for s' (snd (snd (register_row u rq t)))"
begin

lemma all_simulate:
  assumes "stands_for s t" "unique_keys t" "fresh_calls calls t"
  shows "fst (register_all register calls s) = map (\<lambda>(v, w). (Inr v, w)) (fst (register_all register_row calls t)) \<and>
    stands_for (snd (register_all register calls s)) (snd (register_all register_row calls t))"
  using assms
proof (induction calls arbitrary: s t)
  case (Cons call calls)
  obtain u rq where c: "call = (u, rq)" by (cases call)
  have ok: "u \<notin> gr_agent_id ` set t" "validate_agent rq = Inr ()"
    using Cons.prems(3) by (simp_all add: c fresh_calls_def)
  obtain v w t' where r: "register_row u rq t = (v, w, t')" by (cases "register_row u rq t")
  obtain s' where s': "register u rq s = (Inr v, w, s')" "stands_for s' t'"
    using simulates [OF Cons.prems(1,2) ok] r by auto
  have "unique_keys t'" "fresh_calls calls t'"
    using register_row_unique [OF Cons.prems(2) ok(1), of rq] fresh_after [of u rq calls t] Cons.prems(3) r c by simp_all
  from Cons.IH [OF s'(2) this] show ?case
    by (auto simp: c r s'(1) split: prod.splits)
qed simp

lemma answers_known:
  assumes "stands_for s t" "unique_keys t" "fresh_calls calls t" "known t k = Some v"
  shows "\<forall>i < length calls. key_of (snd (calls ! i)) = k \<longrightarrow> fst (fst (register_all register calls s) ! i) = Inr v"
  using assms
proof (induction calls arbitrary: s t)
  case (Cons call calls)
  obtain u rq where c: "call = (u, rq)" by (cases call)
  have ok: "u \<notin> gr_agent_id ` set t" "validate_agent rq = Inr ()"
    using Cons.prems(3) by (simp_all add: c fresh_calls_def)
  obtain v' w t' where r: "register_row u rq t = (v', w, t')" by (cases "register_row u rq t")
  obtain s' where s': "register u rq s = (Inr v', w, s')" "stands_for s' t'"
    using simulates [OF Cons.prems(1,2) ok] r by auto
  have t': "unique_keys t'" "fresh_calls calls t'" "known t' k = Some v" "known t' (key_of rq) = Some v'"
    using register_row_unique [OF Cons.prems(2) ok(1), of rq] fresh_after [of u rq calls t] Cons.prems(3,4) r c
      known_kept [of t k v u rq] known_after [of u rq t] by simp_all
  have tail: "\<forall>i < length calls. key_of (snd (calls ! i)) = k \<longrightarrow> fst (fst (register_all register calls s') ! i) = Inr v"
    by (rule Cons.IH [OF s'(2) t'(1-3)])
  show ?case
  proof (intro allI impI)
    fix i assume "i < length (call # calls)" "key_of (snd ((call # calls) ! i)) = k"
    with tail t'(3,4) show "fst (fst (register_all register (call # calls) s) ! i) = Inr v"
      by (cases i) (auto simp: c s'(1) split: prod.splits)
  qed
qed simp

lemma answers_agree:
  assumes "stands_for s t" "unique_keys t" "fresh_calls calls t"
  shows "\<lbrakk>i < j; j < length calls; key_of (snd (calls ! i)) = key_of (snd (calls ! j))\<rbrakk> \<Longrightarrow>
    fst (fst (register_all register calls s) ! i) = fst (fst (register_all register calls s) ! j)"
  using assms
proof (induction calls arbitrary: s t i j)
  case (Cons call calls)
  obtain u rq where c: "call = (u, rq)" by (cases call)
  have ok: "u \<notin> gr_agent_id ` set t" "validate_agent rq = Inr ()"
    using Cons.prems(6) by (simp_all add: c fresh_calls_def)
  obtain v w t' where r: "register_row u rq t = (v, w, t')" by (cases "register_row u rq t")
  obtain s' where s': "register u rq s = (Inr v, w, s')" "stands_for s' t'"
    using simulates [OF Cons.prems(4,5) ok] r by auto
  have t': "unique_keys t'" "fresh_calls calls t'" "known t' (key_of rq) = Some v"
    using register_row_unique [OF Cons.prems(5) ok(1), of rq] fresh_after [of u rq calls t] Cons.prems(6) r c
      known_after [of u rq t] by simp_all
  obtain j' where j: "j = Suc j'" using Cons.prems(1) by (cases j) auto
  show ?case
  proof (cases i)
    case 0
    with Cons.prems(2,3) answers_known [OF s'(2) t'(1-3)] show ?thesis
      by (auto simp: c j s'(1) split: prod.splits)
  next
    case (Suc i')
    with Cons.prems(1-3) Cons.IH [OF _ _ _ s'(2) t'(1,2), of i' j'] show ?thesis
      by (auto simp: c j s'(1) split: prod.splits)
  qed
qed simp

end

interpretation file_registry: agent_registry lists_rows "register_in_file (loads_with pf) Line_Written" for pf
proof
  fix s t u rq assume "lists_rows s t"
  from file_registers [OF this, of pf u rq]
  show "\<exists>s'. register_in_file (loads_with pf) Line_Written u rq s =
      (case register_row u rq t of (v, w, t') \<Rightarrow> (Inr v, w, s')) \<and> lists_rows s' (snd (snd (register_row u rq t)))"
    by blast
qed

interpretation table_registry: agent_registry "(=)" "register_in_table (Inr ())"
  by unfold_locales (auto simp: table_registers split: prod.splits)

section \<open>Properties of registration\<close>


definition sample_request :: agent_request where
  "sample_request = \<lparr>rq_name = ''invoice-agent'', rq_environment = ''production'', rq_owner = ''finance'',
     rq_risk_tier = ''high'', rq_framework = ''langgraph'', rq_description = None, rq_model_version = None,
     rq_permitted_tools = [''send_invoice''], rq_regulatory_categories = []\<rparr>"

lemma sample_calls:
  "lists_rows None []" "unique_keys []"
  "fresh_calls [(1, sample_request), (2, sample_request\<lparr>rq_owner := ''billing''\<rparr>)] []"
  by (simp_all add: lists_rows_def contents_def render_def unique_keys_def fresh_calls_def sample_request_def
      validate_agent_def enum_value_def agent_environments_def agent_risk_tiers_def agent_frameworks_def
      agent_create_ok_def length_within_def)


text \<open>The first registration of a name in an environment decides its id: every later one of any run
  is answered with that id.\<close>

theorem first_registration_wins:
  assumes "lists_rows registry t" and "unique_keys t" and "fresh_calls calls t"
    and "i < j" and "j < length calls" and "key_of (snd (calls ! i)) = key_of (snd (calls ! j))"
  shows "\<exists>v. fst (fst (register_all (register_in_file (loads_with pf) Line_Written) calls registry) ! i) = Inr v \<and>
    fst (fst (register_all (register_in_file (loads_with pf) Line_Written) calls registry) ! j) = Inr v"
proof -
  have "fst (fst (register_all (register_in_file (loads_with pf) Line_Written) calls registry) ! i) =
      fst (fst (register_all (register_in_file (loads_with pf) Line_Written) calls registry) ! j)"
    by (rule file_registry.answers_agree [OF assms(1-3)]) (use assms(4-6) in auto)
  moreover have "\<exists>v. fst (fst (register_all (register_in_file (loads_with pf) Line_Written) calls registry) ! j) = Inr v"
    using file_registry.all_simulate [OF assms(1-3), of pf] assms(5) by (simp add: case_prod_unfold)
  ultimately show ?thesis by auto
qed

theorem first_registration_wins_witness:
  "\<exists>v. fst (fst (register_all (register_in_file (loads_with (\<lambda>_. JNull)) Line_Written)
      [(1, sample_request), (2, sample_request\<lparr>rq_owner := ''billing''\<rparr>)] None) ! 0) = Inr v \<and>
    fst (fst (register_all (register_in_file (loads_with (\<lambda>_. JNull)) Line_Written)
      [(1, sample_request), (2, sample_request\<lparr>rq_owner := ''billing''\<rparr>)] None) ! 1) = Inr v"
  by (rule first_registration_wins [OF sample_calls]) (simp_all add: key_of_def)

lemma split_unfinished: "printable_text line \<Longrightarrow> l @ line \<noteq> [] \<Longrightarrow> split_from l line = [l @ line]"
proof (induction line arbitrary: l)
  case (Cons c cs)
  then have "\<not> line_boundary c" "c \<noteq> CHR 0x0D" using line_boundary_printable by auto
  with Cons show ?case by simp
qed simp

lemma split_cut:
  assumes "printable_text line" "line \<noteq> []"
  shows "splitlines (render t @ line) = map (\<lambda>row. dumps_sep '','' '':'' (JObj (row_object row))) t @ [line]"
  unfolding splitlines_def
proof (induction t)
  case Nil
  with split_unfinished [OF assms(1), of "[]"] assms(2) show ?case by (simp add: render_def)
next
  case (Cons row t)
  have "render (row # t) = dumps_sep '','' '':'' (JObj (row_object row)) @ CHR 0x0A # render t"
    by (simp add: render_def agent_line_def)
  with Cons split_line [OF clean_dumps [OF plain_row], of "[]" row "render t @ line"] show ?case
    by (simp del: dumps_sep.simps)
qed

lemma find_cut:
  assumes "line \<noteq> []" "strip_chars is_space line = line" "loads_with pf line = None"
    and "List.find (row_matches (m, e)) t = None"
  shows "find_line (loads_with pf) m e (map (\<lambda>row. dumps_sep '','' '':'' (JObj (row_object row))) t @ [line]) =
    Inl (ValueError ''JSONDecodeError'')"
  using assms(4)
proof (induction t)
  case Nil
  with assms(1-3) show ?case by (simp add: Let_def)
next
  case (Cons row t)
  have "dumps_sep '','' '':'' (JObj (row_object row)) \<noteq> []" by simp
  with Cons show ?case
    using loads_compact [OF plain_row, of pf row]
    by (simp add: strip_object row_fields row_matches_def key_of_def Let_def del: dumps_sep.simps split: if_splits)
qed

text \<open>A line that reaches the disk only in part counts as a registration, the answer of
  \<open>os.write\<close> being ignored, and from then on every agent that is not listed before it, the one just
  registered included, is refused with a \<open>JSONDecodeError\<close>, and nothing is written again.\<close>

theorem cut_line_blocks_registry:
  assumes "lists_rows registry t" and "List.find (row_matches (key_of rq)) t = None"
    and "line = take n (dumps_sep '','' '':'' (JObj (row_object (new_row fresh rq))))"
    and "line \<noteq> []" and "strip_chars is_space line = line" and "loads_with pf line = None"
    and "List.find (row_matches (key_of rq2)) t = None"
  shows "\<exists>registry'. register_in_file (loads_with pf) (Line_Cut (length line)) fresh rq registry = (Inr fresh, None, registry') \<and>
    register_in_file (loads_with pf) outcome fresh2 rq2 registry' =
      (Inl (Other_Error (ValueError ''JSONDecodeError'')), None, registry')"
proof -
  let ?text = "dumps_sep '','' '':'' (JObj (row_object (new_row fresh rq)))"
  let ?after = "Some (render t @ line)"
  have obj: "agent_object fresh (rq_name rq) (rq_environment rq) (requested rq) = row_object (new_row fresh rq)"
    by (simp add: row_object_def new_row_def)
  have "?text = line @ drop n ?text" unfolding assms(3) by (rule append_take_drop_id [symmetric])
  then have "agent_line (row_object (new_row fresh rq)) = line @ drop n ?text @ [CHR 0x0A]"
    unfolding agent_line_def by (metis append.assoc)
  then have cut: "take (length line) (agent_line (row_object (new_row fresh rq))) = line" by simp
  have first: "register_in_file (loads_with pf) (Line_Cut (length line)) fresh rq registry = (Inr fresh, None, ?after)"
    using find_in_registry [OF assms(1), of pf "rq_name rq" "rq_environment rq"] assms(1,2) cut
      row_fields(3) [of "new_row fresh rq"]
    by (simp add: register_in_file_def get_or_create_agent_def append_agent_def obj Let_def key_of_def lists_rows_def)
      (simp add: new_row_def)
  have "printable_text line"
    using clean_dumps [OF plain_row, of "new_row fresh rq"] set_take_subset [of n ?text]
    unfolding assms(3) printable_text_def by blast
  have "register_in_file (loads_with pf) outcome fresh2 rq2 ?after =
      (Inl (Other_Error (ValueError ''JSONDecodeError'')), None, ?after)"
    using find_cut [OF assms(4-6), of "rq_name rq2" "rq_environment rq2" t] assms(7) split_cut [OF \<open>printable_text line\<close> assms(4)]
    by (simp add: register_in_file_def find_agent_def key_of_def del: dumps_sep.simps)
  with first show ?thesis by blast
qed

theorem cut_line_blocks_registry_witness:
  "\<exists>registry'. register_in_file (loads_with (\<lambda>_. JNull)) (Line_Cut 1) 1 sample_request None = (Inr 1, None, registry') \<and>
    register_in_file (loads_with (\<lambda>_. JNull)) Line_Written 2 sample_request registry' =
      (Inl (Other_Error (ValueError ''JSONDecodeError'')), None, registry')"
proof -
  have line: "''{'' = take 1 (dumps_sep '','' '':'' (JObj (row_object (new_row 1 sample_request))))" by simp
  have facts: "''{'' \<noteq> []" "strip_chars is_space ''{'' = ''{''" "loads_with (\<lambda>_. JNull) ''{'' = None"
    by (simp_all add: strip_chars_def is_space_def loads_with_def skip_ws_def json_space_def)
  from cut_line_blocks_registry [OF sample_calls(1) _ line facts(1-3), of sample_request Line_Written 2]
  show ?thesis by simp
qed

section \<open>First runs at the same time\<close>

text \<open>Several processes register over Postgres at once. A process inserts and commits in one step and
  selects in a later one; any of the others may take its steps in between.\<close>

datatype reg_phase = Inserting | Selecting | Done "sdk_error + uuid" "string option"

record caller =
  cr_fresh :: uuid
  cr_request :: agent_request
  cr_phase :: reg_phase

inductive reg_step :: "agent_row list \<times> caller list \<Rightarrow> agent_row list \<times> caller list \<Rightarrow> bool" where
  reg_insert: "i < length cs \<Longrightarrow> cr_phase (cs ! i) = Inserting \<Longrightarrow>
    insert_or_nothing (cr_fresh (cs ! i)) (cr_request (cs ! i)) t = Inr t' \<Longrightarrow>
    reg_step (t, cs) (t', cs[i := (cs ! i)\<lparr>cr_phase := Selecting\<rparr>])"
| reg_refused: "i < length cs \<Longrightarrow> cr_phase (cs ! i) = Inserting \<Longrightarrow>
    insert_or_nothing (cr_fresh (cs ! i)) (cr_request (cs ! i)) t = Inl e \<Longrightarrow>
    reg_step (t, cs) (t, cs[i := (cs ! i)\<lparr>cr_phase := Done (Inl e) None\<rparr>])"
| reg_select: "i < length cs \<Longrightarrow> cr_phase (cs ! i) = Selecting \<Longrightarrow>
    stored_answer (cr_request (cs ! i)) t = (a, w) \<Longrightarrow>
    reg_step (t, cs) (t, cs[i := (cs ! i)\<lparr>cr_phase := Done a w\<rparr>])"

inductive_cases reg_stepE: "reg_step (t, cs) (t', cs')"

definition caller_ok :: "agent_row list \<Rightarrow> caller \<Rightarrow> bool" where
  "caller_ok t c \<longleftrightarrow>
     (case cr_phase c of
        Inserting \<Rightarrow> cr_fresh c \<notin> gr_agent_id ` set t
      | Selecting \<Rightarrow> known t (key_of (cr_request c)) \<noteq> None
      | Done a w \<Rightarrow> (\<exists>v. a = Inr v \<and> known t (key_of (cr_request c)) = Some v))"

definition race_inv :: "agent_row list \<times> caller list \<Rightarrow> bool" where
  "race_inv st \<longleftrightarrow> unique_keys (fst st) \<and> distinct (map cr_fresh (snd st)) \<and> (\<forall>c \<in> set (snd st). caller_ok (fst st) c)"

lemma insert_rows:
  assumes "insert_or_nothing u rq t = Inr t'"
  shows "t' = t \<and> known t (key_of rq) \<noteq> None \<or>
    t' = t @ [new_row u rq] \<and> known t (key_of rq) = None \<and> u \<notin> gr_agent_id ` set t"
  using assms find_none [of "row_matches (key_of rq)" t]
  by (auto simp: insert_or_nothing_def known_def split: if_splits)

lemma caller_ok_insert:
  assumes "insert_or_nothing u rq t = Inr t'" "caller_ok t c" "cr_fresh c \<noteq> u"
  shows "caller_ok t' c"
proof -
  have kept: "known t' k = Some v" if "known t k = Some v" for k v
    using insert_rows [OF assms(1)] that by (auto simp: known_def find_append split: option.splits)
  have "gr_agent_id ` set t' \<subseteq> insert u (gr_agent_id ` set t)"
    using insert_rows [OF assms(1)] by (auto simp: new_row_def)
  with assms(2,3) kept [of "key_of (cr_request c)"] show ?thesis
    unfolding caller_ok_def by (cases "cr_phase c") (simp_all, blast+)
qed

lemma known_insert: "insert_or_nothing u rq t = Inr t' \<Longrightarrow> known t' (key_of rq) \<noteq> None"
  using insert_rows [of u rq t t'] by (auto simp: known_def find_append row_matches_def new_row_def split: option.splits)

lemma insert_unique:
  assumes "insert_or_nothing u rq t = Inr t'" "unique_keys t"
  shows "unique_keys t'"
  using insert_rows [OF assms(1)] unique_snoc [OF assms(2)] assms(2) by (auto simp: known_def)

lemma stored_answer_known:
  assumes "unique_keys t" "known t (key_of rq) = Some v" "stored_answer rq t = (a, w)"
  shows "a = Inr v"
  using assms(2,3) select_found [OF assms(1), of "key_of rq"] by (auto simp: known_def stored_answer_def simp del: split_paired_All)

lemma others_update:
  assumes "distinct (map cr_fresh cs)" "i < length cs" "c \<in> set (cs[i := x])" "c \<noteq> x"
  shows "c \<in> set cs \<and> cr_fresh c \<noteq> cr_fresh (cs ! i)"
proof -
  from assms(3) obtain j where n: "j < length (cs[i := x])" "cs[i := x] ! j = c"
    unfolding in_set_conv_nth by blast
  have "j \<noteq> i" using n(2) assms(2,4) by auto
  with n have j: "j < length cs" "j \<noteq> i" "c = cs ! j" by simp_all
  have "map cr_fresh cs ! j \<noteq> map cr_fresh cs ! i"
    using nth_eq_iff_index_eq [OF assms(1), of j i] assms(2) j(1,2) by simp
  then have "cr_fresh (cs ! j) \<noteq> cr_fresh (cs ! i)" using j(1) assms(2) by simp
  then show ?thesis using j(1,3) nth_mem [OF j(1)] by simp
qed

lemma same_fresh:
  assumes "i < length cs"
  shows "map cr_fresh (cs[i := (cs ! i)\<lparr>cr_phase := p\<rparr>]) = map cr_fresh cs"
  using assms by (intro nth_equalityI) (auto simp: nth_list_update)

lemma race_step:
  assumes "reg_step st st'" "race_inv st"
  shows "race_inv st'"
  using assms
proof (induction rule: reg_step.induct)
  case (reg_insert i cs t t')
  let ?c = "(cs ! i)\<lparr>cr_phase := Selecting\<rparr>"
  have inv: "unique_keys t" "distinct (map cr_fresh cs)" "\<forall>c \<in> set cs. caller_ok t c"
    using reg_insert.prems by (simp_all add: race_inv_def)
  have "caller_ok t' c" if "c \<in> set (cs[i := ?c])" for c
  proof (cases "c = ?c")
    case True
    with known_insert [OF reg_insert.hyps(3)] show ?thesis by (simp add: caller_ok_def)
  next
    case False
    from others_update [OF inv(2) reg_insert.hyps(1) that False] inv(3) show ?thesis
      using caller_ok_insert [OF reg_insert.hyps(3)] by blast
  qed
  with insert_unique [OF reg_insert.hyps(3) inv(1)] inv(2) same_fresh [OF reg_insert.hyps(1)] show ?case
    by (simp add: race_inv_def)
next
  case (reg_refused i cs t e)
  then have "caller_ok t (cs ! i)" by (simp add: race_inv_def)
  with reg_refused.hyps(2,3) show ?case by (simp add: caller_ok_def insert_or_nothing_def split: if_splits)
next
  case (reg_select i cs t a w)
  let ?c = "(cs ! i)\<lparr>cr_phase := Done a w\<rparr>"
  have inv: "unique_keys t" "distinct (map cr_fresh cs)" "\<forall>c \<in> set cs. caller_ok t c"
    using reg_select.prems by (simp_all add: race_inv_def)
  have "caller_ok t (cs ! i)" using inv(3) reg_select.hyps(1) by simp
  with reg_select.hyps(2) obtain v where v: "known t (key_of (cr_request (cs ! i))) = Some v"
    by (cases "known t (key_of (cr_request (cs ! i)))") (simp_all add: caller_ok_def)
  have "caller_ok t c" if "c \<in> set (cs[i := ?c])" for c
  proof (cases "c = ?c")
    case True
    with stored_answer_known [OF inv(1) v reg_select.hyps(3)] v show ?thesis by (simp add: caller_ok_def)
  next
    case False
    from others_update [OF inv(2) reg_select.hyps(1) that False] inv(3) show ?thesis by blast
  qed
  with inv(1,2) same_fresh [OF reg_select.hyps(1)] show ?case by (simp add: race_inv_def)
qed

lemma race_reachable: "reg_step\<^sup>*\<^sup>* st st' \<Longrightarrow> race_inv st \<Longrightarrow> race_inv st'"
  by (induction rule: rtranclp_induct) (auto intro: race_step)

lemma known_same_id:
  assumes "unique_keys t" "known t k = Some v" "known t k' = Some v"
  shows "k = k'"
proof -
  obtain r r' where f: "List.find (row_matches k) t = Some r" "gr_agent_id r = v"
    "List.find (row_matches k') t = Some r'" "gr_agent_id r' = v"
    using assms(2,3) by (auto simp: known_def simp del: split_paired_All split_paired_Ex)
  note r = find_some_in [OF f(1)] find_some_in [OF f(3)] f(2,4)
  have "inj_on gr_agent_id (set t)" using assms(1) by (simp add: unique_keys_def distinct_map)
  then have "r = r'" using r by (intro inj_onD [of gr_agent_id "set t"]) simp_all
  with r show ?thesis by (simp add: row_matches_def)
qed

text \<open>C29. Processes that register at the same time over Postgres all get an answer, whatever the
  interleaving, and two of them get the same id exactly when they registered the same name in the
  same environment.\<close>

theorem concurrent_registrations_agree:
  assumes "reg_step\<^sup>*\<^sup>* (t, cs) (t', cs')"
    and "unique_keys t" and "distinct (map cr_fresh cs)"
    and "\<forall>c \<in> set cs. cr_phase c = Inserting \<and> cr_fresh c \<notin> gr_agent_id ` set t"
    and "c \<in> set cs'" and "cr_phase c = Done a w" and "d \<in> set cs'" and "cr_phase d = Done b w'"
  shows "\<exists>u v. a = Inr u \<and> b = Inr v \<and> (u = v \<longleftrightarrow> key_of (cr_request c) = key_of (cr_request d))"
proof -
  have "race_inv (t, cs)" using assms(2-4) by (simp add: race_inv_def caller_ok_def)
  then have inv: "unique_keys t'" "\<forall>c \<in> set cs'. caller_ok t' c"
    using race_reachable [OF assms(1)] by (simp_all add: race_inv_def)
  obtain u where u: "a = Inr u" "known t' (key_of (cr_request c)) = Some u"
    using inv(2) assms(5,6) by (force simp: caller_ok_def)
  obtain v where v: "b = Inr v" "known t' (key_of (cr_request d)) = Some v"
    using inv(2) assms(7,8) by (force simp: caller_ok_def)
  have "u = v \<longleftrightarrow> key_of (cr_request c) = key_of (cr_request d)"
  proof
    assume "u = v"
    with known_same_id [OF inv(1) u(2)] v(2) show "key_of (cr_request c) = key_of (cr_request d)" by simp
  next
    assume "key_of (cr_request c) = key_of (cr_request d)"
    with u(2) v(2) show "u = v" by simp
  qed
  with u(1) v(1) show ?thesis by blast
qed

definition sample_callers :: "caller list" where
  "sample_callers = [\<lparr>cr_fresh = 1, cr_request = sample_request, cr_phase = Inserting\<rparr>,
     \<lparr>cr_fresh = 2, cr_request = sample_request, cr_phase = Inserting\<rparr>]"

text \<open>Both insert, then both select.\<close>

lemma sample_race:
  "\<exists>cs w w'. reg_step\<^sup>*\<^sup>* ([], sample_callers) ([new_row 1 sample_request], cs) \<and>
     cs = [\<lparr>cr_fresh = 1, cr_request = sample_request, cr_phase = Done (Inr 1) w\<rparr>,
           \<lparr>cr_fresh = 2, cr_request = sample_request, cr_phase = Done (Inr 1) w'\<rparr>]"
proof -
  let ?c = "\<lambda>u p. \<lparr>cr_fresh = u, cr_request = sample_request, cr_phase = p\<rparr>"
  let ?t = "[new_row 1 sample_request]"
  have ins: "insert_or_nothing 1 sample_request [] = Inr ?t" "insert_or_nothing 2 sample_request ?t = Inr ?t"
    by (simp_all add: insert_or_nothing_def row_matches_def new_row_def)
  obtain w where sel: "stored_answer sample_request ?t = (Inr 1, w)"
    by (simp add: stored_answer_def select_agent_def row_matches_def new_row_def)
  have "reg_step ([], [?c 1 Inserting, ?c 2 Inserting]) (?t, [?c 1 Selecting, ?c 2 Inserting])"
    using reg_insert [of 0 "[?c 1 Inserting, ?c 2 Inserting]" "[]" ?t] ins by simp
  moreover have "reg_step (?t, [?c 1 Selecting, ?c 2 Inserting]) (?t, [?c 1 Selecting, ?c 2 Selecting])"
    using reg_insert [of 1 "[?c 1 Selecting, ?c 2 Inserting]" ?t ?t] ins by simp
  moreover have "reg_step (?t, [?c 1 Selecting, ?c 2 Selecting]) (?t, [?c 1 (Done (Inr 1) w), ?c 2 Selecting])"
    using reg_select [of 0 "[?c 1 Selecting, ?c 2 Selecting]" ?t "Inr 1" w] sel by simp
  moreover have "reg_step (?t, [?c 1 (Done (Inr 1) w), ?c 2 Selecting]) (?t, [?c 1 (Done (Inr 1) w), ?c 2 (Done (Inr 1) w)])"
    using reg_select [of 1 "[?c 1 (Done (Inr 1) w), ?c 2 Selecting]" ?t "Inr 1" w] sel by simp
  ultimately have "reg_step\<^sup>*\<^sup>* ([], sample_callers) (?t, [?c 1 (Done (Inr 1) w), ?c 2 (Done (Inr 1) w)])"
    unfolding sample_callers_def by (meson converse_rtranclp_into_rtranclp rtranclp.rtrancl_refl)
  then show ?thesis by blast
qed

theorem concurrent_registrations_agree_witness:
  "\<exists>t cs c d u v w w'. reg_step\<^sup>*\<^sup>* ([], sample_callers) (t, cs) \<and> c \<in> set cs \<and> d \<in> set cs \<and>
     cr_fresh c = 1 \<and> cr_fresh d = 2 \<and> cr_phase c = Done (Inr u) w \<and> cr_phase d = Done (Inr v) w' \<and>
     (u = v \<longleftrightarrow> key_of (cr_request c) = key_of (cr_request d))"
proof -
  obtain cs w w' where r: "reg_step\<^sup>*\<^sup>* ([], sample_callers) ([new_row 1 sample_request], cs)"
    "cs = [\<lparr>cr_fresh = 1, cr_request = sample_request, cr_phase = Done (Inr 1) w\<rparr>,
           \<lparr>cr_fresh = 2, cr_request = sample_request, cr_phase = Done (Inr 1) w'\<rparr>]"
    using sample_race by blast
  have start: "distinct (map cr_fresh sample_callers)"
    "\<forall>c \<in> set sample_callers. cr_phase c = Inserting \<and> cr_fresh c \<notin> gr_agent_id ` set []"
    by (simp_all add: sample_callers_def)
  have "cs ! 0 \<in> set cs" "cr_phase (cs ! 0) = Done (Inr 1) w" "cs ! 1 \<in> set cs" "cr_phase (cs ! 1) = Done (Inr 1) w'"
    by (simp_all add: r(2))
  note ends = this
  have "\<exists>u v. (Inr 1 :: sdk_error + uuid) = Inr u \<and> (Inr 1 :: sdk_error + uuid) = Inr v \<and>
      (u = v \<longleftrightarrow> key_of (cr_request (cs ! 0)) = key_of (cr_request (cs ! 1)))"
    by (rule concurrent_registrations_agree [OF r(1) sample_calls(2) start ends])
  moreover have "cr_fresh (cs ! 0) = 1" "cr_fresh (cs ! 1) = 2" by (simp_all add: r(2))
  ultimately show ?thesis
    using ends r(1)
    by (intro exI [of _ "[new_row 1 sample_request]"] exI [of _ cs] exI [of _ "cs ! 0"] exI [of _ "cs ! 1"]
        exI [of _ 1] exI [of _ w] exI [of _ w'] conjI) auto
qed

end
