(* ===== verification/Buffered_Client.thy ===== *)
theory Buffered_Client
  imports Replay "HOL-Library.Multiset" "HOL-Library.Sublist"
begin

text \<open>
  \<^verbatim>\<open>rootsign/sdk/buffered_client.py\<close>: the micro-batching wrapper around a client. The first
  part is the class as one caller sees it, every coroutine run to its end; the inner client is its
  \<open>handle\<close>, its \<open>handle_batch\<close> if it has one, and its \<open>owns_retry\<close> flag. Waiting
  between attempts and log lines are left out; \<open>except Exception\<close> takes in every exception of
  the inner client.

  The second part is the interleaving of tasks over a client with \<open>handle_batch\<close>: a step is
  what happens between two suspensions, and the answer to a call arrives at any later step.
\<close>

section \<open>State\<close>

record ('s, 'e) inner_client =
  ic_handle :: "dict \<Rightarrow> 's \<Rightarrow> ('e + response) \<times> 's"
  ic_batch :: "(dict list \<Rightarrow> 's \<Rightarrow> ('e + response list) \<times> 's) option"
  ic_owns_retry :: bool

record ('s, 'e) buffer_config =
  bg_client :: "('s, 'e) inner_client"
  bg_max_buffer_size :: int
  bg_max_retries :: int

record 's buffered =
  bc_buffer :: "dict list"
  bc_inner :: 's
  bc_flush_task :: bool
  bc_closed :: bool

definition new_buffered :: "'s \<Rightarrow> 's buffered" where
  "new_buffered s = \<lparr>bc_buffer = [], bc_inner = s, bc_flush_task = False, bc_closed = False\<rparr>"

datatype buffered_answer = Buffered_Response | Store_Response response

datatype 'e buffered_exn = Envelope_Error pyexc | Inner_Error 'e

section \<open>Operations\<close>

definition should_buffer :: "dict \<Rightarrow> pyexc + bool" where
  "should_buffer envelope =
     (if dget envelope ''event_type'' \<noteq> JStr (event_value ACTION_RECORD) then Inr False
      else sbind (dict_or_empty (dget envelope ''payload'')) (\<lambda>payload.
             Inr (dget payload ''authorization_status'' = JStr ''auto_authorized'')))"

definition wants_retry :: "response \<Rightarrow> bool" where
  "wants_retry r \<longleftrightarrow> rsp_status r = ''rejected'' \<and> rsp_retryable r = Some True"

definition unsent :: "dict list \<Rightarrow> response list \<Rightarrow> dict list" where
  "unsent pending responses =
     map fst (filter (\<lambda>(_, r). wants_retry r) (zip pending responses)) @ drop (length responses) pending"

definition attempts_of :: "('s, 'e) buffer_config \<Rightarrow> nat" where
  "attempts_of cfg = (if ic_owns_retry (bg_client cfg) then 1 else nat (bg_max_retries cfg))"

fun send_batch_with_retry ::
  "(dict list \<Rightarrow> 's \<Rightarrow> ('e + response list) \<times> 's) \<Rightarrow> nat \<Rightarrow> dict list \<Rightarrow> 's \<Rightarrow> dict list \<times> 's" where
  "send_batch_with_retry f 0 pending s = (pending, s)"
| "send_batch_with_retry f (Suc left) pending s =
     (case f pending s of
        (answer, s') \<Rightarrow>
          let responses = (case answer of Inl _ \<Rightarrow> [] | Inr rs \<Rightarrow> rs);
              failed = unsent pending responses
          in if failed = [] then ([], s') else send_batch_with_retry f left failed s')"

fun send_with_retry ::
  "(dict \<Rightarrow> 's \<Rightarrow> ('e + response) \<times> 's) \<Rightarrow> nat \<Rightarrow> dict \<Rightarrow> 's \<Rightarrow> bool \<times> 's" where
  "send_with_retry h 0 envelope s = (False, s)"
| "send_with_retry h (Suc left) envelope s =
     (case h envelope s of
        (Inr _, s') \<Rightarrow> (True, s')
      | (Inl _, s') \<Rightarrow> send_with_retry h left envelope s')"

fun send_singly ::
  "(dict \<Rightarrow> 's \<Rightarrow> ('e + response) \<times> 's) \<Rightarrow> nat \<Rightarrow> dict list \<Rightarrow> 's \<Rightarrow> dict list \<times> 's" where
  "send_singly h n [] s = ([], s)"
| "send_singly h n (e # es) s =
     (case send_with_retry h n e s of
        (sent, s') \<Rightarrow>
          (case send_singly h n es s' of
             (failed, s'') \<Rightarrow> (if sent then failed else e # failed, s'')))"

definition send_buffered :: "('s, 'e) buffer_config \<Rightarrow> dict list \<Rightarrow> 's \<Rightarrow> dict list \<times> 's" where
  "send_buffered cfg batch s =
     (case ic_batch (bg_client cfg) of
        Some f \<Rightarrow> send_batch_with_retry f (attempts_of cfg) batch s
      | None \<Rightarrow> send_singly (ic_handle (bg_client cfg)) (attempts_of cfg) batch s)"

definition flush :: "('s, 'e) buffer_config \<Rightarrow> 's buffered \<Rightarrow> 's buffered" where
  "flush cfg b =
     (if bc_buffer b = [] then b
      else case send_buffered cfg (bc_buffer b) (bc_inner b) of
             (failed, s) \<Rightarrow> b\<lparr>bc_buffer := failed, bc_inner := s\<rparr>)"

definition start :: "'s buffered \<Rightarrow> 's buffered" where
  "start b = b\<lparr>bc_flush_task := True\<rparr>"

definition buffered_handle ::
  "('s, 'e) buffer_config \<Rightarrow> dict \<Rightarrow> 's buffered \<Rightarrow> ('e buffered_exn + buffered_answer) \<times> 's buffered" where
  "buffered_handle cfg envelope b0 =
     (let b = (if \<not> bc_flush_task b0 \<and> \<not> bc_closed b0 then start b0 else b0) in
      case should_buffer envelope of
        Inl e \<Rightarrow> (Inl (Envelope_Error e), b)
      | Inr True \<Rightarrow>
          let b' = b\<lparr>bc_buffer := bc_buffer b @ [envelope]\<rparr>;
              b'' = (if int (length (bc_buffer b')) \<ge> bg_max_buffer_size cfg then flush cfg b' else b')
          in (Inr Buffered_Response, b'')
      | Inr False \<Rightarrow>
          let b' = flush cfg b in
          (case ic_handle (bg_client cfg) envelope (bc_inner b') of
             (Inl e, s) \<Rightarrow> (Inl (Inner_Error e), b'\<lparr>bc_inner := s\<rparr>)
           | (Inr r, s) \<Rightarrow> (Inr (Store_Response r), b'\<lparr>bc_inner := s\<rparr>)))"

text \<open>\<open>inner_close\<close> is the inner client's \<open>close\<close>; one without it is the identity.\<close>

definition close_buffered :: "('s, 'e) buffer_config \<Rightarrow> ('s \<Rightarrow> 's) \<Rightarrow> 's buffered \<Rightarrow> 's buffered" where
  "close_buffered cfg inner_close b =
     (let b' = flush cfg (b\<lparr>bc_closed := True, bc_flush_task := False\<rparr>) in
      b'\<lparr>bc_inner := inner_close (bc_inner b')\<rparr>)"

fun buffered_run ::
  "('s, 'e) buffer_config \<Rightarrow> dict list \<Rightarrow> 's buffered \<Rightarrow>
   ('e buffered_exn + buffered_answer) list \<times> 's buffered" where
  "buffered_run cfg [] b = ([], b)"
| "buffered_run cfg (e # es) b =
     (case buffered_handle cfg e b of
        (a, b') \<Rightarrow> (case buffered_run cfg es b' of (answers, b'') \<Rightarrow> (a # answers, b'')))"

section \<open>A flush loses nothing\<close>

lemma wants_retry_is_needs_retry: "wants_retry = needs_retry"
  by (intro ext) (simp add: wants_retry_def needs_retry_def)

lemma unsent_Nil [simp]: "unsent pending [] = pending"
  by (simp add: unsent_def)

lemma unsent_empty [simp]: "unsent [] rs = []"
  by (simp add: unsent_def)

lemma unsent_Cons [simp]:
  "unsent (e # es) (r # rs) = (if wants_retry r then e # unsent es rs else unsent es rs)"
  by (simp add: unsent_def)

lemma unsent_subseq: "subseq (unsent pending rs) pending"
proof (induction pending arbitrary: rs)
  case (Cons e es)
  then show ?case by (cases rs) auto
qed simp

definition settled_by :: "dict list \<Rightarrow> response list \<Rightarrow> dict list" where
  "settled_by pending rs = map fst (filter (\<lambda>(_, r). \<not> wants_retry r) (zip pending rs))"

lemma settled_by_simps [simp]:
  "settled_by pending [] = []"
  "settled_by [] rs = []"
  "settled_by (e # es) (r # rs) = (if wants_retry r then settled_by es rs else e # settled_by es rs)"
  by (simp_all add: settled_by_def)

lemma unsent_or_settled: "mset pending = mset (unsent pending rs) + mset (settled_by pending rs)"
proof (induction pending arbitrary: rs)
  case (Cons e es)
  then show ?case by (cases rs) auto
qed simp

text \<open>The inner client with a log of what it answered, oldest first.\<close>

definition recording ::
  "(dict list \<Rightarrow> 's \<Rightarrow> ('e + response list) \<times> 's) \<Rightarrow>
   dict list \<Rightarrow> 's \<times> (dict \<times> response) list \<Rightarrow> ('e + response list) \<times> 's \<times> (dict \<times> response) list" where
  "recording f batch st =
     (case f batch (fst st) of
        (Inl e, s') \<Rightarrow> (Inl e, (s', snd st))
      | (Inr rs, s') \<Rightarrow> (Inr rs, (s', snd st @ zip batch rs)))"

definition settled_in :: "(dict \<times> response) list \<Rightarrow> dict list" where
  "settled_in answers = map fst (filter (\<lambda>(_, r). \<not> wants_retry r) answers)"

lemma settled_in_simps [simp]:
  "settled_in [] = []"
  "settled_in (xs @ ys) = settled_in xs @ settled_in ys"
  "settled_in (zip batch rs) = settled_by batch rs"
  by (simp_all add: settled_in_def settled_by_def)

lemma recorded_attempts:
  assumes "send_batch_with_retry (recording f) n pending (s, past) = (failed, (s', past'))"
  shows "subseq failed pending \<and>
    (\<exists>answers. past' = past @ answers \<and> mset pending = mset failed + mset (settled_in answers))"
  using assms
proof (induction n arbitrary: pending s past)
  case (Suc n)
  obtain a s1 where f: "f pending s = (a, s1)" by (cases "f pending s")
  define rs where "rs = (case a of Inl _ \<Rightarrow> [] | Inr rs \<Rightarrow> rs)"
  have r: "recording f pending (s, past) = (a, (s1, past @ zip pending rs))"
    using f by (simp add: recording_def rs_def split: sum.splits)
  have parts: "mset pending = mset (unsent pending rs) + mset (settled_by pending rs)"
    by (rule unsent_or_settled)
  show ?case
  proof (cases "unsent pending rs = []")
    case True
    then have "failed = []" "past' = past @ zip pending rs"
      using Suc.prems r by (auto simp: rs_def)
    then show ?thesis using parts True by auto
  next
    case False
    then have "send_batch_with_retry (recording f) n (unsent pending rs) (s1, past @ zip pending rs)
        = (failed, (s', past'))"
      using Suc.prems r by (simp add: rs_def)
    from Suc.IH [OF this] obtain answers where
      "subseq failed (unsent pending rs)" and "past' = (past @ zip pending rs) @ answers" and
      "mset (unsent pending rs) = mset failed + mset (settled_in answers)" by blast
    then show ?thesis using parts unsent_subseq [of pending rs]
      by (auto intro!: exI [of _ "zip pending rs @ answers"] intro: subseq_order.order_trans)
  qed
qed simp


section \<open>Buffering is transparent when the inner client never raises\<close>

lemma send_singly_direct:
  "send_each h es s = (Inr rs, s') \<Longrightarrow> 0 < n \<Longrightarrow> send_singly h n es s = ([], s')"
proof (induction es arbitrary: s rs)
  case (Cons e es)
  from Cons.prems(2) obtain m where n: "n = Suc m" by (cases n) auto
  from Cons.prems(1) obtain r s1 rs1 where "h e s = (Inr r, s1)" and "send_each h es s1 = (Inr rs1, s')"
    by (auto split: prod.splits sum.splits)
  then show ?case using Cons.IH [of s1 rs1] n by simp
qed simp

lemma send_each_append:
  assumes "send_each h (xs @ ys) s = (Inr rs, s')"
  obtains as s1 bs where "send_each h xs s = (Inr as, s1)" and "send_each h ys s1 = (Inr bs, s')"
    and "rs = as @ bs" and "length as = length xs"
  using assms
proof (induction xs arbitrary: s rs thesis)
  case (Cons x xs)
  from Cons.prems(2) obtain r s1 rs1 where h: "h x s = (Inr r, s1)"
    and rest: "send_each h (xs @ ys) s1 = (Inr rs1, s')" and rs: "rs = r # rs1"
    by (auto split: prod.splits sum.splits)
  show ?case
  proof (rule Cons.IH [OF _ rest])
    fix as s2 bs
    assume "send_each h xs s1 = (Inr as, s2)" "send_each h ys s2 = (Inr bs, s')" "rs1 = as @ bs"
      "length as = length xs"
    then show thesis using Cons.prems(1) [of "r # as" s2 bs] h rs by simp
  qed
qed simp

definition one_by_one :: "('s, 'e) buffer_config \<Rightarrow> bool" where
  "one_by_one cfg \<longleftrightarrow> ic_batch (bg_client cfg) = None \<and> 0 < attempts_of cfg"

lemma flush_direct:
  assumes "one_by_one cfg" and "send_each (ic_handle (bg_client cfg)) (bc_buffer b @ es) (bc_inner b) = (Inr rs, s')"
  shows "bc_buffer (flush cfg b) = [] \<and>
    send_each (ic_handle (bg_client cfg)) es (bc_inner (flush cfg b)) = (Inr (drop (length (bc_buffer b)) rs), s')"
proof (rule send_each_append [OF assms(2)])
  fix as s1 bs
  assume "send_each (ic_handle (bg_client cfg)) (bc_buffer b) (bc_inner b) = (Inr as, s1)"
    and "send_each (ic_handle (bg_client cfg)) es s1 = (Inr bs, s')" and "rs = as @ bs"
    and "length as = length (bc_buffer b)"
  then show ?thesis
    using assms(1) send_singly_direct [of "ic_handle (bg_client cfg)" "bc_buffer b" "bc_inner b" as s1 "attempts_of cfg"]
    by (auto simp: flush_def send_buffered_def one_by_one_def)
qed

definition direct_answer :: "dict \<Rightarrow> response \<Rightarrow> 'e buffered_exn + buffered_answer" where
  "direct_answer e r =
     (if should_buffer e = Inr True then Inr Buffered_Response else Inr (Store_Response r))"

lemma bc_started [simp]:
  "bc_buffer (start b) = bc_buffer b" "bc_inner (start b) = bc_inner b"
  by (simp_all add: start_def)

lemma handle_direct:
  assumes one: "one_by_one cfg" and w: "should_buffer e = Inr w"
    and run: "send_each (ic_handle (bg_client cfg)) (bc_buffer b @ e # es) (bc_inner b) = (Inr rs, s')"
    and step: "buffered_handle cfg e b = (a, b')"
  obtains rs' where "a = direct_answer e (rs ! length (bc_buffer b))"
    and "send_each (ic_handle (bg_client cfg)) (bc_buffer b' @ es) (bc_inner b') = (Inr rs', s')"
    and "drop (length (bc_buffer b')) rs' = drop (Suc (length (bc_buffer b))) rs"
proof -
  let ?h = "ic_handle (bg_client cfg)"
  define b1 where "b1 = (if \<not> bc_flush_task b \<and> \<not> bc_closed b then start b else b)"
  have b1: "bc_buffer b1 = bc_buffer b" "bc_inner b1 = bc_inner b" by (simp_all add: b1_def)
  show thesis
  proof (cases w)
    case True
    define b2 where "b2 = b1\<lparr>bc_buffer := bc_buffer b1 @ [e]\<rparr>"
    have run2: "send_each ?h (bc_buffer b2 @ es) (bc_inner b2) = (Inr rs, s')"
      and len: "length (bc_buffer b2) = Suc (length (bc_buffer b))"
      using run b1 by (simp_all add: b2_def)
    have a: "a = direct_answer e (rs ! length (bc_buffer b))"
      using step w True by (auto simp: buffered_handle_def direct_answer_def Let_def)
    show thesis
    proof (cases "int (length (bc_buffer b2)) \<ge> bg_max_buffer_size cfg")
      case flushes: True
      then have "b' = flush cfg b2"
        using step w True by (auto simp: buffered_handle_def Let_def b2_def b1_def)
      then show thesis using that [OF a] flush_direct [OF one run2] len by simp
    next
      case False
      then have "b' = b2" using step w True by (auto simp: buffered_handle_def Let_def b2_def b1_def)
      then show thesis using that [OF a] run2 len by simp
    qed
  next
    case False
    have fl: "bc_buffer (flush cfg b1) = []"
      "send_each ?h (e # es) (bc_inner (flush cfg b1)) = (Inr (drop (length (bc_buffer b)) rs), s')"
      using flush_direct [OF one, of b1 "e # es"] run b1 by simp_all
    then obtain r s1 rs1 where h: "?h e (bc_inner (flush cfg b1)) = (Inr r, s1)"
      and rest: "send_each ?h es s1 = (Inr rs1, s')" and d: "drop (length (bc_buffer b)) rs = r # rs1"
      by (auto split: prod.splits sum.splits)
    have "b' = (flush cfg b1)\<lparr>bc_inner := s1\<rparr>" and "a = Inr (Store_Response r)"
      using step w False h by (auto simp: buffered_handle_def Let_def b1_def)
    moreover have "r = rs ! length (bc_buffer b)" using d by (simp add: nth_via_drop)
    moreover have "rs1 = drop (Suc (length (bc_buffer b))) rs"
      using d by (metis drop_Suc list.sel(3) tl_drop)
    ultimately show thesis using that [of rs1] w False rest fl(1) by (simp add: direct_answer_def)
  qed
qed

lemma run_direct:
  assumes "one_by_one cfg" and "\<forall>e \<in> set es. \<exists>w. should_buffer e = Inr w"
    and "send_each (ic_handle (bg_client cfg)) (bc_buffer b @ es) (bc_inner b) = (Inr rs, s')"
    and "buffered_run cfg es b = (answers, b')"
  shows "answers = map2 direct_answer es (drop (length (bc_buffer b)) rs) \<and>
    (\<exists>rs'. send_each (ic_handle (bg_client cfg)) (bc_buffer b') (bc_inner b') = (Inr rs', s'))"
  using assms(2-)
proof (induction es arbitrary: b rs answers)
  case (Cons e es)
  obtain a b1 where h: "buffered_handle cfg e b = (a, b1)" by (cases "buffered_handle cfg e b")
  obtain as where run: "buffered_run cfg es b1 = (as, b')" and answers: "answers = a # as"
    using Cons.prems(3) h by (auto split: prod.splits)
  obtain w where w: "should_buffer e = Inr w" using Cons.prems(1) by auto
  obtain rs1 where a: "a = direct_answer e (rs ! length (bc_buffer b))"
    and run1: "send_each (ic_handle (bg_client cfg)) (bc_buffer b1 @ es) (bc_inner b1) = (Inr rs1, s')"
    and d: "drop (length (bc_buffer b1)) rs1 = drop (Suc (length (bc_buffer b))) rs"
    by (rule handle_direct [OF assms(1) w Cons.prems(2) h])
  have lt: "length (bc_buffer b) < length rs"
    using send_each_length [OF Cons.prems(2)] by simp
  have "as = map2 direct_answer es (drop (Suc (length (bc_buffer b))) rs) \<and>
      (\<exists>rs'. send_each (ic_handle (bg_client cfg)) (bc_buffer b') (bc_inner b') = (Inr rs', s'))"
    using Cons.IH [OF _ run1 run] Cons.prems(1) d by simp
  then show ?case using answers a by (simp add: Cons_nth_drop_Suc [OF lt, symmetric])
qed auto

lemma close_direct:
  assumes "one_by_one cfg" and "send_each (ic_handle (bg_client cfg)) (bc_buffer b) (bc_inner b) = (Inr rs, s')"
  shows "bc_buffer (close_buffered cfg inner_close b) = [] \<and>
    bc_inner (close_buffered cfg inner_close b) = inner_close s'"
  using flush_direct [OF assms(1), of "b\<lparr>bc_closed := True, bc_flush_task := False\<rparr>" "[]" rs s'] assms(2)
  by (simp add: close_buffered_def Let_def)

text \<open>A client for concrete runs: it keeps what it is given, in order, and answers by a rule.\<close>

definition journal :: "(dict \<Rightarrow> response) \<Rightarrow> dict \<Rightarrow> dict list \<Rightarrow> (unit + response) \<times> dict list" where
  "journal answer e s = (Inr (answer e), s @ [e])"

definition journal_config :: "(dict \<Rightarrow> response) \<Rightarrow> (dict list, unit) buffer_config" where
  "journal_config answer =
     \<lparr>bg_client = \<lparr>ic_handle = journal answer, ic_batch = None, ic_owns_retry = False\<rparr>,
      bg_max_buffer_size = 2, bg_max_retries = 3\<rparr>"

definition auto_action :: "string \<Rightarrow> dict" where
  "auto_action sid =
     [(''event_type'', JStr ''ACTION_RECORD''), (''session_id'', JStr sid),
      (''payload'', JObj [(''authorization_status'', JStr ''auto_authorized'')])]"

definition closing :: "string \<Rightarrow> dict" where
  "closing sid = [(''event_type'', JStr ''SESSION_CLOSE''), (''session_id'', JStr sid)]"

lemma sample_envelopes [simp]:
  "should_buffer (auto_action sid) = Inr True" "should_buffer (closing sid) = Inr False"
  by (simp_all add: should_buffer_def auto_action_def closing_def dget_def)

text \<open>Over a client that has no batch method and does not raise, the wrapper is transparent: once it
  is closed the inner client is in the state it has when it is given every envelope directly, in
  order, nothing is left in the buffer, and each envelope that is not an auto-authorized action got
  the answer it gets directly.\<close>

theorem buffering_transparent:
  assumes "one_by_one cfg" and "\<forall>e \<in> set es. \<not> isl (should_buffer e)"
    and "send_each (ic_handle (bg_client cfg)) es s = (Inr rs, s')"
    and "buffered_run cfg es (new_buffered s) = (answers, b)"
  shows "answers = map2 direct_answer es rs \<and> bc_buffer (close_buffered cfg inner_close b) = [] \<and>
    bc_inner (close_buffered cfg inner_close b) = inner_close s'"
proof -
  have "\<forall>e \<in> set es. \<exists>w. should_buffer e = Inr w"
    using assms(2) by (metis isl_def sum.exhaust)
  moreover have "send_each (ic_handle (bg_client cfg)) (bc_buffer (new_buffered s) @ es) (bc_inner (new_buffered s))
      = (Inr rs, s')"
    using assms(3) by (simp add: new_buffered_def)
  ultimately obtain rs' where "answers = map2 direct_answer es rs"
    and "send_each (ic_handle (bg_client cfg)) (bc_buffer b) (bc_inner b) = (Inr rs', s')"
    using run_direct [OF assms(1) _ _ assms(4)] by (fastforce simp: new_buffered_def)
  with close_direct [OF assms(1)] show ?thesis by blast
qed

theorem buffering_transparent_witness:
  "\<exists>answers b. buffered_run (journal_config (\<lambda>e. accepted 1 None None None))
      [auto_action ''a'', auto_action ''b'', auto_action ''c'', closing ''a''] (new_buffered []) = (answers, b) \<and>
     bc_inner (close_buffered (journal_config (\<lambda>e. accepted 1 None None None)) (\<lambda>s. s) b) =
       [auto_action ''a'', auto_action ''b'', auto_action ''c'', closing ''a'']"
proof -
  let ?cfg = "journal_config (\<lambda>e. accepted 1 None None None)"
  let ?es = "[auto_action ''a'', auto_action ''b'', auto_action ''c'', closing ''a'']"
  obtain answers b where run: "buffered_run ?cfg ?es (new_buffered []) = (answers, b)"
    by (cases "buffered_run ?cfg ?es (new_buffered [])")
  have one: "one_by_one ?cfg" by (simp add: one_by_one_def journal_config_def attempts_of_def)
  have direct: "send_each (ic_handle (bg_client ?cfg)) ?es [] =
      (Inr (replicate 4 (accepted 1 None None None)), ?es)"
    by (simp add: journal_config_def journal_def eval_nat_numeral)
  have "\<forall>e \<in> set ?es. \<not> isl (should_buffer e)" by simp
  from buffering_transparent [OF one this direct run, of "\<lambda>s. s"] run show ?thesis by auto
qed

text \<open>A flush over a client with a batch method, however it answers, raises or cuts its answers
  short: each buffered envelope either got an answer that does not ask for a retry or is still in
  the buffer, exactly once, and what is left keeps its order.\<close>

theorem flush_conserves:
  assumes "ic_batch (bg_client cfg) = Some (recording f)" and "bc_inner b = (s, past)"
  shows "subseq (bc_buffer (flush cfg b)) (bc_buffer b) \<and>
    (\<exists>answers. snd (bc_inner (flush cfg b)) = past @ answers \<and>
       mset (bc_buffer b) = mset (bc_buffer (flush cfg b)) + mset (settled_in answers))"
proof (cases "bc_buffer b = []")
  case True
  then show ?thesis using assms by (simp add: flush_def)
next
  case False
  obtain failed s' past' where
    r: "send_batch_with_retry (recording f) (attempts_of cfg) (bc_buffer b) (s, past) = (failed, (s', past'))"
    by (metis surj_pair)
  then show ?thesis
    using recorded_attempts [OF r] False assms by (simp add: flush_def send_buffered_def)
qed

definition sample_batch :: "dict list \<Rightarrow> nat \<Rightarrow> (unit + response list) \<times> nat" where
  "sample_batch batch s = (Inr [accepted 1 None None None, rejected 2 STORE_UNAVAILABLE [] True], Suc s)"

definition sample_config :: "(nat \<times> (dict \<times> response) list, unit) buffer_config" where
  "sample_config =
     \<lparr>bg_client = \<lparr>ic_handle = (\<lambda>e s. (Inr (accepted 1 None None None), s)),
        ic_batch = Some (recording sample_batch), ic_owns_retry = True\<rparr>,
      bg_max_buffer_size = 2, bg_max_retries = 3\<rparr>"

theorem flush_conserves_witness:
  "let b = (new_buffered (0, []))\<lparr>bc_buffer := [auto_action ''a'', auto_action ''b'', auto_action ''c'']\<rparr> in
   bc_buffer (flush sample_config b) = [auto_action ''b'', auto_action ''c''] \<and>
   (\<exists>answers. mset (bc_buffer b) = mset (bc_buffer (flush sample_config b)) + mset (settled_in answers))"
proof -
  let ?b = "(new_buffered (0::nat, []))\<lparr>bc_buffer := [auto_action ''a'', auto_action ''b'', auto_action ''c'']\<rparr>"
  have c: "ic_batch (bg_client sample_config) = Some (recording sample_batch)" "bc_inner ?b = (0, [])"
    by (simp_all add: sample_config_def new_buffered_def)
  have "bc_buffer (flush sample_config ?b) = [auto_action ''b'', auto_action ''c'']"
    by (simp add: flush_def send_buffered_def sample_config_def new_buffered_def attempts_of_def
        recording_def sample_batch_def wants_retry_def eval_nat_numeral)
  with flush_conserves [OF c] show ?thesis by (auto simp: Let_def)
qed

definition single_client :: "(dict \<Rightarrow> 's \<Rightarrow> ('e + response) \<times> 's) \<Rightarrow> int \<Rightarrow> ('s, 'e) buffer_config" where
  "single_client h retries =
     \<lparr>bg_client = \<lparr>ic_handle = h, ic_batch = None, ic_owns_retry = False\<rparr>, bg_max_buffer_size = 100,
      bg_max_retries = retries\<rparr>"

definition batch_client :: "(dict \<Rightarrow> 's \<Rightarrow> ('e + response) \<times> 's) \<Rightarrow> int \<Rightarrow> ('s, 'e) buffer_config" where
  "batch_client h retries =
     \<lparr>bg_client = \<lparr>ic_handle = h, ic_batch = Some (send_each h), ic_owns_retry = False\<rparr>, bg_max_buffer_size = 100,
      bg_max_retries = retries\<rparr>"

lemma batch_keeps_refused:
  assumes "\<And>s. fst (h a s) = Inr r" and "wants_retry r"
  shows "fst (send_batch_with_retry (send_each h) n [a] s) = [a]"
proof (induction n arbitrary: s)
  case (Suc n)
  obtain s' where "h a s = (Inr r, s')" using assms(1) by (metis prod.collapse)
  then show ?case using Suc assms(2) by simp
qed simp

text \<open>A retryable rejection of a buffered action is kept for the next flush when the inner client
  has a batch method, and dropped after one attempt when it has not: the loop over single envelopes
  looks at exceptions only.\<close>

theorem retryable_rejection_dropped:
  assumes "\<forall>s. fst (h a s) = Inr r" and "wants_retry r" and "bc_buffer b = [a]" and "0 < retries"
  shows "bc_buffer (flush (single_client h retries) b) = [] \<and>
    bc_inner (flush (single_client h retries) b) = snd (h a (bc_inner b)) \<and>
    bc_buffer (flush (batch_client h retries) b) = [a]"
proof -
  obtain n where n: "nat retries = Suc n" using assms(4) by (cases "nat retries") auto
  obtain s' where h: "h a (bc_inner b) = (Inr r, s')" using assms(1) by (metis prod.collapse)
  have single: "bc_buffer (flush (single_client h retries) b) = [] \<and>
      bc_inner (flush (single_client h retries) b) = snd (h a (bc_inner b))"
    using assms(3) h n by (simp add: flush_def send_buffered_def single_client_def attempts_of_def)
  have "fst (send_batch_with_retry (send_each h) (nat retries) [a] (bc_inner b)) = [a]"
    using assms(1,2) by (intro batch_keeps_refused [of h a r]) auto
  then have "bc_buffer (flush (batch_client h retries) b) = [a]"
    using assms(3) by (simp add: flush_def send_buffered_def batch_client_def attempts_of_def split_beta)
  with single show ?thesis by blast
qed

theorem retryable_rejection_dropped_witness:
  "let h = journal (\<lambda>e. rejected 1 STORE_UNAVAILABLE [] True);
       b = (new_buffered [])\<lparr>bc_buffer := [auto_action ''a'']\<rparr>
   in bc_buffer (flush (single_client h 3) b) = [] \<and> bc_buffer (flush (batch_client h 3) b) = [auto_action ''a'']"
proof -
  let ?h = "journal (\<lambda>e. rejected 1 STORE_UNAVAILABLE [] True)"
  let ?b = "(new_buffered [])\<lparr>bc_buffer := [auto_action ''a'']\<rparr>"
  have "\<forall>s. fst (?h (auto_action ''a'') s) = Inr (rejected 1 STORE_UNAVAILABLE [] True)"
    and "wants_retry (rejected 1 STORE_UNAVAILABLE [] True)" and "bc_buffer ?b = [auto_action ''a'']"
    by (simp_all add: journal_def wants_retry_def)
  from retryable_rejection_dropped [of ?h "auto_action ''a''" _ ?b 3, OF this] show ?thesis by (simp add: Let_def)
qed

section \<open>Interleaved tasks\<close>

text \<open>A task has drained the buffer and holds what is still to be sent, the attempts left, and the
  passthrough envelope it forwards once its own flush is over (\<open>None\<close> for the background
  loop and for a flush of a full buffer). \<open>tk_attempts\<close> is 0 when the loop is over.
  \<open>bs_handed\<close> lists every envelope given to \<open>handle\<close>, \<open>bs_settled\<close> every envelope the inner
  client settled, both in order.\<close>

record task =
  tk_attempts :: nat
  tk_pending :: "dict list"
  tk_then :: "dict option"

record tasks_state =
  bs_buffer :: "dict list"
  bs_tasks :: "task list"
  bs_forwarding :: "dict list"
  bs_handed :: "dict list"
  bs_settled :: "dict list"

definition idle :: tasks_state where
  "idle = \<lparr>bs_buffer = [], bs_tasks = [], bs_forwarding = [], bs_handed = [], bs_settled = []\<rparr>"

inductive buffer_step :: "nat \<Rightarrow> tasks_state \<Rightarrow> tasks_state \<Rightarrow> bool" for attempts :: nat where
  take_in: "should_buffer e = Inr True \<Longrightarrow>
    buffer_step attempts s (s\<lparr>bs_buffer := bs_buffer s @ [e], bs_handed := bs_handed s @ [e]\<rparr>)"
| drain: "bs_buffer s \<noteq> [] \<Longrightarrow>
    buffer_step attempts s (s\<lparr>bs_buffer := [],
      bs_tasks := bs_tasks s @ [\<lparr>tk_attempts = attempts, tk_pending = bs_buffer s, tk_then = None\<rparr>]\<rparr>)"
| pass_through: "should_buffer e = Inr False \<Longrightarrow>
    buffer_step attempts s (s\<lparr>bs_buffer := [], bs_handed := bs_handed s @ [e],
      bs_tasks := bs_tasks s @ [\<lparr>tk_attempts = attempts, tk_pending = bs_buffer s, tk_then = Some e\<rparr>]\<rparr>)"
| answered: "bs_tasks s = ts @ t # us \<Longrightarrow> tk_attempts t = Suc left \<Longrightarrow> tk_pending t \<noteq> [] \<Longrightarrow>
    buffer_step attempts s (s\<lparr>
      bs_tasks := ts @ t\<lparr>tk_attempts := left, tk_pending := unsent (tk_pending t) rs\<rparr> # us,
      bs_settled := bs_settled s @ settled_by (tk_pending t) rs\<rparr>)"
| flushed: "bs_tasks s = ts @ t # us \<Longrightarrow> tk_attempts t = 0 \<or> tk_pending t = [] \<Longrightarrow>
    buffer_step attempts s (s\<lparr>bs_tasks := ts @ us, bs_buffer := tk_pending t @ bs_buffer s,
      bs_forwarding := bs_forwarding s @ (case tk_then t of None \<Rightarrow> [] | Some e \<Rightarrow> [e])\<rparr>)"
| forwarded: "bs_forwarding s = es @ e # fs \<Longrightarrow>
    buffer_step attempts s (s\<lparr>bs_forwarding := es @ fs, bs_settled := bs_settled s @ [e]\<rparr>)"

inductive reachable :: "nat \<Rightarrow> tasks_state \<Rightarrow> bool" for attempts :: nat where
  reachable_idle: "reachable attempts idle"
| reachable_step: "reachable attempts s \<Longrightarrow> buffer_step attempts s s' \<Longrightarrow> reachable attempts s'"

definition held_by :: "task \<Rightarrow> dict list" where
  "held_by t = tk_pending t @ (case tk_then t of None \<Rightarrow> [] | Some e \<Rightarrow> [e])"

definition in_hand :: "tasks_state \<Rightarrow> dict list" where
  "in_hand s = bs_buffer s @ concat (map held_by (bs_tasks s)) @ bs_forwarding s"

lemma step_conserves:
  assumes "buffer_step attempts s s'" and "mset (bs_handed s) = mset (in_hand s) + mset (bs_settled s)"
  shows "mset (bs_handed s') = mset (in_hand s') + mset (bs_settled s')"
  using assms(1)
proof (cases rule: buffer_step.cases)
  case (answered ts t us left rs)
  then show ?thesis
    using assms(2) unsent_or_settled [of "tk_pending t" rs] by (simp add: in_hand_def held_by_def)
qed (use assms(2) in \<open>auto simp: in_hand_def held_by_def split: option.splits\<close>)

lemma overtaken_in_flight:
  assumes "should_buffer a = Inr True" and "should_buffer e = Inr False"
  shows "\<exists>s. reachable 1 s \<and> bs_handed s = [a, e] \<and> bs_settled s = [e, a]"
proof -
  let ?st = "\<lambda>b ts f h z. \<lparr>bs_buffer = b, bs_tasks = ts, bs_forwarding = f, bs_handed = h, bs_settled = z\<rparr>"
  let ?t = "\<lparr>tk_attempts = 1, tk_pending = [a], tk_then = None\<rparr>"
  let ?u = "\<lparr>tk_attempts = 1, tk_pending = [], tk_then = Some e\<rparr>"
  let ?ok = "[accepted 1 None None None]"
  have "reachable 1 (?st [] [] [] [] [])"
    using reachable_idle [of 1] by (simp add: idle_def)
  then have "reachable 1 (?st [a] [] [] [a] [])"
    using reachable_step [OF _ take_in [OF assms(1)]] by force
  then have "reachable 1 (?st [] [?t] [] [a] [])"
    using reachable_step [OF _ drain] by force
  then have "reachable 1 (?st [] [?t, ?u] [] [a, e] [])"
    using reachable_step [OF _ pass_through [OF assms(2)]] by force
  then have "reachable 1 (?st [] [?t] [e] [a, e] [])"
    using reachable_step [OF _ flushed [of _ "[?t]" ?u "[]"]] by force
  then have "reachable 1 (?st [] [?t] [] [a, e] [e])"
    using reachable_step [OF _ forwarded [of _ "[]" e "[]"]] by force
  then have "reachable 1 (?st [] [?t\<lparr>tk_attempts := 0, tk_pending := []\<rparr>] [] [a, e] [e, a])"
    using reachable_step [OF _ answered [of _ "[]" ?t "[]" 0 _ ?ok]] by (force simp: wants_retry_def)
  then show ?thesis by force
qed

lemma overtaken_by_failure:
  assumes "should_buffer a = Inr True" and "should_buffer e = Inr False"
  shows "\<exists>s. reachable 1 s \<and> bs_handed s = [a, e] \<and> bs_settled s = [e] \<and> bs_buffer s = [a] \<and> bs_tasks s = []"
proof -
  let ?st = "\<lambda>b ts f h z. \<lparr>bs_buffer = b, bs_tasks = ts, bs_forwarding = f, bs_handed = h, bs_settled = z\<rparr>"
  let ?u = "\<lambda>n. \<lparr>tk_attempts = n, tk_pending = [a], tk_then = Some e\<rparr>"
  have "reachable 1 (?st [] [] [] [] [])"
    using reachable_idle [of 1] by (simp add: idle_def)
  then have "reachable 1 (?st [a] [] [] [a] [])"
    using reachable_step [OF _ take_in [OF assms(1)]] by force
  then have "reachable 1 (?st [] [?u 1] [] [a, e] [])"
    using reachable_step [OF _ pass_through [OF assms(2)]] by force
  then have "reachable 1 (?st [] [?u 0] [] [a, e] [])"
    using reachable_step [OF _ answered [of _ "[]" "?u 1" "[]" 0 _ "[]"]] by force
  then have "reachable 1 (?st [a] [] [e] [a, e] [])"
    using reachable_step [OF _ flushed [of _ "[]" "?u 0" "[]"]] by force
  then have "reachable 1 (?st [a] [] [] [a, e] [e])"
    using reachable_step [OF _ forwarded [of _ "[]" e "[]"]] by force
  then show ?thesis by force
qed



text \<open>The wrapper's contract is that an envelope it does not buffer never overtakes a buffered
  action. It does: while the background flush waits for the answer to a batch the buffer is empty, so
  the envelope is forwarded at once. And after a failed flush, whose records go back to the buffer, it
  is forwarded all the same.\<close>

theorem passthrough_overtakes:
  assumes "should_buffer a = Inr True" and "should_buffer e = Inr False"
  shows "(\<exists>s. reachable 1 s \<and> bs_handed s = [a, e] \<and> bs_settled s = [e, a]) \<and>
    (\<exists>s. reachable 1 s \<and> bs_handed s = [a, e] \<and> bs_settled s = [e] \<and> bs_buffer s = [a] \<and> bs_tasks s = [])"
  using overtaken_in_flight [OF assms] overtaken_by_failure [OF assms] by blast

theorem passthrough_overtakes_witness:
  "\<exists>s. reachable 1 s \<and> bs_handed s = [auto_action ''a'', closing ''a''] \<and>
     bs_settled s = [closing ''a'', auto_action ''a'']"
  using passthrough_overtakes [of "auto_action ''a''" "closing ''a''"] by simp

end
