(* ===== verification/Redaction.thy ===== *)
theory Redaction
  imports Chain_State
begin

text \<open>
  \<^verbatim>\<open>rootsign/sdk/redaction.py\<close>: field-by-field redaction of a payload. Python's \<open>re\<close>
  module is two arguments: \<open>compile\<close>, which may raise, and \<open>search\<close>, whether a pattern
  matches somewhere in a text. Payloads are JSON values, so \<open>str(value)\<close> never raises. The
  pattern tables of the pre-built configurations are data for \<open>re\<close> and are left out.
\<close>

section \<open>Configurations\<close>

record 'p redaction_config =
  rc_match_mode :: string
  rc_leaf_rules :: "(string \<times> 'p) list"
  rc_path_rules :: "(string \<times> 'p) list"

definition redacted_placeholder :: string where
  "redacted_placeholder = ''[REDACTED]''"

definition max_redaction_depth :: nat where
  "max_redaction_depth = 5"

fun compile_rules ::
  "(string \<Rightarrow> pyexc + 'p) \<Rightarrow> (string \<times> string) list \<Rightarrow> 'p redaction_config \<Rightarrow> pyexc + 'p redaction_config" where
  "compile_rules compile [] cfg = Inr cfg"
| "compile_rules compile ((key, pattern) # rules) cfg =
     (case compile pattern of
        Inl e \<Rightarrow> Inl e
      | Inr p \<Rightarrow>
          compile_rules compile rules
            (if rc_match_mode cfg = ''path'' \<or> CHR ''.'' \<in> set key
             then cfg\<lparr>rc_path_rules := AList.update key p (rc_path_rules cfg)\<rparr>
             else cfg\<lparr>rc_leaf_rules := AList.update key p (rc_leaf_rules cfg)\<rparr>))"

definition make_config ::
  "(string \<Rightarrow> pyexc + 'p) \<Rightarrow> (string \<times> string) list \<Rightarrow> string \<Rightarrow> pyexc + 'p redaction_config" where
  "make_config compile rules match_mode =
     (if match_mode \<noteq> ''leaf'' \<and> match_mode \<noteq> ''path''
      then Inl (ValueError ''match_mode must be leaf or path'')
      else compile_rules compile rules
             \<lparr>rc_match_mode = match_mode, rc_leaf_rules = [], rc_path_rules = []\<rparr>)"

definition has_rules :: "'p redaction_config \<Rightarrow> bool" where
  "has_rules cfg \<longleftrightarrow> rc_leaf_rules cfg \<noteq> [] \<or> rc_path_rules cfg \<noteq> []"

section \<open>Redacting a payload\<close>

definition leaf_of :: "string \<Rightarrow> string" where
  "leaf_of path = rev (takeWhile (\<lambda>c. c \<noteq> CHR ''.'') (rev path))"

definition matched_rule :: "'p redaction_config \<Rightarrow> string \<Rightarrow> 'p option" where
  "matched_rule cfg path =
     (case map_of (rc_path_rules cfg) path of
        Some p \<Rightarrow> Some p
      | None \<Rightarrow> map_of (rc_leaf_rules cfg) (leaf_of path))"

definition join_path :: "string \<Rightarrow> string \<Rightarrow> string" where
  "join_path path k = (if path = [] then k else path @ ''.'' @ k)"

fun container :: "json \<Rightarrow> bool" where
  "container (JObj d) = True"
| "container (JArr xs) = True"
| "container v = False"

text \<open>Whether the rule for a path redacts a value.\<close>

definition hit :: "('p \<Rightarrow> string \<Rightarrow> bool) \<Rightarrow> 'p redaction_config \<Rightarrow> string \<Rightarrow> json \<Rightarrow> bool" where
  "hit search cfg path v \<longleftrightarrow>
     (case matched_rule cfg path of
        None \<Rightarrow> False
      | Some rule \<Rightarrow> v \<noteq> JNull \<and> \<not> container v \<and> search rule (py_str v))"

lemma size_item: "x \<in> set xs \<Longrightarrow> size (x :: json) \<le> size_list size xs"
  by (induction xs) auto

lemma size_entry: "(k, v) \<in> set d \<Longrightarrow> size (v :: json) \<le> size_list (size_prod (\<lambda>_. 0) size) d"
  by (induction d) auto

function redact_value :: "('p \<Rightarrow> string \<Rightarrow> bool) \<Rightarrow> 'p redaction_config \<Rightarrow> string \<Rightarrow> nat \<Rightarrow> json \<Rightarrow> json"
  and redact_dict :: "('p \<Rightarrow> string \<Rightarrow> bool) \<Rightarrow> 'p redaction_config \<Rightarrow> string \<Rightarrow> nat \<Rightarrow> dict \<Rightarrow> json" where
  "redact_value search cfg path depth v =
     (if depth > max_redaction_depth then JStr redacted_placeholder
      else if hit search cfg path v then JStr redacted_placeholder
      else case v of
             JObj d \<Rightarrow> redact_dict search cfg path depth d
           | JArr xs \<Rightarrow> JArr (map (redact_value search cfg path (depth + 1)) xs)
           | _ \<Rightarrow> v)"
| "redact_dict search cfg path depth d =
     (if depth > max_redaction_depth then JStr redacted_placeholder
      else JObj (map (\<lambda>(k, v). (k, redact_value search cfg (join_path path k) (depth + 1) v)) d))"
  by pat_completeness auto
termination
  by (relation "measure (\<lambda>s. case s of Inl (_, _, _, _, v) \<Rightarrow> 2 * size v | Inr (_, _, _, _, d) \<Rightarrow> 2 * size_list (size_prod (\<lambda>_. 0) size) d + 1)")
    (auto simp: less_Suc_eq_le dest: size_item size_entry)

definition redact :: "('p \<Rightarrow> string \<Rightarrow> bool) \<Rightarrow> 'p redaction_config \<Rightarrow> json \<Rightarrow> json" where
  "redact search cfg payload =
     (case payload of
        JObj d \<Rightarrow> if has_rules cfg then redact_dict search cfg [] 0 d else payload
      | _ \<Rightarrow> payload)"

declare redact_value.simps [simp del] redact_dict.simps [simp del]

lemma redact_deep [simp]:
  "depth > max_redaction_depth \<Longrightarrow> redact_value search cfg path depth v = JStr redacted_placeholder"
  "depth > max_redaction_depth \<Longrightarrow> redact_dict search cfg path depth d = JStr redacted_placeholder"
  by (simp_all add: redact_value.simps redact_dict.simps)

lemma no_hit_container [simp]: "\<not> hit search cfg path (JObj d)" "\<not> hit search cfg path (JArr xs)"
  by (auto simp: hit_def split: option.splits)

lemma redact_shallow:
  assumes "\<not> depth > max_redaction_depth"
  shows "redact_value search cfg path depth (JObj d) = redact_dict search cfg path depth d"
    and "redact_value search cfg path depth (JArr xs) = JArr (map (redact_value search cfg path (Suc depth)) xs)"
    and "redact_dict search cfg path depth d =
      JObj (map (\<lambda>(k, v). (k, redact_value search cfg (join_path path k) (Suc depth) v)) d)"
  using assms
  by (simp_all add: redact_value.simps [of search cfg path depth] redact_dict.simps [of search cfg path depth])

lemma redact_scalar:
  "\<not> depth > max_redaction_depth \<Longrightarrow> \<not> container v \<Longrightarrow> redact_value search cfg path depth v =
     (if hit search cfg path v then JStr redacted_placeholder else v)"
  by (cases v) (simp_all add: redact_value.simps [of search cfg path depth])

section \<open>What redaction guarantees\<close>

text \<open>No scalar below \<open>path\<close> is one its rule matches, the placeholder apart.\<close>

fun clean :: "('p \<Rightarrow> string \<Rightarrow> bool) \<Rightarrow> 'p redaction_config \<Rightarrow> string \<Rightarrow> json \<Rightarrow> bool" where
  "clean search cfg path (JObj d) \<longleftrightarrow> list_all (\<lambda>(k, v). clean search cfg (join_path path k) v) d"
| "clean search cfg path (JArr xs) \<longleftrightarrow> list_all (clean search cfg path) xs"
| "clean search cfg path v \<longleftrightarrow> v = JStr redacted_placeholder \<or> \<not> hit search cfg path v"

fun nesting :: "json \<Rightarrow> nat" where
  "nesting (JObj d) = Suc (foldr max (map (\<lambda>(k, v). nesting v) d) 0)"
| "nesting (JArr xs) = Suc (foldr max (map nesting xs) 0)"
| "nesting v = 0"

lemma foldr_max_le: "foldr max (ns :: nat list) 0 \<le> b \<longleftrightarrow> (\<forall>n \<in> set ns. n \<le> b)"
  by (induction ns) auto

text \<open>Induction over a value and the levels left.\<close>

lemma redact_induct [case_names deep dict arr scalar]:
  assumes "\<And>path depth v. depth > max_redaction_depth \<Longrightarrow> P path depth v"
    and "\<And>path depth d. \<not> depth > max_redaction_depth \<Longrightarrow>
      (\<And>k v. (k, v) \<in> set d \<Longrightarrow> P (join_path path k) (Suc depth) v) \<Longrightarrow> P path depth (JObj d)"
    and "\<And>path depth xs. \<not> depth > max_redaction_depth \<Longrightarrow>
      (\<And>v. v \<in> set xs \<Longrightarrow> P path (Suc depth) v) \<Longrightarrow> P path depth (JArr xs)"
    and "\<And>path depth v. \<not> depth > max_redaction_depth \<Longrightarrow> \<not> container v \<Longrightarrow> P path depth v"
  shows "P path depth v"
proof (induction "max_redaction_depth + 1 - depth" arbitrary: path depth v rule: less_induct)
  case (less depth path v)
  show ?case
  proof (cases "depth > max_redaction_depth")
    case False
    then have "P p (Suc depth) w" for p w using less by simp
    then show ?thesis using False assms(2-4) by (cases v) simp_all
  qed (rule assms(1))
qed

lemma redact_clean: "clean search cfg path (redact_value search cfg path depth v)"
proof (induction path depth v rule: redact_induct)
  case (scalar path depth v)
  then show ?case by (cases v) (auto simp: redact_scalar)
qed (auto simp: redact_shallow list_all_iff)

lemma placeholder_again [simp]:
  "redact_value search cfg path depth (JStr redacted_placeholder) = JStr redacted_placeholder"
  by (cases "depth > max_redaction_depth") (simp_all add: redact_scalar)

lemma redact_again:
  "redact_value search cfg path depth (redact_value search cfg path depth v) = redact_value search cfg path depth v"
proof (induction path depth v rule: redact_induct)
  case (scalar path depth v)
  then show ?case by (cases "hit search cfg path v") (simp_all add: redact_scalar)
qed (auto simp: redact_shallow)

lemma redact_nesting:
  "nesting (redact_value search cfg path depth v) \<le> max_redaction_depth + 1 - depth"
proof (induction path depth v rule: redact_induct)
  case (dict path depth d)
  then show ?case by (fastforce simp: redact_shallow foldr_max_le Suc_diff_le)
next
  case (arr path depth xs)
  then show ?case by (fastforce simp: redact_shallow foldr_max_le Suc_diff_le)
next
  case (scalar path depth v)
  then show ?case by (cases v) (simp_all add: redact_scalar)
qed simp

lemma clean_no_rules: "\<not> has_rules cfg \<Longrightarrow> clean search cfg path v"
  by (induction search cfg path v rule: clean.induct)
    (auto simp: list_all_iff hit_def matched_rule_def has_rules_def)

text \<open>Two values that are the same but for scalars that are both redacted.\<close>

inductive alike :: "('p \<Rightarrow> string \<Rightarrow> bool) \<Rightarrow> 'p redaction_config \<Rightarrow> string \<Rightarrow> json \<Rightarrow> json \<Rightarrow> bool"
  for search :: "'p \<Rightarrow> string \<Rightarrow> bool" and cfg :: "'p redaction_config" where
  alike_same: "alike search cfg path v v"
| alike_hits: "hit search cfg path v \<Longrightarrow> hit search cfg path w \<Longrightarrow> alike search cfg path v w"
| alike_dict: "map fst d = map fst e \<Longrightarrow>
    (\<And>i. i < length d \<Longrightarrow> alike search cfg (join_path path (fst (d ! i))) (snd (d ! i)) (snd (e ! i))) \<Longrightarrow>
    alike search cfg path (JObj d) (JObj e)"
| alike_list: "length xs = length ys \<Longrightarrow> (\<And>i. i < length xs \<Longrightarrow> alike search cfg path (xs ! i) (ys ! i)) \<Longrightarrow>
    alike search cfg path (JArr xs) (JArr ys)"

lemma fields_eq:
  assumes "map fst d = map fst e"
    and "\<And>i. i < length d \<Longrightarrow> f (fst (d ! i)) (snd (d ! i)) = f (fst (d ! i)) (snd (e ! i))"
  shows "map (\<lambda>(k, v). (k, f k v)) d = map (\<lambda>(k, v). (k, f k v)) e"
proof (rule nth_equalityI)
  show len: "length (map (\<lambda>(k, v). (k, f k v)) d) = length (map (\<lambda>(k, v). (k, f k v)) e)"
    using assms(1) by (metis length_map)
  fix i
  assume "i < length (map (\<lambda>(k, v). (k, f k v)) d)"
  then have i: "i < length d" "i < length e" using len by simp_all
  then have "fst (d ! i) = fst (e ! i)" using assms(1) by (metis nth_map)
  then show "map (\<lambda>(k, v). (k, f k v)) d ! i = map (\<lambda>(k, v). (k, f k v)) e ! i"
    using i assms(2) [of i] by (simp add: case_prod_beta)
qed

lemma redact_alike:
  "alike search cfg path v w \<Longrightarrow> redact_value search cfg path depth v = redact_value search cfg path depth w"
proof (induction arbitrary: depth rule: alike.induct)
  case (alike_hits path v w)
  then have "\<not> container v" "\<not> container w" by (auto simp: hit_def split: option.splits)
  with alike_hits show ?case
    by (cases "depth > max_redaction_depth") (simp_all add: redact_scalar)
next
  case (alike_dict d e path)
  show ?case
  proof (cases "depth > max_redaction_depth")
    case False
    have "map (\<lambda>(k, v). (k, redact_value search cfg (join_path path k) (Suc depth) v)) d =
        map (\<lambda>(k, v). (k, redact_value search cfg (join_path path k) (Suc depth) v)) e"
      by (rule fields_eq [where f = "\<lambda>k. redact_value search cfg (join_path path k) (Suc depth)"])
        (use alike_dict in auto)
    with False show ?thesis by (simp add: redact_shallow)
  qed simp
next
  case (alike_list xs ys path)
  then show ?case
    by (cases "depth > max_redaction_depth") (auto simp: redact_shallow intro: nth_equalityI)
qed simp

section \<open>Properties of redaction\<close>


text \<open>Redaction comes before hashing, so a stored hash says nothing of what was redacted: payloads that
  differ only in redacted scalars have the same payload hash.\<close>

theorem hash_hides_redacted:
  assumes "has_rules cfg" and "alike search cfg [] (JObj d) (JObj e)"
  shows "compute_payload_hash (redact search cfg (JObj d)) = compute_payload_hash (redact search cfg (JObj e))"
proof -
  have z: "\<not> 0 > max_redaction_depth" by simp
  show ?thesis
    using redact_alike [OF assms(2), of 0] assms(1) by (simp add: redact_def redact_shallow(1) [OF z])
qed

definition digits_config :: "char redaction_config" where
  "digits_config = \<lparr>rc_match_mode = ''leaf'', rc_leaf_rules = [(''ssn'', CHR ''-'')], rc_path_rules = []\<rparr>"

theorem hash_hides_redacted_witness:
  "compute_payload_hash (redact (\<lambda>c s. c \<in> set s) digits_config
      (JObj [(''kwargs'', JObj [(''ssn'', JStr ''123-45''), (''n'', JInt 1)])])) =
   compute_payload_hash (redact (\<lambda>c s. c \<in> set s) digits_config
      (JObj [(''kwargs'', JObj [(''ssn'', JStr ''9-9''), (''n'', JInt 1)])]))"
proof (rule hash_hides_redacted)
  show "has_rules digits_config" by (simp add: has_rules_def digits_config_def)
  let ?alike = "alike (\<lambda>c s. c \<in> set s) digits_config"
  have hits: "?alike ''kwargs.ssn'' (JStr ''123-45'') (JStr ''9-9'')"
    by (rule alike_hits) (simp_all add: hit_def matched_rule_def digits_config_def leaf_of_def)
  have "?alike ''kwargs'' (JObj [(''ssn'', JStr ''123-45''), (''n'', JInt 1)]) (JObj [(''ssn'', JStr ''9-9''), (''n'', JInt 1)])"
    by (rule alike_dict) (use hits in \<open>auto simp: less_Suc_eq join_path_def intro: alike_same\<close>)
  then show "?alike [] (JObj [(''kwargs'', JObj [(''ssn'', JStr ''123-45''), (''n'', JInt 1)])])
      (JObj [(''kwargs'', JObj [(''ssn'', JStr ''9-9''), (''n'', JInt 1)])])"
    by (intro alike_dict) (auto simp: join_path_def)
qed

text \<open>What redaction returns is at most six containers deep, however deep the payload: past five levels
  it fails closed and a subtree becomes the placeholder.\<close>

theorem redaction_bounds_depth:
  assumes "has_rules cfg"
  shows "nesting (redact search cfg (JObj d)) \<le> max_redaction_depth + 1"
proof -
  have z: "\<not> 0 > max_redaction_depth" by simp
  show ?thesis
    using redact_nesting [of search cfg "[]" 0 "JObj d"] assms
    by (simp add: redact_def redact_shallow(1) [OF z])
qed

theorem redaction_bounds_depth_witness:
  "nesting (redact (\<lambda>c s. c \<in> set s) digits_config (JObj [(''kwargs'', JObj [(''ssn'', JStr ''1-2'')])])) \<le> 6"
  using redaction_bounds_depth [of digits_config "\<lambda>c s. c \<in> set s" "[(''kwargs'', JObj [(''ssn'', JStr ''1-2'')])]"]
  by (simp add: has_rules_def digits_config_def max_redaction_depth_def)

end
