(* ===== verification/Hitl.thy ===== *)
theory Hitl
  imports Approval_Store
begin

text \<open>
  \<^verbatim>\<open>rootsign/sdk/hitl.py\<close>: the checkpoint that polls the store until a pending action is
  resolved or the deadline passes. Time enters as the number of polls the deadline leaves; what
  others commit before each poll, between the last poll and the timeout write, and between a lost
  timeout write and the re-poll, are lists of votes. Rows with the same timestamp, whose order
  Postgres leaves open, are taken in the order they were inserted.
\<close>

section \<open>The checkpoint\<close>

record checkpoint =
  cp_action_id :: uuid
  cp_action_timestamp :: string
  cp_timeout :: int

record hitl_result =
  hr_approval_id :: uuid
  hr_approver_id :: string

datatype hitl_exn = HiTL_Timeout | HiTL_Rejected "string option" | Store_Error store_exn

text \<open>What others commit around one wait, and what the timeout write draws.\<close>

record hitl_env =
  hv_rounds :: "vote list list"
  hv_before_timeout :: "vote list"
  hv_before_repoll :: "vote list"
  hv_approval_id :: uuid
  hv_now :: int

definition approvals_of :: "uuid \<Rightarrow> db \<Rightarrow> approval_row list" where
  "approvals_of i d = filter (\<lambda>r. pr_action_id r = i) (db_approvals d)"

definition poll_once :: "checkpoint \<Rightarrow> db \<Rightarrow> approval_row option" where
  "poll_once cp d =
     (case sort_key (\<lambda>r. - pr_timestamp r) (approvals_of (cp_action_id cp) d) of [] \<Rightarrow> None | r # _ \<Rightarrow> Some r)"

definition raise_or_return :: "approval_row \<Rightarrow> hitl_exn + hitl_result" where
  "raise_or_return approval =
     (if pr_approver_type approval = timeout_approver_type then Inl HiTL_Timeout
      else if pr_decision approval = ''rejected'' then Inl (HiTL_Rejected (pr_decision_reason approval))
      else Inr \<lparr>hr_approval_id = pr_approval_id approval, hr_approver_id = pr_approver_id approval\<rparr>)"

definition record_timeout :: "hitl_env \<Rightarrow> checkpoint \<Rightarrow> db \<Rightarrow> (store_exn + approval_row option) \<times> db" where
  "record_timeout hv cp d =
     (case create_with_chain_link (hv_approval_id hv) (hv_now hv) (cp_action_id cp) (cp_action_timestamp cp)
             ''system:timeout'' timeout_approver_type ''rejected''
             (Some (''No response within '' @ int_str (cp_timeout cp) @ ''s'')) None d of
        (Inr _, d') \<Rightarrow> (Inr None, d')
      | (Inl (Ingest ActionAlreadyResolvedError _), d') \<Rightarrow>
          let d'' = votes (hv_before_repoll hv) d' in (Inr (poll_once cp d''), d'')
      | (Inl e, d') \<Rightarrow> (Inl e, d'))"

fun poll_rounds :: "checkpoint \<Rightarrow> vote list list \<Rightarrow> db \<Rightarrow> approval_row option \<times> db" where
  "poll_rounds cp [] d = (None, d)"
| "poll_rounds cp (vs # rounds) d =
     (let d' = votes vs d in
      case poll_once cp d' of
        Some approval \<Rightarrow>
          if pr_decision approval = ''approved'' \<or> pr_decision approval = ''rejected''
          then (Some approval, d') else poll_rounds cp rounds d'
      | None \<Rightarrow> poll_rounds cp rounds d')"

definition wait_for_approval :: "hitl_env \<Rightarrow> checkpoint \<Rightarrow> db \<Rightarrow> (hitl_exn + hitl_result) \<times> db" where
  "wait_for_approval hv cp d =
     (case poll_rounds cp (hv_rounds hv) d of
        (Some approval, d') \<Rightarrow> (raise_or_return approval, d')
      | (None, d') \<Rightarrow>
          (case record_timeout hv cp (votes (hv_before_timeout hv) d') of
             (Inl e, d'') \<Rightarrow> (Inl (Store_Error e), d'')
           | (Inr (Some racing), d'') \<Rightarrow> (raise_or_return racing, d'')
           | (Inr None, d'') \<Rightarrow> (Inl HiTL_Timeout, d'')))"

section \<open>What the approvals of an action tell\<close>

definition escalates :: "approval_row \<Rightarrow> bool" where
  "escalates r \<longleftrightarrow> pr_decision r = ''escalated'' \<and> pr_approver_type r \<noteq> timeout_approver_type"

definition resolution :: "approval_row \<Rightarrow> string \<Rightarrow> bool" where
  "resolution r status \<longleftrightarrow>
     (if pr_approver_type r = timeout_approver_type then pr_decision r = ''rejected'' \<and> status = ''timed_out''
      else pr_decision r = ''approved'' \<and> status = ''human_approved'' \<or>
           pr_decision r = ''rejected'' \<and> status = ''human_rejected'')"

definition tells :: "approval_row list \<Rightarrow> string \<Rightarrow> bool" where
  "tells rows status \<longleftrightarrow>
     list_all escalates rows \<and> status = ''pending'' \<or>
     (rows \<noteq> [] \<and> list_all escalates (butlast rows) \<and> resolution (last rows) status)"

text \<open>A vote that states its approver truthfully: only the checkpoint's own timeout writes the
  timeout sentinel, and it rejects.\<close>

fun truthful :: "vote \<Rightarrow> bool" where
  "truthful (By_Ingest i p) \<longleftrightarrow> pc_approver_type p \<noteq> timeout_approver_type"
| "truthful (By_Checkpoint i now a ts who ty decision reason parent) \<longleftrightarrow>
     (ty = timeout_approver_type \<longrightarrow> decision = ''rejected'')"

definition told :: "uuid \<Rightarrow> string \<Rightarrow> db \<Rightarrow> bool" where
  "told i ts d \<longleftrightarrow>
     (\<exists>a. filter (\<lambda>a. ar_action_id a = i) (db_actions d) = [a] \<and> ar_timestamp a = ts \<and>
        tells (approvals_of i d) (ar_authorization_status a))"

lemma tells_pending: "tells rows ''pending'' \<longleftrightarrow> list_all escalates rows"
  by (auto simp: tells_def resolution_def split: if_splits)

lemma tells_resolved:
  "status \<noteq> ''pending'' \<Longrightarrow> tells rows status \<longleftrightarrow>
     rows \<noteq> [] \<and> list_all escalates (butlast rows) \<and> resolution (last rows) status"
  by (auto simp: tells_def)

lemma tells_terminal: "tells rows status \<Longrightarrow> status \<noteq> ''pending'' \<Longrightarrow> status \<in> set terminal_auth_states"
  by (auto simp: tells_def resolution_def terminal_auth_states_def split: if_splits)

lemma sole_row:
  assumes "filter (\<lambda>a. ar_action_id a = i) as = [a]" and "filter p as = [b]" and "\<And>x. p x \<Longrightarrow> ar_action_id x = i"
  shows "b = a"
proof -
  have "b \<in> set (filter p as)" using assms(2) by simp
  then have "b \<in> set (filter (\<lambda>a. ar_action_id a = i) as)" using assms(3) by simp
  with assms(1) show ?thesis by simp
qed

lemma auth_status_cases:
  "decision_to_auth_status dec = Some status \<longleftrightarrow>
     dec = ''approved'' \<and> status = ''human_approved'' \<or> dec = ''rejected'' \<and> status = ''human_rejected'' \<or>
     dec = ''escalated'' \<and> status = ''pending''"
  by (auto simp: decision_to_auth_status_def)

lemma ingest_row:
  assumes "create_with_action_status_update i p d = (Inr row, d')" and "pc_approver_type p \<noteq> timeout_approver_type"
  obtains a status where "filter (\<lambda>a. ar_session_id a = pc_session_id p \<and> ar_action_id a = pc_action_id p) (db_actions d) = [a]"
    and "pr_action_id row = pc_action_id p" and "\<not> terminal a"
    and "d' = set_status (\<lambda>a. ar_session_id a = pc_session_id p \<and> ar_action_id a = pc_action_id p) status (add_approval row d)"
    and "escalates row \<and> status = ''pending'' \<or> resolution row status"
  using assms
  by (auto simp: create_with_action_status_update_def Let_def one_or_none_Some auth_status_cases
      escalates_def resolution_def split: sum.splits option.splits if_splits)

lemma checkpoint_row:
  assumes "create_with_chain_link i now aid ts who ty decision reason parent d = (Inr row, d')"
    and "ty = timeout_approver_type \<longrightarrow> decision = ''rejected''"
  obtains a status where "filter (\<lambda>a. ar_action_id a = aid \<and> ar_timestamp a = ts) (db_actions d) = [a]"
    and "pr_action_id row = aid" and "\<not> terminal a"
    and "d' = set_status (\<lambda>a. ar_action_id a = aid \<and> ar_timestamp a = ts) status (add_approval row d)"
    and "escalates row \<and> status = ''pending'' \<or> resolution row status"
  using assms
  by (auto simp: create_with_chain_link_def Let_def one_or_none_Some auth_status_cases
      escalates_def resolution_def split: sum.splits option.splits if_splits)

text \<open>One vote, whichever path: it fails and changes nothing, or it appends one row to the action it is
  about, which was not resolved, and moves that action to the status the row stands for.\<close>

lemma cast_vote_row:
  assumes "cast_vote v d = (res, d')" and "truthful v" and "d' \<noteq> d"
  obtains p a row status where "filter p (db_actions d) = [a]" and "\<And>x. p x \<Longrightarrow> ar_action_id x = pr_action_id row"
    and "\<not> terminal a" and "d' = set_status p status (add_approval row d)"
    and "escalates row \<and> status = ''pending'' \<or> resolution row status"
proof -
  from cast_vote_actions [OF assms(1)] assms(3) obtain row where res: "res = Inr row" by auto
  show thesis
  proof (cases v)
    case (By_Ingest i p)
    then have "create_with_action_status_update i p d = (Inr row, d')" and "pc_approver_type p \<noteq> timeout_approver_type"
      using assms(1,2) res by simp_all
    then show thesis
      by (rule ingest_row) (rule that, assumption, simp_all)
  next
    case (By_Checkpoint i now a ts who ty decision reason parent)
    then have "create_with_chain_link i now a ts who ty decision reason parent d = (Inr row, d')"
      and "ty = timeout_approver_type \<longrightarrow> decision = ''rejected''"
      using assms(1,2) res by simp_all
    then show thesis
      by (rule checkpoint_row) (rule that, assumption, simp_all)
  qed
qed

lemma approvals_of_set_status [simp]: "approvals_of i (set_status p st d) = approvals_of i d"
  by (simp add: approvals_of_def set_status_rows)

lemma approvals_of_add_approval [simp]:
  "approvals_of i (add_approval row d) = approvals_of i d @ (if pr_action_id row = i then [row] else [])"
  by (simp add: approvals_of_def set_status_rows)

lemma vote_keeps_told:
  assumes "told i ts d" and "truthful v"
  shows "told i ts (snd (cast_vote v d)) \<and> (\<exists>more. approvals_of i (snd (cast_vote v d)) = approvals_of i d @ more)"
proof (cases "snd (cast_vote v d) = d")
  case True
  then show ?thesis using assms(1) by simp
next
  case False
  obtain a where a: "filter (\<lambda>a. ar_action_id a = i) (db_actions d) = [a]" "ar_timestamp a = ts"
    "tells (approvals_of i d) (ar_authorization_status a)"
    using assms(1) by (auto simp: told_def)
  obtain p b row status where b: "filter p (db_actions d) = [b]" and p: "\<And>x. p x \<Longrightarrow> ar_action_id x = pr_action_id row"
    and open_b: "\<not> terminal b" and d': "snd (cast_vote v d) = set_status p status (add_approval row d)"
    and row: "escalates row \<and> status = ''pending'' \<or> resolution row status"
    by (rule cast_vote_row [of v d "fst (cast_vote v d)" "snd (cast_vote v d)"]) (use assms(2) False in auto)
  have acts: "filter (\<lambda>a. ar_action_id a = i) (db_actions (snd (cast_vote v d))) =
      [if p a then a\<lparr>ar_authorization_status := status\<rparr> else a]"
  proof -
    have "(\<lambda>a. ar_action_id a = i) \<circ> (\<lambda>a. if p a then a\<lparr>ar_authorization_status := status\<rparr> else a) = (\<lambda>a. ar_action_id a = i)"
      by (auto simp: fun_eq_iff)
    then show ?thesis using a(1) by (simp add: d' set_status_rows filter_map)
  qed
  show ?thesis
  proof (cases "pr_action_id row = i")
    case True
    have "b = a" by (rule sole_row [OF a(1) b]) (use p True in auto)
    have "p b" using b by (metis filter_eq_Cons_iff)
    have "ar_authorization_status a = ''pending''"
      using tells_terminal [OF a(3)] open_b \<open>b = a\<close> by (auto simp: terminal_def)
    then have "list_all escalates (approvals_of i d)" using a(3) by (simp add: tells_pending)
    then have "tells (approvals_of i d @ [row]) status" using row by (auto simp: tells_def)
    then show ?thesis using acts a(2) \<open>p b\<close> \<open>b = a\<close> True by (simp add: told_def d')
  next
    case other: False
    have "\<not> p a" using p other a(1) by (metis (mono_tags, lifting) filter_eq_Cons_iff)
    then show ?thesis using acts a other by (simp add: told_def d')
  qed
qed

lemma votes_keep_told:
  "told i ts d \<Longrightarrow> list_all truthful vs \<Longrightarrow>
     told i ts (votes vs d) \<and> (\<exists>more. approvals_of i (votes vs d) = approvals_of i d @ more)"
proof (induction vs arbitrary: d)
  case (Cons v vs)
  from vote_keeps_told [OF Cons.prems(1), of v] Cons.prems(2)
  have "told i ts (snd (cast_vote v d))" "\<exists>more. approvals_of i (snd (cast_vote v d)) = approvals_of i d @ more" by simp_all
  with Cons.IH [of "snd (cast_vote v d)"] Cons.prems(2) show ?case by auto
qed simp

section \<open>The outcome of a wait\<close>

definition in_order :: "approval_row list \<Rightarrow> bool" where
  "in_order rows \<longleftrightarrow> sorted_wrt (\<lambda>r q. pr_timestamp r < pr_timestamp q) rows"

lemma latest_first: "in_order rows \<Longrightarrow> sort_key (\<lambda>r. - pr_timestamp r) rows = rev rows"
proof (rule sort_key_inj_key_eq)
  assume ord: "in_order rows"
  then show "inj_on (\<lambda>r. - pr_timestamp r) (set rows)"
    by (induction rows) (fastforce simp: in_order_def inj_on_def)+
  have "sorted_wrt (\<lambda>r q. pr_timestamp q \<le> pr_timestamp r) (rev rows)"
    using ord unfolding in_order_def sorted_wrt_rev by (rule sorted_wrt_mono_rel [rotated]) simp
  then show "sorted (map (\<lambda>r. - pr_timestamp r) (rev rows))"
    by (simp add: sorted_wrt_map)
qed simp

lemma poll_last:
  "in_order (approvals_of (cp_action_id cp) d) \<Longrightarrow>
     poll_once cp d = (if approvals_of (cp_action_id cp) d = [] then None else Some (last (approvals_of (cp_action_id cp) d)))"
  by (simp add: poll_once_def latest_first hd_rev [symmetric] split: list.split)

definition outcome_status :: "hitl_exn + hitl_result \<Rightarrow> string option" where
  "outcome_status res =
     (case res of
        Inr _ \<Rightarrow> Some ''human_approved''
      | Inl HiTL_Timeout \<Rightarrow> Some ''timed_out''
      | Inl (HiTL_Rejected _) \<Rightarrow> Some ''human_rejected''
      | Inl (Store_Error _) \<Rightarrow> None)"

lemma resolution_outcome: "resolution r status \<Longrightarrow> outcome_status (raise_or_return r) = Some status"
  by (auto simp: resolution_def raise_or_return_def outcome_status_def split: if_splits)

lemma outcome_not_none: "outcome_status (raise_or_return r) \<noteq> None"
  by (simp add: raise_or_return_def outcome_status_def)

definition status_of :: "uuid \<Rightarrow> db \<Rightarrow> string option" where
  "status_of i d =
     (case filter (\<lambda>a. ar_action_id a = i) (db_actions d) of [a] \<Rightarrow> Some (ar_authorization_status a) | _ \<Rightarrow> None)"

lemma told_status: "told i ts d \<Longrightarrow> \<exists>status. status_of i d = Some status \<and> tells (approvals_of i d) status"
  by (auto simp: told_def status_of_def)

lemma decided_row:
  assumes "told i ts d" and "approvals_of i d \<noteq> []" and "\<not> escalates (last (approvals_of i d))"
  shows "outcome_status (raise_or_return (last (approvals_of i d))) = status_of i d"
proof -
  obtain status where "status_of i d = Some status" and "tells (approvals_of i d) status"
    using told_status [OF assms(1)] by blast
  moreover have "\<not> list_all escalates (approvals_of i d)"
    using assms(2,3) by (metis last_in_set list_all_iff)
  ultimately show ?thesis using resolution_outcome by (auto simp: tells_def)
qed

lemma poll_rounds_told:
  assumes "poll_rounds cp rounds d = (r, d')" and "told (cp_action_id cp) ts d"
    and "\<forall>vs \<in> set rounds. list_all truthful vs"
  shows "told (cp_action_id cp) ts d' \<and>
    (\<forall>approval. r = Some approval \<longrightarrow> poll_once cp d' = Some approval \<and> pr_decision approval \<noteq> ''escalated'')"
  using assms
proof (induction rounds arbitrary: d)
  case (Cons vs rounds)
  define d1 where "d1 = votes vs d"
  have t: "told (cp_action_id cp) ts d1"
    using votes_keep_told [OF Cons.prems(2)] Cons.prems(3) by (simp add: d1_def)
  show ?case
  proof (cases "poll_rounds cp rounds d1 = (r, d')")
    case True
    then show ?thesis using Cons.IH [OF True t] Cons.prems(3) by simp
  next
    case False
    then have "d' = d1 \<and> (\<exists>a. poll_once cp d1 = Some a \<and> r = Some a \<and>
        (pr_decision a = ''approved'' \<or> pr_decision a = ''rejected''))"
      using Cons.prems(1) by (auto simp: d1_def [symmetric] Let_def split: option.splits if_splits)
    then show ?thesis using t by auto
  qed
qed simp

lemma timeout_write:
  assumes "told i ts d"
    and "create_with_chain_link n now i ts who timeout_approver_type ''rejected'' reason None d = (res, d')"
  shows "(\<exists>row. res = Inr row \<and> status_of i d' = Some ''timed_out'') \<or>
    (\<exists>m. res = Inl (Ingest ActionAlreadyResolvedError m) \<and> d' = d \<and>
       approvals_of i d \<noteq> [] \<and> \<not> escalates (last (approvals_of i d)))"
proof -
  obtain a where a: "filter (\<lambda>a. ar_action_id a = i) (db_actions d) = [a]" "ar_timestamp a = ts"
    "tells (approvals_of i d) (ar_authorization_status a)"
    using assms(1) by (auto simp: told_def)
  have "filter (\<lambda>a. ar_action_id a = i \<and> ar_timestamp a = ts) (db_actions d) =
      filter (\<lambda>a. ar_timestamp a = ts) (filter (\<lambda>a. ar_action_id a = i) (db_actions d))"
    by (simp add: conj_commute)
  then have f: "filter (\<lambda>a. ar_action_id a = i \<and> ar_timestamp a = ts) (db_actions d) = [a]"
    using a(1,2) by simp
  show ?thesis
  proof (cases "terminal a")
    case True
    then have "ar_authorization_status a \<noteq> ''pending''"
      by (auto simp: terminal_def terminal_auth_states_def)
    then have "approvals_of i d \<noteq> [] \<and> \<not> escalates (last (approvals_of i d))"
      using a(3) by (auto simp: tells_resolved resolution_def escalates_def split: if_splits)
    then show ?thesis using assms(2) f True by (auto simp: create_with_chain_link_def one_or_none_def)
  next
    case False
    let ?g = "\<lambda>b. if ar_action_id b = i \<and> ar_timestamp b = ts then b\<lparr>ar_authorization_status := ''timed_out''\<rparr> else b"
    have comp: "(\<lambda>a. ar_action_id a = i) \<circ> ?g = (\<lambda>a. ar_action_id a = i)" by (auto simp: fun_eq_iff)
    obtain row where "res = Inr row" and acts: "db_actions d' = map ?g (db_actions d)"
      using assms(2) f False by (auto simp: create_with_chain_link_def one_or_none_def Let_def set_status_rows)
    moreover have "filter (\<lambda>a. ar_action_id a = i) (db_actions d') = [?g a]"
      unfolding acts filter_map comp using a(1) by simp
    moreover have "a \<in> set (filter (\<lambda>a. ar_action_id a = i) (db_actions d))" unfolding a(1) by simp
    ultimately show ?thesis using a(2) by (simp add: status_of_def)
  qed
qed

lemma wait_faithful:
  assumes "told (cp_action_id cp) (cp_action_timestamp cp) d"
    and "\<forall>vs \<in> set (hv_rounds hv). list_all truthful vs" and "list_all truthful (hv_before_timeout hv)"
    and "list_all truthful (hv_before_repoll hv)"
    and "wait_for_approval hv cp d = (res, d')" and "in_order (approvals_of (cp_action_id cp) d')"
  shows "outcome_status res \<noteq> None \<and> outcome_status res = status_of (cp_action_id cp) d'"
proof -
  let ?i = "cp_action_id cp"
  obtain r d1 where poll: "poll_rounds cp (hv_rounds hv) d = (r, d1)" by (cases "poll_rounds cp (hv_rounds hv) d")
  from poll_rounds_told [OF poll assms(1,2)] have t1: "told ?i (cp_action_timestamp cp) d1"
    and polled: "\<And>a. r = Some a \<Longrightarrow> poll_once cp d1 = Some a \<and> pr_decision a \<noteq> ''escalated''" by auto
  have shown: "outcome_status (raise_or_return a) \<noteq> None \<and> outcome_status (raise_or_return a) = status_of ?i dd"
    if "told ?i (cp_action_timestamp cp) dd" "in_order (approvals_of ?i dd)" "poll_once cp dd = Some a" "\<not> escalates a" for a dd
  proof -
    have "approvals_of ?i dd \<noteq> []" and "a = last (approvals_of ?i dd)"
      using that(3) poll_last [OF that(2)] by (auto split: if_splits)
    with decided_row [OF that(1)] that(4) have "outcome_status (raise_or_return a) = status_of ?i dd" by simp
    then show ?thesis by (intro conjI outcome_not_none)
  qed
  show ?thesis
  proof (cases r)
    case (Some a)
    then have "res = raise_or_return a" "d' = d1" using assms(5) poll by (simp_all add: wait_for_approval_def)
    then show ?thesis using shown [OF t1, of a] polled [OF Some] assms(6) unfolding escalates_def by metis
  next
    case None
    define d2 where "d2 = votes (hv_before_timeout hv) d1"
    have t2: "told ?i (cp_action_timestamp cp) d2" using votes_keep_told [OF t1 assms(3)] by (simp add: d2_def)
    obtain out d3 where w: "create_with_chain_link (hv_approval_id hv) (hv_now hv) ?i (cp_action_timestamp cp)
        ''system:timeout'' timeout_approver_type ''rejected''
        (Some (''No response within '' @ int_str (cp_timeout cp) @ ''s'')) None d2 = (out, d3)"
      by (metis surj_pair)
    from timeout_write [OF t2 w] show ?thesis
    proof
      assume "\<exists>row. out = Inr row \<and> status_of ?i d3 = Some ''timed_out''"
      then show ?thesis
        using assms(5) poll None w by (auto simp: wait_for_approval_def record_timeout_def d2_def outcome_status_def)
    next
      assume "\<exists>m. out = Inl (Ingest ActionAlreadyResolvedError m) \<and> d3 = d2 \<and>
        approvals_of ?i d2 \<noteq> [] \<and> \<not> escalates (last (approvals_of ?i d2))"
      then obtain m where out: "out = Inl (Ingest ActionAlreadyResolvedError m)" "d3 = d2"
        and last: "approvals_of ?i d2 \<noteq> []" "\<not> escalates (last (approvals_of ?i d2))" by blast
      define d4 where "d4 = votes (hv_before_repoll hv) d2"
      have t4: "told ?i (cp_action_timestamp cp) d4" and more: "\<exists>more. approvals_of ?i d4 = approvals_of ?i d2 @ more"
        using votes_keep_told [OF t2 assms(4)] by (simp_all add: d4_def)
      have "\<not> list_all escalates (approvals_of ?i d4)"
        using last more by (metis last_in_set list_all_append list_all_iff)
      then have ne: "approvals_of ?i d4 \<noteq> []" "\<not> escalates (last (approvals_of ?i d4))"
        using t4 by (auto simp: told_def tells_def resolution_def escalates_def split: if_splits)
      have rec: "record_timeout hv cp d2 = (Inr (poll_once cp d4), d4)"
        using w out by (simp add: record_timeout_def d4_def Let_def)
      have "d' = d4"
        using assms(5) poll None rec
        by (auto simp: wait_for_approval_def d2_def [symmetric] split: option.splits)
      then have p4: "poll_once cp d4 = Some (last (approvals_of ?i d4))"
        using poll_last assms(6) ne by simp
      then have "res = raise_or_return (last (approvals_of ?i d4))"
        using assms(5) poll None rec by (auto simp: wait_for_approval_def d2_def [symmetric])
      then show ?thesis using shown [OF t4 _ p4 ne(2)] assms(6) \<open>d' = d4\<close> by metis
    qed
  qed
qed

section \<open>Properties of the checkpoint\<close>

lemma outcome_status_Some:
  "outcome_status res \<noteq> None \<Longrightarrow>
     outcome_status res = Some (case res of
            Inr _ \<Rightarrow> ''human_approved''
          | Inl HiTL_Timeout \<Rightarrow> ''timed_out''
          | Inl (HiTL_Rejected _) \<Rightarrow> ''human_rejected''
          | Inl (Store_Error _) \<Rightarrow> ''store error'')"
  by (auto simp: outcome_status_def split: sum.splits hitl_exn.splits)

definition sample_checkpoint :: checkpoint where
  "sample_checkpoint = \<lparr>cp_action_id = 7, cp_action_timestamp = ar_timestamp (hd (db_actions sample_pending)),
     cp_timeout = 300\<rparr>"

definition sample_wait :: "vote list \<Rightarrow> vote list \<Rightarrow> hitl_env" where
  "sample_wait early late = \<lparr>hv_rounds = [[], early], hv_before_timeout = late, hv_before_repoll = [],
     hv_approval_id = 50, hv_now = 9\<rparr>"

definition vote_at :: "uuid \<Rightarrow> string \<Rightarrow> int \<Rightarrow> vote" where
  "vote_at i decision t = By_Ingest i \<lparr>pc_action_id = 7, pc_session_id = 3, pc_approver_id = ''ann'',
     pc_approver_type = ''human'', pc_decision = decision, pc_decision_reason = None,
     pc_timestamp = t, pc_parent_approval_id = None\<rparr>"

lemma sample_pending_told: "told 7 (cp_action_timestamp sample_checkpoint) sample_pending"
proof -
  obtain a where "db_actions sample_pending = [a]" "ar_action_id a = 7" "ar_authorization_status a = ''pending''"
    using sample_pending_actions by blast
  moreover have "db_approvals sample_pending = []"
    by (simp add: sample_pending_def create_with_hash_def sample_db_def Let_def sample_create_def)
  ultimately show ?thesis
    by (simp add: told_def sample_checkpoint_def approvals_of_def tells_def)
qed


lemma sample_votes:
  obtains a where "db_actions sample_pending = [a]" "ar_action_id a = 7" "ar_session_id a = 3"
    "ar_authorization_status a = ''pending''" "db_approvals sample_pending = []"
proof -
  have "db_approvals sample_pending = []"
    by (simp add: sample_pending_def create_with_hash_def sample_db_def Let_def sample_create_def)
  then show thesis using sample_pending_actions that by blast
qed

definition sample_row :: "uuid \<Rightarrow> string \<Rightarrow> int \<Rightarrow> approval_row" where
  "sample_row i decision t = \<lparr>pr_approval_id = i, pr_action_id = 7, pr_session_id = 3, pr_approver_id = ''ann'',
     pr_approver_type = ''human'', pr_decision = decision, pr_decision_reason = None, pr_timestamp = t,
     pr_parent_approval_id = None\<rparr>"

lemma sample_voted:
  fixes t u :: int
  defines "d \<equiv> votes [vote_at 20 ''escalated'' t, vote_at 21 ''rejected'' u] sample_pending"
  shows "db_approvals d = [sample_row 20 ''escalated'' t, sample_row 21 ''rejected'' u] \<and>
    (\<exists>a. db_actions d = [a] \<and> ar_action_id a = 7 \<and> ar_authorization_status a = ''human_rejected'' \<and>
       ar_timestamp a = cp_action_timestamp sample_checkpoint)"
proof -
  obtain a where "db_actions sample_pending = [a]" "ar_action_id a = 7" "ar_session_id a = 3"
    "ar_authorization_status a = ''pending''" "db_approvals sample_pending = []"
    by (rule sample_votes)
  then show ?thesis
    by (simp add: d_def vote_at_def create_with_action_status_update_def one_or_none_def terminal_def
        terminal_auth_states_def check_parent_def decision_to_auth_status_def Let_def set_status_rows
        sample_row_def sample_checkpoint_def)
qed

lemma sample_unvoted: "poll_once sample_checkpoint sample_pending = None"
  by (rule sample_votes) (simp add: poll_once_def approvals_of_def)

lemma sample_polled:
  "poll_once sample_checkpoint (votes [vote_at 20 ''escalated'' t, vote_at 21 ''rejected'' u] sample_pending) =
     Some (if u \<le> t then sample_row 20 ''escalated'' t else sample_row 21 ''rejected'' u)"
  using sample_voted [of t u]
  by (auto simp: poll_once_def approvals_of_def sample_checkpoint_def sample_row_def simp del: votes.simps)

lemma sample_status:
  "status_of 7 (votes [vote_at 20 ''escalated'' t, vote_at 21 ''rejected'' u] sample_pending) = Some ''human_rejected''"
  using sample_voted [of t u] by (auto simp: status_of_def simp del: votes.simps)


text \<open>A rejection comes back as an approval when an earlier escalation carries a later timestamp,
  which on the ingest path its sender chooses: the poll takes the row with the latest timestamp, and
  what is neither a timeout nor a rejection is returned as approved.\<close>

theorem skewed_escalation_approves:
  "\<exists>result d'. wait_for_approval (sample_wait [vote_at 20 ''escalated'' 8, vote_at 21 ''rejected'' 5] [])
      sample_checkpoint sample_pending = (Inr result, d') \<and> status_of 7 d' = Some ''human_rejected''"
proof -
  let ?votes = "[vote_at 20 ''escalated'' 8, vote_at 21 ''rejected'' 5]"
  let ?d = "votes ?votes sample_pending"
  obtain a where a: "db_actions ?d = [a]" "ar_action_id a = 7" "ar_authorization_status a = ''human_rejected''"
    "ar_timestamp a = cp_action_timestamp sample_checkpoint"
    using sample_voted [of 8 5] by blast
  have polled: "poll_once sample_checkpoint ?d = Some (sample_row 20 ''escalated'' 8)"
    using sample_polled [of 8 5] by simp
  have rounds: "poll_rounds sample_checkpoint [[], ?votes] sample_pending = (None, ?d)"
    using polled sample_unvoted by (simp add: sample_row_def del: votes.simps(2))
  have "record_timeout (sample_wait ?votes []) sample_checkpoint ?d = (Inr (poll_once sample_checkpoint ?d), ?d)"
    using a by (simp add: record_timeout_def create_with_chain_link_def one_or_none_def terminal_def
        terminal_auth_states_def sample_checkpoint_def sample_wait_def del: votes.simps(2))
  then have "wait_for_approval (sample_wait ?votes []) sample_checkpoint sample_pending =
      (raise_or_return (sample_row 20 ''escalated'' 8), ?d)"
    using rounds polled by (simp add: wait_for_approval_def sample_wait_def del: votes.simps(2))
  then show ?thesis
    using sample_status [of 8 5] by (simp add: raise_or_return_def sample_row_def timeout_approver_type_def del: votes.simps)
qed

end
