(* ===== verification/Tracer.thy ===== *)
theory Tracer
  imports Redaction Hitl Spool
begin

text \<open>
  \<^verbatim>\<open>rootsign/sdk/decorator.py\<close> and \<^verbatim>\<open>rootsign/sdk/context.py\<close>: what a traced
  call records. The traced function is a step on a world of its own, so that a statement can say
  whether it ran; the client threads its own state; both may raise. \<open>tc_persistence\<close> marks the
  exceptions of the client that are a \<open>RecordPersistenceError\<close>. The approval wait of the Postgres
  backend is an argument (\<open>Hitl\<close> models it). Clock readings and event ids come from the
  surroundings; log lines are left out. A function is called once, whether it is a coroutine or not.
\<close>

section \<open>Capturing values\<close>

text \<open>The Python values a call takes and returns: dict keys by their \<open>str\<close>; a \<open>PMessage\<close> has a
  \<open>type\<close> that is a string and a \<open>content\<close>; the last argument of \<open>PMessage\<close> and
  \<open>PObject\<close> is its \<open>str\<close>.\<close>

datatype pyobj =
    PNone
  | PBool bool
  | PInt int
  | PFloat rat string
  | PStr string
  | PDict "(string \<times> pyobj) list"
  | PList "pyobj list"
  | PTuple "pyobj list"
  | PMessage string pyobj string
  | PObject string

fun to_json_safe :: "pyobj \<Rightarrow> json" where
  "to_json_safe PNone = JNull"
| "to_json_safe (PBool b) = JBool b"
| "to_json_safe (PInt i) = JInt i"
| "to_json_safe (PFloat q t) = JFloat q t"
| "to_json_safe (PStr s) = JStr s"
| "to_json_safe (PDict d) = JObj (dupdate [] (map (\<lambda>(k, v). (k, to_json_safe v)) d))"
| "to_json_safe (PList xs) = JArr (map to_json_safe xs)"
| "to_json_safe (PTuple xs) = JArr (map to_json_safe xs)"
| "to_json_safe (PMessage ty content repr) =
     (if content = PNone then JStr repr
      else JObj [(''_message_type'', JStr ty), (''content'', to_json_safe content)])"
| "to_json_safe (PObject repr) = JStr repr"

section \<open>The session context\<close>

record session_context =
  cx_agent_id :: uuid
  cx_session_id :: uuid
  cx_sequence :: nat
  cx_session_open_emitted :: bool
  cx_pending_decision_id :: "uuid option"

definition new_context :: "uuid \<Rightarrow> uuid \<Rightarrow> session_context" where
  "new_context agent sid =
     \<lparr>cx_agent_id = agent, cx_session_id = sid, cx_sequence = 0, cx_session_open_emitted = False,
      cx_pending_decision_id = None\<rparr>"

definition next_sequence :: "session_context \<Rightarrow> nat \<times> session_context" where
  "next_sequence cx = (Suc (cx_sequence cx), cx\<lparr>cx_sequence := Suc (cx_sequence cx)\<rparr>)"

definition mark_session_open :: "session_context \<Rightarrow> bool \<times> session_context" where
  "mark_session_open cx =
     (if cx_session_open_emitted cx then (False, cx) else (True, cx\<lparr>cx_session_open_emitted := True\<rparr>))"

definition consume_pending_decision_id :: "session_context \<Rightarrow> uuid option \<times> session_context" where
  "consume_pending_decision_id cx = (cx_pending_decision_id cx, cx\<lparr>cx_pending_decision_id := None\<rparr>)"

section \<open>Emitting an action\<close>

record ('s, 'e) traced_client =
  tc_handle :: "dict \<Rightarrow> 's \<Rightarrow> ('e + response) \<times> 's"
  tc_persistence :: "'e \<Rightarrow> bool"
  tc_jsonl :: bool

record trace_env =
  te_sdk_version :: string
  te_event_id :: uuid
  te_emitted_at :: string
  te_timestamp :: string
  te_approval_event_id :: uuid
  te_approval_emitted_at :: string
  te_approval_timestamp :: string

record 'p traced_call =
  ca_tool_name :: string
  ca_args :: "pyobj list"
  ca_kwargs :: "(string \<times> pyobj) list"
  ca_redaction :: "'p redaction_config option"
  ca_override :: "json option"

datatype ('x, 'e) trace_exn =
    Tool_Error 'x
  | Persistence_Error 'e
  | Submit_Failed
  | Checkpoint_Error hitl_exn
  | No_Terminal
  | Prompt_Closed

definition opt_uuid :: "uuid option \<Rightarrow> json" where
  "opt_uuid x = (case x of None \<Rightarrow> JNull | Some u \<Rightarrow> JStr (uuid_str u))"

definition dict_or_null :: "json \<Rightarrow> json" where
  "dict_or_null j = (case j of JObj _ \<Rightarrow> j | _ \<Rightarrow> JNull)"

definition apply_redaction :: "('p \<Rightarrow> string \<Rightarrow> bool) \<Rightarrow> 'p redaction_config option \<Rightarrow> json \<Rightarrow> json" where
  "apply_redaction search cfg payload = (case cfg of None \<Rightarrow> payload | Some c \<Rightarrow> redact search c payload)"

definition redacted_input :: "('p \<Rightarrow> string \<Rightarrow> bool) \<Rightarrow> 'p traced_call \<Rightarrow> json" where
  "redacted_input search c =
     (case ca_override c of
        Some payload \<Rightarrow> payload
      | None \<Rightarrow> apply_redaction search (ca_redaction c)
                 (to_json_safe (PDict [(''args'', PList (ca_args c)), (''kwargs'', PDict (ca_kwargs c))])))"

definition redacted_output :: "('p \<Rightarrow> string \<Rightarrow> bool) \<Rightarrow> 'p traced_call \<Rightarrow> pyobj \<Rightarrow> json" where
  "redacted_output search c result =
     apply_redaction search (ca_redaction c) (to_json_safe (PDict [(''result'', result)]))"

definition event_envelope :: "string \<Rightarrow> uuid \<Rightarrow> string \<Rightarrow> session_context \<Rightarrow> event_type \<Rightarrow> dict \<Rightarrow> dict" where
  "event_envelope sdk_version event_id emitted_at cx ty payload =
     [(''schema_version'', JStr schema_version),
      (''sdk_version'', JStr sdk_version),
      (''event_type'', JStr (event_value ty)),
      (''event_id'', JStr (uuid_str event_id)),
      (''emitted_at'', JStr emitted_at),
      (''agent_id'', JStr (uuid_str (cx_agent_id cx))),
      (''session_id'', JStr (uuid_str (cx_session_id cx))),
      (''payload'', JObj payload)]"

definition action_envelope ::
  "trace_env \<Rightarrow> session_context \<Rightarrow> string \<Rightarrow> string \<Rightarrow> string option \<Rightarrow> json \<Rightarrow> json \<Rightarrow> string \<Rightarrow> uuid option \<Rightarrow> dict" where
  "action_envelope te cx tool_name input_hash output_hash redacted_in redacted_out authorization_status decision_id =
     event_envelope (te_sdk_version te) (te_event_id te) (te_emitted_at te) cx ACTION_RECORD
       [(''tool_name'', JStr tool_name),
        (''input_hash'', JStr input_hash),
        (''output_hash'', opt_str output_hash),
        (''input_redacted'', dict_or_null redacted_in),
        (''output_redacted'', dict_or_null redacted_out),
        (''timestamp'', JStr (te_timestamp te)),
        (''authorization_status'', JStr authorization_status),
        (''decision_id'', opt_uuid decision_id)]"

text \<open>The counter advances only on an accepted or a buffered record.\<close>

definition counts :: "response \<Rightarrow> bool" where
  "counts r \<longleftrightarrow> rsp_status r = ''accepted'' \<or> rsp_status r = ''buffered''"

definition try_ingest ::
  "('s, 'e) traced_client \<Rightarrow> dict \<Rightarrow> session_context \<Rightarrow> 's \<Rightarrow> ('e + response option) \<times> session_context \<times> 's" where
  "try_ingest tc envelope cx s =
     (case tc_handle tc envelope s of
        (Inl e, s') \<Rightarrow> (if tc_persistence tc e then (Inl e, cx, s') else (Inr None, cx, s'))
      | (Inr r, s') \<Rightarrow> (Inr (Some r), if counts r then snd (next_sequence cx) else cx, s'))"

definition emit_action_record ::
  "('p \<Rightarrow> string \<Rightarrow> bool) \<Rightarrow> ('s, 'e) traced_client \<Rightarrow> trace_env \<Rightarrow> 'p traced_call \<Rightarrow> ('w \<Rightarrow> ('x + pyobj) \<times> 'w) \<Rightarrow>
   session_context \<Rightarrow> 's \<Rightarrow> 'w \<Rightarrow> (('x, 'e) trace_exn + pyobj) \<times> session_context \<times> 's \<times> 'w" where
  "emit_action_record search tc te c tool cx s w =
     (let input = redacted_input search c;
          (decision_id, cx1) = consume_pending_decision_id cx;
          (res, w') = tool w;
          output = (case res of Inl _ \<Rightarrow> JNull | Inr v \<Rightarrow> redacted_output search c v);
          output_hash = (case res of Inl _ \<Rightarrow> None | Inr v \<Rightarrow> Some (compute_payload_hash output));
          envelope = action_envelope te cx1 (ca_tool_name c) (compute_payload_hash input) output_hash
                       input output ''auto_authorized'' decision_id
      in case try_ingest tc envelope cx1 s of
           (Inl e, cx2, s') \<Rightarrow> (Inl (Persistence_Error e), cx2, s', w')
         | (Inr _, cx2, s') \<Rightarrow>
             ((case res of Inl x \<Rightarrow> Inl (Tool_Error x) | Inr v \<Rightarrow> Inr v), cx2, s', w'))"

section \<open>Gated actions\<close>

text \<open>The pending record every gated call submits first. Without an action id the caller raises
  \<open>RuntimeError\<close>.\<close>

datatype 'e submit_exn = Not_Persisted 'e | No_Action_Id

fun submit_error :: "'e submit_exn \<Rightarrow> ('x, 'e) trace_exn" where
  "submit_error (Not_Persisted e) = Persistence_Error e"
| "submit_error No_Action_Id = Submit_Failed"

definition submit_pending ::
  "('p \<Rightarrow> string \<Rightarrow> bool) \<Rightarrow> ('s, 'e) traced_client \<Rightarrow> trace_env \<Rightarrow> 'p traced_call \<Rightarrow> session_context \<Rightarrow> 's \<Rightarrow>
   ('e submit_exn + uuid) \<times> session_context \<times> 's" where
  "submit_pending search tc te c cx s =
     (let input = redacted_input search c;
          (decision_id, cx1) = consume_pending_decision_id cx
      in case try_ingest tc (action_envelope te cx1 (ca_tool_name c) (compute_payload_hash input) None
                               input JNull ''pending'' decision_id) cx1 s of
           (Inl e, cx2, s') \<Rightarrow> (Inl (Not_Persisted e), cx2, s')
         | (Inr None, cx2, s') \<Rightarrow> (Inl No_Action_Id, cx2, s')
         | (Inr (Some r), cx2, s') \<Rightarrow>
             (case rsp_entity_id r of None \<Rightarrow> (Inl No_Action_Id, cx2, s') | Some i \<Rightarrow> (Inr i, cx2, s')))"

definition run_tool :: "('w \<Rightarrow> ('x + pyobj) \<times> 'w) \<Rightarrow> 'w \<Rightarrow> (('x, 'e) trace_exn + pyobj) \<times> 'w" where
  "run_tool tool w = (case tool w of (Inl x, w') \<Rightarrow> (Inl (Tool_Error x), w') | (Inr v, w') \<Rightarrow> (Inr v, w'))"

definition context_presented :: "('p \<Rightarrow> string \<Rightarrow> bool) \<Rightarrow> (string \<Rightarrow> json \<Rightarrow> json) option \<Rightarrow> 'p traced_call \<Rightarrow> json" where
  "context_presented search builder c =
     (case builder of
        Some f \<Rightarrow> f (ca_tool_name c) (redacted_input search c)
      | None \<Rightarrow> JObj [(''tool_name'', JStr (ca_tool_name c)),
                      (''input_summary'', JStr (take 500 (py_str (redacted_input search c))))])"

definition emit_approval_record ::
  "('s, 'e) traced_client \<Rightarrow> trace_env \<Rightarrow> session_context \<Rightarrow> uuid \<Rightarrow> string \<Rightarrow> string \<Rightarrow> json \<Rightarrow> string \<Rightarrow> string option \<Rightarrow>
   uuid option \<Rightarrow> int option \<Rightarrow> 's \<Rightarrow> ('e + unit) \<times> 's" where
  "emit_approval_record tc te cx action_id approver_id approver_type presented decision decision_reason
       parent_approval_id response_latency_ms s =
     (case tc_handle tc
             (event_envelope (te_sdk_version te) (te_approval_event_id te) (te_approval_emitted_at te) cx APPROVAL_RECORD
                [(''action_id'', JStr (uuid_str action_id)),
                 (''approver_id'', JStr approver_id),
                 (''approver_type'', JStr approver_type),
                 (''context_presented'', presented),
                 (''decision'', JStr decision),
                 (''decision_reason'', opt_str decision_reason),
                 (''parent_approval_id'', opt_uuid parent_approval_id),
                 (''response_latency_ms'', case response_latency_ms of None \<Rightarrow> JNull | Some i \<Rightarrow> JInt i),
                 (''timestamp'', JStr (te_approval_timestamp te))]) s of
        (Inl e, s') \<Rightarrow> (if tc_persistence tc e then (Inl e, s') else (Inr (), s'))
      | (Inr _, s') \<Rightarrow> (Inr (), s'))"

text \<open>\<open>raw[:1].lower() in ("y", "a")\<close> and the note after it.\<close>

definition says_yes :: "string \<Rightarrow> bool" where
  "says_yes raw \<longleftrightarrow> take 1 raw \<in> {''y'', ''Y'', ''a'', ''A''}"

definition prompt_note :: "string \<Rightarrow> string option" where
  "prompt_note raw = (case strip_chars is_space (drop 1 raw) of [] \<Rightarrow> None | n \<Rightarrow> Some n)"

text \<open>\<open>tty\<close>: standard input is a terminal; \<open>answer\<close>: the line \<open>input\<close> returns, \<open>None\<close> when
  it raises \<open>EOFError\<close>; \<open>user\<close>: \<open>getpass.getuser()\<close>.\<close>

definition emit_hitl_action_sync ::
  "('p \<Rightarrow> string \<Rightarrow> bool) \<Rightarrow> ('s, 'e) traced_client \<Rightarrow> trace_env \<Rightarrow> (string \<Rightarrow> json \<Rightarrow> json) option \<Rightarrow> bool \<Rightarrow>
   string option \<Rightarrow> string \<Rightarrow> 'p traced_call \<Rightarrow> ('w \<Rightarrow> ('x + pyobj) \<times> 'w) \<Rightarrow> session_context \<Rightarrow> 's \<Rightarrow> 'w \<Rightarrow>
   (('x, 'e) trace_exn + pyobj) \<times> session_context \<times> 's \<times> 'w" where
  "emit_hitl_action_sync search tc te builder tty answer user c tool cx s w =
     (if \<not> tty then (Inl No_Terminal, cx, s, w)
      else case submit_pending search tc te c cx s of
             (Inl e, cx1, s1) \<Rightarrow> (Inl (submit_error e), cx1, s1, w)
           | (Inr action_id, cx1, s1) \<Rightarrow>
               (case answer of
                  None \<Rightarrow> (Inl Prompt_Closed, cx1, s1, w)
                | Some line \<Rightarrow>
                    let raw = strip_chars is_space line;
                        approved = says_yes raw;
                        note = prompt_note raw
                    in case emit_approval_record tc te cx1 action_id (''tty:'' @ user) ''human''
                              (context_presented search builder c)
                              (if approved then ''approved'' else ''rejected'') note None None s1 of
                         (Inl e, s2) \<Rightarrow> (Inl (Persistence_Error e), cx1, s2, w)
                       | (Inr _, s2) \<Rightarrow>
                           if \<not> approved
                           then (Inl (Checkpoint_Error (HiTL_Rejected (Some (case note of None \<Rightarrow> ''rejected at prompt'' | Some n \<Rightarrow> n)))),
                                 cx1, s2, w)
                           else (case run_tool tool w of (r, w') \<Rightarrow> (r, cx1, s2, w'))))"

text \<open>\<open>wait\<close> is \<open>HiTLCheckpoint.wait_for_approval\<close> for the action with this id.\<close>

definition emit_hitl_action ::
  "('p \<Rightarrow> string \<Rightarrow> bool) \<Rightarrow> ('s, 'e) traced_client \<Rightarrow> trace_env \<Rightarrow> (string \<Rightarrow> json \<Rightarrow> json) option \<Rightarrow> bool \<Rightarrow>
   string option \<Rightarrow> string \<Rightarrow> (uuid \<Rightarrow> 's \<Rightarrow> (hitl_exn + hitl_result) \<times> 's) \<Rightarrow> 'p traced_call \<Rightarrow>
   ('w \<Rightarrow> ('x + pyobj) \<times> 'w) \<Rightarrow> session_context \<Rightarrow> 's \<Rightarrow> 'w \<Rightarrow> (('x, 'e) trace_exn + pyobj) \<times> session_context \<times> 's \<times> 'w" where
  "emit_hitl_action search tc te builder tty answer user wait c tool cx s w =
     (if tc_jsonl tc then emit_hitl_action_sync search tc te builder tty answer user c tool cx s w
      else case submit_pending search tc te c cx s of
             (Inl e, cx1, s1) \<Rightarrow> (Inl (submit_error e), cx1, s1, w)
           | (Inr action_id, cx1, s1) \<Rightarrow>
               (case wait action_id s1 of
                  (Inl e, s2) \<Rightarrow> (Inl (Checkpoint_Error e), cx1, s2, w)
                | (Inr _, s2) \<Rightarrow> (case run_tool tool w of (r, w') \<Rightarrow> (r, cx1, s2, w'))))"

section \<open>What is captured\<close>

fun well_keyed :: "json \<Rightarrow> bool" where
  "well_keyed (JObj d) \<longleftrightarrow> distinct (map fst d) \<and> list_all (\<lambda>(k, v). well_keyed v) d"
| "well_keyed (JArr xs) \<longleftrightarrow> list_all well_keyed xs"
| "well_keyed v = True"

lemma in_dset: "(k', v') \<in> set (dset k v d) \<Longrightarrow> (k', v') \<in> set d \<or> (k' = k \<and> v' = v)"
  unfolding dset_def by (induction d) (auto split: if_splits)

lemma dupdate_entries:
  "distinct (map fst d) \<Longrightarrow> distinct (map fst (dupdate d es)) \<and> set (dupdate d es) \<subseteq> set d \<union> set es"
proof (induction d es rule: dupdate.induct)
  case (2 d k v es)
  have "distinct (map fst (dset k v d))" using 2 by (simp add: dset_def distinct_update)
  with 2 show ?case using in_dset by fastforce
qed simp

lemma safe_well_keyed: "well_keyed (to_json_safe v)"
proof (induction v rule: to_json_safe.induct)
  case (6 d)
  let ?es = "map (\<lambda>(k, v). (k, to_json_safe v)) d"
  have "set (dupdate [] ?es) \<subseteq> set ?es" and "distinct (map fst (dupdate [] ?es))"
    using dupdate_entries [of "[]" ?es] by simp_all
  with 6 show ?case by (fastforce simp: list_all_iff)
qed (auto simp: list_all_iff)

lemma redact_well_keyed: "well_keyed v \<Longrightarrow> well_keyed (redact_value search cfg path depth v)"
proof (induction path depth v rule: redact_induct)
  case (dict path depth d)
  let ?d = "map (\<lambda>(k, v). (k, redact_value search cfg (join_path path k) (Suc depth) v)) d"
  have "map fst ?d = map fst d" by (simp add: case_prod_beta comp_def)
  with dict show ?case by (auto simp: redact_shallow list_all_iff simp del: map_map)
next
  case (arr path depth xs)
  then show ?case by (auto simp: redact_shallow list_all_iff)
next
  case (scalar path depth v)
  then show ?case by (simp add: redact_scalar)
qed simp

lemma redact_top:
  "redact search cfg (JObj d) = (if has_rules cfg then redact_value search cfg [] 0 (JObj d) else JObj d)"
  by (simp add: redact_def redact_shallow(1))

lemma redact_obj: "\<exists>d'. redact search cfg (JObj d) = JObj d'"
  by (simp add: redact_top redact_shallow)

lemma captured_dict:
  "ca_override c = None \<Longrightarrow> \<exists>d. redacted_input search c = JObj d" "\<exists>d. redacted_output search c v = JObj d"
  using redact_obj by (auto simp: redacted_input_def redacted_output_def apply_redaction_def split: option.splits)

lemma dict_or_null_JObj [simp]: "dict_or_null (JObj d) = JObj d"
  by (simp add: dict_or_null_def)

text \<open>What is hashed and stored of a call is a JSON object whose dicts, at every level, have each key
  once, whatever Python objects the arguments and the result are made of and whatever is redacted.\<close>

theorem captured_payloads_are_json:
  assumes "ca_override c = None"
  shows "(\<exists>d. redacted_input search c = JObj d) \<and> well_keyed (redacted_input search c) \<and>
    (\<exists>d. redacted_output search c v = JObj d) \<and> well_keyed (redacted_output search c v)"
proof -
  have red: "well_keyed (apply_redaction search cfg (to_json_safe (PDict d)))" for cfg d
  proof (cases cfg)
    case None
    then show ?thesis by (simp only: apply_redaction_def option.case safe_well_keyed)
  next
    case (Some r)
    then show ?thesis
      using redact_well_keyed [OF safe_well_keyed [of "PDict d"], of search r "[]" 0] safe_well_keyed [of "PDict d"]
      by (simp add: apply_redaction_def redact_top)
  qed
  show ?thesis
    using captured_dict(1) [OF assms, of search] captured_dict(2) [of search c v] red assms
    by (simp only: redacted_input_def redacted_output_def option.case)
qed

definition sample_call :: "char traced_call" where
  "sample_call = \<lparr>ca_tool_name = ''pay'', ca_args = [PTuple [PInt 1, PObject ''<obj>'']],
     ca_kwargs = [(''ssn'', PStr ''12-3''), (''m'', PMessage ''ai'' (PStr ''hi'') [])],
     ca_redaction = Some digits_config, ca_override = None\<rparr>"

theorem captured_payloads_are_json_witness:
  "well_keyed (redacted_input (\<lambda>c s. c \<in> set s) sample_call)"
  using captured_payloads_are_json [of sample_call "\<lambda>c s. c \<in> set s"] by (simp add: sample_call_def)

definition sample_trace_env :: trace_env where
  "sample_trace_env = \<lparr>te_sdk_version = ''1.0'', te_event_id = 5, te_emitted_at = ''t0'', te_timestamp = ''t1'',
     te_approval_event_id = 6, te_approval_emitted_at = ''t2'', te_approval_timestamp = ''t3''\<rparr>"

section \<open>What is emitted\<close>

definition traced_envelope ::
  "('p \<Rightarrow> string \<Rightarrow> bool) \<Rightarrow> trace_env \<Rightarrow> 'p traced_call \<Rightarrow> session_context \<Rightarrow> 'x + pyobj \<Rightarrow> dict" where
  "traced_envelope search te c cx res =
     (let output = (case res of Inl _ \<Rightarrow> JNull | Inr v \<Rightarrow> redacted_output search c v) in
      action_envelope te (snd (consume_pending_decision_id cx)) (ca_tool_name c)
        (compute_payload_hash (redacted_input search c))
        (case res of Inl _ \<Rightarrow> None | Inr v \<Rightarrow> Some (compute_payload_hash output))
        (redacted_input search c) output ''auto_authorized'' (cx_pending_decision_id cx))"

definition pending_envelope ::
  "('p \<Rightarrow> string \<Rightarrow> bool) \<Rightarrow> trace_env \<Rightarrow> 'p traced_call \<Rightarrow> session_context \<Rightarrow> dict" where
  "pending_envelope search te c cx =
     action_envelope te (snd (consume_pending_decision_id cx)) (ca_tool_name c)
       (compute_payload_hash (redacted_input search c)) None (redacted_input search c) JNull ''pending''
       (cx_pending_decision_id cx)"

lemma emit_action_record_eq:
  "emit_action_record search tc te c tool cx s w =
     (case try_ingest tc (traced_envelope search te c cx (fst (tool w))) (snd (consume_pending_decision_id cx)) s of
        (Inl e, cx2, s') \<Rightarrow> (Inl (Persistence_Error e), cx2, s', snd (tool w))
      | (Inr _, cx2, s') \<Rightarrow> (fst (run_tool tool w), cx2, s', snd (tool w)))"
  by (cases "tool w") (auto simp: emit_action_record_def traced_envelope_def consume_pending_decision_id_def
      run_tool_def Let_def split: sum.splits prod.splits)

lemma submit_pending_eq:
  "submit_pending search tc te c cx s =
     (case try_ingest tc (pending_envelope search te c cx) (snd (consume_pending_decision_id cx)) s of
        (Inl e, cx2, s') \<Rightarrow> (Inl (Not_Persisted e), cx2, s')
      | (Inr None, cx2, s') \<Rightarrow> (Inl No_Action_Id, cx2, s')
      | (Inr (Some r), cx2, s') \<Rightarrow>
          (case rsp_entity_id r of None \<Rightarrow> (Inl No_Action_Id, cx2, s') | Some i \<Rightarrow> (Inr i, cx2, s')))"
  by (simp add: submit_pending_def pending_envelope_def consume_pending_decision_id_def Let_def)

lemma action_envelope_honest:
  assumes "h = compute_payload_hash i"
    and "oh = None \<and> out = JNull \<or> (\<exists>d. out = JObj d) \<and> oh = Some (compute_payload_hash out)"
  shows "honest (action_envelope te cx name h oh i out status decision)"
  using assms
  by (cases i) (auto simp: honest_def action_envelope_def event_envelope_def dict_simps is_sealed_def bound_def
      binding_broken_def opt_str_def dict_or_null_def)

lemma traced_envelope_honest: "honest (traced_envelope search te c cx res)"
  unfolding traced_envelope_def Let_def
  by (rule action_envelope_honest) (use captured_dict in \<open>auto split: sum.splits\<close>)

lemma pending_envelope_honest: "honest (pending_envelope search te c cx)"
  unfolding pending_envelope_def
  by (rule action_envelope_honest) (use captured_dict in auto)

lemma try_ingest_state: "snd (snd (try_ingest tc envelope cx s)) = snd (tc_handle tc envelope s)"
  by (auto simp: try_ingest_def split: prod.splits sum.splits)

lemma emit_action_record_state:
  "emit_action_record search tc te c tool cx s w = (r, cx', s', w') \<Longrightarrow>
     s' = snd (tc_handle tc (traced_envelope search te c cx (fst (tool w))) s) \<and> w' = snd (tool w)"
  using try_ingest_state [of tc "traced_envelope search te c cx (fst (tool w))" "snd (consume_pending_decision_id cx)" s]
  by (auto simp: emit_action_record_eq split: prod.splits sum.splits)

section \<open>Tracing over the local backend\<close>

text \<open>The surroundings of the client's calls are numbered.\<close>

definition jsonl_traced ::
  "(string \<Rightarrow> instant option) \<Rightarrow> (nat \<Rightarrow> call_env) \<Rightarrow> (nat \<times> jsonl_client, pyexc) traced_client" where
  "jsonl_traced fromiso envs =
     \<lparr>tc_handle = (\<lambda>envelope (n, cl). case jsonl_handle fromiso (envs n) envelope cl of (r, cl') \<Rightarrow> (r, (Suc n, cl'))),
      tc_persistence = (\<lambda>_. False), tc_jsonl = True\<rparr>"

lemma jsonl_traced_handle [simp]:
  "tc_handle (jsonl_traced fromiso envs) envelope (n, cl) =
     (fst (jsonl_handle fromiso (envs n) envelope cl), (Suc n, snd (jsonl_handle fromiso (envs n) envelope cl)))"
  "\<not> tc_persistence (jsonl_traced fromiso envs) e" "tc_jsonl (jsonl_traced fromiso envs)"
  by (simp_all add: jsonl_traced_def split: prod.splits)

text \<open>A run of traced calls, each in its own surroundings; an exception of the tool goes to the agent,
  which goes on.\<close>

fun trace_run ::
  "('p \<Rightarrow> string \<Rightarrow> bool) \<Rightarrow> ('s, 'e) traced_client \<Rightarrow> (trace_env \<times> 'p traced_call \<times> ('w \<Rightarrow> ('x + pyobj) \<times> 'w)) list \<Rightarrow>
   session_context \<Rightarrow> 's \<Rightarrow> 'w \<Rightarrow> session_context \<times> 's \<times> 'w" where
  "trace_run search tc [] cx s w = (cx, s, w)"
| "trace_run search tc ((te, c, tool) # calls) cx s w =
     (case emit_action_record search tc te c tool cx s w of
        (_, cx', s', w') \<Rightarrow> trace_run search tc calls cx' s' w')"

lemma trace_run_inv:
  assumes "session_inv sid cl" and "trace_run search (jsonl_traced fromiso envs) calls cx (n, cl) w = (cx', (n', cl'), w')"
  shows "session_inv sid cl'"
  using assms
proof (induction calls arbitrary: cx n cl w)
  case (Cons call calls)
  obtain te c tool where call: "call = (te, c, tool)" by (cases call)
  obtain r cx1 n1 cl1 w1 where e: "emit_action_record search (jsonl_traced fromiso envs) te c tool cx (n, cl) w = (r, cx1, (n1, cl1), w1)"
    by (metis surj_pair)
  have "cl1 = snd (jsonl_handle fromiso (envs n) (traced_envelope search te c cx (fst (tool w))) cl)"
    using emit_action_record_state [OF e] by simp
  then have "session_inv sid cl1"
    using jsonl_handle_inv [OF Cons.prems(1) traced_envelope_honest] by simp
  then show ?case using Cons.IH Cons.prems(2) call e by simp
qed simp

lemma action_envelope_head:
  "envelope_head (action_envelope te cx name h oh i out status decision) (te_event_id te) (JStr ''ACTION_RECORD'')
     (uuid_str (cx_session_id cx))"
  by (simp add: envelope_head_def action_envelope_def event_envelope_def dict_simps)

lemma action_envelope_sealable:
  "\<exists>payload. dict_or_empty (dget (action_envelope te cx name h oh i out status decision) ''payload'') = Inr payload \<and>
     sealable payload \<and> dget payload ''authorization_status'' = JStr status"
  by (simp add: action_envelope_def event_envelope_def dict_simps sealable_def unsealed_def sealed_fields_def)

lemma first_action_accepted:
  assumes "envelope = action_envelope te cx name h oh i out status decision"
  shows "\<exists>rsp cl' line a. jsonl_handle (\<lambda>_. None) (sample_env Disk_Ok) envelope (empty_client Fsync_Chain) = (Inr rsp, cl') \<and>
     rsp_entity_id rsp = Some a \<and> counts rsp \<and> file_lines cl' (uuid_str (cx_session_id cx)) = [line]"
proof -
  let ?cl = "empty_client Fsync_Chain" and ?sid = "uuid_str (cx_session_id cx)"
  have same: "?cl\<lparr>jc_idempotency := []\<rparr> = ?cl" by (simp add: empty_client_def)
  obtain payload where "dict_or_empty (dget envelope ''payload'') = Inr payload" "sealable payload"
    using action_envelope_sealable unfolding assms by blast
  from jsonl_record_sealable [OF this, of "sample_env Disk_Ok" ?sid ?cl "te_event_id te"]
  obtain sealed :: sealed_action and st' line where r: "jsonl_record (sample_env Disk_Ok) envelope (te_event_id te) (JStr ''ACTION_RECORD'') ?sid ?cl =
      after_append (accepted (te_event_id te) (Some (sa_action_id sealed)) (Some (sa_sequence_number sealed)) (Some (sa_self_hash sealed)))
        (append_line (ce_disk (sample_env Disk_Ok)) ?sid line (should_fsync (jc_fsync ?cl) (JStr ''ACTION_RECORD''))
           (?cl\<lparr>jc_chains := (jc_chains ?cl)(?sid \<mapsto> st')\<rparr>))" by blast
  have emitted: "parse_dt (\<lambda>_. None) t (dget envelope ''emitted_at'') = \<lparr>micros = t, aware = True\<rparr>" for t
    by (simp add: parse_dt_def assms action_envelope_def event_envelope_def dict_simps)
  have env: "ce_now_get (sample_env d) = 0" "ce_now_set (sample_env d) = 0" "ce_disk (sample_env d) = d" for d
    by (simp_all add: sample_env_def)
  have cl: "jc_idempotency ?cl = []" "jc_files ?cl = Map.empty" "jc_fsync ?cl = Fsync_Chain"
    by (simp_all add: empty_client_def)
  show ?thesis
    using r
    by (auto simp: emitted env cl same idem_get_def evict_expired_def Let_def idem_set_def
        jsonl_handle_head [OF action_envelope_head [of te cx name h oh i out status decision, folded assms]]
        append_line_def file_lines_def counts_def should_fsync_def)
qed

section \<open>Properties of tracing\<close>

lemma emit_transparent:
  assumes "\<forall>d s e s'. tc_handle tc d s = (Inl e, s') \<longrightarrow> \<not> tc_persistence tc e"
    and "emit_action_record search tc te c tool cx s w = (r, cx', s', w')"
  shows "w' = snd (tool w) \<and> r = (case fst (tool w) of Inl x \<Rightarrow> Inl (Tool_Error x) | Inr v \<Rightarrow> Inr v)"
proof -
  let ?e = "traced_envelope search te c cx (fst (tool w))"
  obtain a s1 where h: "tc_handle tc ?e s = (a, s1)" by (cases "tc_handle tc ?e s")
  then have "\<not> isl (fst (try_ingest tc ?e (snd (consume_pending_decision_id cx)) s))"
    using assms(1) by (auto simp: try_ingest_def split: sum.splits)
  then show ?thesis
    using assms(2) by (auto simp: emit_action_record_eq run_tool_def split: prod.splits sum.splits)
qed



text \<open>Whatever is traced over the local backend and whichever of its writes fail, every session file
  verifies as VALID or INCOMPLETE, never as TAMPERED: the tracer's hashes are those of what it
  stores.\<close>

theorem traced_sessions_verify:
  assumes "trace_run search (jsonl_traced fromiso envs) calls cx (0, empty_client mode) w = (cx', (n', cl'), w')"
    and "file_lines cl' sid \<noteq> []"
  shows "\<exists>v. verify_session_local (file_of (file_lines cl' sid)) = Inr v \<and> vr_verdict v \<in> {VALID, INCOMPLETE}"
  using session_inv_verdict [OF trace_run_inv [OF session_inv_empty assms(1)] assms(2)] by blast

theorem traced_sessions_verify_witness:
  "\<exists>cx' n' cl' w' v. trace_run (\<lambda>c s. c \<in> set s) (jsonl_traced (\<lambda>_. None) (\<lambda>_. sample_env Disk_Ok))
      [(sample_trace_env, sample_call, \<lambda>n :: nat. (Inr (PInt 3) :: unit + pyobj, Suc n))]
      (new_context 1 2) (0, empty_client Fsync_Chain) 0 = (cx', (n', cl'), w') \<and>
     verify_session_local (file_of (file_lines cl' (uuid_str 2))) = Inr v \<and> vr_verdict v \<in> {VALID, INCOMPLETE}"
proof -
  let ?tc = "jsonl_traced (\<lambda>_. None) (\<lambda>_. sample_env Disk_Ok)"
  let ?tool = "\<lambda>n :: nat. (Inr (PInt 3) :: unit + pyobj, Suc n)"
  let ?s = "\<lambda>c s. c \<in> set s" and ?cx = "new_context 1 2"
  let ?e = "traced_envelope ?s sample_trace_env sample_call ?cx (fst (?tool 0))"
  obtain r cx' n' cl' w' where e: "emit_action_record ?s ?tc sample_trace_env sample_call ?tool ?cx
      (0, empty_client Fsync_Chain) 0 = (r, cx', (n', cl'), w')" by (metis surj_pair)
  then have run: "trace_run ?s ?tc [(sample_trace_env, sample_call, ?tool)] ?cx (0, empty_client Fsync_Chain) 0
      = (cx', (n', cl'), w')" by simp
  have cl': "cl' = snd (jsonl_handle (\<lambda>_. None) (sample_env Disk_Ok) ?e (empty_client Fsync_Chain))"
    using emit_action_record_state [OF e] by simp
  have "file_lines cl' (uuid_str (cx_session_id (snd (consume_pending_decision_id ?cx)))) \<noteq> []"
    unfolding cl'
    using first_action_accepted [OF traced_envelope_def [unfolded Let_def, of ?s sample_trace_env sample_call ?cx "fst (?tool 0)"]]
    by (metis list.distinct(1) snd_conv)
  then have "file_lines cl' (uuid_str 2) \<noteq> []"
    by (simp add: consume_pending_decision_id_def new_context_def)
  from traced_sessions_verify [OF run this] run show ?thesis by blast
qed

lemma run_tool_eq: "run_tool tool w = (case fst (tool w) of Inl x \<Rightarrow> Inl (Tool_Error x) | Inr v \<Rightarrow> Inr v, snd (tool w))"
  by (cases "tool w") (auto simp: run_tool_def split: sum.splits)

lemma submit_pending_Inr:
  assumes "submit_pending search tc te c cx s = (Inr i, cx1, s1)"
  shows "\<exists>rsp. tc_handle tc (pending_envelope search te c cx) s = (Inr rsp, s1) \<and> rsp_entity_id rsp = Some i"
  using assms
  by (auto simp: submit_pending_eq try_ingest_def split: prod.splits sum.splits option.splits if_splits)

lemma submit_error_not_tool [simp]: "submit_error e \<noteq> Tool_Error x"
  by (cases e) simp_all

lemma gated_tool:
  assumes "emit_hitl_action search tc te builder tty answer user wait c tool cx s w = (r, cx', s', w')"
  shows "(w' = w \<and> (\<exists>e. r = Inl e \<and> (\<forall>x. e \<noteq> Tool_Error x))) \<or>
    ((r, w') = run_tool tool w \<and>
     (\<exists>rsp i s1. tc_handle tc (pending_envelope search te c cx) s = (Inr rsp, s1) \<and> rsp_entity_id rsp = Some i \<and>
        (if tc_jsonl tc then tty \<and> (\<exists>line. answer = Some line \<and> says_yes (strip_chars is_space line))
         else \<exists>result s2. wait i s1 = (Inr result, s2))))"
proof -
  obtain a cx1 s1 where sub: "submit_pending search tc te c cx s = (a, cx1, s1)"
    by (metis surj_pair)
  show ?thesis
  proof (cases a)
    case (Inl e)
    have "w' = w \<and> (r = Inl No_Terminal \<or> r = Inl (submit_error e))"
      using assms unfolding emit_hitl_action_def emit_hitl_action_sync_def sub Inl
      by (cases "tc_jsonl tc"; cases tty) simp_all
    then show ?thesis by auto
  next
    case (Inr i)
    obtain rsp :: response where h: "tc_handle tc (pending_envelope search te c cx) s = (Inr rsp, s1)"
      "rsp_entity_id rsp = Some i"
      using submit_pending_Inr [OF sub [unfolded Inr]] by blast
    show ?thesis
    proof (cases "tc_jsonl tc")
      case True
      then show ?thesis
        using assms sub Inr h
        by (auto simp: emit_hitl_action_def emit_hitl_action_sync_def Let_def run_tool_eq
            split: if_splits option.splits prod.splits sum.splits)
    next
      case False
      then show ?thesis
        using assms sub Inr h
        by (auto simp: emit_hitl_action_def run_tool_eq split: prod.splits sum.splits)
    qed
  qed
qed


lemma sample_submit:
  "\<exists>i cx1 cl1. submit_pending (\<lambda>c s. c \<in> set s) (jsonl_traced (\<lambda>_. None) (\<lambda>n. sample_env (if n = 0 then Disk_Ok else d)))
     sample_trace_env sample_call (new_context 1 2) (0, empty_client Fsync_Chain) = (Inr i, cx1, (1, cl1))"
proof -
  let ?e = "pending_envelope (\<lambda>c s. c \<in> set s) sample_trace_env sample_call (new_context 1 2)"
  obtain rsp :: response and cl1 i where
    "jsonl_handle (\<lambda>_. None) (sample_env Disk_Ok) ?e (empty_client Fsync_Chain) = (Inr rsp, cl1)" "rsp_entity_id rsp = Some i"
    using first_action_accepted [OF pending_envelope_def [of "\<lambda>c s. c \<in> set s" sample_trace_env sample_call "new_context 1 2"]]
    by blast
  then show ?thesis by (simp add: submit_pending_eq try_ingest_def)
qed


lemma jsonl_approval:
  "\<exists>envelope. emit_approval_record (jsonl_traced fromiso envs) te cx i who ty presented decision reason parent latency (m, cl)
     = (Inr (), (Suc m, snd (jsonl_handle fromiso (envs m) envelope cl)))"
proof -
  define envelope where "envelope = event_envelope (te_sdk_version te) (te_approval_event_id te) (te_approval_emitted_at te) cx APPROVAL_RECORD
                [(''action_id'', JStr (uuid_str i)),
                 (''approver_id'', JStr who),
                 (''approver_type'', JStr ty),
                 (''context_presented'', presented),
                 (''decision'', JStr decision),
                 (''decision_reason'', opt_str reason),
                 (''parent_approval_id'', opt_uuid parent),
                 (''response_latency_ms'', case latency of None \<Rightarrow> JNull | Some i \<Rightarrow> JInt i),
                 (''timestamp'', JStr (te_approval_timestamp te))]"
  have "emit_approval_record (jsonl_traced fromiso envs) te cx i who ty presented decision reason parent latency (m, cl)
     = (Inr (), (Suc m, snd (jsonl_handle fromiso (envs m) envelope cl)))"
    unfolding emit_approval_record_def envelope_def [symmetric] by (simp split: sum.split)
  then show ?thesis by blast
qed

lemma yes_runs:
  assumes "submit_pending search (jsonl_traced fromiso envs) te c cx (n, cl) = (Inr i, cx1, (m, cl1))"
    and "says_yes (strip_chars is_space line)"
  shows "\<exists>envelope. emit_hitl_action_sync search (jsonl_traced fromiso envs) te builder True (Some line) user c tool cx (n, cl) w
     = (fst (run_tool tool w), cx1, (Suc m, snd (jsonl_handle fromiso (envs m) envelope cl1)), snd (tool w))"
proof -
  obtain envelope where "emit_approval_record (jsonl_traced fromiso envs) te cx1 i (''tty:'' @ user) ''human''
      (context_presented search builder c) ''approved'' (prompt_note (strip_chars is_space line)) None None (m, cl1)
      = (Inr (), (Suc m, snd (jsonl_handle fromiso (envs m) envelope cl1)))"
    using jsonl_approval by blast
  then show ?thesis
    using assms by (auto simp: emit_hitl_action_sync_def Let_def run_tool_eq)
qed

lemma record_write_fails:
  "jsonl_record env envelope event_id ty sid cl = (res, cl1) \<Longrightarrow> ce_disk env = Write_Fails e \<Longrightarrow> jc_files cl1 = jc_files cl"
  by (auto simp: jsonl_record_def build_action_def append_line_def after_append_def Let_def
      split: if_splits sum.splits prod.splits)

lemma handle_write_fails:
  "ce_disk env = Write_Fails e \<Longrightarrow> jc_files (snd (jsonl_handle fromiso env envelope cl)) = jc_files cl"
  using jsonl_handle_record [of fromiso env envelope cl] record_write_fails by force

text \<open>On the local backend an approved tool runs even when its approval could not be written: the
  \<open>OSError\<close> is not a \<open>RecordPersistenceError\<close>, so it is logged and swallowed, and the session
  files hold no trace of the approval.\<close>

theorem approved_run_leaves_no_record:
  assumes "submit_pending search (jsonl_traced fromiso envs) te c cx (n, cl) = (Inr i, cx1, (m, cl1))"
    and "says_yes (strip_chars is_space line)" and "ce_disk (envs m) = Write_Fails e"
  shows "\<exists>cl2. emit_hitl_action_sync search (jsonl_traced fromiso envs) te builder True (Some line) user c tool cx (n, cl) w
     = (fst (run_tool tool w), cx1, (Suc m, cl2), snd (tool w)) \<and> jc_files cl2 = jc_files cl1"
proof -
  obtain envelope where run: "emit_hitl_action_sync search (jsonl_traced fromiso envs) te builder True (Some line) user c tool cx (n, cl) w
     = (fst (run_tool tool w), cx1, (Suc m, snd (jsonl_handle fromiso (envs m) envelope cl1)), snd (tool w))"
    using yes_runs [OF assms(1,2), of builder user tool w] by blast
  show ?thesis
    by (intro exI [of _ "snd (jsonl_handle fromiso (envs m) envelope cl1)"] conjI run handle_write_fails [OF assms(3)])
qed

theorem approved_run_leaves_no_record_witness:
  "\<exists>cx' s'. emit_hitl_action_sync (\<lambda>c s. c \<in> set s)
     (jsonl_traced (\<lambda>_. None) (\<lambda>n. sample_env (if n = 0 then Disk_Ok else Write_Fails ''disk full'')))
     sample_trace_env None True (Some ''y'') ''ann'' sample_call
     (\<lambda>n :: nat. (Inr PNone :: unit + pyobj, Suc n)) (new_context 1 2) (0, empty_client Fsync_Chain) 4 = (Inr PNone, cx', s', 5)"
proof -
  let ?envs = "\<lambda>n :: nat. sample_env (if n = 0 then Disk_Ok else Write_Fails ''disk full'')"
  obtain i cx1 cl1 where sub: "submit_pending (\<lambda>c s. c \<in> set s) (jsonl_traced (\<lambda>_. None) ?envs)
     sample_trace_env sample_call (new_context 1 2) (0, empty_client Fsync_Chain) = (Inr i, cx1, (1 :: nat, cl1))"
    using sample_submit by blast
  have "says_yes (strip_chars is_space ''y'')" by (simp add: strip_chars_def is_space_def says_yes_def)
  moreover have "ce_disk (?envs 1) = Write_Fails ''disk full''" by (simp add: sample_env_def)
  ultimately show ?thesis
    using approved_run_leaves_no_record [OF sub, of "''y''" "''disk full''" None "''ann''"
        "\<lambda>n :: nat. (Inr PNone :: unit + pyobj, Suc n)" 4]
    by (auto simp: run_tool_def)
qed

text \<open>At the prompt \<open>[y/N]\<close> of the local backend the answer \<open>abort\<close> approves: only the first letter is
  read, and \<open>a\<close> counts as yes.\<close>

theorem abort_approves:
  shows "\<exists>cx' s'. emit_hitl_action (\<lambda>c s. c \<in> set s) (jsonl_traced (\<lambda>_. None) (\<lambda>n. sample_env (if n = 0 then Disk_Ok else Disk_Ok)))
     sample_trace_env None True (Some ''abort'') ''ann'' wait sample_call
     (\<lambda>n :: nat. (Inr PNone :: unit + pyobj, Suc n)) (new_context 1 2) (0, empty_client Fsync_Chain) 4 = (Inr PNone, cx', s', 5)"
proof -
  obtain i cx1 cl1 where sub: "submit_pending (\<lambda>c s. c \<in> set s)
     (jsonl_traced (\<lambda>_. None) (\<lambda>n. sample_env (if n = 0 then Disk_Ok else Disk_Ok)))
     sample_trace_env sample_call (new_context 1 2) (0, empty_client Fsync_Chain) = (Inr i, cx1, (1 :: nat, cl1))"
    using sample_submit by blast
  have "says_yes (strip_chars is_space ''abort'')" by (simp add: strip_chars_def is_space_def says_yes_def)
  from yes_runs [OF sub this, of None "''ann''" "\<lambda>n :: nat. (Inr PNone :: unit + pyobj, Suc n)" 4]
  show ?thesis by (auto simp: emit_hitl_action_def run_tool_def simp del: if_cancel)
qed

end
