(* ===== verification/Session_Scope.thy ===== *)
theory Session_Scope
  imports Tracer
begin

text \<open>
  \<^verbatim>\<open>rootsign/sdk/session.py\<close> and the decision capture of
  \<^verbatim>\<open>rootsign/sdk/decorator.py\<close> and \<^verbatim>\<open>rootsign/sdk/context.py\<close>: a session opens,
  runs its body, flushes the client and closes, whatever the body did. The body is a step on the
  context, the client and the agent's world, and may raise. Looking up the ambient client and agent
  is left out: both are arguments.
\<close>

section \<open>Decisions\<close>

datatype reasoning_depth = Depth_Minimal | Depth_Summary | Depth_Full

fun depth_value :: "reasoning_depth \<Rightarrow> string" where
  "depth_value Depth_Minimal = ''minimal''"
| "depth_value Depth_Summary = ''summary''"
| "depth_value Depth_Full = ''full''"

definition captured_summary :: "reasoning_depth \<Rightarrow> string option \<Rightarrow> string option" where
  "captured_summary depth summary =
     (case summary of
        None \<Rightarrow> None
      | Some s \<Rightarrow>
          if depth = Depth_Minimal \<or> s = [] then None
          else Some (take (if depth = Depth_Summary then 500 else 10000) s))"

definition captured_alternatives :: "reasoning_depth \<Rightarrow> string list option \<Rightarrow> string list" where
  "captured_alternatives depth alts =
     (if depth = Depth_Full then (case alts of None \<Rightarrow> [] | Some xs \<Rightarrow> xs) else [])"

definition decision_envelope ::
  "trace_env \<Rightarrow> session_context \<Rightarrow> reasoning_depth \<Rightarrow> string \<Rightarrow> string option \<Rightarrow> json \<Rightarrow> string list option \<Rightarrow> dict" where
  "decision_envelope te cx depth selected_action reasoning_summary confidence alternatives =
     (let summary = captured_summary depth reasoning_summary in
      event_envelope (te_sdk_version te) (te_event_id te) (te_emitted_at te) cx DECISION_RECORD
        [(''selected_action'', JStr selected_action),
         (''reasoning_summary'', opt_str summary),
         (''confidence'', confidence),
         (''alternatives_considered'', JArr (map JStr (captured_alternatives depth alternatives))),
         (''timestamp'', JStr (te_timestamp te)),
         (''reasoning_depth'', JStr (depth_value depth)),
         (''reasoning_captured'', JBool (summary \<noteq> None))])"

definition emit_decision_record ::
  "('s, 'e) traced_client \<Rightarrow> dict \<Rightarrow> 's \<Rightarrow> ('e + uuid option) \<times> 's" where
  "emit_decision_record tc envelope s =
     (case tc_handle tc envelope s of
        (Inl e, s') \<Rightarrow> (if tc_persistence tc e then (Inl e, s') else (Inr None, s'))
      | (Inr r, s') \<Rightarrow> (Inr (rsp_entity_id r), s'))"

definition record_decision ::
  "('s, 'e) traced_client \<Rightarrow> trace_env \<Rightarrow> bool \<Rightarrow> reasoning_depth \<Rightarrow> string \<Rightarrow> string option \<Rightarrow> json \<Rightarrow>
   string list option \<Rightarrow> session_context \<Rightarrow> 's \<Rightarrow> ('e + uuid option) \<times> session_context \<times> 's" where
  "record_decision tc te capture depth selected_action reasoning_summary confidence alternatives cx s =
     (if \<not> capture then (Inr None, cx, s)
      else case emit_decision_record tc
                  (decision_envelope te cx depth selected_action reasoning_summary confidence alternatives) s of
             (Inl e, s') \<Rightarrow> (Inl e, cx, s')
           | (Inr decision_id, s') \<Rightarrow> (Inr decision_id, cx\<lparr>cx_pending_decision_id := decision_id\<rparr>, s'))"

section \<open>Sessions\<close>

record session_env =
  se_sdk_version :: string
  se_open_event_id :: uuid
  se_open_emitted_at :: string
  se_close_event_id :: uuid
  se_close_emitted_at :: string

definition envelope_base :: "string \<Rightarrow> session_context \<Rightarrow> dict" where
  "envelope_base sdk_version cx =
     [(''schema_version'', JStr schema_version),
      (''sdk_version'', JStr sdk_version),
      (''agent_id'', JStr (uuid_str (cx_agent_id cx))),
      (''session_id'', JStr (uuid_str (cx_session_id cx)))]"

definition open_envelope :: "session_env \<Rightarrow> string option \<Rightarrow> string option \<Rightarrow> session_context \<Rightarrow> dict" where
  "open_envelope se objective user_id cx =
     envelope_base (se_sdk_version se) cx @
     [(''event_type'', JStr (event_value SESSION_OPEN)),
      (''event_id'', JStr (uuid_str (se_open_event_id se))),
      (''emitted_at'', JStr (se_open_emitted_at se)),
      (''payload'', JObj [(''objective'', opt_str objective), (''user_id'', opt_str user_id)])]"

definition close_envelope :: "session_env \<Rightarrow> string \<Rightarrow> session_context \<Rightarrow> dict" where
  "close_envelope se status cx =
     envelope_base (se_sdk_version se) cx @
     [(''event_type'', JStr (event_value SESSION_CLOSE)),
      (''event_id'', JStr (uuid_str (se_close_event_id se))),
      (''emitted_at'', JStr (se_close_emitted_at se)),
      (''payload'', JObj [(''status'', JStr status),
         (''metadata'', JObj [(''total_actions'', JInt (int (cx_sequence cx)))])])]"

datatype ('x, 'e) session_exn = Open_Failed 'e | Body_Error 'x

type_synonym ('s, 'w, 'x) session_body =
  "session_context \<Rightarrow> 's \<Rightarrow> 'w \<Rightarrow> ('x + unit) \<times> session_context \<times> 's \<times> 'w"

text \<open>\<open>flush\<close> is the client's, if it has one; \<open>on_exit\<close> closes a client the session built
  itself, and is the identity for a caller's.\<close>

definition run_session ::
  "('s, 'e) traced_client \<Rightarrow> session_env \<Rightarrow> ('s \<Rightarrow> ('e + unit) \<times> 's) option \<Rightarrow> ('s \<Rightarrow> 's) \<Rightarrow> uuid \<Rightarrow> uuid \<Rightarrow>
   string option \<Rightarrow> string option \<Rightarrow> ('s, 'w, 'x) session_body \<Rightarrow> 's \<Rightarrow> 'w \<Rightarrow>
   (('x, 'e) session_exn + unit) \<times> session_context \<times> 's \<times> 'w" where
  "run_session tc se flush_client on_exit agent sid objective user_id body s w =
     (let (should_open, cx) = mark_session_open (new_context agent sid) in
      case (if should_open
            then (case tc_handle tc (open_envelope se objective user_id cx) s of
                    (Inl e, s1) \<Rightarrow> (Some e, s1) | (Inr _, s1) \<Rightarrow> (None, s1))
            else (None, s)) of
        (Some e, s1) \<Rightarrow> (Inl (Open_Failed e), cx, s1, w)
      | (None, s1) \<Rightarrow>
          (case body cx s1 w of
             (res, cx2, s2, w2) \<Rightarrow>
               let status = (case res of Inl _ \<Rightarrow> ''failed'' | Inr _ \<Rightarrow> ''completed'');
                   s3 = (case flush_client of None \<Rightarrow> s2 | Some f \<Rightarrow> snd (f s2));
                   s4 = snd (tc_handle tc (close_envelope se status cx2) s3)
               in ((case res of Inl x \<Rightarrow> Inl (Body_Error x) | Inr u \<Rightarrow> Inr u), cx2, on_exit s4, w2)))"

section \<open>One decision, one action\<close>

lemma pending_consumed:
  assumes "emit_action_record search tc te c tool cx s w = (r, cx', s', w')"
  shows "cx_pending_decision_id cx' = None \<and> cx_agent_id cx' = cx_agent_id cx \<and> cx_session_id cx' = cx_session_id cx"
  using assms
  by (auto simp: emit_action_record_eq try_ingest_def consume_pending_decision_id_def next_sequence_def
      split: prod.splits sum.splits if_splits)

definition decision_of :: "dict \<Rightarrow> json" where
  "decision_of envelope = (case dget envelope ''payload'' of JObj p \<Rightarrow> dget p ''decision_id'' | _ \<Rightarrow> JNull)"

lemma traced_decision: "decision_of (traced_envelope search te c cx res) = opt_uuid (cx_pending_decision_id cx)"
  by (simp add: decision_of_def traced_envelope_def action_envelope_def event_envelope_def dict_simps Let_def)

text \<open>The client with a log of what it was handed, oldest first.\<close>

definition journaled :: "('s, 'e) traced_client \<Rightarrow> ('s \<times> dict list, 'e) traced_client" where
  "journaled tc =
     \<lparr>tc_handle = (\<lambda>envelope (s, past). case tc_handle tc envelope s of (r, s') \<Rightarrow> (r, (s', past @ [envelope]))),
      tc_persistence = tc_persistence tc, tc_jsonl = tc_jsonl tc\<rparr>"

lemma journaled_handle [simp]:
  "tc_handle (journaled tc) envelope (s, past) =
     (fst (tc_handle tc envelope s), (snd (tc_handle tc envelope s), past @ [envelope]))"
  by (simp add: journaled_def split: prod.splits)

lemma emitted_logged:
  assumes "emit_action_record search (journaled tc) te c tool cx (s, past) w = (r, cx', (s', past'), w')"
  shows "past' = past @ [traced_envelope search te c cx (fst (tool w))]"
  using emit_action_record_state [OF assms] by simp

text \<open>A decision is linked to the next action and to no other: the record of the next traced call
  carries the id the store gave the decision, whether the call succeeds or raises and whatever the
  client answers, and the record of the one after carries none.\<close>

theorem decision_links_one_action:
  assumes "record_decision (journaled tc) te0 True depth selected summary confidence alternatives cx (s, past)
      = (Inr (Some d), cx0, (s0, past0))"
    and "emit_action_record search (journaled tc) te1 c1 tool1 cx0 (s0, past0) w0 = (r1, cx1, (s1, past1), w1)"
    and "emit_action_record search (journaled tc) te2 c2 tool2 cx1 (s1, past1) w1 = (r2, cx2, (s2, past2), w2)"
  shows "\<exists>e1 e2. past2 = past0 @ [e1, e2] \<and> decision_of e1 = JStr (uuid_str d) \<and> decision_of e2 = JNull"
proof -
  have "cx_pending_decision_id cx0 = Some d"
    using assms(1) by (auto simp: record_decision_def split: prod.splits sum.splits)
  moreover have "cx_pending_decision_id cx1 = None" using pending_consumed [OF assms(2)] by simp
  ultimately show ?thesis
    using emitted_logged [OF assms(2)] emitted_logged [OF assms(3)] by (auto simp: traced_decision opt_uuid_def)
qed

text \<open>A client that accepts everything, for concrete runs.\<close>

definition quiet_client :: "(unit, unit) traced_client" where
  "quiet_client = \<lparr>tc_handle = (\<lambda>envelope s. (Inr (accepted 1 (Some 9) None None), s)),
     tc_persistence = (\<lambda>_. False), tc_jsonl = False\<rparr>"

theorem decision_links_one_action_witness:
  "\<exists>s0 past0 past2 e1 e2 cx0 r1 cx1 s1 past1 w1 r2 cx2 s2 w2.
     record_decision (journaled quiet_client) sample_trace_env True Depth_Full ''pay'' None JNull None (new_context 1 2) ((), [])
       = (Inr (Some 9), cx0, (s0, past0)) \<and>
     emit_action_record (\<lambda>c s. c \<in> set s) (journaled quiet_client) sample_trace_env sample_call
       (\<lambda>n :: nat. (Inl ''boom'', Suc n)) cx0 (s0, past0) 0 = (r1, cx1, (s1, past1), w1) \<and>
     emit_action_record (\<lambda>c s. c \<in> set s) (journaled quiet_client) sample_trace_env sample_call
       (\<lambda>n :: nat. (Inr PNone :: string + pyobj, Suc n)) cx1 (s1, past1) w1 = (r2, cx2, (s2, past2), w2) \<and>
     past2 = past0 @ [e1, e2] \<and> decision_of e1 = JStr (uuid_str 9) \<and> decision_of e2 = JNull"
proof -
  let ?tc = "journaled quiet_client" and ?s = "\<lambda>c s. c \<in> set s"
  obtain cx0 s0 past0 where d: "record_decision ?tc sample_trace_env True Depth_Full ''pay'' None JNull None (new_context 1 2) ((), [])
       = (Inr (Some 9), cx0, (s0, past0))"
    by (simp add: record_decision_def emit_decision_record_def quiet_client_def)
  obtain r1 cx1 s1 past1 w1 where e1: "emit_action_record ?s ?tc sample_trace_env sample_call
       (\<lambda>n :: nat. (Inl ''boom'', Suc n)) cx0 (s0, past0) 0 = (r1, cx1, (s1, past1), w1)"
    by (metis surj_pair)
  obtain r2 cx2 s2 past2 w2 where e2: "emit_action_record ?s ?tc sample_trace_env sample_call
       (\<lambda>n :: nat. (Inr PNone :: string + pyobj, Suc n)) cx1 (s1, past1) w1 = (r2, cx2, (s2, past2), w2)"
    by (metis surj_pair)
  from decision_links_one_action [OF d e1 e2] d e1 e2 show ?thesis by blast
qed

section \<open>A session always closes\<close>

definition opened :: "uuid \<Rightarrow> uuid \<Rightarrow> session_context" where
  "opened agent sid = snd (mark_session_open (new_context agent sid))"

lemma run_session_eq:
  "run_session tc se flush_client on_exit agent sid objective user_id body s w =
     (case tc_handle tc (open_envelope se objective user_id (opened agent sid)) s of
        (Inl e, s1) \<Rightarrow> (Inl (Open_Failed e), opened agent sid, s1, w)
      | (Inr _, s1) \<Rightarrow>
          (case body (opened agent sid) s1 w of
             (res, cx2, s2, w2) \<Rightarrow>
               ((case res of Inl x \<Rightarrow> Inl (Body_Error x) | Inr u \<Rightarrow> Inr u), cx2,
                on_exit (snd (tc_handle tc (close_envelope se (if isl res then ''failed'' else ''completed'') cx2)
                   (case flush_client of None \<Rightarrow> s2 | Some f \<Rightarrow> snd (f s2)))), w2)))"
  by (auto simp: run_session_def opened_def Let_def mark_session_open_def new_context_def
      split: prod.splits sum.splits)


definition sample_session_env :: session_env where
  "sample_session_env = \<lparr>se_sdk_version = ''1.0'', se_open_event_id = 3, se_open_emitted_at = ''t0'',
     se_close_event_id = 4, se_close_emitted_at = ''t9''\<rparr>"


section \<open>The counter and the file\<close>

definition actions_in :: "jsonl_client \<Rightarrow> string \<Rightarrow> nat" where
  "actions_in cl sid = length (filter is_action_record (file_lines cl sid))"

definition sound_disk :: "disk \<Rightarrow> bool" where
  "sound_disk d \<longleftrightarrow> (\<forall>e. d \<noteq> Sync_Fails e)"

lemma sound_append:
  "sound_disk d \<Longrightarrow> append_line d sid line b cl = (res, cl') \<Longrightarrow>
     file_lines cl' sid = file_lines cl sid @ (if isl res then [] else [line])"
  by (auto simp: append_line_def sound_disk_def file_lines_def Let_def split: disk.splits if_splits)

lemma action_recorded:
  assumes "jsonl_record env envelope event_id (JStr ''ACTION_RECORD'') sid cl = (res, cl')" and "sound_disk (ce_disk env)"
  shows "actions_in cl' sid = actions_in cl sid + (if isl res then 0 else 1) \<and> (\<forall>r. res = Inr r \<longrightarrow> counts r)"
proof -
  obtain b cl1 where b: "build_action (ce_fresh env) envelope event_id sid cl = (b, cl1)"
    by (cases "build_action (ce_fresh env) envelope event_id sid cl")
  then have same: "file_lines cl1 sid = file_lines cl sid"
    by (auto simp: build_action_def file_lines_def split: sum.splits prod.splits)
  show ?thesis
  proof (cases b)
    case (Inl e)
    then show ?thesis using assms b same by (auto simp: jsonl_record_def actions_in_def)
  next
    case (Inr rl)
    then obtain rsp line where rl: "b = Inr (rsp, line)" by (cases rl) simp
    then have line: "is_action_record line" and rsp: "counts rsp"
      using b action_line_fields(13)
      by (auto simp: build_action_def counts_def sbind_eq_Inr split: sum.splits prod.splits)
    obtain a cl2 where ap: "append_line (ce_disk env) sid line (should_fsync (jc_fsync cl1) (JStr ''ACTION_RECORD'')) cl1 = (a, cl2)"
      by (metis surj_pair)
    have "res = (case a of Inl e \<Rightarrow> Inl e | Inr _ \<Rightarrow> Inr rsp)" "cl' = cl2"
      using assms(1) b rl ap by (auto simp: jsonl_record_def after_append_def split: sum.splits)
    then show ?thesis
      using sound_append [OF assms(2) ap] same line rsp by (auto simp: actions_in_def split: sum.splits)
  qed
qed

lemma actions_in_idempotency [simp]: "actions_in (cl\<lparr>jc_idempotency := x\<rparr>) sid = actions_in cl sid"
  by (simp add: actions_in_def file_lines_def)

lemma rejected_not_counted [simp]: "\<not> counts (rejected e c m b)"
  by (simp add: counts_def rejected_def)

lemma handle_counted:
  assumes head: "envelope_head envelope event_id (JStr ''ACTION_RECORD'') sid" and disk: "sound_disk (ce_disk env)"
    and aware: "aware (parse_dt fromiso (ce_now_get env) (dget envelope ''emitted_at''))"
    and h: "jsonl_handle fromiso env envelope cl = (a, cl')"
  shows "actions_in cl' sid = actions_in cl sid + (case a of Inl _ \<Rightarrow> 0 | Inr r \<Rightarrow> if counts r then 1 else 0)"
proof -
  obtain hit cache where g: "idem_get (ce_now_get env) event_id (jc_idempotency cl) = (hit, cache)"
    by (cases "idem_get (ce_now_get env) event_id (jc_idempotency cl)")
  show ?thesis
  proof (cases hit)
    case (Some r)
    then show ?thesis using h g by (auto simp: jsonl_handle_head [OF head] Let_def)
  next
    case None
    obtain res cl2 where r: "jsonl_record env envelope event_id (JStr ''ACTION_RECORD'') sid (cl\<lparr>jc_idempotency := cache\<rparr>) = (res, cl2)"
      by (metis surj_pair)
    show ?thesis
      using h g None r action_recorded [OF r disk] aware
      by (cases res) (auto simp: jsonl_handle_head [OF head] Let_def idem_set_def)
  qed
qed

lemma traced_counted:
  assumes "emit_action_record search (jsonl_traced fromiso envs) te c tool cx (n, cl) w = (r, cx', (n', cl'), w')"
    and "sound_disk (ce_disk (envs n))" and "\<forall>t. \<exists>i. fromiso t = Some i \<and> aware i"
    and "cx_sequence cx = actions_in cl (uuid_str (cx_session_id cx))"
  shows "cx_sequence cx' = actions_in cl' (uuid_str (cx_session_id cx'))"
proof -
  let ?e = "traced_envelope search te c cx (fst (tool w))" and ?sid = "uuid_str (cx_session_id cx)"
  obtain a cl1 where h: "jsonl_handle fromiso (envs n) ?e cl = (a, cl1)" by (metis surj_pair)
  have head: "envelope_head ?e (te_event_id te) (JStr ''ACTION_RECORD'') ?sid"
    using action_envelope_head [of te "snd (consume_pending_decision_id cx)"]
    by (simp add: traced_envelope_def Let_def consume_pending_decision_id_def)
  have "aware (parse_dt fromiso (ce_now_get (envs n)) (dget ?e ''emitted_at''))"
    using assms(3) by (auto simp: parse_dt_def split: json.splits option.splits) (metis option.inject)
  from handle_counted [OF head assms(2) this h] assms(1,4) h pending_consumed [OF assms(1)]
  show ?thesis
    by (auto simp: emit_action_record_eq try_ingest_def consume_pending_decision_id_def next_sequence_def
        split: prod.splits sum.splits if_splits)
qed

lemma other_not_counted:
  assumes head: "envelope_head envelope event_id (JStr ty) sid" and ty: "ty \<in> {''SESSION_OPEN'', ''SESSION_CLOSE''}"
    and h: "jsonl_handle fromiso env envelope cl = (a, cl')"
  shows "actions_in cl' sid = actions_in cl sid"
proof -
  have na: "\<not> is_action_record envelope"
    using head ty by (auto simp: envelope_head_def is_action_record_def dindex_eq_Inr dget_or_def)
  have rec: "actions_in cl2 sid = actions_in c sid"
    if "jsonl_record env envelope event_id (JStr ty) sid c = (res, cl2)" for c res cl2
    using that ty na append_line_files(5) [of "ce_disk env" sid envelope]
    by (fastforce simp: jsonl_record_def build_non_action_def after_append_def actions_in_def
        split: prod.splits sum.splits)
  obtain hit cache where g: "idem_get (ce_now_get env) event_id (jc_idempotency cl) = (hit, cache)"
    by (cases "idem_get (ce_now_get env) event_id (jc_idempotency cl)")
  show ?thesis
  proof (cases hit)
    case (Some r)
    then show ?thesis using h g by (auto simp: jsonl_handle_head [OF head] Let_def)
  next
    case None
    obtain res cl2 where r: "jsonl_record env envelope event_id (JStr ty) sid (cl\<lparr>jc_idempotency := cache\<rparr>) = (res, cl2)"
      by (metis surj_pair)
    show ?thesis
      using h g None r rec [OF r]
      by (auto simp: jsonl_handle_head [OF head] Let_def split: sum.splits prod.splits)
  qed
qed

lemma session_heads:
  "envelope_head (open_envelope se objective user_id cx) (se_open_event_id se) (JStr ''SESSION_OPEN'') (uuid_str (cx_session_id cx))"
  "envelope_head (close_envelope se status cx) (se_close_event_id se) (JStr ''SESSION_CLOSE'') (uuid_str (cx_session_id cx))"
  by (simp_all add: envelope_head_def open_envelope_def close_envelope_def envelope_base_def dict_simps)

definition traced_body ::
  "('p \<Rightarrow> string \<Rightarrow> bool) \<Rightarrow> ('s, 'e) traced_client \<Rightarrow> (trace_env \<times> 'p traced_call \<times> ('w \<Rightarrow> ('x + pyobj) \<times> 'w)) list \<Rightarrow>
   ('s, 'w, 'y) session_body" where
  "traced_body search tc calls cx s w =
     (case trace_run search tc calls cx s w of (cx', s', w') \<Rightarrow> (Inr (), cx', s', w'))"

lemma trace_run_counted:
  assumes "trace_run search (jsonl_traced fromiso envs) calls cx (n, cl) w = (cx', (n', cl'), w')"
    and "\<forall>n. sound_disk (ce_disk (envs n))" and "\<forall>t. \<exists>i. fromiso t = Some i \<and> aware i"
    and "cx_sequence cx = actions_in cl (uuid_str (cx_session_id cx))"
  shows "cx_sequence cx' = actions_in cl' (uuid_str (cx_session_id cx')) \<and> cx_session_id cx' = cx_session_id cx"
  using assms(1,4)
proof (induction calls arbitrary: cx n cl w)
  case (Cons call calls)
  obtain te c tool where call: "call = (te, c, tool)" by (cases call)
  obtain r cx1 n1 cl1 w1 where e: "emit_action_record search (jsonl_traced fromiso envs) te c tool cx (n, cl) w = (r, cx1, (n1, cl1), w1)"
    by (metis surj_pair)
  have "cx_sequence cx1 = actions_in cl1 (uuid_str (cx_session_id cx1))"
    by (rule traced_counted [OF e _ assms(3) Cons.prems(2)]) (use assms(2) in simp)
  then show ?case using Cons.IH [of cx1 n1 cl1 w1] Cons.prems(1) call e pending_consumed [OF e] by simp
qed simp

text \<open>Over the local backend the \<open>total_actions\<close> a session reports when it closes is the number of
  actions in its file, whichever calls raise and whichever lines fail to be written, as long as no
  \<open>fsync\<close> fails after its line is in the file.\<close>

theorem close_total_matches_file:
  assumes "\<forall>n. sound_disk (ce_disk (envs n))" and "\<forall>t. \<exists>i. fromiso t = Some i \<and> aware i"
    and "run_session (jsonl_traced fromiso envs) se None (\<lambda>s. s) agent sid objective user_id
      (traced_body search (jsonl_traced fromiso envs) calls) (0, empty_client mode) w = (Inr (), cx', (n', cl'), w')"
  shows "dget (close_envelope se ''completed'' cx') ''payload'' =
      JObj [(''status'', JStr ''completed''),
            (''metadata'', JObj [(''total_actions'', JInt (int (actions_in cl' (uuid_str sid))))])]"
proof -
  let ?tc = "jsonl_traced fromiso envs" and ?open = "open_envelope se objective user_id (opened agent sid)"
  have ctx: "cx_session_id (opened agent sid) = sid" "cx_sequence (opened agent sid) = 0"
    by (simp_all add: opened_def mark_session_open_def new_context_def)
  obtain a cl1 where o: "jsonl_handle fromiso (envs 0) ?open (empty_client mode) = (a, cl1)" by (metis surj_pair)
  obtain cx2 n2 cl2 w2 where run: "trace_run search ?tc calls (opened agent sid) (1, cl1) w = (cx2, (n2, cl2), w2)"
    by (metis surj_pair)
  have "actions_in cl1 (uuid_str sid) = 0"
    using other_not_counted [OF session_heads(1) _ o] ctx by (simp add: actions_in_def file_lines_def empty_client_def)
  then have two: "cx_sequence cx2 = actions_in cl2 (uuid_str sid)" "cx_session_id cx2 = sid"
    using trace_run_counted [OF run assms(1,2)] ctx by simp_all
  obtain b cl3 where c: "jsonl_handle fromiso (envs n2) (close_envelope se ''completed'' cx2) cl2 = (b, cl3)" by (metis surj_pair)
  have "cx' = cx2 \<and> cl' = cl3"
    using assms(3) o run c by (auto simp: run_session_eq traced_body_def split: sum.splits)
  moreover have "actions_in cl3 (uuid_str sid) = actions_in cl2 (uuid_str sid)"
    using other_not_counted [OF session_heads(2) _ c] two(2) by simp
  ultimately show ?thesis using two by (simp add: close_envelope_def envelope_base_def dict_simps)
qed

theorem close_total_matches_file_witness:
  "\<exists>cx' n' cl' w'. run_session (jsonl_traced (\<lambda>_. Some \<lparr>micros = 0, aware = True\<rparr>) (\<lambda>_. sample_env Disk_Ok))
      sample_session_env None (\<lambda>s. s) 1 2 None None
      (traced_body (\<lambda>c s. c \<in> set s) (jsonl_traced (\<lambda>_. Some \<lparr>micros = 0, aware = True\<rparr>) (\<lambda>_. sample_env Disk_Ok))
         [(sample_trace_env, sample_call, \<lambda>n :: nat. (Inr PNone :: string + pyobj, Suc n))])
      (0, empty_client Fsync_Chain) 0 = (Inr () :: (string, pyexc) session_exn + unit, cx', (n', cl'), w') \<and>
     dget (close_envelope sample_session_env ''completed'' cx') ''payload'' =
       JObj [(''status'', JStr ''completed''),
             (''metadata'', JObj [(''total_actions'', JInt (int (actions_in cl' (uuid_str 2))))])]"
proof -
  let ?iso = "\<lambda>_. Some \<lparr>micros = 0, aware = True\<rparr>" and ?envs = "\<lambda>_ :: nat. sample_env Disk_Ok"
  let ?tc = "jsonl_traced ?iso ?envs"
  let ?calls = "[(sample_trace_env, sample_call, \<lambda>n :: nat. (Inr PNone :: string + pyobj, Suc n))]"
  let ?open = "open_envelope sample_session_env None None (opened 1 2)"
  have emitted: "parse_dt ?iso t (dget ?open ''emitted_at'') = \<lparr>micros = 0, aware = True\<rparr>" for t
    by (simp add: parse_dt_def open_envelope_def envelope_base_def dict_simps)
  have "\<exists>rsp cl1. jsonl_handle ?iso (sample_env Disk_Ok) ?open (empty_client Fsync_Chain) = (Inr rsp, cl1)"
    by (simp add: jsonl_handle_head [OF session_heads(1)] emitted idem_get_def evict_expired_def Let_def jsonl_record_def
        build_non_action_def append_line_def sample_env_def idem_set_def empty_client_def)
  then obtain rsp cl1 where "jsonl_handle ?iso (sample_env Disk_Ok) ?open (empty_client Fsync_Chain) = (Inr rsp, cl1)"
    by blast
  moreover obtain cx2 n2 cl2 w2 where "trace_run (\<lambda>c s. c \<in> set s) ?tc ?calls (opened 1 2) (Suc 0, cl1) 0 = (cx2, (n2, cl2), w2)"
    by (metis surj_pair)
  ultimately obtain cx' n' cl' w' where run: "run_session ?tc sample_session_env None (\<lambda>s. s) 1 2 None None
      (traced_body (\<lambda>c s. c \<in> set s) ?tc ?calls) (0, empty_client Fsync_Chain) 0
      = (Inr () :: (string, pyexc) session_exn + unit, cx', (n', cl'), w')"
    by (simp add: run_session_eq traced_body_def del: trace_run.simps)
  have "\<forall>n. sound_disk (ce_disk (?envs n))" "\<forall>t. \<exists>i. ?iso t = Some i \<and> aware i"
    by (simp_all add: sound_disk_def sample_env_def)
  from close_total_matches_file [OF this run] run show ?thesis by blast
qed

end
