(* ===== verification/Facade.thy ===== *)
theory Facade
  imports Agent_Registry Buffered_Client Session_Scope
begin

text \<open>
  \<^verbatim>\<open>rootsign/sdk/facade.py\<close>, \<^verbatim>\<open>rootsign/sdk/config.py\<close>,
  \<open>get_ingest_client\<close> of \<^verbatim>\<open>rootsign/sdk/client.py\<close> and the head of
  \<open>session()\<close> in \<^verbatim>\<open>rootsign/sdk/session.py\<close>: the settings, the one configuration
  of a process, the ambient session, which client a session gets and who closes it. The settings a
  call reads are an argument, already coerced to their types, for \<open>SDKSettings()\<close> reads the
  environment anew each time. A client is given by the constructor call that makes it.
\<close>

section \<open>Settings\<close>

record sdk_settings =
  st_backend :: string
  st_data_dir :: string
  st_jsonl_fsync :: fsync_mode
  st_cloud_url :: string
  st_api_key :: string
  st_spool_dir :: string
  st_on_record_loss :: loss_policy
  st_http_timeout :: rat
  st_http_max_retries :: int
  st_capture_decisions :: bool
  st_reasoning_depth :: reasoning_depth
  st_buffered :: bool
  st_buffer_interval :: rat
  st_buffer_max_size :: int
  st_wal_path :: string
  st_max_retries :: int
  st_retry_base_delay :: rat
  st_retry_max_delay :: rat

definition default_settings :: sdk_settings where
  "default_settings = \<lparr>st_backend = ''jsonl'', st_data_dir = ''~/.rootsign'', st_jsonl_fsync = Fsync_Chain,
     st_cloud_url = ''https://ingest.getprovidex.com/v1'', st_api_key = [], st_spool_dir = [],
     st_on_record_loss = Loss_Warn, st_http_timeout = 10, st_http_max_retries = 3,
     st_capture_decisions = False, st_reasoning_depth = Depth_Summary, st_buffered = False,
     st_buffer_interval = 1 / 2, st_buffer_max_size = 100, st_wal_path = ''~/.rootsign/wal'',
     st_max_retries = 3, st_retry_base_delay = 1 / 10, st_retry_max_delay = 5\<rparr>"

definition backend_names :: "string list" where
  "backend_names = [''jsonl'', ''postgres'', ''cloud'', ''local'']"

text \<open>The second component says that a \<open>DeprecationWarning\<close> is issued.\<close>

definition normalize_backend :: "string \<Rightarrow> string \<times> bool" where
  "normalize_backend v = (if v = ''local'' then (''postgres'', True) else (v, False))"

text \<open>\<open>str(Path(p) / name)\<close>: empty and \<open>.\<close> components are dropped.\<close>

fun path_parts :: "string \<Rightarrow> string \<Rightarrow> string list" where
  "path_parts part [] = [part]"
| "path_parts part (c # cs) = (if c = CHR ''/'' then part # path_parts [] cs else path_parts (part @ [c]) cs)"

definition path_join :: "string \<Rightarrow> string \<Rightarrow> string" where
  "path_join p name =
     (let root = (if starts_with ''//'' p \<and> \<not> starts_with ''///'' p then ''//''
                  else if starts_with ''/'' p then ''/'' else []);
          parts = filter (\<lambda>x. x \<noteq> [] \<and> x \<noteq> ''.'') (path_parts [] p)
      in root @ str_join ''/'' (parts @ [name]))"

definition derive_spool_dir :: "sdk_settings \<Rightarrow> sdk_settings" where
  "derive_spool_dir st =
     (if st_spool_dir st = [] then st\<lparr>st_spool_dir := path_join (st_data_dir st) ''spool''\<rparr> else st)"

definition load_settings :: "sdk_settings \<Rightarrow> sdk_error + sdk_settings \<times> bool" where
  "load_settings raw =
     (if st_backend raw \<notin> set backend_names
      then Inl (Value_Error ''validation error for SDKSettings'')
      else (case normalize_backend (st_backend raw) of
              (b, deprecated) \<Rightarrow> Inr (derive_spool_dir (raw\<lparr>st_backend := b\<rparr>), deprecated)))"

section \<open>Configuration\<close>

record init_config =
  ni_agent :: string
  ni_owner :: string
  ni_environment :: string
  ni_risk_tier :: string
  ni_framework :: string
  ni_description :: "string option"
  ni_model_version :: "string option"
  ni_permitted_tools :: "string list"
  ni_regulatory_categories :: "string list"
  ni_settings :: sdk_settings

definition config_backend :: "init_config \<Rightarrow> string" where
  "config_backend c = st_backend (ni_settings c)"

definition base_name :: "string \<Rightarrow> string" where
  "base_name p = rev (takeWhile (\<lambda>c. c \<noteq> CHR ''/'') (rev p))"

text \<open>\<open>os.path.splitext(p)[0]\<close> of a name without separators: leading dots begin no extension.\<close>

definition split_stem :: "string \<Rightarrow> string" where
  "split_stem s =
     (if CHR ''.'' \<notin> set s then s
      else let stem = rev (tl (dropWhile (\<lambda>c. c \<noteq> CHR ''.'') (rev s)))
           in if list_ex (\<lambda>c. c \<noteq> CHR ''.'') stem then stem else s)"

definition default_agent_name :: "string list \<Rightarrow> string" where
  "default_agent_name argv =
     (let argv0 = (case argv of [] \<Rightarrow> [] | a # _ \<Rightarrow> a);
          stem = split_stem (base_name argv0)
      in if length stem < 2 \<or> starts_with ''-'' stem then ''rootsign-agent'' else take 200 stem)"

definition default_owner :: "string option \<Rightarrow> string" where
  "default_owner user =
     (case user of None \<Rightarrow> ''unknown'' | Some u \<Rightarrow> if 2 \<le> length u then u else ''unknown'')"

definition or_default :: "string option \<Rightarrow> string \<Rightarrow> string" where
  "or_default x d = (case x of None \<Rightarrow> d | Some s \<Rightarrow> if s = [] then d else s)"

record init_args =
  na_agent :: "string option"
  na_owner :: "string option"
  na_environment :: "string option"
  na_risk_tier :: "string option"
  na_framework :: "string option"
  na_description :: "string option"
  na_model_version :: "string option"
  na_permitted_tools :: "string list option"
  na_regulatory_categories :: "string list option"

record process_env =
  pe_argv :: "string list"
  pe_user :: "string option"
  pe_settings :: sdk_settings

definition prefix_error :: "sdk_error + 'a \<Rightarrow> sdk_error + 'a" where
  "prefix_error r =
     (case r of Inl (Value_Error m) \<Rightarrow> Inl (Value_Error (''rootsign.init(): '' @ m)) | _ \<Rightarrow> r)"

definition resolve_config :: "process_env \<Rightarrow> init_args \<Rightarrow> sdk_error + init_config" where
  "resolve_config pe a =
     sbind (prefix_error (
       sbind (enum_value ''AgentEnvironment'' agent_environments (or_default (na_environment a) ''development'')) (\<lambda>env.
       sbind (enum_value ''AgentRiskTier'' agent_risk_tiers (or_default (na_risk_tier a) ''medium'')) (\<lambda>tier.
       sbind (enum_value ''AgentFramework'' agent_frameworks (or_default (na_framework a) ''unknown'')) (\<lambda>fw.
       Inr (env, tier, fw)))))) (\<lambda>(env, tier, fw).
     sbind (load_settings (pe_settings pe)) (\<lambda>(st, _).
     Inr \<lparr>ni_agent = or_default (na_agent a) (default_agent_name (pe_argv pe)),
          ni_owner = or_default (na_owner a) (default_owner (pe_user pe)),
          ni_environment = env, ni_risk_tier = tier, ni_framework = fw,
          ni_description = na_description a, ni_model_version = na_model_version a,
          ni_permitted_tools = (case na_permitted_tools a of None \<Rightarrow> [] | Some xs \<Rightarrow> xs),
          ni_regulatory_categories = (case na_regulatory_categories a of None \<Rightarrow> [] | Some xs \<Rightarrow> xs),
          ni_settings = st\<rparr>))"

definition same_config :: "init_config \<Rightarrow> init_config \<Rightarrow> bool" where
  "same_config a b \<longleftrightarrow>
     ni_agent a = ni_agent b \<and> ni_owner a = ni_owner b \<and> ni_environment a = ni_environment b \<and>
     ni_risk_tier a = ni_risk_tier b \<and> ni_framework a = ni_framework b \<and>
     ni_description a = ni_description b \<and> ni_model_version a = ni_model_version b \<and>
     ni_permitted_tools a = ni_permitted_tools b \<and>
     ni_regulatory_categories a = ni_regulatory_categories b \<and> ni_settings a = ni_settings b"

definition conflict_message :: "init_config \<Rightarrow> init_config \<Rightarrow> string" where
  "conflict_message a b =
     ''rootsign.init() was already called with different arguments (agent='' @ repr_str (ni_agent a) @ ''/'' @
     repr_str (ni_environment a) @ '', backend='' @ repr_str (config_backend a) @ '' -> agent='' @
     repr_str (ni_agent b) @ ''/'' @ repr_str (ni_environment b) @ '', backend='' @
     repr_str (config_backend b) @ ''). init() configures one agent identity per process; for multiple '' @
     ''identities use the explicit API (SessionContext + get_ingest_client).''"

definition init :: "process_env \<Rightarrow> init_args \<Rightarrow> init_config option \<Rightarrow> (sdk_error + unit) \<times> init_config option" where
  "init pe a stored =
     (case resolve_config pe a of
        Inl e \<Rightarrow> (Inl e, stored)
      | Inr config \<Rightarrow>
          (case stored of
             Some old \<Rightarrow> if same_config old config then (Inr (), Some config)
                         else (Inl (Value_Error (conflict_message old config)), stored)
           | None \<Rightarrow> (Inr (), Some config)))"

section \<open>The ambient session\<close>

definition not_initialized_hint :: string where
  "not_initialized_hint =
     ''No rootsign session is active. Either open one:'' @ [CHR 0x0A] @
     ''    rootsign.init(agent='' @ [CHR 0x22] @ ''my-agent'' @ [CHR 0x22] @ '')'' @ [CHR 0x0A] @
     ''    async with rootsign.session(objective='' @ [CHR 0x22] @ ''...'' @ [CHR 0x22] @
     ''):  # then wrap/trace inside'' @ [CHR 0x0A] @
     ''or pass the context explicitly: ctx=<SessionContext>, client=<IngestClient>.''"

definition not_initialized :: "string option \<Rightarrow> sdk_error" where
  "not_initialized surface =
     Not_Initialized ((case surface of
        None \<Rightarrow> [] | Some s \<Rightarrow> if s = [] then [] else s @ '' requires a session context. '') @ not_initialized_hint)"

definition resolve_ctx_client ::
  "'c option \<Rightarrow> 'k option \<Rightarrow> string option \<Rightarrow> ('c \<times> 'k) option \<Rightarrow> sdk_error + 'c \<times> 'k" where
  "resolve_ctx_client ctx client surface ambient =
     (case (ctx, client) of
        (Some c, Some k) \<Rightarrow> Inr (c, k)
      | _ \<Rightarrow>
          (let (ctx', client') =
             (case ambient of
                None \<Rightarrow> (ctx, client)
              | Some (ac, ak) \<Rightarrow> (case ctx of None \<Rightarrow> Some ac | _ \<Rightarrow> ctx, case client of None \<Rightarrow> Some ak | _ \<Rightarrow> client))
           in case (ctx', client') of
                (Some c, Some k) \<Rightarrow> Inr (c, k)
              | _ \<Rightarrow> Inl (not_initialized surface)))"

text \<open>A set returns the token, which is what the variable held.\<close>

definition set_current_session :: "'c \<Rightarrow> 'k \<Rightarrow> ('c \<times> 'k) option \<Rightarrow> ('c \<times> 'k) option \<times> ('c \<times> 'k) option" where
  "set_current_session ctx client ambient = (ambient, Some (ctx, client))"

definition reset_current_session :: "('c \<times> 'k) option \<Rightarrow> ('c \<times> 'k) option \<Rightarrow> ('c \<times> 'k) option" where
  "reset_current_session token ambient = token"

text \<open>The body of a session, with the variable in front of its own world.\<close>

definition scoped ::
  "'k \<Rightarrow> ('s, (uuid \<times> 'k) option \<times> 'w, 'x) session_body \<Rightarrow> ('s, (uuid \<times> 'k) option \<times> 'w, 'x) session_body" where
  "scoped client body cx s w =
     (case set_current_session (cx_session_id cx) client (fst w) of
        (token, ambient) \<Rightarrow>
          (case body cx s (ambient, snd w) of
             (res, cx', s', w') \<Rightarrow> (res, cx', s', (reset_current_session token (fst w'), snd w'))))"

section \<open>Clients\<close>

record http_settings =
  hs_base_url :: string
  hs_api_key :: string
  hs_timeout :: rat
  hs_max_retries :: nat
  hs_spool_dir :: string
  hs_on_record_loss :: loss_policy

datatype built_client =
    Jsonl_Built string fsync_mode
  | Http_Built http_settings
  | Local_Built
  | Managed_Built
  | Buffered_Built built_client rat int

text \<open>What of the optional extras is installed: the module a database import misses, and whether
  \<open>httpx\<close> is found.\<close>

record extras =
  ex_missing :: "string option"
  ex_httpx :: bool

definition rstrip_slash :: "string \<Rightarrow> string" where
  "rstrip_slash s = rev (dropWhile (\<lambda>c. c = CHR ''/'') (rev s))"

definition new_http_client :: "extras \<Rightarrow> sdk_settings \<Rightarrow> sdk_error + built_client" where
  "new_http_client ex st =
     (if \<not> ex_httpx ex
      then Inl (Cloud_Extra_Required (extra_message cloud_install_hint (Some ''missing module: httpx'')))
      else Inr (Http_Built \<lparr>hs_base_url = rstrip_slash (st_cloud_url st), hs_api_key = st_api_key st,
             hs_timeout = st_http_timeout st, hs_max_retries = nat (max 1 (st_http_max_retries st)),
             hs_spool_dir = st_spool_dir st, hs_on_record_loss = st_on_record_loss st\<rparr>))"

definition top_module :: "string \<Rightarrow> string" where
  "top_module m = takeWhile (\<lambda>c. c \<noteq> CHR ''.'') m"

definition database_modules :: "string list" where
  "database_modules = [''sqlalchemy'', ''asyncpg'', ''psycopg2'', ''greenlet'', ''alembic'']"

definition buffer_if :: "sdk_settings \<Rightarrow> built_client \<Rightarrow> built_client" where
  "buffer_if st client =
     (if st_buffered st then Buffered_Built client (st_buffer_interval st) (st_buffer_max_size st) else client)"

definition get_ingest_client :: "extras \<Rightarrow> sdk_settings \<Rightarrow> 'd option \<Rightarrow> sdk_error + built_client" where
  "get_ingest_client ex raw session =
     sbind (load_settings raw) (\<lambda>(st, _).
     sbind (if st_backend st = ''jsonl'' then Inr (Jsonl_Built (st_data_dir st) (st_jsonl_fsync st))
            else if st_backend st = ''cloud'' then new_http_client ex st
            else (case session of
                    None \<Rightarrow> Inl (Value_Error
                      (''The postgres backend requires a db session. Pass db=, set ROOTSIGN_BACKEND=jsonl '' @
                       ''(default, no db needed), or ROOTSIGN_BACKEND=cloud (Phase 2 only).''))
                  | Some _ \<Rightarrow>
                      (case ex_missing ex of
                         None \<Rightarrow> Inr Local_Built
                       | Some m \<Rightarrow>
                           if top_module m \<in> set database_modules
                           then Inl (Postgres_Extra_Required (extra_message postgres_install_hint (Some (''missing module: '' @ m))))
                           else Inl (Module_Not_Found m))))
       (\<lambda>client. Inr (buffer_if st client)))"

definition build_client :: "extras \<Rightarrow> sdk_settings \<Rightarrow> init_config \<Rightarrow> sdk_error + built_client" where
  "build_client ex raw c =
     (if config_backend c = ''postgres'' then Inr (buffer_if (ni_settings c) Managed_Built)
      else get_ingest_client ex raw (None :: unit option))"

section \<open>Entering a session\<close>

definition request_of :: "init_config \<Rightarrow> agent_request" where
  "request_of c =
     \<lparr>rq_name = ni_agent c, rq_environment = ni_environment c, rq_owner = ni_owner c,
      rq_risk_tier = ni_risk_tier c, rq_framework = ni_framework c, rq_description = ni_description c,
      rq_model_version = ni_model_version c, rq_permitted_tools = ni_permitted_tools c,
      rq_regulatory_categories = ni_regulatory_categories c\<rparr>"

text \<open>The registries of the data directories there are, and the one table.\<close>

record storage =
  sg_files :: "string \<Rightarrow> string option"
  sg_table :: "agent_row list"

record entry_env =
  ee_loads :: "string \<Rightarrow> json option"
  ee_append :: append_outcome
  ee_extras :: extras
  ee_fresh :: uuid
  ee_settings :: sdk_settings

definition imported :: "extras \<Rightarrow> string + unit" where
  "imported ex = (case ex_missing ex of None \<Rightarrow> Inr () | Some m \<Rightarrow> Inl m)"

definition resolve_agent_id ::
  "entry_env \<Rightarrow> init_config \<Rightarrow> storage \<Rightarrow> (sdk_error + uuid) \<times> string option \<times> storage" where
  "resolve_agent_id ee c sg =
     (case get_or_register_agent (ee_loads ee) (ee_append ee) (imported (ee_extras ee)) (config_backend c)
             (ee_fresh ee) (request_of c)
             \<lparr>rg_file = sg_files sg (st_data_dir (ni_settings c)), rg_table = sg_table sg\<rparr> of
        (r, warning, rs) \<Rightarrow>
          (r, warning, \<lparr>sg_files = (sg_files sg)(st_data_dir (ni_settings c) := rg_file rs), sg_table = rg_table rs\<rparr>))"

text \<open>The agent, the client and whether the session owns the client. The generic client of a caller is
  left as it is.\<close>

definition enter_session ::
  "entry_env \<Rightarrow> init_config option \<Rightarrow> uuid option \<Rightarrow> built_client option \<Rightarrow> storage \<Rightarrow>
   (sdk_error + uuid \<times> built_client \<times> bool) \<times> storage" where
  "enter_session ee config agent_id client sg =
     (case (agent_id, client) of
        (Some a, Some k) \<Rightarrow> (Inr (a, k, False), sg)
      | _ \<Rightarrow>
          (case config of
             None \<Rightarrow> (Inl (not_initialized (Some ''rootsign.session()'')), sg)
           | Some c \<Rightarrow>
               (case (case agent_id of
                        Some a \<Rightarrow> (Inr a, sg)
                      | None \<Rightarrow> (case resolve_agent_id ee c sg of (r, _, sg') \<Rightarrow> (r, sg'))) of
                  (Inl e, sg') \<Rightarrow> (Inl e, sg')
                | (Inr a, sg') \<Rightarrow>
                    (case client of
                       Some k \<Rightarrow> (Inr (a, k, False), sg')
                     | None \<Rightarrow> (case build_client (ee_extras ee) (ee_settings ee) c of
                                  Inl e \<Rightarrow> (Inl e, sg')
                                | Inr k \<Rightarrow> (Inr (a, k, True), sg'))))))"

text \<open>What \<open>close()\<close> raises is logged and dropped, and what it did stays done.\<close>

definition maybe_close :: "('s \<Rightarrow> ('e + unit) \<times> 's) option \<Rightarrow> 's \<Rightarrow> 's" where
  "maybe_close close s = (case close of None \<Rightarrow> s | Some f \<Rightarrow> snd (f s))"

definition facade_session ::
  "('s, 'e) traced_client \<Rightarrow> session_env \<Rightarrow> ('s \<Rightarrow> ('e + unit) \<times> 's) option \<Rightarrow> ('s \<Rightarrow> ('e + unit) \<times> 's) option \<Rightarrow>
   bool \<Rightarrow> 'k \<Rightarrow> uuid \<Rightarrow> uuid \<Rightarrow> string option \<Rightarrow> string option \<Rightarrow>
   ('s, (uuid \<times> 'k) option \<times> 'w, 'x) session_body \<Rightarrow> 's \<Rightarrow> (uuid \<times> 'k) option \<times> 'w \<Rightarrow>
   (('x, 'e) session_exn + unit) \<times> session_context \<times> 's \<times> ((uuid \<times> 'k) option \<times> 'w)" where
  "facade_session tc se flush_client close_client owns client agent sid objective user_id body s w =
     run_session tc se flush_client (if owns then maybe_close close_client else id) agent sid objective user_id
       (scoped client body) s w"

section \<open>One configuration per process\<close>

fun init_all ::
  "(process_env \<times> init_args) list \<Rightarrow> init_config option \<Rightarrow> (sdk_error + unit) list \<times> init_config option" where
  "init_all [] st = ([], st)"
| "init_all ((pe, a) # calls) st =
     (case init pe a st of (r, st') \<Rightarrow> (case init_all calls st' of (rs, st'') \<Rightarrow> (r # rs, st'')))"

lemma same_config_eq: "same_config a b \<longleftrightarrow> a = b"
  by (cases a; cases b) (auto simp: same_config_def)

lemma init_again:
  "snd (init pe a (Some c)) = Some c \<and> (fst (init pe a (Some c)) = Inr () \<longleftrightarrow> resolve_config pe a = Inr c)"
  by (auto simp: init_def same_config_eq split: sum.splits)

lemma init_first:
  "init pe a None = (case resolve_config pe a of Inl e \<Rightarrow> (Inl e, None) | Inr c \<Rightarrow> (Inr (), Some c))"
  by (simp add: init_def split: sum.splits)

text \<open>Once a configuration is stored it is the process's: no later call changes it, and a call
  succeeds exactly when it resolves to the same configuration.\<close>

theorem one_identity_per_process:
  "snd (init_all calls (Some c)) = Some c \<and>
   (\<forall>i < length calls. fst (init_all calls (Some c)) ! i = Inr () \<longleftrightarrow>
      resolve_config (fst (calls ! i)) (snd (calls ! i)) = Inr c)"
proof (induction calls)
  case (Cons call calls)
  obtain pe a where call: "call = (pe, a)" by (cases call)
  obtain r where r: "init pe a (Some c) = (r, Some c)" "r = Inr () \<longleftrightarrow> resolve_config pe a = Inr c"
    using init_again [of pe a c] by (cases "init pe a (Some c)") auto
  show ?case
  proof (intro conjI allI impI)
    show "snd (init_all (call # calls) (Some c)) = Some c"
      using Cons by (auto simp: call r(1) split: prod.splits)
    fix i assume "i < length (call # calls)"
    with Cons r(2) show "fst (init_all (call # calls) (Some c)) ! i = Inr () \<longleftrightarrow>
        resolve_config (fst ((call # calls) ! i)) (snd ((call # calls) ! i)) = Inr c"
      by (cases i) (auto simp: call r(1) split: prod.splits)
  qed
qed simp

definition no_args :: init_args where
  "no_args = \<lparr>na_agent = None, na_owner = None, na_environment = None, na_risk_tier = None, na_framework = None,
     na_description = None, na_model_version = None, na_permitted_tools = None, na_regulatory_categories = None\<rparr>"

definition sample_process :: process_env where
  "sample_process = \<lparr>pe_argv = [''/srv/invoice_agent.py''], pe_user = Some ''ana'', pe_settings = default_settings\<rparr>"

definition sample_config :: init_config where
  "sample_config = \<lparr>ni_agent = ''invoice_agent'', ni_owner = ''ana'', ni_environment = ''development'',
     ni_risk_tier = ''medium'', ni_framework = ''unknown'', ni_description = None, ni_model_version = None,
     ni_permitted_tools = [], ni_regulatory_categories = [],
     ni_settings = default_settings\<lparr>st_spool_dir := ''~/.rootsign/spool''\<rparr>\<rparr>"

theorem one_identity_per_process_witness:
  "fst (init_all [(sample_process, no_args)] (Some sample_config)) ! 0 = Inr () \<and>
   snd (init_all [(sample_process, no_args)] (Some sample_config)) = Some sample_config"
proof -
  have "resolve_config sample_process no_args = Inr sample_config" by code_simp
  with one_identity_per_process [of "[(sample_process, no_args)]" sample_config] show ?thesis by simp
qed

section \<open>Zero configuration\<close>

lemma default_name_bounds: "length_within 2 200 (default_agent_name argv)"
  by (auto simp: default_agent_name_def length_within_def Let_def)

lemma default_owner_length: "2 \<le> length (default_owner user)"
  by (auto simp: default_owner_def split: option.splits)

lemma resolve_no_args:
  assumes "load_settings (pe_settings pe) = Inr (st, dep)"
  shows "resolve_config pe no_args = Inr
    \<lparr>ni_agent = default_agent_name (pe_argv pe), ni_owner = default_owner (pe_user pe),
     ni_environment = ''development'', ni_risk_tier = ''medium'', ni_framework = ''unknown'',
     ni_description = None, ni_model_version = None, ni_permitted_tools = [],
     ni_regulatory_categories = [], ni_settings = st\<rparr>"
  using assms
  by (simp add: resolve_config_def no_args_def or_default_def enum_value_def prefix_error_def agent_environments_def
      agent_risk_tiers_def agent_frameworks_def)

text \<open>Calling \<open>init()\<close> with no argument stores a configuration every backend accepts, whatever
  the script is called: the agent's name has between 2 and 200 characters, the owner at least 2, and
  the registration schema holds for it when the user's name has no more than 200.\<close>

theorem zero_config_is_valid:
  assumes "load_settings (pe_settings pe) = Inr (st, dep)"
    and "\<And>u. pe_user pe = Some u \<Longrightarrow> length u \<le> 200"
  shows "\<exists>c. init pe no_args None = (Inr (), Some c) \<and> ni_settings c = st \<and>
    validate_agent (request_of c) = Inr ()"
proof -
  have "length_within 2 200 (default_owner (pe_user pe))"
    using assms(2) default_owner_length [of "pe_user pe"]
    by (auto simp: length_within_def default_owner_def split: option.splits)
  with default_name_bounds [of "pe_argv pe"] show ?thesis
    using resolve_no_args [OF assms(1)]
    by (simp add: init_first request_of_def validate_agent_def enum_value_def agent_environments_def
        agent_risk_tiers_def agent_frameworks_def agent_create_ok_def)
qed

theorem zero_config_is_valid_witness:
  "\<exists>c st. init sample_process no_args None = (Inr (), Some c) \<and> ni_settings c = st \<and>
    validate_agent (request_of c) = Inr ()"
proof -
  have "load_settings (pe_settings sample_process) = Inr (derive_spool_dir default_settings, False)"
    by (simp add: sample_process_def load_settings_def default_settings_def backend_names_def normalize_backend_def)
  from zero_config_is_valid [OF this] show ?thesis by (auto simp: sample_process_def)
qed

section \<open>The ambient session\<close>

lemma new_context_session [simp]: "cx_session_id (snd (mark_session_open (new_context agent sid))) = sid"
  by (simp add: mark_session_open_def new_context_def)

lemma run_session_cong:
  assumes "\<And>s w. body1 (snd (mark_session_open (new_context agent sid))) s w =
      body2 (snd (mark_session_open (new_context agent sid))) s w"
  shows "run_session tc se f g agent sid o1 u body1 s w = run_session tc se f g agent sid o1 u body2 s w"
proof -
  obtain b cx where cx: "mark_session_open (new_context agent sid) = (b, cx)"
    by (cases "mark_session_open (new_context agent sid)")
  with assms have same: "body1 cx = body2 cx" by (intro ext) simp
  show ?thesis unfolding run_session_def cx Let_def prod.case same by (rule refl)
qed

lemma run_session_world:
  assumes "\<And>cx s w. P w \<Longrightarrow> P (snd (snd (snd (body cx s w))))" and "P w"
  shows "P (snd (snd (snd (run_session tc se f g agent sid o1 u body s w))))"
  using assms by (auto simp: run_session_def Let_def split: prod.splits sum.splits option.splits if_splits)
    (metis snd_conv)+

text \<open>C30. Inside a session whatever asks for the context and the client without naming them gets this
  session's, and after it the variable is what it was before, whether the session opened, its body
  returned or raised, and whatever the body did to the variable: nested sessions give the outer one
  back.\<close>

theorem ambient_is_the_innermost_session:
  "facade_session tc se f g owns client agent sid objective user_id
     (\<lambda>cx s w. body (resolve_ctx_client None None surface (fst w)) cx s w) s w =
   facade_session tc se f g owns client agent sid objective user_id
     (\<lambda>cx s w. body (Inr (sid, client)) cx s w) s w \<and>
   fst (snd (snd (snd (facade_session tc se f g owns client agent sid objective user_id any_body s w)))) = fst w"
proof
  show "facade_session tc se f g owns client agent sid objective user_id
     (\<lambda>cx s w. body (resolve_ctx_client None None surface (fst w)) cx s w) s w =
   facade_session tc se f g owns client agent sid objective user_id
     (\<lambda>cx s w. body (Inr (sid, client)) cx s w) s w"
    unfolding facade_session_def
    by (rule run_session_cong) (simp add: scoped_def set_current_session_def resolve_ctx_client_def)
  have step: "fst (snd (snd (snd (scoped client any_body cx s v)))) = fst v" for cx s v
    by (simp add: scoped_def set_current_session_def reset_current_session_def split: prod.splits)
  show "fst (snd (snd (snd (facade_session tc se f g owns client agent sid objective user_id any_body s w)))) = fst w"
    unfolding facade_session_def
    by (rule run_session_world [where P = "\<lambda>v. fst v = fst w"]) (simp_all add: step)
qed

section \<open>Which client a session gets\<close>

lemma load_settings_backend:
  "load_settings raw = Inr (st, dep) \<Longrightarrow> st_backend st = ''jsonl'' \<or> st_backend st = ''postgres'' \<or> st_backend st = ''cloud''"
  by (auto simp: load_settings_def backend_names_def normalize_backend_def derive_spool_dir_def split: if_splits)

text \<open>The settings are read again when the client is built. An agent registered under the data
  directory of \<open>init()\<close> has its sessions written under the directory the environment names when the
  session opens, and no session opens when the environment names Postgres by then.\<close>

theorem client_follows_the_environment:
  assumes "config_backend c = ''jsonl''"
    and "lists_rows (sg_files sg (st_data_dir (ni_settings c))) t"
    and "ee_loads ee = loads_with pf" and "ee_append ee = Line_Written"
    and "load_settings (ee_settings ee) = Inr (st, dep)" and "st_buffered st = False"
  shows "\<exists>a sg'. enter_session ee (Some c) None None sg =
      ((if st_backend st = ''jsonl'' then Inr (a, Jsonl_Built (st_data_dir st) (st_jsonl_fsync st), True)
        else if st_backend st = ''cloud''
        then sbind (new_http_client (ee_extras ee) st) (\<lambda>k. Inr (a, k, True))
        else Inl (Value_Error
          (''The postgres backend requires a db session. Pass db=, set ROOTSIGN_BACKEND=jsonl '' @
           ''(default, no db needed), or ROOTSIGN_BACKEND=cloud (Phase 2 only).''))), sg') \<and>
    (\<exists>t'. lists_rows (sg_files sg' (st_data_dir (ni_settings c))) t' \<and> known t' (ni_agent c, ni_environment c) = Some a) \<and>
    (\<forall>d. d \<noteq> st_data_dir (ni_settings c) \<longrightarrow> sg_files sg' d = sg_files sg d)"
proof -
  let ?rq = "request_of c" and ?dir = "st_data_dir (ni_settings c)"
  obtain a w t' where r: "register_row (ee_fresh ee) ?rq t = (a, w, t')" by (cases "register_row (ee_fresh ee) ?rq t")
  from file_registers [OF assms(2), of pf "ee_fresh ee" ?rq] r obtain f where
    f: "register_in_file (loads_with pf) Line_Written (ee_fresh ee) ?rq (sg_files sg ?dir) = (Inr a, w, f)"
    "lists_rows f t'" by auto
  have agent: "resolve_agent_id ee c sg = (Inr a, w, \<lparr>sg_files = (sg_files sg)(?dir := f), sg_table = sg_table sg\<rparr>)"
    using f(1) assms(1,3,4) by (simp add: resolve_agent_id_def get_or_register_agent_def)
  have "known t' (key_of ?rq) = Some a" using known_after [of "ee_fresh ee" ?rq t] r by simp
  then have id: "known t' (ni_agent c, ni_environment c) = Some a" by (simp add: key_of_def request_of_def)
  show ?thesis
    using load_settings_backend [OF assms(5)] agent f(2) id assms(1,5,6)
    by (intro exI [of _ a] exI [of _ "\<lparr>sg_files = (sg_files sg)(?dir := f), sg_table = sg_table sg\<rparr>"];
        cases "new_http_client (ee_extras ee) st")
      (auto simp: enter_session_def build_client_def get_ingest_client_def buffer_if_def split: sum.splits)
qed

definition sample_entry :: entry_env where
  "sample_entry = \<lparr>ee_loads = loads_with (\<lambda>_. JNull), ee_append = Line_Written,
     ee_extras = \<lparr>ex_missing = None, ex_httpx = True\<rparr>, ee_fresh = 9,
     ee_settings = default_settings\<lparr>st_data_dir := ''/mnt/audit''\<rparr>\<rparr>"

definition empty_storage :: storage where
  "empty_storage = \<lparr>sg_files = (\<lambda>_. None), sg_table = []\<rparr>"

theorem client_follows_the_environment_witness:
  "\<exists>a sg' t'. enter_session sample_entry (Some sample_config) None None empty_storage =
     (Inr (a, Jsonl_Built ''/mnt/audit'' Fsync_Chain, True), sg') \<and>
     lists_rows (sg_files sg' ''~/.rootsign'') t' \<and> known t' (''invoice_agent'', ''development'') = Some a \<and>
     sg_files sg' ''/mnt/audit'' = None"
proof -
  have ok: "config_backend sample_config = ''jsonl''"
    "lists_rows (sg_files empty_storage (st_data_dir (ni_settings sample_config))) []"
    "ee_loads sample_entry = loads_with (\<lambda>_. JNull)" "ee_append sample_entry = Line_Written"
    by (simp_all add: config_backend_def sample_config_def default_settings_def empty_storage_def sample_calls
        sample_entry_def)
  have st: "load_settings (ee_settings sample_entry) = Inr (derive_spool_dir (ee_settings sample_entry), False)"
    by (simp add: sample_entry_def load_settings_def default_settings_def backend_names_def normalize_backend_def)
  have "st_buffered (derive_spool_dir (ee_settings sample_entry)) = False"
    "st_backend (derive_spool_dir (ee_settings sample_entry)) = ''jsonl''"
    "st_data_dir (derive_spool_dir (ee_settings sample_entry)) = ''/mnt/audit''"
    "st_jsonl_fsync (derive_spool_dir (ee_settings sample_entry)) = Fsync_Chain"
    "st_data_dir (ni_settings sample_config) = ''~/.rootsign''" "ni_agent sample_config = ''invoice_agent''"
    "ni_environment sample_config = ''development''" "sg_files empty_storage ''/mnt/audit'' = None"
    by (simp_all add: sample_entry_def default_settings_def derive_spool_dir_def sample_config_def empty_storage_def)
  note facts = this
  from client_follows_the_environment [OF ok st facts(1)] facts show ?thesis by auto
qed

text \<open>A process configured for the cloud backend cannot open a session by configuration alone: it is
  refused before anything is written. Naming the agent's id opens it, over the HTTP client.\<close>

theorem cloud_needs_an_agent_id:
  assumes "config_backend c = ''cloud''"
  shows "enter_session ee (Some c) None client sg =
      (Inl (Value_Error (''rootsign.init() does not support ROOTSIGN_BACKEND='' @ repr_str ''cloud'' @
         ''. Use '' @ repr_str ''jsonl'' @ '' (default) or '' @ repr_str ''postgres'' @ ''.'')), sg) \<and>
    (load_settings (ee_settings ee) = Inr (st, dep) \<and> st_backend st = ''cloud'' \<longrightarrow>
      enter_session ee (Some c) (Some a) None sg =
        (sbind (new_http_client (ee_extras ee) st) (\<lambda>k. Inr (a, buffer_if st k, True)), sg))"
  using assms
  by (cases "new_http_client (ee_extras ee) st") (simp_all add: enter_session_def resolve_agent_id_def get_or_register_agent_def build_client_def
      get_ingest_client_def)

theorem cloud_needs_an_agent_id_witness:
  "\<exists>m h. enter_session (sample_entry\<lparr>ee_settings := default_settings\<lparr>st_backend := ''cloud''\<rparr>\<rparr>)
      (Some (sample_config\<lparr>ni_settings := default_settings\<lparr>st_backend := ''cloud''\<rparr>\<rparr>)) None None empty_storage =
      (Inl (Value_Error m), empty_storage) \<and>
    enter_session (sample_entry\<lparr>ee_settings := default_settings\<lparr>st_backend := ''cloud''\<rparr>\<rparr>)
      (Some (sample_config\<lparr>ni_settings := default_settings\<lparr>st_backend := ''cloud''\<rparr>\<rparr>)) (Some 5) None empty_storage =
      (Inr (5, Http_Built h, True), empty_storage)"
proof -
  let ?c = "sample_config\<lparr>ni_settings := default_settings\<lparr>st_backend := ''cloud''\<rparr>\<rparr>"
  let ?ee = "sample_entry\<lparr>ee_settings := default_settings\<lparr>st_backend := ''cloud''\<rparr>\<rparr>"
  let ?st = "derive_spool_dir (default_settings\<lparr>st_backend := ''cloud''\<rparr>)"
  have c: "config_backend ?c = ''cloud''" by (simp add: config_backend_def)
  have "load_settings (ee_settings ?ee) = Inr (?st, False)" "st_backend ?st = ''cloud''" "ex_httpx (ee_extras ?ee)"
    "buffer_if ?st = (\<lambda>k. k)"
    by (simp_all add: sample_entry_def load_settings_def default_settings_def backend_names_def normalize_backend_def
        derive_spool_dir_def buffer_if_def fun_eq_iff)
  with cloud_needs_an_agent_id [OF c, of ?ee None empty_storage ?st False 5] show ?thesis
    by (auto simp: new_http_client_def)
qed

section \<open>The Postgres client behind the buffer\<close>

text \<open>The managed client, taking what each commit raises from a list.\<close>

definition managed_inner ::
  "schemas \<Rightarrow> handler_env \<Rightarrow> string + 'f \<Rightarrow> (db \<times> 'f managed_client \<times> 'e option list, 'e managed_exn) inner_client" where
  "managed_inner sc he importing =
     \<lparr>ic_handle = (\<lambda>envelope (d, c, outcomes).
        case managed_handle sc he importing (case outcomes of [] \<Rightarrow> None | e # _ \<Rightarrow> e) (JObj envelope) (d, c) of
          (r, d', c') \<Rightarrow> (r, (d', c', tl outcomes))),
      ic_batch = None, ic_owns_retry = False\<rparr>"

definition managed_buffer ::
  "sdk_settings \<Rightarrow> schemas \<Rightarrow> handler_env \<Rightarrow> string + 'f \<Rightarrow>
   (db \<times> 'f managed_client \<times> 'e option list, 'e managed_exn) buffer_config" where
  "managed_buffer st sc he importing =
     \<lparr>bg_client = managed_inner sc he importing, bg_max_buffer_size = st_buffer_max_size st, bg_max_retries = 3\<rparr>"

text \<open>A record whose first commit fails is tried again by the buffer, answered from the idempotency
  store and counted as sent: it is neither in the buffer nor in the committed tables.\<close>

theorem buffered_record_lost_on_commit_failure:
  assumes "sc_envelope sc (JObj e) = Some env" and "major_of (ev_schema_version env) = supported_schema_major"
    and "aware (ev_emitted_at env)" and "store_inv (mc_idempotency c)"
    and "fst (idem_get (he_now_get he) (ev_event_id env) (mc_idempotency c)) = None"
    and "available importing c"
    and "handle sc he (JObj e) (d, mc_idempotency c) = (Inr rsp, d', cache)"
    and "he_now_get he < micros (ev_emitted_at env) + ttl" and "he_now_get he < he_now_set he + ttl"
    and "bc_buffer b = [e]" and "bc_inner b = (d, c, [Some (x :: 'e)])"
  shows "\<exists>c'. flush (managed_buffer st sc he importing) b = b\<lparr>bc_buffer := [], bc_inner := (d, c', [])\<rparr>"
proof -
  from managed_retry [OF assms(1-9), of x None] obtain c1 c2 where
    "managed_handle sc he importing (Some x) (JObj e) (d, c) = (Inl (Commit_Raised x), d, c1)"
    "managed_handle sc he importing (None :: 'e option) (JObj e) (d, c1) = (Inr rsp, d, c2)" by auto
  then show ?thesis
    using assms(10,11)
    by (intro exI [of _ c2])
      (simp add: flush_def send_buffered_def managed_buffer_def managed_inner_def attempts_of_def eval_nat_numeral)
qed

theorem buffered_record_lost_on_commit_failure_witness:
  "\<exists>c'. flush (managed_buffer default_settings (sample_schemas sample_raw_envelope sample_action) sample_he (Inr ()))
     (new_buffered (sample_db, sample_managed, [Some ''connection lost''])\<lparr>bc_buffer := [[]]\<rparr>) =
     new_buffered (sample_db, c', [])"
proof -
  let ?sc = "sample_schemas sample_raw_envelope sample_action"
  obtain rsp d' cache where h: "handle ?sc sample_he (JObj []) (sample_db, mc_idempotency sample_managed) = (Inr rsp, d', cache)"
    using sample_handle_accepts
    by (auto simp: sample_managed_def new_managed_client_def handle_def sample_schemas_def)
  have env: "sc_envelope ?sc (JObj []) = Some sample_raw_envelope" "major_of (ev_schema_version sample_raw_envelope) = supported_schema_major"
    "aware (ev_emitted_at sample_raw_envelope)"
    by (simp_all add: sample_schemas_def sample_raw_envelope_def major_of_def supported_schema_major_def)
  have times: "store_inv (mc_idempotency sample_managed)"
    "fst (idem_get (he_now_get sample_he) (ev_event_id sample_raw_envelope) (mc_idempotency sample_managed)) = None"
    "he_now_get sample_he < micros (ev_emitted_at sample_raw_envelope) + ttl"
    "he_now_get sample_he < he_now_set sample_he + ttl" "available (Inr ()) sample_managed"
    by (simp_all add: sample_he_def sample_raw_envelope_def ttl_def sample_managed_def new_managed_client_def
        idem_get_def evict_expired_def Let_def available_def)
  from buffered_record_lost_on_commit_failure [OF env times(1,2,5) h times(3,4), where x = "''connection lost''"
      and b = "new_buffered (sample_db, sample_managed, [Some ''connection lost''])\<lparr>bc_buffer := [[]]\<rparr>"
      and st = default_settings]
  show ?thesis by (simp add: new_buffered_def)
qed

end
