(* ===== verification/Evidence.thy ===== *)
theory Evidence
  imports Receipt Redaction Chain_Links
begin

text \<open>
  \<^verbatim>\<open>rootsign/sdk/export.py\<close>, the assembly of an evidence bundle from a session file:
  reading the file, the chain proof record by record, the timeline with or without stored content,
  and the redaction posture; and the summary line of \<^verbatim>\<open>rootsign/sdk/chain.py\<close>. A line is
  given with what \<open>json.loads\<close> makes of it as it stands and stripped: the verifier strips, the
  exporter does not. The session's receipt is an argument; \<open>Receipt_Lookup\<close> finds it. An em dash in a text is
  written as two hyphens. A session stored in Postgres is
  read in \<open>Stored_Evidence\<close>.
\<close>

section \<open>Reading a session file\<close>

record source_line =
  sl_raw :: "json option"
  sl_stripped :: "json option"

record evidence =
  ed_session_id :: string
  ed_source_backend :: string
  ed_source_location :: string
  ed_verify :: verify_result
  ed_session :: dict
  ed_agent :: "dict option"
  ed_actions :: "dict list"
  ed_decisions :: "dict list"
  ed_approvals :: "dict list"
  ed_losses :: "dict list"
  ed_receipt :: "dict option"

record reading =
  rd_session_id :: json
  rd_session :: dict
  rd_actions :: "dict list"
  rd_decisions :: "dict list"
  rd_approvals :: "dict list"
  rd_losses :: "dict list"

definition mapping_of :: "json \<Rightarrow> pyexc + dict" where
  "mapping_of j = (case j of JObj d \<Rightarrow> Inr d | _ \<Rightarrow> Inl TypeError)"

definition sort_in :: "dict \<Rightarrow> reading \<Rightarrow> pyexc + reading" where
  "sort_in r rd0 =
     (let rd = rd0\<lparr>rd_session_id := py_or (rd_session_id rd0) (dget r ''session_id'')\<rparr>;
          event_type = dget_or r ''event_type'' (JStr ''ACTION_RECORD'');
          payload = py_or (dget r ''payload'') (JObj [])
      in if event_type = JStr ''ACTION_RECORD'' then Inr (rd\<lparr>rd_actions := rd_actions rd @ [r]\<rparr>)
         else if event_type = JStr ''SESSION_OPEN''
         then sbind (as_dict payload) (\<lambda>p.
           Inr (rd\<lparr>rd_session := dupdate (rd_session rd)
             [(''agent_id'', dget r ''agent_id''), (''objective'', dget p ''objective''),
              (''user_id'', dget p ''user_id''), (''start_time'', dget r ''emitted_at''),
              (''status'', JStr ''running'')]\<rparr>))
         else if event_type = JStr ''SESSION_CLOSE''
         then sbind (as_dict payload) (\<lambda>p.
           Inr (rd\<lparr>rd_session := dupdate (rd_session rd)
             [(''end_time'', dget r ''emitted_at''), (''status'', dget p ''status'')]\<rparr>))
         else if event_type = JStr ''DECISION_RECORD''
         then sbind (mapping_of payload) (\<lambda>p.
           Inr (rd\<lparr>rd_decisions := rd_decisions rd @ [dset ''decision_id'' (dget r ''decision_id'') p]\<rparr>))
         else if event_type = JStr ''APPROVAL_RECORD''
         then sbind (mapping_of payload) (\<lambda>p.
           Inr (rd\<lparr>rd_approvals := rd_approvals rd @ [dset ''approval_id'' (dget r ''approval_id'') p]\<rparr>))
         else Inr (rd\<lparr>rd_losses := rd_losses rd @ [r]\<rparr>))"

fun sort_lines :: "source_line list \<Rightarrow> reading \<Rightarrow> pyexc + reading" where
  "sort_lines [] rd = Inr rd"
| "sort_lines (l # ls) rd =
     (case sl_raw l of
        None \<Rightarrow> sort_lines ls rd
      | Some j \<Rightarrow> sbind (as_dict j) (\<lambda>r. sbind (sort_in r rd) (\<lambda>rd'. sort_lines ls rd')))"

text \<open>\<open>actions.sort(key=lambda a: a.get("sequence_number") or 0)\<close>.\<close>

definition order_key :: "dict \<Rightarrow> json" where
  "order_key a = py_or (seq_key a) (JInt 0)"

definition order_actions :: "dict list \<Rightarrow> pyexc + dict list" where
  "order_actions rs =
     (if length rs \<le> 1 then Inr rs
      else if list_all (\<lambda>r. num_of (order_key r) \<noteq> None) rs
      then Inr (sort_key (\<lambda>r. the (num_of (order_key r))) rs)
      else if list_all (\<lambda>r. str_of (order_key r) \<noteq> None) rs
      then Inr (sort_key (\<lambda>r. the (str_of (order_key r))) rs)
      else Inl TypeError)"

definition load_local_session ::
  "source_line list option \<Rightarrow> string \<Rightarrow> string \<Rightarrow> dict option \<Rightarrow> pyexc + evidence" where
  "load_local_session file location stem receipt =
     (case file of
        None \<Rightarrow> Inl FileNotFoundError
      | Some ls \<Rightarrow>
          sbind (sort_lines ls \<lparr>rd_session_id = JNull, rd_session = [], rd_actions = [], rd_decisions = [],
                   rd_approvals = [], rd_losses = []\<rparr>) (\<lambda>rd.
          sbind (order_actions (rd_actions rd)) (\<lambda>actions.
          sbind (verify_session_local (Some (map sl_stripped ls))) (\<lambda>v.
            Inr \<lparr>ed_session_id = py_str (py_or (rd_session_id rd) (JStr stem)), ed_source_backend = ''jsonl'',
                 ed_source_location = location, ed_verify = v, ed_session = rd_session rd,
                 ed_agent = (if truthy (dget (rd_session rd) ''agent_id'')
                             then Some [(''agent_id'', dget (rd_session rd) ''agent_id'')] else None),
                 ed_actions = actions, ed_decisions = rd_decisions rd, ed_approvals = rd_approvals rd,
                 ed_losses = rd_losses rd, ed_receipt = receipt\<rparr>))))"

section \<open>The chain proof, record by record\<close>

fun problem_text :: "problem \<Rightarrow> string" where
  "problem_text NoRecords = ''No records found in file''"
| "problem_text TruncatedFinalLine = ''truncated final line -- incomplete write (crash mid-append?)''"
| "problem_text (MalformedLine n) = ''malformed JSON at line '' @ nat_str n"
| "problem_text (DuplicateSequence s) = ''duplicate sequence_number '' @ s @ '' (chain replay/corruption)''"
| "problem_text (MissingCanonicalField k) = ''missing canonical field '' @ py_repr (JStr k)"
| "problem_text SelfHashMismatch = ''self_hash mismatch''"
| "problem_text PrevHashBroken = ''prev_action_hash chain broken''"
| "problem_text InputBindingMismatch = ''payload_hash mismatch: input_redacted does not match input_hash''"
| "problem_text OutputBindingMismatch = ''payload_hash mismatch: output_redacted does not match output_hash''"
| "problem_text (RecordsMissing n place) = int_str n @ '' record(s) missing at sequence '' @ place"

definition note_error :: "problem option \<Rightarrow> string" where
  "note_error e = (case e of None \<Rightarrow> [] | Some p \<Rightarrow> '' ('' @ problem_text p @ '')'')"

definition summary :: "verify_result \<Rightarrow> string" where
  "summary v =
     (case vr_verdict v of
        VALID \<Rightarrow> ''VALID -- '' @ nat_str (vr_record_count v) @ '' records, chain intact''
      | INCOMPLETE \<Rightarrow>
          ''INCOMPLETE -- '' @ int_str (missing_count (vr_missing_ranges v)) @ '' record(s) missing (sequence '' @
          describe_missing (vr_missing_ranges v) @ ''); '' @ nat_str (vr_record_count v) @ '' present and intact'' @
          note_error (vr_error v)
      | TAMPERED \<Rightarrow>
          ''TAMPERED -- chain broken at record #'' @ py_str (vr_first_invalid_sequence v) @ note_error (vr_error v) @
          (if vr_missing_ranges v = [] then []
           else ''; also missing sequence '' @ describe_missing (vr_missing_ranges v)))"

definition record_status :: "verdict \<Rightarrow> json \<Rightarrow> json \<Rightarrow> pyexc + string" where
  "record_status v sequence first_invalid =
     (if v = VALID \<or> first_invalid = JNull then Inr ''verified''
      else (case as_int sequence of
              None \<Rightarrow> Inr ''verified''
            | Some i \<Rightarrow>
                (case num_of first_invalid of
                   None \<Rightarrow> Inl TypeError
                 | Some q \<Rightarrow> Inr (if of_int i < q then ''verified'' else if of_int i = q then ''failed'' else ''unverified''))))"

definition proof_record :: "verify_result \<Rightarrow> dict \<Rightarrow> pyexc + dict" where
  "proof_record v a =
     sbind (record_status (vr_verdict v) (seq_key a) (vr_first_invalid_sequence v)) (\<lambda>status.
       Inr [(''sequence_number'', seq_key a), (''action_id'', dget a ''action_id''), (''timestamp'', dget a ''timestamp''),
            (''tool_name'', dget a ''tool_name''), (''prev_action_hash'', dget a ''prev_action_hash''),
            (''self_hash'', dget a ''self_hash''), (''chain_status'', JStr status)])"

fun collect :: "('a \<Rightarrow> pyexc + 'b) \<Rightarrow> 'a list \<Rightarrow> pyexc + 'b list" where
  "collect f [] = Inr []"
| "collect f (x # xs) = sbind (f x) (\<lambda>y. sbind (collect f xs) (\<lambda>ys. Inr (y # ys)))"

definition replay_block :: "evidence \<Rightarrow> pyexc + dict" where
  "replay_block ev =
     (case ed_receipt ev of
        None \<Rightarrow> Inr []
      | Some r \<Rightarrow> sbind (replay_summary r) (\<lambda>s. Inr [(''replay'', JObj s)]))"

definition hash_note :: dict where
  "hash_note =
     [(''algorithm'', JStr ''sha256''), (''canonical_spec'', JStr ''ADR-001''),
      (''note'', JStr (''Each record's self_hash is recomputed from its canonical fields and checked against the '' @
         ''stored value; each record's prev_action_hash must equal its predecessor's self_hash.''))]"

definition build_verification :: "evidence \<Rightarrow> pyexc + dict" where
  "build_verification ev =
     (let v = ed_verify ev in
      sbind (collect (proof_record v) (ed_actions ev)) (\<lambda>records.
      sbind (replay_block ev) (\<lambda>replay.
        Inr ([(''verdict'', JStr (verdict_value (vr_verdict v))),
              (''valid'', JBool (vr_valid v)),
              (''summary'', JStr (summary v)),
              (''record_count'', JInt (int (vr_record_count v))),
              (''first_invalid_sequence'', vr_first_invalid_sequence v),
              (''missing_ranges'', JArr (map (\<lambda>(a, b). JArr [JInt a, JInt b]) (vr_missing_ranges v))),
              (''error'', case vr_error v of None \<Rightarrow> JNull | Some p \<Rightarrow> JStr (problem_text p)),
              (''hash'', JObj hash_note),
              (''records'', JArr (map JObj records))] @ replay))))"

section \<open>The timeline\<close>

definition content_fields :: "string list" where
  "content_fields = [''input_preview'', ''output_preview'', ''context_presented'', ''inputs_summary'', ''reasoning_summary'']"

definition opening_event :: "dict \<Rightarrow> dict" where
  "opening_event session =
     [(''type'', JStr ''SESSION_OPEN''), (''timestamp'', dget session ''start_time''),
      (''objective'', dget session ''objective''), (''user_id'', dget session ''user_id'')]"

definition decision_event :: "dict \<Rightarrow> dict" where
  "decision_event d =
     [(''type'', JStr ''DECISION''), (''timestamp'', dget d ''timestamp''), (''decision_id'', dget d ''decision_id''),
      (''selected_action'', dget d ''selected_action''), (''confidence'', dget d ''confidence''),
      (''alternatives_considered'', dget d ''alternatives_considered''),
      (''reasoning_summary'', dget d ''reasoning_summary''), (''inputs_summary'', dget d ''inputs_summary'')]"

definition action_event :: "dict \<Rightarrow> dict" where
  "action_event a =
     [(''type'', JStr ''ACTION''), (''timestamp'', dget a ''timestamp''), (''sequence_number'', dget a ''sequence_number''),
      (''action_id'', dget a ''action_id''), (''tool_name'', dget a ''tool_name''),
      (''authorization_status'', dget a ''authorization_status''), (''duration_ms'', dget a ''duration_ms''),
      (''decision_id'', dget a ''decision_id''), (''input_hash'', dget a ''input_hash''),
      (''output_hash'', dget a ''output_hash''),
      (''input_preview'', dget a ''input_redacted''), (''output_preview'', dget a ''output_redacted'')]"

definition approval_event :: "dict \<Rightarrow> dict" where
  "approval_event p =
     [(''type'', JStr ''APPROVAL''), (''timestamp'', dget p ''timestamp''), (''approval_id'', dget p ''approval_id''),
      (''action_id'', dget p ''action_id''), (''approver_id'', dget p ''approver_id''),
      (''approver_type'', dget p ''approver_type''), (''decision'', dget p ''decision''),
      (''decision_reason'', dget p ''decision_reason''), (''response_latency_ms'', dget p ''response_latency_ms''),
      (''context_presented'', dget p ''context_presented'')]"

definition loss_event :: "dict \<Rightarrow> dict" where
  "loss_event l =
     [(''type'', JStr ''RECORD_LOSS''), (''timestamp'', py_or (dget l ''first_loss_at'') (dget l ''recorded_at'')),
      (''lost_count'', dget l ''lost_count''), (''first_sequence'', dget l ''first_sequence''),
      (''last_sequence'', dget l ''last_sequence''), (''reasons'', dget l ''reasons'')]"

definition closing_event :: "dict \<Rightarrow> dict" where
  "closing_event session =
     [(''type'', JStr ''SESSION_CLOSE''), (''timestamp'', dget session ''end_time''), (''status'', dget session ''status'')]"

definition raw_events :: "evidence \<Rightarrow> dict list" where
  "raw_events ev =
     (let session = ed_session ev in
      (if session = [] then [] else [opening_event session]) @
      map decision_event (ed_decisions ev) @ map action_event (ed_actions ev) @
      map approval_event (ed_approvals ev) @ map loss_event (ed_losses ev) @
      (if session \<noteq> [] \<and> truthy (dget session ''end_time'') then [closing_event session] else []))"

definition boundary_rank :: "dict \<Rightarrow> nat" where
  "boundary_rank e =
     (if dget e ''type'' = JStr ''SESSION_OPEN'' then 0 else if dget e ''type'' = JStr ''SESSION_CLOSE'' then 2 else 1)"

definition stamp :: "dict \<Rightarrow> string" where
  "stamp e = (if dget e ''timestamp'' = JNull then ''9999'' else py_str (dget e ''timestamp''))"

text \<open>Sorting by the pair of rank and timestamp: sorting is stable, so first by timestamp, then by
  rank.\<close>

definition narrative :: "dict list \<Rightarrow> dict list" where
  "narrative events = sort_key boundary_rank (sort_key stamp events)"

definition withhold :: "dict \<Rightarrow> dict" where
  "withhold e = filter (\<lambda>(k, v). k \<notin> set content_fields) e"

definition carried :: "dict \<Rightarrow> string list" where
  "carried e = filter (\<lambda>k. dhas e k \<and> dget e k \<noteq> JNull) content_fields"

definition no_previews_stored :: string where
  "no_previews_stored =
     ''payload previews not retained for this session -- only the input/output '' @
     ''hashes the chain is built from were stored''"

definition previews_stripped :: string where
  "previews_stripped =
     ''stored content withheld from this bundle (--redact-previews); hashes, '' @
     ''identities and timings are unaffected''"

definition session_block :: "evidence \<Rightarrow> dict" where
  "session_block ev =
     (let s = ed_session ev in
      [(''session_id'', JStr (ed_session_id ev)), (''agent_id'', dget s ''agent_id''), (''objective'', dget s ''objective''),
       (''user_id'', dget s ''user_id''), (''status'', dget s ''status''), (''start_time'', dget s ''start_time''),
       (''end_time'', dget s ''end_time''), (''action_count'', JInt (int (length (ed_actions ev)))),
       (''decision_count'', JInt (int (length (ed_decisions ev)))),
       (''approval_count'', JInt (int (length (ed_approvals ev))))])"

definition build_timeline :: "evidence \<Rightarrow> bool \<Rightarrow> bool \<Rightarrow> dict" where
  "build_timeline ev include_previews previews_stored =
     (let events = narrative (raw_events ev);
          withheld = (if include_previews then [] else sort (remdups (concat (map carried events))));
          touched = (if include_previews then 0 else length (filter (\<lambda>e. carried e \<noteq> []) events));
          shown = (if include_previews then events else map withhold events)
      in [(''session'', JObj (session_block ev)),
          (''previews'', JObj
             [(''included'', JBool include_previews),
              (''note'', if include_previews then JNull
                         else JStr (if previews_stored then previews_stripped else no_previews_stored)),
              (''withheld_fields'', JArr (map JStr withheld)),
              (''withheld_from_events'', JInt (int touched))]),
          (''events'', JArr (map JObj shown))])"

section \<open>The redaction posture\<close>

lemma size_numbered: "(i, v) \<in> set (numbered n xs) \<Longrightarrow> size (v :: json) \<le> size_list size xs"
  by (auto simp: in_numbered intro: size_item)

function redacted_paths :: "string \<Rightarrow> json \<Rightarrow> string list" where
  "redacted_paths path (JObj d) =
     concat (map (\<lambda>(k, v). redacted_paths (if path \<noteq> [] then path @ ''.'' @ k else k) v) d)"
| "redacted_paths path (JArr xs) =
     concat (map (\<lambda>(i, v). redacted_paths (path @ ''['' @ nat_str i @ '']'') v) (numbered 0 xs))"
| "redacted_paths path (JStr s) = (if s = redacted_placeholder \<and> path \<noteq> [] then [path] else [])"
| "redacted_paths path JNull = []"
| "redacted_paths path (JBool b) = []"
| "redacted_paths path (JInt i) = []"
| "redacted_paths path (JFloat t q) = []"
  by pat_completeness auto
termination
  by (relation "measure (size \<circ> snd)") (auto simp: less_Suc_eq_le dest: size_numbered size_entry)

definition redaction_record :: "dict \<Rightarrow> dict" where
  "redaction_record a =
     [(''sequence_number'', dget a ''sequence_number''), (''action_id'', dget a ''action_id''),
      (''input_paths'', JArr (map JStr (redacted_paths [] (dget a ''input_redacted'')))),
      (''output_paths'', JArr (map JStr (redacted_paths [] (dget a ''output_redacted''))))]"

definition paths_of :: "dict \<Rightarrow> string list" where
  "paths_of a = redacted_paths [] (dget a ''input_redacted'') @ redacted_paths [] (dget a ''output_redacted'')"

definition redaction_provenance :: string where
  "redaction_provenance =
     ''RootSign does not record which redaction rule set was active when a '' @
     ''session ran, and it is not derivable from stored records. The paths below '' @
     ''are the fields that carry the redaction sentinel in the stored payloads -- '' @
     ''evidence that redaction happened, not evidence of which rule caused it.''"

definition build_redaction :: "evidence \<Rightarrow> dict" where
  "build_redaction ev =
     (let redacted = filter (\<lambda>a. paths_of a \<noteq> []) (ed_actions ev) in
      [(''sentinel'', JStr redacted_placeholder),
       (''rule_set'', JObj [(''name'', JNull), (''provenance'', JStr redaction_provenance)]),
       (''totals'', JObj [(''actions_with_redactions'', JInt (int (length redacted))),
          (''redacted_fields'', JInt (int (sum_list (map (\<lambda>a. length (paths_of a)) redacted))))]),
       (''records'', JArr (map (\<lambda>a. JObj (redaction_record a)) redacted))])"

definition previews_retained :: "evidence \<Rightarrow> bool" where
  "previews_retained ev \<longleftrightarrow>
     list_ex (\<lambda>a. dget a ''input_redacted'' \<noteq> JNull \<or> dget a ''output_redacted'' \<noteq> JNull) (ed_actions ev)"

section \<open>What the proof records claim\<close>

lemma walk_failure:
  "walk gaps prev rs = Inr (Some (k, s, e)) \<Longrightarrow>
    \<exists>pre r post. rs = pre @ r # post \<and> seq_key r = s \<and> (\<forall>x \<in> set pre. record_sound x)"
proof (induction rs arbitrary: prev)
  case Nil
  then show ?case by simp
next
  case (Cons r rs)
  have stop: "?case" if "seq_key r = s"
    using that by (intro exI [of _ "[]"] exI [of _ r] exI [of _ rs]) simp
  show ?case
  proof (cases "compute_action_self_hash r")
    case (Inl x)
    with Cons.prems have "seq_key r = s" by (cases x) simp_all
    then show ?thesis by (rule stop)
  next
    case (Inr h)
    then have h: "list_all (dhas r) canonical_keys" "h = hash_of r" using self_hash_Inr by simp_all
    show ?thesis
    proof (cases "seq_key r = s")
      case True
      then show ?thesis by (rule stop)
    next
      case False
      with Cons.prems Inr have sound: "record_sound r"
        and rest: "walk gaps (dget r ''self_hash'') rs = Inr (Some (k, s, e))"
        by (auto simp: sbind_eq_Inr record_sound_def h split: if_splits)
      from Cons.IH [OF rest] obtain pre x post where
        "rs = pre @ x # post" "seq_key x = s" "\<forall>y \<in> set pre. record_sound y" by blast
      with sound show ?thesis
        by (intro exI [of _ "r # pre"] exI [of _ x] exI [of _ post]) simp
    qed
  qed
qed

lemma walk_sound_below:
  assumes walk: "walk gaps prev rs = Inr (Some (k, JInt i, e))" and "int_keyed rs" and "sorted (map seq_of rs)"
    and "a \<in> set rs" and "seq_of a < i"
  shows "record_sound a"
proof -
  from walk_failure [OF walk] obtain pre r post where rs: "rs = pre @ r # post" and r: "seq_key r = JInt i"
    and sound: "\<forall>x \<in> set pre. record_sound x" by blast
  from r have "seq_of r = i" by (simp add: seq_of_def)
  with assms(3,5) rs have "a \<notin> set (r # post)" by (auto simp: sorted_append)
  with assms(4) rs have "a \<in> set pre" by auto
  with sound show ?thesis by blast
qed

lemma record_status_verified:
  assumes "record_status v (JInt j) q = Inr ''verified''" and "v \<noteq> VALID" and "q \<noteq> JNull"
  shows "\<exists>x. num_of q = Some x \<and> of_int j < x"
  using assms by (auto simp: record_status_def split: option.splits if_splits)

lemma verify_records_verified_sound:
  assumes keyed: "int_keyed rs" and v: "verify_records sid rs = Inr v" and a: "a \<in> set rs"
    and dup: "\<forall>t. vr_error v \<noteq> Some (DuplicateSequence t)"
    and status: "record_status (vr_verdict v) (seq_key a) (vr_first_invalid_sequence v) = Inr ''verified''"
  shows "record_sound a"
proof (cases "intact rs")
  case True
  with a show ?thesis by (simp add: intact_def)
next
  case False
  from verify_records_int [OF keyed, of sid] v False have bad: "vr_verdict v = TAMPERED" by auto
  let ?s = "sort_key seq_of rs" and ?g = "missing_ranges (map seq_key (sort_key seq_of rs))"
  have ks: "int_keyed ?s" using keyed int_keyed_cong [of ?s rs] by simp
  from v dup have nodup: "first_duplicate ?s = None"
    by (auto simp: verify_records_def sort_records_int [OF keyed] tampered_result_def Let_def split: option.splits)
  from v nodup bad obtain f where walk: "walk ?g JNull ?s = Inr (Some f)" and res: "v = tampered_result ?g (length rs) sid f"
    by (auto simp: verify_records_def sort_records_int [OF keyed] clean_result_def decide_def Let_def sbind_eq_Inr
        split: option.splits if_splits)
  obtain k s e where f: "f = (k, s, e)" by (cases f)
  from walk_failure [OF walk [unfolded f]] obtain r where r: "r \<in> set ?s" "seq_key r = s" by force
  with int_keyed_mem [OF ks] have s: "s = JInt (seq_of r)" by simp
  have aj: "seq_key a = JInt (seq_of a)" by (rule int_keyed_mem [OF keyed a])
  from res f s have inv: "vr_first_invalid_sequence v = JInt (seq_of r)" by (simp add: tampered_result_def)
  from record_status_verified [of _ "seq_of a" "JInt (seq_of r)"] status aj inv bad have "seq_of a < seq_of r"
    by (auto simp: num_of_def)
  with walk_sound_below [OF walk [unfolded f s] ks sorted_sort_key] a show ?thesis by simp
qed

section \<open>What reading a file gives\<close>

definition read_values :: "source_line list \<Rightarrow> json list" where
  "read_values ls = List.map_filter sl_raw ls"

lemma sort_in_actions:
  "sort_in r rd = Inr rd' \<Longrightarrow> rd_actions rd' = rd_actions rd @ (if is_action_record r then [r] else [])"
  by (auto simp: sort_in_def is_action_record_def Let_def sbind_eq_Inr split: if_splits)

lemma sort_lines_actions:
  "sort_lines ls rd = Inr rd' \<Longrightarrow>
    \<exists>ds. as_dicts (read_values ls) = Inr ds \<and> rd_actions rd' = rd_actions rd @ filter is_action_record ds"
proof (induction ls arbitrary: rd)
  case Nil
  then show ?case by (simp add: read_values_def)
next
  case (Cons l ls)
  show ?case
  proof (cases "sl_raw l")
    case None
    with Cons show ?thesis by (simp add: read_values_def)
  next
    case (Some j)
    with Cons.prems obtain r mid where r: "as_dict j = Inr r" "sort_in r rd = Inr mid" "sort_lines ls mid = Inr rd'"
      by (auto simp: sbind_eq_Inr)
    from Cons.IH [OF r(3)] obtain ds where
      "as_dicts (read_values ls) = Inr ds" "rd_actions rd' = rd_actions mid @ filter is_action_record ds" by blast
    with r Some sort_in_actions [OF r(2)] show ?thesis
      by (intro exI [of _ "r # ds"]) (simp add: read_values_def)
  qed
qed

lemma order_actions_set: "order_actions rs = Inr rs' \<Longrightarrow> mset rs' = mset rs"
  by (auto simp: order_actions_def split: if_splits)

lemma load_local_session_parts:
  assumes "load_local_session (Some ls) location stem receipt = Inr ev"
  shows "\<exists>ds. as_dicts (read_values ls) = Inr ds \<and> mset (ed_actions ev) = mset (filter is_action_record ds) \<and>
    verify_session_local (Some (map sl_stripped ls)) = Inr (ed_verify ev)"
proof -
  from assms obtain rd where rd: "sort_lines ls \<lparr>rd_session_id = JNull, rd_session = [], rd_actions = [],
      rd_decisions = [], rd_approvals = [], rd_losses = []\<rparr> = Inr rd"
    and ord: "order_actions (rd_actions rd) = Inr (ed_actions ev)"
    and v: "verify_session_local (Some (map sl_stripped ls)) = Inr (ed_verify ev)"
    by (auto simp: load_local_session_def sbind_eq_Inr)
  from sort_lines_actions [OF rd] obtain ds where
    "as_dicts (read_values ls) = Inr ds" "rd_actions rd = filter is_action_record ds" by auto
  with order_actions_set [OF ord] v show ?thesis by auto
qed

lemma parse_lines_bad: "None \<in> set ls \<Longrightarrow> \<exists>js b. parse_lines i ls = (js, Some b)"
proof (induction i ls rule: parse_lines.induct)
  case (2 i j ls)
  then obtain js b where "parse_lines (Suc i) ls = (js, Some b)" by auto
  then show ?case by simp
qed simp_all

lemma read_values_parsed: "map sl_raw ls = map Some js \<Longrightarrow> read_values ls = js"
proof (induction ls arbitrary: js)
  case (Cons l ls)
  then obtain j js' where "js = j # js'" by (cases js) auto
  with Cons show ?case by (simp add: read_values_def)
qed (simp add: read_values_def)

lemma verify_unparsed:
  assumes "None \<in> set ls" and "verify_session_local (Some ls) = Inr v"
  shows "vr_verdict v = TAMPERED \<and> vr_first_invalid_sequence v = JNull"
proof -
  from parse_lines_bad [OF assms(1), of 0] obtain js b where "parse_lines 0 ls = (js, Some b)" by blast
  with assms show ?thesis by (auto simp: verify_session_local_def sbind_eq_Inr split: if_splits)
qed

lemma verify_parsed:
  assumes "verify_session_local (Some (map Some js)) = Inr v" and "as_dicts js = Inr ds" and "js \<noteq> []"
    and "filter is_action_record ds \<noteq> []"
  shows "verify_records (dget (hd ds) ''session_id'') (filter is_action_record ds) = Inr v"
proof -
  have "parse_lines i (map Some js) = (js, None)" for i
    by (induction js arbitrary: i) simp_all
  with assms show ?thesis by (simp add: verify_session_local_def Let_def)
qed


text \<open>\<open>unreadable_line_verifies_all\<close>: where a line of the file is not JSON, the bundle says TAMPERED and
  marks every record it could read \<open>verified\<close>, whatever is in it: the verifier stops before checking
  any record and names no invalid sequence.\<close>

theorem unreadable_line_verifies_all:
  assumes "load_local_session (Some ls) location stem receipt = Inr ev"
    and "l \<in> set ls" and "sl_stripped l = None" and "a \<in> set (ed_actions ev)"
  shows "vr_verdict (ed_verify ev) = TAMPERED \<and>
    (\<exists>r. proof_record (ed_verify ev) a = Inr r \<and> dget r ''chain_status'' = JStr ''verified'')"
proof -
  from load_local_session_parts [OF assms(1)]
  have v: "verify_session_local (Some (map sl_stripped ls)) = Inr (ed_verify ev)" by blast
  have "None \<in> set (map sl_stripped ls)" using assms(2,3) by force
  with verify_unparsed [OF _ v] have "vr_verdict (ed_verify ev) = TAMPERED" "vr_first_invalid_sequence (ed_verify ev) = JNull"
    by simp_all
  then show ?thesis by (simp add: proof_record_def record_status_def dict_simps)
qed

section \<open>Concrete files\<close>

definition sample_lines :: "dict list \<Rightarrow> source_line list" where
  "sample_lines ds = map (\<lambda>d. \<lparr>sl_raw = Some (JObj d), sl_stripped = Some (JObj d)\<rparr>) ds"

definition forged_record :: dict where
  "forged_record = [(''session_id'', JStr ''s''), (''sequence_number'', JInt 2), (''tool_name'', JStr ''pay'')]"

definition torn_line :: source_line where
  "torn_line = \<lparr>sl_raw = None, sl_stripped = None\<rparr>"

lemma forged_facts:
  "is_action_record forged_record" "seq_key forged_record = JInt 2" "dhas forged_record ''sequence_number''"
  "compute_action_self_hash forged_record = Inl (KeyError ''timestamp'')"
  by (simp_all add: forged_record_def is_action_record_def seq_key_def compute_action_self_hash_def canonical_def dict_simps)

lemma sample_seq: "seq_key sample_record = JInt 1" "dhas sample_record ''sequence_number''"
  using sample_facts(1) by (auto simp: seq_key_dhas)

lemma sort_in_action:
  "is_action_record r \<Longrightarrow>
    sort_in r rd = Inr (rd\<lparr>rd_session_id := py_or (rd_session_id rd) (dget r ''session_id''),
      rd_actions := rd_actions rd @ [r]\<rparr>)"
  by (simp add: sort_in_def is_action_record_def Let_def)

lemma sample_verify:
  "verify_session_local (Some (map sl_stripped (sample_lines [sample_record, forged_record]))) =
     Inr \<lparr>vr_verdict = TAMPERED, vr_record_count = 2, vr_session_id = dget sample_record ''session_id'',
       vr_first_invalid_sequence = JInt 2, vr_error = Some (MissingCanonicalField ''timestamp''),
       vr_missing_ranges = missing_ranges [JInt 1, JInt 2]\<rparr>"
proof -
  let ?g = "missing_ranges [JInt 1, JInt 2]"
  have "record_sound sample_record" "dget sample_record ''prev_action_hash'' = JNull"
    using sample_facts(1) by (simp_all add: opt_str_def)
  then have "walk ?g JNull [sample_record, forged_record] =
      Inr (Some (MISSING_FIELD, JInt 2, MissingCanonicalField ''timestamp''))"
    by (simp add: record_sound_def self_hash_total link_ok_def py_or_def forged_facts)
  then show ?thesis
    by (simp add: verify_session_local_def sample_lines_def sample_facts(4) forged_facts sample_seq verify_records_def
        sort_records_def num_of_def sort_key_def tampered_result_def decide_def Let_def)
qed

lemma sample_load:
  "load_local_session (Some (sample_lines [sample_record, forged_record])) location stem receipt =
     Inr \<lparr>ed_session_id = py_str (py_or (py_or (dget sample_record ''session_id'') (JStr ''s'')) (JStr stem)),
       ed_source_backend = ''jsonl'', ed_source_location = location,
       ed_verify = \<lparr>vr_verdict = TAMPERED, vr_record_count = 2, vr_session_id = dget sample_record ''session_id'',
         vr_first_invalid_sequence = JInt 2, vr_error = Some (MissingCanonicalField ''timestamp''),
         vr_missing_ranges = missing_ranges [JInt 1, JInt 2]\<rparr>,
       ed_session = [], ed_agent = None, ed_actions = [sample_record, forged_record], ed_decisions = [],
       ed_approvals = [], ed_losses = [], ed_receipt = receipt\<rparr>"
proof -
  have "dget forged_record ''session_id'' = JStr ''s''" by (simp add: forged_record_def dict_simps)
  moreover have "order_actions [sample_record, forged_record] = Inr [sample_record, forged_record]"
    by (simp add: order_actions_def order_key_def sample_seq forged_facts num_of_def sort_key_def py_or_def)
  ultimately show ?thesis
    using sample_verify
    by (simp add: load_local_session_def sample_lines_def sort_in_action sample_facts(4) forged_facts dict_simps py_or_def)
qed


theorem unreadable_line_verifies_all_witness:
  "\<exists>ev r. load_local_session (Some (sample_lines [forged_record] @ [torn_line])) ''f'' ''s'' None = Inr ev \<and>
    proof_record (ed_verify ev) forged_record = Inr r \<and> dget r ''chain_status'' = JStr ''verified''"
proof -
  let ?ls = "sample_lines [forged_record] @ [torn_line]"
  have "\<exists>v. verify_session_local (Some (map sl_stripped ?ls)) = Inr v"
    by (simp add: verify_session_local_def sample_lines_def torn_line_def)
  then obtain v where "verify_session_local (Some (map sl_stripped ?ls)) = Inr v" by blast
  then have "\<exists>ev. load_local_session (Some ?ls) ''f'' ''s'' None = Inr ev \<and> ed_actions ev = [forged_record]"
    by (simp add: load_local_session_def sample_lines_def torn_line_def sort_in_action forged_facts order_actions_def)
  then obtain ev :: evidence where ev: "load_local_session (Some ?ls) ''f'' ''s'' None = Inr ev" "ed_actions ev = [forged_record]"
    by blast
  from unreadable_line_verifies_all [OF ev(1), of torn_line forged_record] ev show ?thesis
    by (auto simp: torn_line_def)
qed

section \<open>What the timeline shows\<close>

lemma map_of_withhold: "map_of (withhold e) k = (if k \<in> set content_fields then None else map_of e k)"
  unfolding withhold_def by (induction e) (auto split: if_splits)

lemma withhold_dget: "k \<notin> set content_fields \<Longrightarrow> dget (withhold e) k = dget e k"
  by (simp add: dget_def map_of_withhold)

lemma withhold_dhas: "dhas (withhold e) k \<longleftrightarrow> dhas e k \<and> k \<notin> set content_fields"
  by (simp add: dhas_def map_of_withhold)

lemma carried_set: "k \<in> set (carried e) \<longleftrightarrow> k \<in> set content_fields \<and> dget e k \<noteq> JNull"
  by (auto simp: carried_def dhas_def dget_def split: option.splits)

text \<open>C11. \<open>withheld_content_is_named\<close>: without previews no event of the timeline has a field of stored content;
  every other field of every event is as it was, in the same order of events; and the previews block
  names exactly the content fields in which some event held something.\<close>

theorem withheld_content_is_named:
  "\<exists>shown names previews.
     dget (build_timeline ev False stored) ''events'' = JArr (map JObj shown) \<and>
     (\<forall>e \<in> set shown. \<forall>k \<in> set content_fields. \<not> dhas e k) \<and>
     list_all2 (\<lambda>e raw. \<forall>k. k \<notin> set content_fields \<longrightarrow> dget e k = dget raw k) shown (narrative (raw_events ev)) \<and>
     dget (build_timeline ev False stored) ''previews'' = JObj previews \<and>
     dget previews ''withheld_fields'' = JArr (map JStr names) \<and> distinct names \<and>
     set names = {k \<in> set content_fields. \<exists>raw \<in> set (raw_events ev). dget raw k \<noteq> JNull}"
proof -
  let ?evs = "narrative (raw_events ev)"
  let ?names = "sort (remdups (concat (map carried ?evs)))"
  have "set ?evs = set (raw_events ev)" by (simp add: narrative_def)
  then have names: "set ?names = {k \<in> set content_fields. \<exists>raw \<in> set (raw_events ev). dget raw k \<noteq> JNull}"
    by (auto simp: carried_set)
  have shown: "list_all2 (\<lambda>e raw. \<forall>k. k \<notin> set content_fields \<longrightarrow> dget e k = dget raw k) (map withhold ?evs) ?evs"
    by (simp add: list_all2_conv_all_nth withhold_dget)
  show ?thesis
    by (rule exI [of _ "map withhold ?evs"], rule exI [of _ ?names], intro exI conjI)
      (use names shown in \<open>auto simp: build_timeline_def dict_simps Let_def withhold_dhas\<close>)
qed

definition sample_evidence :: "dict \<Rightarrow> evidence" where
  "sample_evidence a =
     \<lparr>ed_session_id = ''s'', ed_source_backend = ''jsonl'', ed_source_location = ''f'',
      ed_verify = clean_result [] 1 (JStr ''s''), ed_session = [], ed_agent = None, ed_actions = [a],
      ed_decisions = [], ed_approvals = [], ed_losses = [], ed_receipt = None\<rparr>"

lemma sole_member: "distinct xs \<Longrightarrow> set xs = {x} \<Longrightarrow> xs = [x]"
  by (cases xs rule: remdups_adj.cases) auto

theorem withheld_content_is_named_witness:
  "\<exists>previews. dget (build_timeline (sample_evidence [(''input_redacted'', JStr ''x'')]) False True) ''previews'' = JObj previews \<and>
     dget previews ''withheld_fields'' = JArr [JStr ''input_preview'']"
proof -
  let ?e = "sample_evidence [(''input_redacted'', JStr ''x'')]"
  have raw: "raw_events ?e = [action_event [(''input_redacted'', JStr ''x'')]]"
    by (simp add: sample_evidence_def raw_events_def Let_def)
  from withheld_content_is_named [of ?e True] obtain names previews where
    p: "dget (build_timeline ?e False True) ''previews'' = JObj previews"
    and w: "dget previews ''withheld_fields'' = JArr (map JStr names)" "distinct names"
      "set names = {k \<in> set content_fields. \<exists>r \<in> set (raw_events ?e). dget r k \<noteq> JNull}" by blast
  have "set names = {''input_preview''}"
    unfolding w(3) raw by (auto simp: content_fields_def action_event_def dict_simps)
  with w(2) have "names = [''input_preview'']" by (rule sole_member)
  with p w(1) show ?thesis by simp
qed

lemma sorted_by_rank:
  assumes "sorted (map f xs)" and "\<forall>x \<in> set xs. f x \<le> (2 :: nat)"
  shows "xs = filter (\<lambda>x. f x = 0) xs @ filter (\<lambda>x. f x = 1) xs @ filter (\<lambda>x. f x = 2) xs"
  using assms
proof (induction xs)
  case (Cons x xs)
  have none: "filter (\<lambda>x. f x = k) xs = []" if "k < f x" for k
    using Cons.prems(1) that by (auto simp: filter_empty_conv)
  consider "f x = 0" | "f x = 1" | "f x = 2" using Cons.prems(2) by fastforce
  then show ?case using Cons none [of 0] none [of 1] by cases auto
qed simp

lemma narrative_parts:
  "narrative es = sort_key stamp (filter (\<lambda>e. boundary_rank e = 0) es) @
     sort_key stamp (filter (\<lambda>e. boundary_rank e = 1) es) @ sort_key stamp (filter (\<lambda>e. boundary_rank e = 2) es)"
proof -
  have "narrative es = filter (\<lambda>e. boundary_rank e = 0) (narrative es) @
      filter (\<lambda>e. boundary_rank e = 1) (narrative es) @ filter (\<lambda>e. boundary_rank e = 2) (narrative es)"
    by (rule sorted_by_rank) (simp_all add: narrative_def, simp add: boundary_rank_def)
  then show ?thesis by (simp only: narrative_def sort_key_stable filter_sort)
qed

definition inner_events :: "evidence \<Rightarrow> dict list" where
  "inner_events ev = map decision_event (ed_decisions ev) @ map action_event (ed_actions ev) @
     map approval_event (ed_approvals ev) @ map loss_event (ed_losses ev)"

lemma inner_rank: "e \<in> set (inner_events ev) \<Longrightarrow> boundary_rank e = 1"
  by (auto simp: inner_events_def decision_event_def action_event_def approval_event_def loss_event_def
      boundary_rank_def dict_simps)

lemma edge_rank: "boundary_rank (opening_event s) = 0" "boundary_rank (closing_event s) = 2"
  by (simp_all add: opening_event_def closing_event_def boundary_rank_def dict_simps)

lemma raw_events_inner:
  "raw_events ev = (if ed_session ev = [] then [] else [opening_event (ed_session ev)]) @ inner_events ev @
     (if ed_session ev \<noteq> [] \<and> truthy (dget (ed_session ev) ''end_time'') then [closing_event (ed_session ev)] else [])"
  by (simp add: raw_events_def inner_events_def Let_def)

text \<open>\<open>narrative_is_bounded_and_ordered\<close>: the timeline begins with the opening of the session when the file
  has one and ends with its close when it was closed, whatever the clocks said; between them stands
  every decision, action, approval and loss once, ordered by timestamp.\<close>

theorem narrative_is_bounded_and_ordered:
  "\<exists>mid. narrative (raw_events ev) =
     (if ed_session ev = [] then [] else [opening_event (ed_session ev)]) @ mid @
     (if ed_session ev \<noteq> [] \<and> truthy (dget (ed_session ev) ''end_time'') then [closing_event (ed_session ev)] else []) \<and>
   mset mid = mset (inner_events ev) \<and> sorted (map stamp mid)"
proof -
  have "filter (\<lambda>e. boundary_rank e = 0) (inner_events ev) = []" "filter (\<lambda>e. boundary_rank e = 2) (inner_events ev) = []"
    "filter (\<lambda>e. boundary_rank e = 1) (inner_events ev) = inner_events ev"
    by (auto simp: filter_empty_conv filter_id_conv dest: inner_rank)
  then show ?thesis
    by (intro exI [of _ "sort_key stamp (inner_events ev)"])
      (simp add: narrative_parts raw_events_inner edge_rank)
qed

section \<open>What the redaction record reports\<close>

text \<open>Whether the placeholder stands anywhere in a value.\<close>

fun holds_placeholder :: "json \<Rightarrow> bool" where
  "holds_placeholder (JObj d) \<longleftrightarrow> list_ex (\<lambda>(k, v). holds_placeholder v) d"
| "holds_placeholder (JArr xs) \<longleftrightarrow> list_ex holds_placeholder xs"
| "holds_placeholder v \<longleftrightarrow> v = JStr redacted_placeholder"

lemma redacted_paths_below: "path \<noteq> [] \<Longrightarrow> redacted_paths path v = [] \<longleftrightarrow> \<not> holds_placeholder v"
proof (induction path v rule: redacted_paths.induct)
  case (1 path d)
  then show ?case by (auto simp: list_ex_iff)
next
  case (2 path xs)
  then have "(redacted_paths path (JArr xs) = []) = (\<forall>p \<in> set (numbered 0 xs). \<not> holds_placeholder (snd p))"
    by (auto split: prod.splits)
  also have "\<dots> = (\<forall>v \<in> snd ` set (numbered 0 xs). \<not> holds_placeholder v)" by blast
  also have "snd ` set (numbered 0 xs) = set xs" by (metis map_snd_numbered set_map)
  finally show ?case by (auto simp: list_ex_iff)
qed simp_all

text \<open>\<open>every_redaction_is_reported\<close>: for a payload whose top-level keys are not empty, the paths
  are empty exactly when the placeholder stands nowhere in it, so an action whose stored payloads hold
  a placeholder is among the reported records and no other is.\<close>

theorem every_redaction_is_reported:
  assumes "list_all (\<lambda>a. dget a ''input_redacted'' = JObj (inp a) \<and> dget a ''output_redacted'' = JObj (out a) \<and>
      list_all (\<lambda>(k, v). k \<noteq> []) (inp a @ out a)) (ed_actions ev)"
  shows "dget (build_redaction ev) ''records'' =
    JArr (map (\<lambda>a. JObj (redaction_record a))
      (filter (\<lambda>a. holds_placeholder (JObj (inp a)) \<or> holds_placeholder (JObj (out a))) (ed_actions ev)))"
proof -
  have top: "redacted_paths [] (JObj d) = [] \<longleftrightarrow> \<not> holds_placeholder (JObj d)" if "list_all (\<lambda>(k, v). k \<noteq> []) d" for d
  proof -
    have "redacted_paths k v = [] \<longleftrightarrow> \<not> holds_placeholder v" if "(k, v) \<in> set d" for k v
      using \<open>list_all (\<lambda>(k, v). k \<noteq> []) d\<close> that by (intro redacted_paths_below) (auto simp: list_all_iff)
    then show ?thesis by (auto simp: list_ex_iff split: prod.splits)
  qed
  have "paths_of a \<noteq> [] \<longleftrightarrow> holds_placeholder (JObj (inp a)) \<or> holds_placeholder (JObj (out a))"
    if "a \<in> set (ed_actions ev)" for a
    using assms that top [of "inp a"] top [of "out a"] by (auto simp: list_all_iff paths_of_def simp del: redacted_paths.simps holds_placeholder.simps)
  then have "filter (\<lambda>a. paths_of a \<noteq> []) (ed_actions ev) =
      filter (\<lambda>a. holds_placeholder (JObj (inp a)) \<or> holds_placeholder (JObj (out a))) (ed_actions ev)"
    by (rule filter_cong [OF refl])
  then show ?thesis by (simp add: build_redaction_def dict_simps Let_def)
qed

theorem every_redaction_is_reported_witness:
  "dget (build_redaction (sample_evidence [(''input_redacted'', JObj [(''k'', JStr redacted_placeholder)]),
       (''output_redacted'', JObj [])])) ''records'' \<noteq> JArr []"
  using every_redaction_is_reported [of "\<lambda>a. [(''k'', JStr redacted_placeholder)]" "\<lambda>a. []"
      "sample_evidence [(''input_redacted'', JObj [(''k'', JStr redacted_placeholder)]), (''output_redacted'', JObj [])]"]
  by (simp add: sample_evidence_def dict_simps)

end
