(* ===== verification/Bundle.thy ===== *)
theory Bundle
  imports Evidence "HOL-Library.AList"
begin

text \<open>
  \<^verbatim>\<open>rootsign/sdk/export.py\<close>, the bundle: its documents and manifest, writing it to a
  directory and checking one that arrived. A directory is its regular files with their bytes, the
  names of its other entries, and what any other path under it leads to; a write may fail and leave
  some bytes behind. \<open>json.loads\<close> of the decoded bytes of a manifest, the package version and the
  clock are arguments. The texts of exceptions inside the check's error are left out, and files the
  checker may not read are not modelled.
\<close>

section \<open>The documents and the manifest\<close>

record evidence_bundle =
  b_session_id :: string
  b_verification :: dict
  b_timeline :: dict
  b_redaction :: dict
  b_source_backend :: string
  b_source_location :: string
  b_agent :: "dict option"
  b_generated_at :: string
  b_rendered :: "(string \<times> string) list"
  b_receipt :: "dict option"

definition verification_file :: string where "verification_file = ''verification.json''"
definition timeline_file :: string where "timeline_file = ''timeline.json''"
definition redaction_file :: string where "redaction_file = ''redaction.json''"
definition receipt_file_name :: string where "receipt_file_name = ''sync-receipt.json''"
definition manifest_file :: string where "manifest_file = ''manifest.json''"

definition directory_name :: "evidence_bundle \<Rightarrow> string" where
  "directory_name b = ''evidence-'' @ b_session_id b"

definition attach :: "string \<Rightarrow> string \<Rightarrow> evidence_bundle \<Rightarrow> evidence_bundle" where
  "attach filename t b = b\<lparr>b_rendered := AList.update filename t (b_rendered b)\<rparr>"

definition documents :: "evidence_bundle \<Rightarrow> (string \<times> dict) list" where
  "documents b =
     [(verification_file, b_verification b), (timeline_file, b_timeline b), (redaction_file, b_redaction b)] @
     (case b_receipt b of None \<Rightarrow> [] | Some r \<Rightarrow> [(receipt_file_name, r)])"

definition bundle_files :: "evidence_bundle \<Rightarrow> (string \<times> string) list" where
  "bundle_files b =
     fold (\<lambda>(n, t) fs. AList.update n t fs) (b_rendered b)
       (map (\<lambda>(n, doc). (n, document_text (JObj doc))) (documents b))"

definition manifest :: "string \<Rightarrow> evidence_bundle \<Rightarrow> pyexc + dict" where
  "manifest version b =
     sbind (dindex (b_verification b) ''verdict'') (\<lambda>verdict.
       Inr [(''bundle_version'', JStr ''1.0''),
            (''generator'', JStr (''rootsign '' @ version)),
            (''generated_at'', JStr (b_generated_at b)),
            (''session_id'', JStr (b_session_id b)),
            (''agent'', JObj (case b_agent b of
                                Some (e # es) \<Rightarrow> e # es
                              | _ \<Rightarrow> [(''detail'', JStr ''agent identity not recorded in this source'')])),
            (''source'', JObj [(''backend'', JStr (b_source_backend b)), (''location'', JStr (b_source_location b))]),
            (''verdict'', verdict),
            (''files'', JObj (map (\<lambda>(n, t). (n, JStr (sha256_text t))) (sort_key fst (bundle_files b)))),
            (''compliance'', JObj [])])"

definition manifest_hash :: "string \<Rightarrow> evidence_bundle \<Rightarrow> pyexc + string" where
  "manifest_hash version b = sbind (manifest version b) (\<lambda>m. Inr (sha256_text (document_text (JObj m))))"

definition sha256_bytes :: "nat list \<Rightarrow> string" where
  "sha256_bytes data = concat (map hex_word (sha256 data))"

definition build_bundle :: "string \<Rightarrow> evidence \<Rightarrow> bool \<Rightarrow> pyexc + evidence_bundle" where
  "build_bundle now ev redact_previews =
     (let previews_stored = previews_retained ev;
          include_previews = previews_stored \<and> \<not> redact_previews
      in sbind (build_verification ev) (\<lambda>verification.
           Inr \<lparr>b_session_id = ed_session_id ev, b_verification = verification,
                b_timeline = build_timeline ev include_previews previews_stored, b_redaction = build_redaction ev,
                b_source_backend = ed_source_backend ev, b_source_location = ed_source_location ev,
                b_agent = ed_agent ev, b_generated_at = now, b_rendered = [], b_receipt = ed_receipt ev\<rparr>))"

definition export_local ::
  "string \<Rightarrow> source_line list option \<Rightarrow> string \<Rightarrow> string \<Rightarrow> dict option \<Rightarrow> bool \<Rightarrow> pyexc + evidence_bundle" where
  "export_local now file location stem receipt redact_previews =
     sbind (load_local_session file location stem receipt) (\<lambda>ev. build_bundle now ev redact_previews)"

section \<open>Writing a bundle\<close>

record folder =
  fo_files :: "(string \<times> nat list) list"
  fo_others :: "string list"
  fo_elsewhere :: "string \<Rightarrow> nat list option"

text \<open>How a write ends: \<open>None\<close> for success, else the \<open>OSError\<close> and the bytes the file is left with.\<close>

type_synonym fault = "(string \<times> nat list option) option"

datatype write_error = BundleExists | WriteFailed string | ManifestFailed pyexc

definition put :: "string \<Rightarrow> nat list \<Rightarrow> folder \<Rightarrow> folder" where
  "put name bytes d = d\<lparr>fo_files := AList.update name bytes (fo_files d)\<rparr>"

definition write_text :: "fault \<Rightarrow> string \<Rightarrow> string \<Rightarrow> folder \<Rightarrow> string option \<times> folder" where
  "write_text f name t d =
     (case f of
        None \<Rightarrow> (None, put name (utf8 t) d)
      | Some (e, rest) \<Rightarrow> (Some e, case rest of None \<Rightarrow> d | Some bytes \<Rightarrow> put name bytes d))"

fun write_files :: "(nat \<Rightarrow> fault) \<Rightarrow> nat \<Rightarrow> (string \<times> string) list \<Rightarrow> folder \<Rightarrow> string option \<times> folder" where
  "write_files faults k [] d = (None, d)"
| "write_files faults k ((n, t) # fs) d =
     (case write_text (faults k) n t d of
        (Some e, d') \<Rightarrow> (Some e, d')
      | (None, d') \<Rightarrow> write_files faults (Suc k) fs d')"

definition write_into ::
  "(nat \<Rightarrow> fault) \<Rightarrow> string \<Rightarrow> evidence_bundle \<Rightarrow> folder \<Rightarrow> (write_error + unit) \<times> folder" where
  "write_into faults version b d =
     (case write_files faults 0 (bundle_files b) d of
        (Some e, d') \<Rightarrow> (Inl (WriteFailed e), d')
      | (None, d') \<Rightarrow>
          (case manifest version b of
             Inl e \<Rightarrow> (Inl (ManifestFailed e), d')
           | Inr m \<Rightarrow>
               (case write_text (faults (length (bundle_files b))) manifest_file (document_text (JObj m)) d' of
                  (Some e, d'') \<Rightarrow> (Inl (WriteFailed e), d'')
                | (None, d'') \<Rightarrow> (Inr (), d''))))"

definition empty_folder :: "(string \<Rightarrow> nat list option) \<Rightarrow> folder" where
  "empty_folder elsewhere = \<lparr>fo_files = [], fo_others = [], fo_elsewhere = elsewhere\<rparr>"

definition write_bundle ::
  "(nat \<Rightarrow> fault) \<Rightarrow> string \<Rightarrow> evidence_bundle \<Rightarrow> bool \<Rightarrow> folder option \<Rightarrow> (write_error + unit) \<times> folder option" where
  "write_bundle faults version b overwrite target =
     (let d = (case target of None \<Rightarrow> empty_folder (\<lambda>_. None) | Some d \<Rightarrow> d)
      in if (fo_files d \<noteq> [] \<or> fo_others d \<noteq> []) \<and> \<not> overwrite then (Inl BundleExists, target)
         else (case write_into faults version b d of (r, d') \<Rightarrow> (r, Some d')))"

section \<open>Checking a bundle\<close>

datatype bundle_problem = NoManifest | UnreadableManifest

record bundle_check =
  bc_manifest_hash :: "string option"
  bc_verified :: "string list"
  bc_altered :: "string list"
  bc_missing :: "string list"
  bc_unexpected :: "string list"
  bc_error :: "bundle_problem option"

definition bundle_intact :: "bundle_check \<Rightarrow> bool" where
  "bundle_intact c \<longleftrightarrow> \<not> (bc_altered c \<noteq> [] \<or> bc_missing c \<noteq> [] \<or> bc_unexpected c \<noteq> [] \<or> bc_error c \<noteq> None)"

definition counted :: "string list \<Rightarrow> string \<Rightarrow> string list" where
  "counted names what =
     (if names = [] then [] else [nat_str (length names) @ '' '' @ what @ '' ('' @ str_join '', '' names @ '')''])"

definition problem_line :: "bundle_problem \<Rightarrow> string" where
  "problem_line p =
     (case p of NoManifest \<Rightarrow> ''no manifest.json'' | UnreadableManifest \<Rightarrow> ''manifest.json is not a readable bundle manifest'')"

definition check_summary :: "bundle_check \<Rightarrow> string" where
  "check_summary c =
     (case bc_error c of
        Some p \<Rightarrow> ''UNREADABLE -- '' @ problem_line p
      | None \<Rightarrow>
          if bundle_intact c then ''INTACT -- '' @ nat_str (length (bc_verified c)) @ '' file(s) match manifest.json''
          else ''ALTERED -- '' @ str_join ''; '' (counted (bc_altered c) ''altered'' @ counted (bc_missing c) ''missing'' @
                 counted (bc_unexpected c) ''unexpected''))"

definition blank_check :: bundle_check where
  "blank_check = \<lparr>bc_manifest_hash = None, bc_verified = [], bc_altered = [], bc_missing = [], bc_unexpected = [],
     bc_error = None\<rparr>"

text \<open>\<open>dict(manifest["files"])\<close>: from a mapping, or from an iterable of pairs with hashable keys;
  \<open>None\<close> where it raises what the code catches.\<close>

definition pair_of :: "json \<Rightarrow> (json \<times> json) option" where
  "pair_of j =
     (case j of
        JArr [k, v] \<Rightarrow> if container k then None else Some (k, v)
      | JStr [a, b] \<Rightarrow> Some (JStr [a], JStr [b])
      | JObj [(a, _), (b, _)] \<Rightarrow> Some (JStr a, JStr b)
      | _ \<Rightarrow> None)"

fun pairs_of :: "json list \<Rightarrow> (json \<times> json) list option" where
  "pairs_of [] = Some []"
| "pairs_of (j # js) =
     (case pair_of j of
        None \<Rightarrow> None
      | Some p \<Rightarrow> (case pairs_of js of None \<Rightarrow> None | Some ps \<Rightarrow> Some (p # ps)))"

definition expected_items :: "json \<Rightarrow> (json \<times> json) list option" where
  "expected_items m =
     (case m of
        JObj d \<Rightarrow>
          (case dindex d ''files'' of
             Inr (JObj fs) \<Rightarrow> Some (map (\<lambda>(k, v). (JStr k, v)) fs)
           | Inr (JArr js) \<Rightarrow> pairs_of js
           | Inr (JStr []) \<Rightarrow> Some []
           | _ \<Rightarrow> None)
      | _ \<Rightarrow> None)"

text \<open>A name that is not a string makes sorting or \<open>root / name\<close> raise \<open>TypeError\<close>, which is not
  caught.\<close>

fun named :: "(json \<times> json) list \<Rightarrow> pyexc + dict" where
  "named [] = Inr []"
| "named ((JStr k, v) # ps) = sbind (named ps) (\<lambda>d. Inr ((k, v) # d))"
| "named _ = Inl TypeError"

definition last_wins :: "dict \<Rightarrow> dict" where
  "last_wins ps = foldl (\<lambda>d (k, v). dset k v d) [] ps"

definition read_at :: "folder \<Rightarrow> string \<Rightarrow> nat list option" where
  "read_at d name = (case map_of (fo_files d) name of Some bytes \<Rightarrow> Some bytes | None \<Rightarrow> fo_elsewhere d name)"

definition check_one :: "folder \<Rightarrow> string \<times> json \<Rightarrow> bundle_check \<Rightarrow> bundle_check" where
  "check_one d p c = (case p of (name, digest) \<Rightarrow>
     (case read_at d name of
        None \<Rightarrow> c\<lparr>bc_missing := bc_missing c @ [name]\<rparr>
      | Some bytes \<Rightarrow>
          if JStr (sha256_bytes bytes) = digest then c\<lparr>bc_verified := bc_verified c @ [name]\<rparr>
          else c\<lparr>bc_altered := bc_altered c @ [name]\<rparr>))"

definition check_bundle :: "(nat list \<Rightarrow> json option) \<Rightarrow> folder \<Rightarrow> pyexc + bundle_check" where
  "check_bundle loads d =
     (case map_of (fo_files d) manifest_file of
        None \<Rightarrow> Inr (blank_check\<lparr>bc_error := Some NoManifest\<rparr>)
      | Some raw \<Rightarrow>
          let c = blank_check\<lparr>bc_manifest_hash := Some (sha256_bytes raw)\<rparr>
          in (case Option.bind (loads raw) expected_items of
                None \<Rightarrow> Inr (c\<lparr>bc_error := Some UnreadableManifest\<rparr>)
              | Some entries \<Rightarrow>
                  sbind (named entries) (\<lambda>named_items.
                    let expected = last_wins named_items;
                        checked = fold (check_one d) (sort_key fst expected) c
                    in Inr (checked\<lparr>bc_unexpected :=
                         sort (filter (\<lambda>n. n \<notin> fst ` set expected \<and> n \<noteq> manifest_file)
                           (remdups (map fst (fo_files d))))\<rparr>))))"

section \<open>Lists of files\<close>

lemma fold_check:
  "fold (check_one d) ps c = c\<lparr>
     bc_verified := bc_verified c @ map fst (filter (\<lambda>(n, g). \<exists>b. read_at d n = Some b \<and> JStr (sha256_bytes b) = g) ps),
     bc_altered := bc_altered c @ map fst (filter (\<lambda>(n, g). \<exists>b. read_at d n = Some b \<and> JStr (sha256_bytes b) \<noteq> g) ps),
     bc_missing := bc_missing c @ map fst (filter (\<lambda>(n, g). read_at d n = None) ps)\<rparr>"
proof (induction ps arbitrary: c)
  case (Cons p ps)
  then show ?case by (cases p) (auto simp: check_one_def split: option.splits)
qed simp

lemma update_fresh: "k \<notin> fst ` set al \<Longrightarrow> AList.update k v al = al @ [(k, v)]"
  by (induction al) auto

lemma last_wins_distinct: "distinct (map fst ps) \<Longrightarrow> last_wins ps = ps"
proof -
  have "foldl (\<lambda>d (k, v). dset k v d) acc ps = acc @ ps" if "distinct (map fst (acc @ ps))" for acc
    using that
  proof (induction ps arbitrary: acc)
    case (Cons p ps)
    obtain k v where p: "p = (k, v)" by (cases p)
    with Cons.prems have "dset k v acc = acc @ [(k, v)]"
      by (auto simp: dset_def update_fresh)
    with Cons p show ?case by simp
  qed simp
  from this [of "[]"] show "distinct (map fst ps) \<Longrightarrow> last_wins ps = ps" by (simp add: last_wins_def)
qed

lemma named_strings: "named (map (\<lambda>(k, v). (JStr k, v)) ps) = Inr ps"
  by (induction ps) auto

lemma sha256_text_bytes: "sha256_text t = sha256_bytes (utf8 t)"
  by (simp add: sha256_text_def sha256_hex_def sha256_bytes_def)

definition file_names :: "evidence_bundle \<Rightarrow> string list" where
  "file_names b = map fst (bundle_files b)"

lemma distinct_fold_update:
  "distinct (map fst fs) \<Longrightarrow> distinct (map fst (fold (\<lambda>(n, t) fs. AList.update n t fs) us fs))"
  by (induction us arbitrary: fs) (auto simp: distinct_update)

lemma distinct_file_names: "distinct (file_names b)"
  unfolding file_names_def bundle_files_def
  by (rule distinct_fold_update)
    (simp add: documents_def verification_file_def timeline_file_def redaction_file_def receipt_file_name_def split: option.splits)

lemma names_fold_update:
  "fst ` set (fold (\<lambda>(n, t) fs. AList.update n t fs) us fs) = fst ` set us \<union> fst ` set fs"
  by (induction us arbitrary: fs) (auto simp: dom_map_of_conv_image_fst [symmetric] update_conv' split: if_splits)

text \<open>The manifest is not one of the files: its name is not taken by a rendered document.\<close>

lemma manifest_not_listed: "manifest_file \<notin> fst ` set (b_rendered b) \<Longrightarrow> manifest_file \<notin> set (file_names b)"
  by (auto simp: file_names_def bundle_files_def names_fold_update documents_def manifest_file_def verification_file_def
      timeline_file_def redaction_file_def receipt_file_name_def split: option.splits)

text \<open>The digests a manifest lists.\<close>

definition digests :: "evidence_bundle \<Rightarrow> dict" where
  "digests b = map (\<lambda>(n, t). (n, JStr (sha256_text t))) (sort_key fst (bundle_files b))"

lemma digests_names: "map fst (digests b) = sort (file_names b)"
proof -
  have "map fst (digests b) = map fst (sort_key fst (bundle_files b))"
    by (simp add: digests_def comp_def split_beta)
  also have "\<dots> = sort (file_names b)"
    by (rule properties_for_sort [symmetric]) (simp_all add: file_names_def)
  finally show ?thesis .
qed

lemma manifest_files: "manifest version b = Inr m \<Longrightarrow> dindex m ''files'' = Inr (JObj (digests b))"
  by (auto simp: manifest_def sbind_eq_Inr digests_def dict_simps)

section \<open>What a check decides\<close>

lemma digests_all:
  "(\<forall>(n, g) \<in> set (digests b). P n g) \<longleftrightarrow> (\<forall>(n, t) \<in> set (bundle_files b). P n (JStr (sha256_text t)))"
  by (auto simp: digests_def)

lemma no_match: "(map fst (filter P ps) = []) = (\<forall>p \<in> set ps. \<not> P p)"
  by (simp add: filter_empty_conv)

lemma ball_split: "(\<And>p. P p \<longleftrightarrow> \<not> A p \<and> \<not> M p) \<Longrightarrow> (\<forall>p \<in> S. P p) \<longleftrightarrow> (\<forall>p \<in> S. \<not> A p) \<and> (\<forall>p \<in> S. \<not> M p)"
  by blast

lemma check_listed:
  assumes m: "manifest version b = Inr m" and raw: "map_of (fo_files d) manifest_file = Some raw"
    and parsed: "loads raw = Some (JObj m)"
  shows "\<exists>c. check_bundle loads d = Inr c \<and> bc_manifest_hash c = Some (sha256_bytes raw) \<and> bc_error c = None \<and>
    (bundle_intact c \<longleftrightarrow>
      (\<forall>(n, t) \<in> set (bundle_files b). \<exists>bytes. read_at d n = Some bytes \<and> sha256_bytes bytes = sha256_text t) \<and>
      (\<forall>n \<in> fst ` set (fo_files d). n \<in> set (file_names b) \<or> n = manifest_file)) \<and>
    (bundle_intact c \<longrightarrow> bc_verified c = sort (file_names b))"
proof -
  let ?ps = "digests b"
  have dn: "distinct (map fst ?ps)" by (simp add: digests_names distinct_file_names)
  have sorted: "sort_key fst ?ps = ?ps"
    by (rule sort_key_id_if_sorted) (simp add: digests_names)
  have names: "fst ` set ?ps = set (file_names b)"
    using digests_names [of b] by (metis set_map set_sort)
  let ?c = "fold (check_one d) ?ps (blank_check\<lparr>bc_manifest_hash := Some (sha256_bytes raw)\<rparr>)"
  let ?un = "sort (filter (\<lambda>n. n \<notin> set (file_names b) \<and> n \<noteq> manifest_file) (remdups (map fst (fo_files d))))"
  have chk: "check_bundle loads d = Inr (?c\<lparr>bc_unexpected := ?un\<rparr>)"
    using raw parsed manifest_files [OF m]
    by (simp add: check_bundle_def expected_items_def named_strings last_wins_distinct [OF dn] sorted names Let_def)
  have un: "?un = [] \<longleftrightarrow> (\<forall>n \<in> fst ` set (fo_files d). n \<in> set (file_names b) \<or> n = manifest_file)"
    unfolding set_empty [symmetric] by auto
  let ?ok = "\<forall>(n, t) \<in> set (bundle_files b). \<exists>bytes. read_at d n = Some bytes \<and> sha256_bytes bytes = sha256_text t"
  have ok: "bc_altered ?c = [] \<and> bc_missing ?c = [] \<longleftrightarrow>
      (\<forall>(n, g) \<in> set ?ps. \<exists>bytes. read_at d n = Some bytes \<and> JStr (sha256_bytes bytes) = g)"
  proof -
    have "(case p of (n, g) \<Rightarrow> \<exists>bytes. read_at d n = Some bytes \<and> JStr (sha256_bytes bytes) = g) \<longleftrightarrow>
        \<not> (case p of (n, g) \<Rightarrow> \<exists>bytes. read_at d n = Some bytes \<and> JStr (sha256_bytes bytes) \<noteq> g) \<and>
        \<not> (case p of (n, g) \<Rightarrow> read_at d n = None)" for p
      by (cases p; cases "read_at d (fst p)") simp_all
    then have "(\<forall>p \<in> set ?ps. case p of (n, g) \<Rightarrow> \<exists>bytes. read_at d n = Some bytes \<and> JStr (sha256_bytes bytes) = g) \<longleftrightarrow>
        (\<forall>p \<in> set ?ps. \<not> (case p of (n, g) \<Rightarrow> \<exists>bytes. read_at d n = Some bytes \<and> JStr (sha256_bytes bytes) \<noteq> g)) \<and>
        (\<forall>p \<in> set ?ps. \<not> (case p of (n, g) \<Rightarrow> read_at d n = None))"
      by (rule ball_split)
    then show ?thesis by (simp only: fold_check blank_check_def no_match bundle_check.simps append_Nil)
  qed
  also have "\<dots> \<longleftrightarrow> ?ok" by (simp add: digests_all)
  finally have ok': "bc_altered ?c = [] \<and> bc_missing ?c = [] \<longleftrightarrow> ?ok" .
  have err: "bc_error ?c = None" "bc_manifest_hash ?c = Some (sha256_bytes raw)"
    by (simp_all add: fold_check blank_check_def)
  have ver: "bc_verified ?c = sort (file_names b)" if "bc_altered ?c = [] \<and> bc_missing ?c = []"
  proof -
    from that have "\<forall>(n, g) \<in> set ?ps. \<exists>bytes. read_at d n = Some bytes \<and> JStr (sha256_bytes bytes) = g"
      by (rule iffD1 [OF ok])
    then have "filter (\<lambda>(n, g). \<exists>bytes. read_at d n = Some bytes \<and> JStr (sha256_bytes bytes) = g) ?ps = ?ps"
      by (simp add: filter_id_conv)
    then show ?thesis by (simp add: fold_check blank_check_def digests_names)
  qed
  have int: "bundle_intact (?c\<lparr>bc_unexpected := ?un\<rparr>) \<longleftrightarrow> (bc_altered ?c = [] \<and> bc_missing ?c = []) \<and> ?un = []"
    using err(1) by (simp add: bundle_intact_def conj_ac)
  show ?thesis
  proof (rule exI [of _ "?c\<lparr>bc_unexpected := ?un\<rparr>"], intro conjI)
    show "bundle_intact (?c\<lparr>bc_unexpected := ?un\<rparr>) \<longleftrightarrow>
        ?ok \<and> (\<forall>n \<in> fst ` set (fo_files d). n \<in> set (file_names b) \<or> n = manifest_file)"
      unfolding int ok' un ..
    show "bundle_intact (?c\<lparr>bc_unexpected := ?un\<rparr>) \<longrightarrow> bc_verified (?c\<lparr>bc_unexpected := ?un\<rparr>) = sort (file_names b)"
      unfolding int using ver by simp
  qed (use chk err in simp_all)
qed

section \<open>What writing leaves\<close>

definition put_all :: "(string \<times> string) list \<Rightarrow> folder \<Rightarrow> folder" where
  "put_all fs d = fold (\<lambda>(n, t). put n (utf8 t)) fs d"

lemma put_simps [simp]:
  "map_of (fo_files (put n bytes d)) = (map_of (fo_files d))(n \<mapsto> bytes)"
  "fst ` set (fo_files (put n bytes d)) = insert n (fst ` set (fo_files d))"
  "fo_others (put n bytes d) = fo_others d" "fo_elsewhere (put n bytes d) = fo_elsewhere d"
  by (auto simp: put_def update_conv' dom_map_of_conv_image_fst [symmetric] split: if_splits)

lemma put_all_simps [simp]:
  "put_all [] d = d"
  "put_all ((n, t) # fs) d = put_all fs (put n (utf8 t) d)"
  by (simp_all add: put_all_def)

lemma put_all_other: "n \<notin> fst ` set fs \<Longrightarrow> map_of (fo_files (put_all fs d)) n = map_of (fo_files d) n"
  by (induction fs arbitrary: d) auto

lemma put_all_listed: "distinct (map fst fs) \<Longrightarrow> (n, t) \<in> set fs \<Longrightarrow> map_of (fo_files (put_all fs d)) n = Some (utf8 t)"
proof (induction fs arbitrary: d)
  case (Cons p fs)
  then show ?case by (cases p) (auto simp: put_all_other)
qed simp

lemma put_all_names: "fst ` set (fo_files (put_all fs d)) = fst ` set fs \<union> fst ` set (fo_files d)"
proof (induction fs arbitrary: d)
  case (Cons p fs)
  then show ?case by (cases p) (simp only: put_all_simps put_simps, simp)
qed simp

lemma put_all_elsewhere [simp]: "fo_elsewhere (put_all fs d) = fo_elsewhere d"
  by (induction fs arbitrary: d) auto

lemma write_files_ok: "\<forall>i < length fs. faults (k + i) = None \<Longrightarrow> write_files faults k fs d = (None, put_all fs d)"
proof (induction fs arbitrary: k d)
  case (Cons p fs)
  from Cons.prems have "faults k = None" by (metis add_0_right length_greater_0_conv list.distinct(1))
  moreover have "\<forall>i < length fs. faults (Suc k + i) = None"
    using Cons.prems by (metis Suc_less_eq add_Suc_shift length_Cons)
  ultimately show ?case using Cons.IH by (cases p) (simp add: write_text_def)
qed simp

text \<open>However the writes end, every file is one of the bundle's or was there before, and a file that is
  not one of the bundle's is as it was.\<close>

lemma write_files_frame:
  assumes "write_files faults k fs d = (r, d')" and "n \<notin> fst ` set fs"
  shows "map_of (fo_files d') n = map_of (fo_files d) n"
  using assms
proof (induction fs arbitrary: k d)
  case (Cons p fs)
  obtain m t where p: "p = (m, t)" by (cases p)
  show ?case
  proof (cases "faults k")
    case None
    with Cons p show ?thesis by (auto simp: write_text_def)
  next
    case (Some f)
    with Cons.prems p show ?thesis by (cases f) (auto simp: write_text_def split: option.splits)
  qed
qed simp

lemma write_files_fails:
  assumes "i < length fs" and "faults (k + i) \<noteq> None"
  shows "\<exists>e d'. write_files faults k fs d = (Some e, d')"
  using assms
proof (induction fs arbitrary: i k d)
  case (Cons p fs)
  obtain m t where p: "p = (m, t)" by (cases p)
  show ?case
  proof (cases "faults k")
    case None
    with Cons.prems obtain j where "i = Suc j" by (cases i) auto
    with Cons.prems Cons.IH [of j "Suc k"] None p show ?thesis by (simp add: write_text_def)
  next
    case (Some f)
    with p show ?thesis by (cases f) (simp add: write_text_def)
  qed
qed simp

lemma write_into_ok:
  assumes "\<forall>i. faults i = None" and "manifest version b = Inr m"
  shows "write_into faults version b d =
    (Inr (), put manifest_file (utf8 (document_text (JObj m))) (put_all (bundle_files b) d))"
  using assms by (simp add: write_into_def write_files_ok write_text_def)

lemma written_bundle_checks:
  assumes "manifest version b = Inr m" and "manifest_file \<notin> fst ` set (b_rendered b)"
    and "loads (utf8 (document_text (JObj m))) = Some (JObj m)" and "fo_files d = []"
  shows "\<exists>c. check_bundle loads (put manifest_file (utf8 (document_text (JObj m))) (put_all (bundle_files b) d)) = Inr c \<and>
    bundle_intact c \<and> bc_verified c = sort (file_names b) \<and> bc_manifest_hash c = Some (sha256_text (document_text (JObj m)))"
proof -
  let ?raw = "utf8 (document_text (JObj m))"
  let ?d = "put manifest_file ?raw (put_all (bundle_files b) d)"
  have new: "manifest_file \<notin> fst ` set (bundle_files b)"
    using manifest_not_listed [OF assms(2)] by (simp add: file_names_def)
  have raw: "map_of (fo_files ?d) manifest_file = Some ?raw" by simp
  from check_listed [OF assms(1) raw, of loads] assms(3) obtain c :: bundle_check where
    c: "check_bundle loads ?d = Inr c" "bc_manifest_hash c = Some (sha256_bytes ?raw)"
    "bundle_intact c \<longleftrightarrow>
      (\<forall>(n, t) \<in> set (bundle_files b). \<exists>bytes. read_at ?d n = Some bytes \<and> sha256_bytes bytes = sha256_text t) \<and>
      (\<forall>n \<in> fst ` set (fo_files ?d). n \<in> set (file_names b) \<or> n = manifest_file)"
    "bundle_intact c \<longrightarrow> bc_verified c = sort (file_names b)" by blast
  have "read_at ?d n = Some (utf8 t)" if "(n, t) \<in> set (bundle_files b)" for n t
  proof -
    from that new have "n \<noteq> manifest_file" by force
    with put_all_listed [OF _ that] distinct_file_names [of b] show ?thesis
      by (simp add: read_at_def file_names_def)
  qed
  then have "\<forall>(n, t) \<in> set (bundle_files b). \<exists>bytes. read_at ?d n = Some bytes \<and> sha256_bytes bytes = sha256_text t"
    by (auto simp: sha256_text_bytes)
  moreover have "\<forall>n \<in> fst ` set (fo_files ?d). n \<in> set (file_names b) \<or> n = manifest_file"
    by (simp add: put_all_names file_names_def assms(4))
  ultimately have "bundle_intact c" using c(3) by blast
  with c show ?thesis by (intro exI [of _ c]) (simp add: sha256_text_bytes)
qed

lemma stale_file_found:
  assumes "manifest version b = Inr m" and "loads (utf8 (document_text (JObj m))) = Some (JObj m)"
    and "n \<in> fst ` set (fo_files old)" and "n \<notin> set (file_names b)" and "n \<noteq> manifest_file"
  shows "\<exists>c. check_bundle loads (put manifest_file (utf8 (document_text (JObj m))) (put_all (bundle_files b) old)) = Inr c \<and>
    bc_error c = None \<and> \<not> bundle_intact c"
proof -
  let ?d = "put manifest_file (utf8 (document_text (JObj m))) (put_all (bundle_files b) old)"
  have raw: "map_of (fo_files ?d) manifest_file = Some (utf8 (document_text (JObj m)))" by simp
  have "n \<in> fst ` set (fo_files ?d)" using assms(3) by (simp only: put_simps put_all_names) simp
  with check_listed [OF assms(1) raw, of loads] assms(2,4,5) show ?thesis by blast
qed

text \<open>C8. \<open>export_then_check\<close>: a bundle written without a fault to a new or empty directory is found intact, with
  every file verified, and the hash the check reports is the hash printed at export: the manifest on
  disk is serialised as it was hashed.\<close>

theorem export_then_check:
  assumes "manifest version b = Inr m" and "manifest_file \<notin> fst ` set (b_rendered b)"
    and "\<forall>i. faults i = None" and "target = None \<or> target = Some (empty_folder (\<lambda>_. None))"
    and "loads (utf8 (document_text (JObj m))) = Some (JObj m)"
  shows "\<exists>d c. write_bundle faults version b overwrite target = (Inr (), Some d) \<and>
    check_bundle loads d = Inr c \<and> bundle_intact c \<and> bc_verified c = sort (file_names b) \<and>
    manifest_hash version b = Inr (the (bc_manifest_hash c)) \<and> bc_manifest_hash c \<noteq> None"
proof -
  let ?d = "put manifest_file (utf8 (document_text (JObj m))) (put_all (bundle_files b) (empty_folder (\<lambda>_. None)))"
  have w: "write_bundle faults version b overwrite target = (Inr (), Some ?d)"
    using assms(4) write_into_ok [OF assms(3,1), of "empty_folder (\<lambda>_. None)"]
    by (auto simp: write_bundle_def empty_folder_def Let_def)
  from written_bundle_checks [where loads = loads, OF assms(1,2,5), of "empty_folder (\<lambda>_. None)"] obtain c :: bundle_check where
    "check_bundle loads ?d = Inr c" "bundle_intact c" "bc_verified c = sort (file_names b)"
    "bc_manifest_hash c = Some (sha256_text (document_text (JObj m)))" by (auto simp: empty_folder_def)
  with w show ?thesis
    by (intro exI [of _ ?d] exI [of _ c]) (simp add: manifest_hash_def assms(1))
qed

text \<open>C7. \<open>anchor_binds_bundle\<close>: a received directory that checks as intact and whose manifest hash is the one
  noted at export holds the exported files and no others, byte for byte, unless two named byte strings
  collide under SHA-256.\<close>

theorem anchor_binds_bundle:
  assumes "manifest version b = Inr m" and "check_bundle loads d = Inr c" and "bundle_intact c"
    and "bc_manifest_hash c = Some h" and "manifest_hash version b = Inr h"
    and "loads (utf8 (document_text (JObj m))) = Some (JObj m)"
  shows "(\<forall>n \<in> fst ` set (fo_files d). n \<in> set (file_names b) \<or> n = manifest_file) \<and>
      (\<forall>(n, t) \<in> set (bundle_files b). read_at d n = Some (utf8 t)) \<or>
    (\<exists>x y. x \<noteq> y \<and> sha256_bytes x = sha256_bytes y \<and>
      (map_of (fo_files d) manifest_file = Some x \<and> y = utf8 (document_text (JObj m)) \<or>
       (\<exists>(n, t) \<in> set (bundle_files b). read_at d n = Some x \<and> y = utf8 t)))"
proof -
  let ?m = "utf8 (document_text (JObj m))"
  from assms(2,3) obtain raw where raw: "map_of (fo_files d) manifest_file = Some raw"
    by (auto simp: check_bundle_def bundle_intact_def split: option.splits)
  have "bc_manifest_hash c = Some (sha256_bytes raw)"
    using assms(2) raw
    by (auto simp: check_bundle_def sbind_eq_Inr fold_check Let_def split: option.splits)
  with assms(1,4,5) have same: "sha256_bytes raw = sha256_bytes ?m"
    by (simp add: manifest_hash_def sha256_text_bytes)
  show ?thesis
  proof (cases "raw = ?m")
    case False
    with raw same show ?thesis by blast
  next
    case True
    with assms(6) raw check_listed [OF assms(1) raw, of loads] assms(2,3)
    have all: "\<forall>(n, t) \<in> set (bundle_files b). \<exists>bytes. read_at d n = Some bytes \<and> sha256_bytes bytes = sha256_text t"
      and names: "\<forall>n \<in> fst ` set (fo_files d). n \<in> set (file_names b) \<or> n = manifest_file" by auto
    show ?thesis
    proof (cases "\<forall>(n, t) \<in> set (bundle_files b). read_at d n = Some (utf8 t)")
      case True
      with names show ?thesis by blast
    next
      case False
      then obtain n t where nt: "(n, t) \<in> set (bundle_files b)" "read_at d n \<noteq> Some (utf8 t)" by blast
      with all obtain bytes where "read_at d n = Some bytes" "sha256_bytes bytes = sha256_bytes (utf8 t)"
        by (auto simp: sha256_text_bytes)
      moreover from this nt(2) have "bytes \<noteq> utf8 t" by auto
      ultimately show ?thesis
        using nt(1) by (intro disjI2 exI [of _ bytes] exI [of _ "utf8 t"] conjI disjI2 bexI [of _ "(n, t)"]) simp_all
    qed
  qed
qed

text \<open>\<open>interrupted_export_is_unreadable\<close>: when a write of a document fails in a new directory, the export
  raises and what it leaves has no manifest: a check says so and never calls it intact.\<close>

theorem interrupted_export_is_unreadable:
  assumes "i < length (bundle_files b)" and "faults i \<noteq> None" and "manifest_file \<notin> fst ` set (b_rendered b)"
  shows "\<exists>e d c. write_bundle faults version b overwrite None = (Inl (WriteFailed e), Some d) \<and>
    check_bundle loads d = Inr c \<and> bc_error c = Some NoManifest \<and> \<not> bundle_intact c"
proof -
  have "faults (0 + i) \<noteq> None" using assms(2) by simp
  from write_files_fails [of i "bundle_files b" faults 0, OF assms(1) this] obtain e d where
    w: "write_files faults 0 (bundle_files b) (empty_folder (\<lambda>_. None)) = (Some e, d)" by blast
  from manifest_not_listed [OF assms(3)] have "map_of (fo_files d) manifest_file = None"
    using write_files_frame [OF w, of manifest_file] by (simp add: file_names_def empty_folder_def)
  with w show ?thesis
    by (simp add: write_bundle_def write_into_def check_bundle_def bundle_intact_def empty_folder_def)
qed

text \<open>\<open>forced_export_keeps_stale_files\<close>: a forced export over an earlier bundle that had a file the new one has
  not, such as a receipt or another rendering, succeeds, and its own check then finds it altered.\<close>

theorem forced_export_keeps_stale_files:
  assumes "manifest version b = Inr m" and "manifest_file \<notin> fst ` set (b_rendered b)" and "\<forall>i. faults i = None"
    and "n \<in> fst ` set (fo_files old)" and "n \<notin> set (file_names b)" and "n \<noteq> manifest_file"
    and "loads (utf8 (document_text (JObj m))) = Some (JObj m)"
  shows "\<exists>d c. write_bundle faults version b True (Some old) = (Inr (), Some d) \<and>
    check_bundle loads d = Inr c \<and> bc_error c = None \<and> \<not> bundle_intact c"
  using write_into_ok [OF assms(3,1), of old] stale_file_found [where loads = loads, OF assms(1,7,4-6)]
  by (simp add: write_bundle_def)

lemma named_Inl: "named es = Inl e \<longleftrightarrow> e = TypeError \<and> (\<exists>(k, v) \<in> set es. \<forall>s. k \<noteq> JStr s)"
proof (induction es rule: named.induct)
  case (2 k v ps)
  then show ?case by (auto simp: sbind_eq_Inl)
qed auto

text \<open>\<open>check_raises_on_foreign_names\<close>: the check raises exactly when a manifest that parses lists its files as pairs
  one of whose names is not a string, and then it raises \<open>TypeError\<close>.\<close>

theorem check_raises_on_foreign_names:
  "check_bundle loads d = Inl e \<longleftrightarrow>
    e = TypeError \<and> (\<exists>raw es. map_of (fo_files d) manifest_file = Some raw \<and>
      Option.bind (loads raw) expected_items = Some es \<and> (\<exists>(k, v) \<in> set es. \<forall>s. k \<noteq> JStr s))"
  by (auto simp: check_bundle_def sbind_eq_Inl named_Inl Let_def split: option.splits)

section \<open>From the session file to the anchor\<close>

lemma build_verification_verdict:
  "build_verification ev = Inr d \<Longrightarrow> dindex d ''verdict'' = Inr (JStr (verdict_value (vr_verdict (ed_verify ev))))"
  by (auto simp: build_verification_def sbind_eq_Inr Let_def dict_simps)

lemma export_local_parts:
  assumes "export_local now (Some ls) location stem receipt redact_previews = Inr b"
  shows "\<exists>v. verify_session_local (Some (map sl_stripped ls)) = Inr v \<and> b_rendered b = [] \<and> b_receipt b = receipt \<and>
    dindex (b_verification b) ''verdict'' = Inr (JStr (verdict_value (vr_verdict v)))"
proof -
  from assms obtain ev where ev: "load_local_session (Some ls) location stem receipt = Inr ev"
    and b: "build_bundle now ev redact_previews = Inr b"
    by (auto simp: export_local_def sbind_eq_Inr)
  from ev have r: "ed_receipt ev = receipt" by (auto simp: load_local_session_def sbind_eq_Inr)
  from b obtain d where d: "build_verification ev = Inr d" "b_verification b = d" "b_rendered b = []" "b_receipt b = ed_receipt ev"
    by (auto simp: build_bundle_def sbind_eq_Inr Let_def)
  from load_local_session_parts [OF ev] have "verify_session_local (Some (map sl_stripped ls)) = Inr (ed_verify ev)" by blast
  with build_verification_verdict [OF d(1)] d r show ?thesis by (intro exI [of _ "ed_verify ev"]) simp
qed

text \<open>\<open>manifest_states_verdict\<close>: the manifest of a bundle exported from a session file states the verdict the offline
  verifier gives for that file, and lists exactly the three documents, and the receipt when there is one.\<close>

theorem manifest_states_verdict:
  assumes "export_local now (Some ls) location stem receipt redact_previews = Inr b"
  shows "\<exists>v m. verify_session_local (Some (map sl_stripped ls)) = Inr v \<and> manifest version b = Inr m \<and>
    dget m ''verdict'' = JStr (verdict_value (vr_verdict v)) \<and> dget m ''files'' = JObj (digests b) \<and>
    set (map fst (digests b)) =
      {verification_file, timeline_file, redaction_file} \<union> (if receipt = None then {} else {receipt_file_name})"
proof -
  from export_local_parts [OF assms] obtain v where v: "verify_session_local (Some (map sl_stripped ls)) = Inr v"
    "b_rendered b = []" "b_receipt b = receipt"
    "dindex (b_verification b) ''verdict'' = Inr (JStr (verdict_value (vr_verdict v)))" by blast
  have "set (map fst (digests b)) = set (file_names b)" by (simp only: digests_names set_sort)
  also have "\<dots> = {verification_file, timeline_file, redaction_file} \<union> (if receipt = None then {} else {receipt_file_name})"
    using v(2,3) by (auto simp: file_names_def bundle_files_def documents_def split: option.splits)
  finally show ?thesis
    using v by (intro exI [of _ v]) (simp add: manifest_def digests_def dict_simps)
qed

section \<open>A concrete bundle\<close>

definition sample_bundle :: evidence_bundle where
  "sample_bundle =
     \<lparr>b_session_id = ''s'', b_verification = [(''verdict'', JStr ''VALID'')], b_timeline = [], b_redaction = [],
      b_source_backend = ''jsonl'', b_source_location = ''f'', b_agent = None, b_generated_at = ''t'',
      b_rendered = [], b_receipt = None\<rparr>"

definition sample_manifest :: dict where
  "sample_manifest = (case manifest ''1'' sample_bundle of Inr m \<Rightarrow> m | Inl _ \<Rightarrow> [])"

definition sample_loads :: "nat list \<Rightarrow> json option" where
  "sample_loads bytes =
     (if bytes = utf8 (document_text (JObj sample_manifest)) then Some (JObj sample_manifest)
      else if bytes = [0] then Some (JObj [(''files'', JArr [JArr [JInt 1, JInt 2]])])
      else None)"

lemma sample_manifest: "manifest ''1'' sample_bundle = Inr sample_manifest"
  by (simp add: sample_manifest_def manifest_def sample_bundle_def dict_simps)

lemma sample_loads: "sample_loads (utf8 (document_text (JObj sample_manifest))) = Some (JObj sample_manifest)"
  by (simp add: sample_loads_def)

lemma sample_rendered: "manifest_file \<notin> fst ` set (b_rendered sample_bundle)"
  by (simp add: sample_bundle_def)

theorem export_then_check_witness:
  "\<exists>d c. write_bundle (\<lambda>_. None) ''1'' sample_bundle False None = (Inr (), Some d) \<and>
     check_bundle sample_loads d = Inr c \<and> bundle_intact c"
  using export_then_check [OF sample_manifest sample_rendered, of "\<lambda>_. None" None sample_loads False] sample_loads by auto

definition sample_folder :: folder where
  "sample_folder = put manifest_file (utf8 (document_text (JObj sample_manifest)))
     (put_all (bundle_files sample_bundle) (empty_folder (\<lambda>_. None)))"

lemma sample_check:
  "\<exists>c. check_bundle sample_loads sample_folder = Inr c \<and> bundle_intact c \<and>
     bc_manifest_hash c = Some (sha256_bytes (utf8 (document_text (JObj sample_manifest))))"
proof -
  have raw: "map_of (fo_files sample_folder) manifest_file = Some (utf8 (document_text (JObj sample_manifest)))"
    by (simp add: sample_folder_def)
  have "bundle_files sample_bundle = [(verification_file, document_text (JObj [(''verdict'', JStr ''VALID'')])),
      (timeline_file, document_text (JObj [])), (redaction_file, document_text (JObj []))]"
    by (simp add: bundle_files_def documents_def sample_bundle_def)
  then have all: "(\<forall>(n, t) \<in> set (bundle_files sample_bundle). \<exists>bytes. read_at sample_folder n = Some bytes \<and>
        sha256_bytes bytes = sha256_text t) \<and>
      (\<forall>n \<in> fst ` set (fo_files sample_folder). n \<in> set (file_names sample_bundle) \<or> n = manifest_file)"
    by (simp add: sample_folder_def empty_folder_def read_at_def file_names_def verification_file_def timeline_file_def
        redaction_file_def manifest_file_def sha256_text_bytes)
  from check_listed [OF sample_manifest raw, of sample_loads] sample_loads all show ?thesis by blast
qed

theorem anchor_binds_bundle_witness:
  "\<exists>c. check_bundle sample_loads sample_folder = Inr c \<and> bundle_intact c \<and>
    ((\<forall>n \<in> fst ` set (fo_files sample_folder). n \<in> set (file_names sample_bundle) \<or> n = manifest_file) \<and>
      (\<forall>(n, t) \<in> set (bundle_files sample_bundle). read_at sample_folder n = Some (utf8 t)) \<or>
     (\<exists>x y. x \<noteq> y \<and> sha256_bytes x = sha256_bytes y \<and>
      (map_of (fo_files sample_folder) manifest_file = Some x \<and> y = utf8 (document_text (JObj sample_manifest)) \<or>
       (\<exists>(n, t) \<in> set (bundle_files sample_bundle). read_at sample_folder n = Some x \<and> y = utf8 t))))"
proof -
  from sample_check obtain c :: bundle_check where c: "check_bundle sample_loads sample_folder = Inr c" "bundle_intact c"
    "bc_manifest_hash c = Some (sha256_bytes (utf8 (document_text (JObj sample_manifest))))" by blast
  have "manifest_hash ''1'' sample_bundle = Inr (sha256_bytes (utf8 (document_text (JObj sample_manifest))))"
    by (simp add: manifest_hash_def sample_manifest sha256_text_bytes)
  from anchor_binds_bundle [OF sample_manifest c this sample_loads] c show ?thesis by blast
qed

theorem interrupted_export_is_unreadable_witness:
  "\<exists>e d c. write_bundle (\<lambda>i. if i = 1 then Some (''disk full'', Some []) else None) ''1'' sample_bundle False None =
      (Inl (WriteFailed e), Some d) \<and> check_bundle sample_loads d = Inr c \<and> \<not> bundle_intact c"
proof -
  have "1 < length (bundle_files sample_bundle)" by (simp add: bundle_files_def documents_def sample_bundle_def)
  from interrupted_export_is_unreadable [OF this _ sample_rendered,
      of "\<lambda>i. if i = 1 then Some (''disk full'', Some []) else None" "''1''" False sample_loads]
  show ?thesis by auto
qed

theorem forced_export_keeps_stale_files_witness:
  "\<exists>d c. write_bundle (\<lambda>_. None) ''1'' sample_bundle True
      (Some \<lparr>fo_files = [(receipt_file_name, [1])], fo_others = [], fo_elsewhere = (\<lambda>_. None)\<rparr>) = (Inr (), Some d) \<and>
     check_bundle sample_loads d = Inr c \<and> \<not> bundle_intact c"
proof -
  have "receipt_file_name \<notin> set (file_names sample_bundle)" "receipt_file_name \<noteq> manifest_file"
    by (simp_all add: file_names_def bundle_files_def documents_def sample_bundle_def receipt_file_name_def
        verification_file_def timeline_file_def redaction_file_def manifest_file_def)
  then show ?thesis
    using forced_export_keeps_stale_files [OF sample_manifest sample_rendered, of "\<lambda>_. None" receipt_file_name
        "\<lparr>fo_files = [(receipt_file_name, [1])], fo_others = [], fo_elsewhere = (\<lambda>_. None)\<rparr>" sample_loads] sample_loads
    by auto
qed

theorem check_raises_on_foreign_names_witness:
  "check_bundle sample_loads \<lparr>fo_files = [(manifest_file, [0])], fo_others = [], fo_elsewhere = (\<lambda>_. None)\<rparr> = Inl TypeError"
proof -
  have "utf8 (document_text (JObj sample_manifest)) \<noteq> [0]"
    by (simp add: document_text_def sample_manifest_def manifest_def sample_bundle_def dict_simps utf8_def utf8_char_def
        Let_def)
  then show ?thesis
    by (subst check_raises_on_foreign_names) (simp add: sample_loads_def expected_items_def pair_of_def dict_simps)
qed

theorem manifest_states_verdict_witness:
  "\<exists>b m. export_local ''t'' (Some (sample_lines [sample_record, forged_record])) ''f'' ''s'' None False = Inr b \<and>
     manifest ''1'' b = Inr m \<and> dget m ''verdict'' = JStr ''TAMPERED''"
proof -
  obtain b where b: "export_local ''t'' (Some (sample_lines [sample_record, forged_record])) ''f'' ''s'' None False = Inr b"
    by (simp add: export_local_def sample_load build_bundle_def build_verification_def proof_record_def record_status_def
        sample_seq forged_facts num_of_def replay_block_def Let_def)
  from manifest_states_verdict [OF b, of "''1''"] sample_verify obtain m where
    "manifest ''1'' b = Inr m" "dget m ''verdict'' = JStr ''TAMPERED''" by auto
  with b show ?thesis by blast
qed

end
