(* ===== verification/Report.thy ===== *)
theory Report
  imports Bundle
begin

text \<open>
  \<^verbatim>\<open>rootsign/sdk/report.py\<close>: the Markdown and HTML renderings of a bundle's JSON documents.
  The documents are dicts; below them a value of another shape than expected raises as it does in
  Python: \<open>AttributeError\<close> from \<open>.get\<close>, \<open>TypeError\<close> from iterating or joining. An em dash
  in a text is written as two hyphens.
\<close>

section \<open>Values in a document\<close>

text \<open>\<open>d.get(k, {})\<close> and \<open>d.get(k) or {}\<close>, followed by dict operations.\<close>

definition sub_dict :: "dict \<Rightarrow> string \<Rightarrow> pyexc + dict" where
  "sub_dict d k = as_dict (dget_or d k (JObj []))"

definition sub_dict_or :: "dict \<Rightarrow> string \<Rightarrow> pyexc + dict" where
  "sub_dict_or d k = dict_or_empty (dget d k)"

definition iterate :: "json \<Rightarrow> pyexc + json list" where
  "iterate j =
     (case j of
        JArr xs \<Rightarrow> Inr xs
      | JStr s \<Rightarrow> Inr (map (\<lambda>c. JStr [c]) s)
      | JObj d \<Rightarrow> Inr (map (JStr \<circ> fst) d)
      | _ \<Rightarrow> Inl TypeError)"

fun all_strings :: "json list \<Rightarrow> pyexc + string list" where
  "all_strings [] = Inr []"
| "all_strings (JStr s # js) = sbind (all_strings js) (\<lambda>ss. Inr (s # ss))"
| "all_strings _ = Inl TypeError"

definition comma_list :: "json list \<Rightarrow> pyexc + string" where
  "comma_list js = sbind (all_strings js) (\<lambda>ss. Inr (str_join '', '' ss))"

definition or_dash :: "json \<Rightarrow> string" where
  "or_dash v = (if v = JNull \<or> v = JStr [] then ''--'' else py_str v)"

text \<open>\<open>json.dumps(value, ensure_ascii=False, sort_keys=True)\<close>.\<close>

fun dumps_raw :: "json \<Rightarrow> string" where
  "dumps_raw (JArr xs) = ''['' @ str_join '', '' (map dumps_raw xs) @ '']''"
| "dumps_raw (JObj d) = ''{'' @ str_join '', '' (map (\<lambda>(k, v). quote_raw k @ '': '' @ dumps_raw v) d) @ ''}''"
| "dumps_raw (JStr s) = quote_raw s"
| "dumps_raw JNull = ''null''"
| "dumps_raw (JBool b) = (if b then ''true'' else ''false'')"
| "dumps_raw (JInt i) = int_str i"
| "dumps_raw (JFloat q t) = t"

section \<open>What both renderings read\<close>

record report_documents =
  dm_manifest :: dict
  dm_verification :: dict
  dm_timeline :: dict
  dm_redaction :: dict

definition bundle_documents :: "string \<Rightarrow> evidence_bundle \<Rightarrow> pyexc + report_documents" where
  "bundle_documents version b =
     sbind (manifest version b) (\<lambda>m.
       Inr \<lparr>dm_manifest = m, dm_verification = b_verification b, dm_timeline = b_timeline b, dm_redaction = b_redaction b\<rparr>)"

definition markdown_file :: string where "markdown_file = ''report.md''"
definition html_file :: string where "html_file = ''report.html''"

definition json_document_files :: "string list" where
  "json_document_files = [verification_file, timeline_file, redaction_file]"

definition verdict_meaning :: "string \<Rightarrow> string" where
  "verdict_meaning v =
     (if v = ''VALID'' then ''Every record verifies. The chain is intact and complete.''
      else if v = ''TAMPERED'' then ''A record was altered after it was written. Treat this log as compromised.''
      else if v = ''INCOMPLETE''
      then ''Records are missing. The records present verify cleanly -- the gap is proven by the chain itself, not inferred.''
      else ''Verification produced an unrecognized verdict.'')"

definition verdict_line :: "dict \<Rightarrow> string \<times> string \<times> json" where
  "verdict_line verification =
     (let verdict = py_str (dget_or verification ''verdict'' (JStr ''UNKNOWN''))
      in (verdict, verdict_meaning verdict, py_or (dget verification ''summary'') (JStr [])))"

definition agent_label :: "dict \<Rightarrow> string" where
  "agent_label agent =
     (if truthy (dget agent ''name'')
      then py_str (dget agent ''name'') @ '' ('' @ py_str (dget_or agent ''agent_id'' (JStr [])) @ '')'' @
           (if truthy (dget agent ''owner'') then '', owned by '' @ py_str (dget agent ''owner'') else []) @
           (if truthy (dget agent ''risk_tier'') then '', risk tier '' @ py_str (dget agent ''risk_tier'') else [])
      else if truthy (dget agent ''agent_id'')
      then py_str (dget agent ''agent_id'') @ '' -- identity details not recorded in this source''
      else ''not recorded in this source'')"

definition identity_rows :: "dict \<Rightarrow> dict \<Rightarrow> pyexc + (string \<times> string) list" where
  "identity_rows m timeline =
     sbind (sub_dict timeline ''session'') (\<lambda>session.
     sbind (sub_dict_or m ''agent'') (\<lambda>agent.
     sbind (sub_dict_or m ''source'') (\<lambda>source.
       Inr [(''Session'', py_str (dget_or m ''session_id'' (JStr []))),
            (''Objective'', or_dash (dget session ''objective'')),
            (''Status'', or_dash (dget session ''status'')),
            (''Started'', or_dash (dget session ''start_time'')),
            (''Ended'', or_dash (dget session ''end_time'')),
            (''Agent'', agent_label agent),
            (''Source'', py_str (dget_or source ''backend'' (JStr ''?'')) @ '' ('' @
                         py_str (dget_or source ''location'' (JStr ''?'')) @ '')''),
            (''Generated'', py_str (dget_or m ''generated_at'' (JStr [])) @ '' by '' @
                            py_str (dget_or m ''generator'' (JStr []))),
            (''Bundle format'', py_str (dget_or m ''bundle_version'' (JStr [])))])))"

definition range_label :: "json \<Rightarrow> json \<Rightarrow> string" where
  "range_label lo hi =
     (if lo = JNull then []
      else if py_eq lo hi then '' (sequence '' @ py_str lo @ '')''
      else '' (sequence '' @ py_str lo @ ''-'' @ py_str hi @ '')'')"

definition event_summary :: "dict \<Rightarrow> string" where
  "event_summary event =
     (let kind = dget event ''type''; field = (\<lambda>k. py_str (dget_or event k (JStr ''?'')))
      in if kind = JStr ''SESSION_OPEN'' then or_dash (dget event ''objective'')
         else if kind = JStr ''SESSION_CLOSE'' then ''status: '' @ or_dash (dget event ''status'')
         else if kind = JStr ''DECISION''
         then str_join ''; '' ([''selected '' @ field ''selected_action''] @
                (if dget event ''confidence'' \<noteq> JNull then [''confidence '' @ py_str (dget event ''confidence'')] else []) @
                (if truthy (dget event ''reasoning_summary'') then [py_str (dget event ''reasoning_summary'')] else []))
         else if kind = JStr ''ACTION''
         then str_join '' -- '' (filter (\<lambda>p. p \<noteq> []) ([field ''tool_name'' @ '' (#'' @ field ''sequence_number'' @ '')'',
                 py_str (dget_or event ''authorization_status'' (JStr []))] @
                (if dget event ''duration_ms'' \<noteq> JNull then [py_str (dget event ''duration_ms'') @ ''ms''] else [])))
         else if kind = JStr ''APPROVAL''
         then str_join '' -- '' ([field ''decision'' @ '' by '' @ field ''approver_id'' @ '' ('' @ field ''approver_type'' @ '')''] @
                (if truthy (dget event ''decision_reason'') then [py_str (dget event ''decision_reason'')] else []))
         else if kind = JStr ''RECORD_LOSS''
         then field ''lost_count'' @ '' record(s) never written'' @
              range_label (dget event ''first_sequence'') (dget event ''last_sequence'')
         else [])"

definition event_header_fields :: "string list" where
  "event_header_fields = [''type'', ''timestamp'']"

definition field_text :: "json \<Rightarrow> string" where
  "field_text v = (if v = JNull then ''--'' else if container v then dumps_raw (sort_keys v) else py_str v)"

definition event_fields :: "dict \<Rightarrow> (string \<times> string) list" where
  "event_fields event = map (\<lambda>(k, v). (k, field_text v)) (filter (\<lambda>(k, v). k \<notin> set event_header_fields) event)"

definition document_hashes :: "dict \<Rightarrow> pyexc + (string \<times> json) list" where
  "document_hashes m =
     sbind (sub_dict_or m ''files'') (\<lambda>files.
       Inr (map (\<lambda>n. (n, dget files n)) (filter (dhas files) json_document_files)))"

definition withheld_note :: "dict \<Rightarrow> pyexc + string" where
  "withheld_note previews =
     (let names = py_or (dget previews ''withheld_fields'') (JArr [])
      in if \<not> truthy names then Inr []
         else sbind (iterate names) (\<lambda>js. sbind (comma_list js) (\<lambda>l.
           Inr (''Withheld from '' @ py_str (dget_or previews ''withheld_from_events'' (JInt 0)) @ '' event(s): '' @ l @
                ''. Ask the exporter for an unredacted bundle if you need them.''))))"

definition missing_range :: "json \<Rightarrow> pyexc + string" where
  "missing_range r =
     sbind (iterate r) (\<lambda>xs.
       case xs of
         [start, end] \<Rightarrow> Inr (if py_eq start end then py_str start else py_str start @ ''-'' @ py_str end)
       | _ \<Rightarrow> Inl (ValueError ''unpack''))"

definition missing_label :: "dict \<Rightarrow> pyexc + string" where
  "missing_label verification =
     (let ranges = py_or (dget verification ''missing_ranges'') (JArr [])
      in if \<not> truthy ranges then Inr []
         else sbind (iterate ranges) (\<lambda>rs. sbind (collect missing_range rs) (\<lambda>ls. Inr (str_join '', '' ls))))"

definition dicts_of :: "json \<Rightarrow> pyexc + dict list" where
  "dicts_of j = sbind (iterate j) (collect as_dict)"

text \<open>\<open>record.get("input_paths", []) + record.get("output_paths", [])\<close>, joined.\<close>

definition joined_paths :: "dict \<Rightarrow> pyexc + string" where
  "joined_paths r =
     (case (dget_or r ''input_paths'' (JArr []), dget_or r ''output_paths'' (JArr [])) of
        (JArr xs, JArr ys) \<Rightarrow> comma_list (xs @ ys)
      | (JStr s, JStr t) \<Rightarrow> sbind (iterate (JStr (s @ t))) comma_list
      | _ \<Rightarrow> Inl TypeError)"

definition how_to_verify :: string where
  "how_to_verify =
     ''This bundle is self-describing: `manifest.json` lists a SHA-256 for every other '' @
     ''file. Re-hashing those files proves the bundle is internally consistent, which is '' @
     ''not the same as proving it is the bundle that was generated -- anyone who edits a '' @
     ''file can also edit the manifest. The real check is comparing the hash of '' @
     ''`manifest.json` itself against the value recorded out of band when the bundle was '' @
     ''exported. `rootsign export --check <dir>` does both and prints that hash.''"

section \<open>Markdown\<close>

definition md_event :: "nat \<times> dict \<Rightarrow> string list" where
  "md_event p = (case p of (position, event) \<Rightarrow>
     let headline = event_summary event; rows = event_fields event
     in [''### '' @ nat_str position @ ''. '' @ py_str (dget_or event ''type'' (JStr ''?'')) @
           (if headline \<noteq> [] then '' -- '' @ headline else []), [],
         ''_'' @ or_dash (dget event ''timestamp'') @ ''_'', []] @
        (if rows = [] then [''_no further fields recorded_'', []]
         else [''| Field | Value |'', ''| --- | --- |''] @
              map (\<lambda>(k, v). ''| `'' @ k @ ''` | '' @ py_replace ''|'' [CHR 0x5C, CHR ''|''] v @ '' |'') rows @ [[]]))"

definition md_record :: "dict \<Rightarrow> string" where
  "md_record r =
     ''| '' @ py_str (dget_or r ''sequence_number'' (JStr ''?'')) @ '' | '' @ py_str (dget_or r ''tool_name'' (JStr ''?'')) @
     '' | '' @ py_str (dget_or r ''chain_status'' (JStr ''?'')) @ '' | `'' @ py_str (dget_or r ''self_hash'' (JStr [])) @
     ''` | `'' @ py_str (py_or (dget r ''prev_action_hash'') (JStr ''--'')) @ ''` |''"

definition md_redaction :: "json \<Rightarrow> pyexc + string" where
  "md_redaction j = sbind (as_dict j) (\<lambda>r. sbind (joined_paths r) (\<lambda>paths. Inr (''- #'' @ py_str (dget r ''sequence_number'') @ '': '' @ paths)))"

definition md_previews :: "dict \<Rightarrow> pyexc + string list" where
  "md_previews previews =
     (if \<not> truthy (dget previews ''included'') \<and> truthy (dget previews ''note'')
      then sbind (withheld_note previews) (\<lambda>w.
             Inr ([''_'' @ py_str (dget previews ''note'') @ ''._'', []] @ (if w \<noteq> [] then [''_'' @ w @ ''_'', []] else [])))
      else Inr [])"

definition md_verdict :: "dict \<Rightarrow> pyexc + string list" where
  "md_verdict verification =
     (case verdict_line verification of (verdict, meaning, detail) \<Rightarrow>
       sbind (missing_label verification) (\<lambda>missing.
         Inr ([''# '' @ verdict @ '' -- RootSign evidence bundle'', [], ''**'' @ meaning @ ''**'', []] @
              (if truthy detail then [''> '' @ py_str detail, []] else []) @
              (if missing \<noteq> [] then [''Missing sequence numbers: **'' @ missing @ ''**'', []] else []))))"

definition md_chain :: "dict \<Rightarrow> pyexc + string list" where
  "md_chain verification =
     sbind (sub_dict verification ''hash'') (\<lambda>hash.
     sbind (dicts_of (dget_or verification ''records'' (JArr []))) (\<lambda>records.
       Inr ([''## Chain verification'', [],
             py_str (dget_or verification ''record_count'' (JInt 0)) @ '' action record(s) checked against the frozen canonical hash ('' @
             py_str (dget_or hash ''canonical_spec'' (JStr ''ADR-001'')) @ '', '' @
             py_str (dget_or hash ''algorithm'' (JStr ''sha256'')) @ '').'', [],
             ''| # | Tool | Status | self_hash | prev_action_hash |'', ''| ---: | --- | --- | --- | --- |''] @
            map md_record records @ [[]])))"

definition md_timeline :: "dict \<Rightarrow> pyexc + string list" where
  "md_timeline timeline =
     sbind (sub_dict timeline ''previews'') (\<lambda>previews.
     sbind (md_previews previews) (\<lambda>note_lines.
     sbind (dicts_of (dget_or timeline ''events'' (JArr []))) (\<lambda>events.
       Inr ([''## What happened'', []] @ note_lines @
            [''Every field recorded for each event, as stored. Field names match '' @
             ''`timeline.json` so the two can be read side by side.'', []] @
            concat (map md_event (numbered 1 events))))))"

definition md_redactions :: "dict \<Rightarrow> pyexc + string list" where
  "md_redactions redaction =
     sbind (sub_dict redaction ''totals'') (\<lambda>totals.
     sbind (iterate (dget_or redaction ''records'' (JArr []))) (\<lambda>records.
     sbind (collect md_redaction records) (\<lambda>rows.
     sbind (sub_dict redaction ''rule_set'') (\<lambda>rule_set.
       Inr ([''## Redaction'', [],
             py_str (dget_or totals ''redacted_fields'' (JInt 0)) @ '' field(s) across '' @
             py_str (dget_or totals ''actions_with_redactions'' (JInt 0)) @ '' action(s) were replaced with `'' @
             py_str (dget_or redaction ''sentinel'' (JStr ''[REDACTED]'')) @ ''` before storage.'', []] @
            rows @ (if truthy (dget redaction ''records'') then [[]] else []) @
            [''_'' @ py_str (dget_or rule_set ''provenance'' (JStr [])) @ ''_'', []])))))"

definition md_contents :: "dict \<Rightarrow> pyexc + string list" where
  "md_contents m =
     sbind (document_hashes m) (\<lambda>hashes.
       Inr ([''## Bundle contents'', [],
             ''SHA-256 of each machine-readable document in this bundle, copied from `manifest.json`.'', [],
             ''| File | SHA-256 |'', ''| --- | --- |''] @
            map (\<lambda>(n, g). ''| `'' @ n @ ''` | `'' @ py_str g @ ''` |'') hashes @
            [[], ''_This report and `manifest.json` are hashed too, but a document cannot '' @
                 ''quote its own digest -- those values are in `manifest.json`._'', []]))"

definition render_markdown :: "report_documents \<Rightarrow> pyexc + string" where
  "render_markdown ds =
     sbind (md_verdict (dm_verification ds)) (\<lambda>top.
     sbind (identity_rows (dm_manifest ds) (dm_timeline ds)) (\<lambda>rows.
     sbind (md_chain (dm_verification ds)) (\<lambda>chain.
     sbind (md_timeline (dm_timeline ds)) (\<lambda>story.
     sbind (md_redactions (dm_redaction ds)) (\<lambda>redactions.
     sbind (md_contents (dm_manifest ds)) (\<lambda>contents.
       Inr (str_join [CHR 0x0A]
         (top @ [''## Session'', []] @ map (\<lambda>(l, v). ''- **'' @ l @ '':** '' @ v) rows @ [[]] @
          chain @ story @ redactions @ contents @
          [''## Verifying this bundle'', [], how_to_verify, []]))))))))"

section \<open>HTML\<close>

text \<open>\<open>html.escape(str(value), quote=True)\<close>.\<close>

definition escape_char :: "char \<Rightarrow> string" where
  "escape_char c =
     (if c = CHR ''&'' then ''&amp;'' else if c = CHR ''<'' then ''&lt;'' else if c = CHR ''>'' then ''&gt;''
      else if c = CHR 0x22 then ''&quot;'' else if c = CHR 0x27 then ''&#x27;'' else [c])"

definition escape :: "json \<Rightarrow> string" where
  "escape v = concat (map escape_char (py_str v))"

definition lower_char :: "char \<Rightarrow> char" where
  "lower_char c =
     (let n = of_char c :: nat
      in if 65 \<le> n \<and> n \<le> 90 \<or> 192 \<le> n \<and> n \<le> 222 \<and> n \<noteq> 215 then char_of (n + 32) else c)"

definition style :: string where
  \<open>style = concat (map (\<lambda>l. CHR 0x0A # l)
    ['':root { color-scheme: light; }'',
     ''body { margin: 0; padding: 2rem 1.5rem 4rem; background: #f6f7f9; color: #14181f;'',
     ''       font: 15px/1.55 -apple-system, BlinkMacSystemFont, "Segoe UI", Roboto, Helvetica, sans-serif; }'',
     ''main { max-width: 60rem; margin: 0 auto; }'',
     ''.verdict { border-radius: 10px; padding: 1.25rem 1.5rem; margin: 0 0 1.5rem;'',
     ''           border: 1px solid; }'',
     ''.verdict h1 { margin: 0 0 .35rem; font-size: 1.6rem; letter-spacing: .01em; }'',
     ''.verdict p { margin: .25rem 0 0; }'',
     ''.verdict .detail { font-family: ui-monospace, SFMono-Regular, Menlo, monospace; font-size: .85rem; }'',
     ''.valid { background: #e9f7ee; border-color: #2f8f4e; color: #14532d; }'',
     ''.tampered { background: #fdecec; border-color: #c0392b; color: #7f1d1d; }'',
     ''.incomplete { background: #fff7e6; border-color: #b7791f; color: #7a4b06; }'',
     ''h2 { margin: 2rem 0 .75rem; font-size: 1.1rem; text-transform: uppercase;'',
     ''     letter-spacing: .06em; color: #4a5568; }'',
     ''section { background: #fff; border: 1px solid #e2e6ec; border-radius: 8px; padding: 1rem 1.25rem; }'',
     ''table { width: 100%; border-collapse: collapse; font-size: .9rem; }'',
     ''th, td { text-align: left; padding: .45rem .6rem; border-bottom: 1px solid #eceff3;'',
     ''         vertical-align: top; }'',
     ''th { font-weight: 600; color: #4a5568; }'',
     ''td.hash, code { font-family: ui-monospace, SFMono-Regular, Menlo, monospace; font-size: .8rem;'',
     ''                word-break: break-all; }'',
     ''dl { display: grid; grid-template-columns: minmax(8rem, 12rem) 1fr; gap: .4rem 1rem; margin: 0; }'',
     ''dt { font-weight: 600; color: #4a5568; }'',
     ''dd { margin: 0; }'',
     ''.status-verified { color: #276749; }'',
     ''.status-failed { color: #9b2c2c; font-weight: 600; }'',
     ''.status-unverified { color: #975a16; }'',
     ''.note { color: #4a5568; font-style: italic; margin: 0 0 .75rem; }'',
     ''.event { border: 1px solid #e2e6ec; border-radius: 6px; padding: .75rem 1rem 1rem;'',
     ''         margin: 0 0 .85rem; background: #fcfcfd; }'',
     ''.event h3 { margin: 0 0 .5rem; font-size: .95rem; display: flex; flex-wrap: wrap;'',
     ''            align-items: baseline; gap: .6rem; }'',
     ''.event .kind { font-weight: 700; letter-spacing: .04em; color: #1a202c; }'',
     ''.event .pos { color: #a0aec0; font-weight: 400; }'',
     ''.event time { color: #4a5568; font-weight: 400; font-size: .85rem;'',
     ''              font-family: ui-monospace, SFMono-Regular, Menlo, monospace; }'',
     ''.event .headline { margin: 0 0 .6rem; color: #2d3748; }'',
     ''table.fields { table-layout: fixed; }'',
     ''table.fields th { width: 12rem; font-weight: 500; }'',
     ''table.fields td.value { font-family: ui-monospace, SFMono-Regular, Menlo, monospace;'',
     ''                        font-size: .8rem; word-break: break-word; white-space: pre-wrap; }'',
     ''table.fields tr:last-child th, table.fields tr:last-child td { border-bottom: none; }'',
     ''@media (max-width: 40rem) {'',
     ''  table.fields, table.fields tbody, table.fields tr, table.fields th, table.fields td'',
     ''    { display: block; width: auto; }'',
     ''  table.fields th { padding-bottom: 0; border-bottom: none; }'',
     ''}'',
     ''footer { margin-top: 2rem; color: #4a5568; font-size: .85rem; }'',
     ''@media print { body { background: #fff; } section { border: none; padding: 0; } }'']) @ [CHR 0x0A]\<close>

definition html_verdict :: "dict \<Rightarrow> pyexc + string list" where
  \<open>html_verdict verification =
     (case verdict_line verification of (verdict, meaning, detail) \<Rightarrow>
       sbind (missing_label verification) (\<lambda>missing.
         Inr ([''<div class="verdict '' @ map lower_char verdict @ ''">'', ''<h1>'' @ escape (JStr verdict) @ ''</h1>'',
               ''<p>'' @ escape (JStr meaning) @ ''</p>''] @
              (if truthy detail then [''<p class="detail">'' @ escape detail @ ''</p>''] else []) @
              (if missing \<noteq> []
               then [''<p>Missing sequence numbers: <strong>'' @ escape (JStr missing) @ ''</strong></p>''] else []) @
              [''</div>''])))\<close>

definition html_identity :: "(string \<times> string) list \<Rightarrow> string list" where
  \<open>html_identity rows =
     [''<h2>Session</h2><section><dl>''] @
     map (\<lambda>(l, v). ''<dt>'' @ escape (JStr l) @ ''</dt><dd>'' @ escape (JStr v) @ ''</dd>'') rows @ [''</dl></section>'']\<close>

definition html_record :: "dict \<Rightarrow> string" where
  \<open>html_record r =
     (let status = escape (JStr (py_str (dget_or r ''chain_status'' (JStr ''?''))))
      in ''<tr><td>'' @ escape (dget_or r ''sequence_number'' (JStr ''?'')) @ ''</td><td>'' @
         escape (dget_or r ''tool_name'' (JStr ''?'')) @ ''</td><td class="status-'' @ status @ ''">'' @ status @
         ''</td><td class="hash">'' @ escape (dget_or r ''self_hash'' (JStr [])) @ ''</td><td class="hash">'' @
         escape (py_or (dget r ''prev_action_hash'') (JStr ''--'')) @ ''</td></tr>'')\<close>

definition html_chain :: "dict \<Rightarrow> pyexc + string list" where
  \<open>html_chain verification =
     sbind (sub_dict verification ''hash'') (\<lambda>hash.
     sbind (dicts_of (dget_or verification ''records'' (JArr []))) (\<lambda>records.
       Inr ([''<h2>Chain verification</h2><section>'',
             ''<p class="note">'' @ py_str (dget_or verification ''record_count'' (JInt 0)) @
             '' action record(s) checked against the frozen canonical hash ('' @
             escape (dget_or hash ''canonical_spec'' (JStr ''ADR-001'')) @ '', '' @
             escape (dget_or hash ''algorithm'' (JStr ''sha256'')) @ '').</p>'',
             ''<table><thead><tr><th>#</th><th>Tool</th><th>Status</th>'',
             ''<th>self_hash</th><th>prev_action_hash</th></tr></thead><tbody>''] @
            map html_record records @ [''</tbody></table></section>''])))\<close>

definition html_previews :: "dict \<Rightarrow> pyexc + string list" where
  \<open>html_previews previews =
     (if \<not> truthy (dget previews ''included'') \<and> truthy (dget previews ''note'')
      then sbind (withheld_note previews) (\<lambda>w.
             Inr ([''<p class="note">'' @ escape (dget previews ''note'') @ ''</p>''] @
                  (if w \<noteq> [] then [''<p class="note">'' @ escape (JStr w) @ ''</p>''] else [])))
      else Inr [])\<close>

definition html_event :: "nat \<times> dict \<Rightarrow> string list" where
  \<open>html_event p = (case p of (position, event) \<Rightarrow>
     let headline = event_summary event; rows = event_fields event
     in [''<article class="event">'',
         ''<h3><span class="kind">'' @ escape (dget_or event ''type'' (JStr ''?'')) @ ''</span><span class="pos">#'' @
         nat_str position @ ''</span><time>'' @ escape (JStr (or_dash (dget event ''timestamp''))) @ ''</time></h3>''] @
        (if headline \<noteq> [] then [''<p class="headline">'' @ escape (JStr headline) @ ''</p>''] else []) @
        (if rows = [] then [''<p class="note">no further fields recorded</p>'']
         else [''<table class="fields"><tbody>''] @
              map (\<lambda>(k, v). ''<tr><th scope="row"><code>'' @ escape (JStr k) @ ''</code></th><td class="value">'' @
                escape (JStr v) @ ''</td></tr>'') rows @
              [''</tbody></table>'']) @
        [''</article>''])\<close>

definition html_timeline :: "dict \<Rightarrow> pyexc + string list" where
  \<open>html_timeline timeline =
     sbind (sub_dict timeline ''previews'') (\<lambda>previews.
     sbind (html_previews previews) (\<lambda>note_lines.
     sbind (dicts_of (dget_or timeline ''events'' (JArr []))) (\<lambda>events.
       Inr ([''<h2>What happened</h2><section>''] @ note_lines @
            [''<p class="note">Every field recorded for each event, as stored. Field names '' @
             ''match <code>timeline.json</code> so the two can be read side by side.</p>''] @
            concat (map html_event (numbered 1 events)) @ [''</section>'']))))\<close>

definition html_redaction :: "json \<Rightarrow> pyexc + string" where
  \<open>html_redaction j =
     sbind (as_dict j) (\<lambda>r. sbind (joined_paths r) (\<lambda>paths.
       Inr (''<tr><td>'' @ escape (dget_or r ''sequence_number'' (JStr ''?'')) @ ''</td><td class="hash">'' @
            escape (JStr paths) @ ''</td></tr>'')))\<close>

definition html_redactions :: "dict \<Rightarrow> pyexc + string list" where
  \<open>html_redactions redaction =
     sbind (sub_dict redaction ''totals'') (\<lambda>totals.
     sbind (if truthy (dget redaction ''records'')
            then sbind (iterate (dget redaction ''records'')) (\<lambda>js. sbind (collect html_redaction js) (\<lambda>rows.
                   Inr ([''<table><thead><tr><th>#</th><th>Redacted field paths</th></tr></thead><tbody>''] @ rows @
                        [''</tbody></table>''])))
            else Inr []) (\<lambda>table.
     sbind (sub_dict redaction ''rule_set'') (\<lambda>rule_set.
       Inr ([''<h2>Redaction</h2><section>'',
             ''<p>'' @ py_str (dget_or totals ''redacted_fields'' (JInt 0)) @ '' field(s) across '' @
             py_str (dget_or totals ''actions_with_redactions'' (JInt 0)) @ '' action(s) were replaced with <code>'' @
             escape (dget_or redaction ''sentinel'' (JStr ''[REDACTED]'')) @ ''</code> before storage.</p>''] @ table @
            [''<p class="note">'' @ escape (dget_or rule_set ''provenance'' (JStr [])) @ ''</p>'', ''</section>'']))))\<close>

definition html_contents :: "dict \<Rightarrow> pyexc + string list" where
  \<open>html_contents m =
     sbind (document_hashes m) (\<lambda>hashes.
       Inr ([''<h2>Bundle contents</h2><section>'',
             ''<p class="note">SHA-256 of each machine-readable document in this bundle, '' @
             ''copied from <code>manifest.json</code>.</p>'',
             ''<table><thead><tr><th>File</th><th>SHA-256</th></tr></thead><tbody>''] @
            map (\<lambda>(n, g). ''<tr><td><code>'' @ escape (JStr n) @ ''</code></td><td class="hash">'' @ escape g @ ''</td></tr>'') hashes @
            [''</tbody></table>'',
             ''<p class="note">This report and <code>manifest.json</code> are hashed too, '' @
             ''but a document cannot quote its own digest -- those values are in '' @
             ''<code>manifest.json</code>.</p>'',
             ''</section>'']))\<close>

definition html_head :: "string \<Rightarrow> dict \<Rightarrow> string list" where
  \<open>html_head verdict m =
     [''<!DOCTYPE html>'', ''<html lang="en"><head><meta charset="utf-8">'',
      ''<meta name="viewport" content="width=device-width, initial-scale=1">'',
      ''<title>'' @ escape (JStr verdict) @ '' -- RootSign evidence '' @ escape (dget_or m ''session_id'' (JStr [])) @ ''</title>'',
      ''<style>'' @ style @ ''</style>'', ''</head><body><main>'']\<close>

definition render_html :: "report_documents \<Rightarrow> pyexc + string" where
  \<open>render_html ds =
     sbind (html_verdict (dm_verification ds)) (\<lambda>banner.
     sbind (identity_rows (dm_manifest ds) (dm_timeline ds)) (\<lambda>rows.
     sbind (html_chain (dm_verification ds)) (\<lambda>chain.
     sbind (html_timeline (dm_timeline ds)) (\<lambda>story.
     sbind (html_redactions (dm_redaction ds)) (\<lambda>redactions.
     sbind (html_contents (dm_manifest ds)) (\<lambda>contents.
       Inr (str_join [CHR 0x0A]
         (html_head (fst (verdict_line (dm_verification ds))) (dm_manifest ds) @ banner @ html_identity rows @
          chain @ story @ redactions @ contents @
          [''<footer><h2>Verifying this bundle</h2><p>'' @ escape (JStr how_to_verify) @ ''</p></footer>'',
           ''</main></body></html>'']) @ [CHR 0x0A])))))))\<close>

definition attach_reports :: "string \<Rightarrow> evidence_bundle \<Rightarrow> pyexc + evidence_bundle" where
  "attach_reports version b =
     sbind (bundle_documents version b) (\<lambda>ds.
     sbind (render_markdown ds) (\<lambda>md.
     sbind (render_html ds) (\<lambda>html.
       Inr (attach html_file html (attach markdown_file md b)))))"

section \<open>Rendering a bundle always succeeds\<close>

lemma collect_Inr: "\<forall>x \<in> set xs. f x = Inr (g x) \<Longrightarrow> collect f xs = Inr (map g xs)"
  by (induction xs) auto

lemma collect_total: "\<forall>x \<in> set xs. \<exists>y. f x = Inr y \<Longrightarrow> \<exists>ys. collect f xs = Inr ys"
proof (induction xs)
  case (Cons x xs)
  then obtain y ys where "f x = Inr y" "collect f xs = Inr ys" by auto
  then show ?case by simp
qed simp

lemma dicts_of_JObj [simp]: "dicts_of (JArr (map JObj ds)) = Inr ds"
  by (induction ds) (simp_all add: dicts_of_def iterate_def)

lemma comma_list_strings [simp]: "comma_list (map JStr ss) = Inr (str_join '', '' ss)"
proof -
  have "all_strings (map JStr ss) = Inr ss" by (induction ss) simp_all
  then show ?thesis by (simp add: comma_list_def)
qed

lemma joined_paths_built:
  "joined_paths (redaction_record a) = Inr (str_join '', '' (paths_of a))"
proof -
  have "comma_list (map JStr xs @ map JStr ys) = Inr (str_join '', '' (xs @ ys))" for xs ys
    using comma_list_strings [of "xs @ ys"] by simp
  then show ?thesis by (simp add: joined_paths_def redaction_record_def paths_of_def dict_simps)
qed

lemma dget_append: "dget (d @ d') k = (if dhas d k then dget d k else dget d' k)"
  by (auto simp: dget_def dhas_def map_add_def split: option.splits)

lemma dget_or_dget: "dhas d k \<Longrightarrow> dget_or d k z = dget d k"
  by (auto simp: dget_or_def dget_def dhas_def)

text \<open>What the builders put under the keys the renderings read.\<close>

definition verification_shape :: "dict \<Rightarrow> bool" where
  "verification_shape v \<longleftrightarrow>
     (\<exists>w n rs h records s.
        dhas v ''verdict'' \<and> dget v ''verdict'' = JStr (verdict_value w) \<and>
        dhas v ''record_count'' \<and> dget v ''record_count'' = JInt n \<and> dget v ''summary'' = JStr s \<and>
        dget v ''missing_ranges'' = JArr (map (\<lambda>(a, b). JArr [JInt a, JInt b]) rs) \<and>
        dhas v ''hash'' \<and> dget v ''hash'' = JObj h \<and>
        dhas v ''records'' \<and> dget v ''records'' = JArr (map JObj records))"

definition timeline_shape :: "dict \<Rightarrow> bool" where
  "timeline_shape t \<longleftrightarrow>
     (\<exists>session previews names events.
        dhas t ''session'' \<and> dget t ''session'' = JObj session \<and>
        dhas t ''previews'' \<and> dget t ''previews'' = JObj previews \<and>
        dget previews ''withheld_fields'' = JArr (map JStr names) \<and>
        dhas t ''events'' \<and> dget t ''events'' = JArr (map JObj events))"

definition redaction_shape :: "dict \<Rightarrow> bool" where
  "redaction_shape r \<longleftrightarrow>
     (\<exists>totals rule_set as n m.
        dhas r ''totals'' \<and> dget r ''totals'' = JObj totals \<and>
        dhas totals ''redacted_fields'' \<and> dget totals ''redacted_fields'' = JInt n \<and>
        dhas totals ''actions_with_redactions'' \<and> dget totals ''actions_with_redactions'' = JInt m \<and>
        dhas r ''rule_set'' \<and> dget r ''rule_set'' = JObj rule_set \<and>
        dhas r ''records'' \<and> dget r ''records'' = JArr (map (\<lambda>a. JObj (redaction_record a)) as))"

lemma build_verification_shape: "build_verification ev = Inr v \<Longrightarrow> verification_shape v"
  unfolding build_verification_def verification_shape_def Let_def
  by (auto simp: sbind_eq_Inr dict_simps)

lemma build_timeline_shape: "timeline_shape (build_timeline ev inc stored)"
  unfolding build_timeline_def timeline_shape_def Let_def
  by (auto simp: dict_simps simp del: map_map)

lemma build_redaction_shape: "redaction_shape (build_redaction ev)"
  unfolding build_redaction_def redaction_shape_def Let_def
  by (auto simp: dict_simps)

lemma missing_label_built:
  assumes "verification_shape v"
  shows "\<exists>s. missing_label v = Inr s"
proof -
  from assms obtain rs where rs: "dget v ''missing_ranges'' = JArr (map (\<lambda>(a, b). JArr [JInt a, JInt b]) rs)"
    by (auto simp: verification_shape_def)
  have "\<exists>ys. collect missing_range (map (\<lambda>(a, b). JArr [JInt a, JInt b]) rs) = Inr ys"
    by (rule collect_total) (auto simp: missing_range_def iterate_def)
  with rs show ?thesis by (auto simp: missing_label_def iterate_def py_or_def)
qed

lemma md_verdict_built: "verification_shape v \<Longrightarrow> \<exists>ls. md_verdict v = Inr ls"
  using missing_label_built [of v] by (auto simp: md_verdict_def split: prod.splits)

lemma html_verdict_built: "verification_shape v \<Longrightarrow> \<exists>ls. html_verdict v = Inr ls"
  using missing_label_built [of v] by (auto simp: html_verdict_def split: prod.splits)

lemma chain_built: "verification_shape v \<Longrightarrow> \<exists>ls ls'. md_chain v = Inr ls \<and> html_chain v = Inr ls'"
  by (auto simp: verification_shape_def md_chain_def html_chain_def sub_dict_def dget_or_dget)

lemma timeline_built: "timeline_shape t \<Longrightarrow> \<exists>ls ls'. md_timeline t = Inr ls \<and> html_timeline t = Inr ls'"
  by (auto simp: timeline_shape_def md_timeline_def html_timeline_def sub_dict_def dget_or_dget md_previews_def
      html_previews_def withheld_note_def py_or_def iterate_def)

lemma redactions_built:
  assumes "redaction_shape r"
  shows "\<exists>ls ls'. md_redactions r = Inr ls \<and> html_redactions r = Inr ls'"
proof -
  from assms obtain totals rule_set as where
    "sub_dict r ''totals'' = Inr totals" "sub_dict r ''rule_set'' = Inr rule_set"
    and rows: "dget_or r ''records'' (JArr []) = JArr (map (\<lambda>a. JObj (redaction_record a)) as)"
      "dget r ''records'' = JArr (map (\<lambda>a. JObj (redaction_record a)) as)"
    by (auto simp: redaction_shape_def sub_dict_def dget_or_dget)
  moreover have "\<exists>ys. collect md_redaction (map (\<lambda>a. JObj (redaction_record a)) as) = Inr ys"
    by (rule collect_total) (auto simp: md_redaction_def joined_paths_built)
  moreover have "\<exists>ys. collect html_redaction (map (\<lambda>a. JObj (redaction_record a)) as) = Inr ys"
    by (rule collect_total) (auto simp: html_redaction_def joined_paths_built)
  ultimately show ?thesis
    by (cases "as = []") (auto simp: md_redactions_def html_redactions_def iterate_def)
qed

lemma manifest_built:
  assumes "manifest version b = Inr m" and "timeline_shape t"
  shows "\<exists>rows hashes. identity_rows m t = Inr rows \<and> document_hashes m = Inr hashes"
proof -
  have "\<exists>agent. dget m ''agent'' = JObj agent" "\<exists>source. dget m ''source'' = JObj source" "\<exists>files. dget m ''files'' = JObj files"
    using assms(1) by (auto simp: manifest_def sbind_eq_Inr dict_simps)
  then have "\<exists>agent. sub_dict_or m ''agent'' = Inr agent" "\<exists>source. sub_dict_or m ''source'' = Inr source"
    "\<exists>files. sub_dict_or m ''files'' = Inr files"
    by (auto simp: sub_dict_or_def)
  with assms(2) show ?thesis
    by (auto simp: identity_rows_def document_hashes_def sub_dict_def timeline_shape_def dget_or_dget)
qed

definition documents_shape :: "string \<Rightarrow> evidence_bundle \<Rightarrow> report_documents \<Rightarrow> bool" where
  "documents_shape version b ds \<longleftrightarrow>
     manifest version b = Inr (dm_manifest ds) \<and> verification_shape (dm_verification ds) \<and>
     timeline_shape (dm_timeline ds) \<and> redaction_shape (dm_redaction ds)"

lemma render_built:
  assumes "documents_shape version b ds"
  shows "\<exists>md html. render_markdown ds = Inr md \<and> render_html ds = Inr html"
proof -
  from assms have v: "verification_shape (dm_verification ds)" and t: "timeline_shape (dm_timeline ds)"
    and r: "redaction_shape (dm_redaction ds)" and m: "manifest version b = Inr (dm_manifest ds)"
    by (simp_all add: documents_shape_def)
  from manifest_built [OF m t] md_verdict_built [OF v] html_verdict_built [OF v] chain_built [OF v]
    timeline_built [OF t] redactions_built [OF r]
  show ?thesis by (auto simp: render_markdown_def render_html_def md_contents_def html_contents_def)
qed

lemma build_bundle_documents:
  assumes "build_bundle now ev redact_previews = Inr b"
  shows "\<exists>ds. bundle_documents version b = Inr ds \<and> documents_shape version b ds"
proof -
  from assms obtain v where v: "build_verification ev = Inr v" "b_verification b = v"
    "b_timeline b = build_timeline ev (previews_retained ev \<and> \<not> redact_previews) (previews_retained ev)"
    "b_redaction b = build_redaction ev"
    by (auto simp: build_bundle_def sbind_eq_Inr Let_def)
  from build_verification_verdict [OF v(1)] v(2) obtain m where m: "manifest version b = Inr m"
    by (auto simp: manifest_def)
  then show ?thesis
    using v build_verification_shape [OF v(1)] build_timeline_shape build_redaction_shape
    by (auto simp: bundle_documents_def documents_shape_def)
qed

section \<open>Nothing in a bundle becomes markup\<close>

text \<open>The tags of the renderer, each as far as it is fixed.\<close>

definition template_tags :: "string list" where
  \<open>template_tags =
     [''<!DOCTYPE html>'', ''<html lang="en">'', ''<head>'', ''<meta charset="utf-8">'',
      ''<meta name="viewport" content="width=device-width, initial-scale=1">'', ''<title>'', ''</title>'', ''<style>'',
      ''</style>'', ''</head>'', ''<body>'', ''<main>'', ''<div class="verdict '', ''<h1>'', ''</h1>'', ''<p>'',
      ''<p class="detail">'', ''</p>'', ''<strong>'', ''</strong>'', ''</div>'', ''<h2>'', ''</h2>'', ''<section>'',
      ''</section>'', ''<dl>'', ''</dl>'', ''<dt>'', ''</dt>'', ''<dd>'', ''</dd>'', ''<p class="note">'', ''<table>'',
      ''<thead>'', ''<tr>'', ''<th>'', ''</th>'', ''</tr>'', ''</thead>'', ''<tbody>'', ''</tbody>'', ''</table>'', ''<td>'',
      ''</td>'', ''<td class="status-'', ''<td class="hash">'', ''<article class="event">'', ''</article>'', ''<h3>'',
      ''</h3>'', ''<span class="kind">'', ''<span class="pos">'', ''</span>'', ''<time>'', ''</time>'',
      ''<p class="headline">'', ''<table class="fields">'', ''<th scope="row">'', ''<code>'', ''</code>'',
      ''<td class="value">'', ''<footer>'', ''</footer>'', ''</main>'', ''</body>'', ''</html>'']\<close>

fun template_markup :: "string \<Rightarrow> bool" where
  "template_markup [] \<longleftrightarrow> True"
| "template_markup (c # cs) \<longleftrightarrow>
     (c = CHR ''<'' \<longrightarrow> list_ex (\<lambda>t. prefix t (c # cs)) template_tags) \<and> template_markup cs"

abbreviation clear :: "string \<Rightarrow> bool" where
  "clear s \<equiv> CHR ''<'' \<notin> set s"

lemma template_clear: "clear s \<Longrightarrow> template_markup s"
  by (induction s) auto

lemma template_after_clear: "clear s \<Longrightarrow> template_markup (s @ t) = template_markup t"
  by (induction s) auto

lemma template_append: "template_markup s \<Longrightarrow> template_markup t \<Longrightarrow> template_markup (s @ t)"
proof (induction s)
  case (Cons c cs)
  have "list_ex (\<lambda>p. prefix p (c # cs)) ps \<Longrightarrow> list_ex (\<lambda>p. prefix p (c # cs @ t)) ps" for ps
    by (induction ps) (auto intro: prefix_prefix [of _ "c # cs" t, simplified])
  with Cons show ?case by auto
qed simp

lemma template_lines: "list_all template_markup ls \<Longrightarrow> template_markup (str_join [CHR 0x0A] ls)"
proof (induction "[CHR 0x0A] :: string" ls rule: str_join.induct)
  case (3 x y xs)
  then show ?case by (auto intro!: template_append)
qed auto

lemma clear_escape [simp]: "clear (escape v)"
  by (auto simp: escape_def escape_char_def split: if_splits)

lemma clear_nat_str [simp]: "clear (nat_str n)"
  using nat_str_digits [of n] by (auto simp: is_digit_def digit_val_def split: if_splits)

lemma clear_int [simp]: "clear (py_str (JInt i))"
  using int_str_chars [of "CHR ''<''" i] by (auto simp: py_str_def is_digit_def digit_val_def split: if_splits)

lemma clear_style: "clear style"
  by (simp add: style_def)

lemma template_tag:
  assumes "t \<in> set template_tags"
  shows "template_markup (t @ cs) = template_markup cs"
proof -
  have "\<forall>t \<in> set template_tags. \<exists>r. t = CHR ''<'' # r \<and> clear r"
    by (simp add: template_tags_def)
  with assms obtain r where t: "t = CHR ''<'' # r" "clear r" by blast
  have "list_ex (\<lambda>p. prefix p (t @ cs)) template_tags"
    unfolding list_ex_iff by (rule bexI [OF _ assms]) simp
  with t show ?thesis by (simp add: template_after_clear)
qed

lemma tag_rules:
  \<open>template_markup (''<!DOCTYPE html>'' @ cs) = template_markup cs\<close>
  \<open>template_markup (''<html lang="en">'' @ cs) = template_markup cs\<close>
  \<open>template_markup (''<head>'' @ cs) = template_markup cs\<close>
  \<open>template_markup (''<meta charset="utf-8">'' @ cs) = template_markup cs\<close>
  \<open>template_markup (''<meta name="viewport" content="width=device-width, initial-scale=1">'' @ cs) = template_markup cs\<close>
  \<open>template_markup (''<title>'' @ cs) = template_markup cs\<close>
  \<open>template_markup (''</title>'' @ cs) = template_markup cs\<close>
  \<open>template_markup (''<style>'' @ cs) = template_markup cs\<close>
  \<open>template_markup (''</style>'' @ cs) = template_markup cs\<close>
  \<open>template_markup (''</head>'' @ cs) = template_markup cs\<close>
  \<open>template_markup (''<body>'' @ cs) = template_markup cs\<close>
  \<open>template_markup (''<main>'' @ cs) = template_markup cs\<close>
  \<open>template_markup (''<div class="verdict '' @ cs) = template_markup cs\<close>
  \<open>template_markup (''<h1>'' @ cs) = template_markup cs\<close>
  \<open>template_markup (''</h1>'' @ cs) = template_markup cs\<close>
  \<open>template_markup (''<p>'' @ cs) = template_markup cs\<close>
  \<open>template_markup (''<p class="detail">'' @ cs) = template_markup cs\<close>
  \<open>template_markup (''</p>'' @ cs) = template_markup cs\<close>
  \<open>template_markup (''<strong>'' @ cs) = template_markup cs\<close>
  \<open>template_markup (''</strong>'' @ cs) = template_markup cs\<close>
  \<open>template_markup (''</div>'' @ cs) = template_markup cs\<close>
  \<open>template_markup (''<h2>'' @ cs) = template_markup cs\<close>
  \<open>template_markup (''</h2>'' @ cs) = template_markup cs\<close>
  \<open>template_markup (''<section>'' @ cs) = template_markup cs\<close>
  \<open>template_markup (''</section>'' @ cs) = template_markup cs\<close>
  \<open>template_markup (''<dl>'' @ cs) = template_markup cs\<close>
  \<open>template_markup (''</dl>'' @ cs) = template_markup cs\<close>
  \<open>template_markup (''<dt>'' @ cs) = template_markup cs\<close>
  \<open>template_markup (''</dt>'' @ cs) = template_markup cs\<close>
  \<open>template_markup (''<dd>'' @ cs) = template_markup cs\<close>
  \<open>template_markup (''</dd>'' @ cs) = template_markup cs\<close>
  \<open>template_markup (''<p class="note">'' @ cs) = template_markup cs\<close>
  \<open>template_markup (''<table>'' @ cs) = template_markup cs\<close>
  \<open>template_markup (''<thead>'' @ cs) = template_markup cs\<close>
  \<open>template_markup (''<tr>'' @ cs) = template_markup cs\<close>
  \<open>template_markup (''<th>'' @ cs) = template_markup cs\<close>
  \<open>template_markup (''</th>'' @ cs) = template_markup cs\<close>
  \<open>template_markup (''</tr>'' @ cs) = template_markup cs\<close>
  \<open>template_markup (''</thead>'' @ cs) = template_markup cs\<close>
  \<open>template_markup (''<tbody>'' @ cs) = template_markup cs\<close>
  \<open>template_markup (''</tbody>'' @ cs) = template_markup cs\<close>
  \<open>template_markup (''</table>'' @ cs) = template_markup cs\<close>
  \<open>template_markup (''<td>'' @ cs) = template_markup cs\<close>
  \<open>template_markup (''</td>'' @ cs) = template_markup cs\<close>
  \<open>template_markup (''<td class="status-'' @ cs) = template_markup cs\<close>
  \<open>template_markup (''<td class="hash">'' @ cs) = template_markup cs\<close>
  \<open>template_markup (''<article class="event">'' @ cs) = template_markup cs\<close>
  \<open>template_markup (''</article>'' @ cs) = template_markup cs\<close>
  \<open>template_markup (''<h3>'' @ cs) = template_markup cs\<close>
  \<open>template_markup (''</h3>'' @ cs) = template_markup cs\<close>
  \<open>template_markup (''<span class="kind">'' @ cs) = template_markup cs\<close>
  \<open>template_markup (''<span class="pos">'' @ cs) = template_markup cs\<close>
  \<open>template_markup (''</span>'' @ cs) = template_markup cs\<close>
  \<open>template_markup (''<time>'' @ cs) = template_markup cs\<close>
  \<open>template_markup (''</time>'' @ cs) = template_markup cs\<close>
  \<open>template_markup (''<p class="headline">'' @ cs) = template_markup cs\<close>
  \<open>template_markup (''<table class="fields">'' @ cs) = template_markup cs\<close>
  \<open>template_markup (''<th scope="row">'' @ cs) = template_markup cs\<close>
  \<open>template_markup (''<code>'' @ cs) = template_markup cs\<close>
  \<open>template_markup (''</code>'' @ cs) = template_markup cs\<close>
  \<open>template_markup (''<td class="value">'' @ cs) = template_markup cs\<close>
  \<open>template_markup (''<footer>'' @ cs) = template_markup cs\<close>
  \<open>template_markup (''</footer>'' @ cs) = template_markup cs\<close>
  \<open>template_markup (''</main>'' @ cs) = template_markup cs\<close>
  \<open>template_markup (''</body>'' @ cs) = template_markup cs\<close>
  \<open>template_markup (''</html>'' @ cs) = template_markup cs\<close>
  by (rule template_tag, simp add: template_tags_def)+

lemma template_plain: "c \<noteq> CHR ''<'' \<Longrightarrow> template_markup (c # cs) = template_markup cs"
  by simp

declare template_markup.simps(2) [simp del]

lemmas markup_simps = tag_rules [unfolded append.simps] template_plain template_after_clear

lemma html_head_markup: "list_all template_markup (html_head v m)"
  by (simp add: html_head_def markup_simps clear_style)

lemma html_verdict_markup:
  assumes "html_verdict v = Inr ls" and "verification_shape v"
  shows "list_all template_markup ls"
proof -
  from assms(2) obtain w where w: "py_str (dget_or v ''verdict'' (JStr ''UNKNOWN'')) = verdict_value w"
    by (auto simp: verification_shape_def dget_or_dget)
  have "clear (map lower_char (verdict_value w))"
    by (cases w; simp add: lower_char_def Let_def; code_simp)
  with assms(1) w show ?thesis
    by (auto simp: html_verdict_def verdict_line_def sbind_eq_Inr markup_simps Let_def)
qed

lemma every_image: "(\<And>x. P (f x)) \<Longrightarrow> list_all P (map f xs)"
  by (simp add: list_all_iff)

lemma every_concat: "(\<And>x. list_all P (f x)) \<Longrightarrow> list_all P (concat (map f xs))"
  by (simp add: list_all_iff)

lemma html_identity_markup: "list_all template_markup (html_identity rows)"
  by (simp add: html_identity_def markup_simps every_image split_beta)

lemma html_record_markup: "template_markup (html_record r)"
  by (simp add: html_record_def markup_simps Let_def)

lemma html_chain_markup:
  assumes "html_chain v = Inr ls" and "verification_shape v"
  shows "list_all template_markup ls"
proof -
  from assms(2) obtain n where "dget_or v ''record_count'' (JInt 0) = JInt n"
    by (auto simp: verification_shape_def dget_or_dget)
  with assms(1) show ?thesis
    by (auto simp: html_chain_def sbind_eq_Inr markup_simps html_record_markup every_image)
qed

lemma html_event_markup: "list_all template_markup (html_event p)"
  by (cases p) (simp add: html_event_def markup_simps every_image split_beta Let_def)

lemma html_previews_markup: "html_previews p = Inr ls \<Longrightarrow> list_all template_markup ls"
  by (auto simp: html_previews_def sbind_eq_Inr markup_simps split: if_splits)

lemma html_timeline_markup: "html_timeline t = Inr ls \<Longrightarrow> list_all template_markup ls"
  by (auto simp: html_timeline_def sbind_eq_Inr markup_simps every_concat html_event_markup dest: html_previews_markup)

lemma collect_all: "collect f xs = Inr ys \<Longrightarrow> (\<And>x y. f x = Inr y \<Longrightarrow> P y) \<Longrightarrow> list_all P ys"
  by (induction xs arbitrary: ys) (auto simp: sbind_eq_Inr)

lemma html_redaction_markup: "html_redaction j = Inr s \<Longrightarrow> template_markup s"
  by (auto simp: html_redaction_def sbind_eq_Inr markup_simps)

lemma html_redactions_markup:
  assumes "html_redactions r = Inr ls" and "redaction_shape r"
  shows "list_all template_markup ls"
proof -
  from assms(2) obtain totals n m where "sub_dict r ''totals'' = Inr totals"
    "dget_or totals ''redacted_fields'' (JInt 0) = JInt n" "dget_or totals ''actions_with_redactions'' (JInt 0) = JInt m"
    by (auto simp: redaction_shape_def sub_dict_def dget_or_dget)
  with assms(1) show ?thesis
    by (auto simp: html_redactions_def sbind_eq_Inr markup_simps dest!: collect_all [OF _ html_redaction_markup] split: if_splits)
qed

lemma html_contents_markup: "html_contents m = Inr ls \<Longrightarrow> list_all template_markup ls"
  by (auto simp: html_contents_def sbind_eq_Inr markup_simps every_image split_beta)

lemma render_html_markup:
  assumes "documents_shape version b ds" and html: "render_html ds = Inr html"
  shows "template_markup html"
proof -
  from html obtain banner rows chain story redactions contents where parts:
    "html_verdict (dm_verification ds) = Inr banner" "html_chain (dm_verification ds) = Inr chain"
    "html_timeline (dm_timeline ds) = Inr story" "html_redactions (dm_redaction ds) = Inr redactions"
    "html_contents (dm_manifest ds) = Inr contents"
    and html': "html = str_join [CHR 0x0A]
         (html_head (fst (verdict_line (dm_verification ds))) (dm_manifest ds) @ banner @ html_identity rows @
          chain @ story @ redactions @ contents @
          [''<footer><h2>Verifying this bundle</h2><p>'' @ escape (JStr how_to_verify) @ ''</p></footer>'',
           ''</main></body></html>'']) @ [CHR 0x0A]"
    by (auto simp: render_html_def sbind_eq_Inr)
  have foot: "template_markup (''<footer><h2>Verifying this bundle</h2><p>'' @ escape (JStr how_to_verify) @ ''</p></footer>'')"
    "template_markup ''</main></body></html>''"
    by (simp_all add: markup_simps)
  have "list_all template_markup
      (html_head (fst (verdict_line (dm_verification ds))) (dm_manifest ds) @ banner @ html_identity rows @
       chain @ story @ redactions @ contents @
       [''<footer><h2>Verifying this bundle</h2><p>'' @ escape (JStr how_to_verify) @ ''</p></footer>'',
        ''</main></body></html>''])"
    unfolding list_all_append list.pred_inject
    using assms(1) parts foot html_head_markup html_identity_markup html_verdict_markup html_chain_markup
      html_timeline_markup html_redactions_markup html_contents_markup
    by (simp add: documents_shape_def)
  then show ?thesis
    unfolding html' by (intro template_append template_lines) (simp_all add: template_plain)
qed

section \<open>The reports of a bundle\<close>

lemma report_names: "markdown_file \<noteq> html_file" "html_file \<noteq> markdown_file"
  by (simp_all add: markdown_file_def html_file_def)

lemma attached_files:
  assumes "b_rendered b = []"
  shows "bundle_files (attach html_file h (attach markdown_file md b)) = bundle_files b @ [(markdown_file, md), (html_file, h)]"
proof -
  have fresh: "markdown_file \<notin> fst ` set (bundle_files b)" "html_file \<notin> fst ` set (bundle_files b)"
    using assms by (auto simp: bundle_files_def documents_def markdown_file_def html_file_def verification_file_def
        timeline_file_def redaction_file_def receipt_file_name_def split: option.splits)
  have "bundle_files (attach html_file h (attach markdown_file md b)) =
      AList.update html_file h (AList.update markdown_file md (bundle_files b))"
    using assms by (simp add: bundle_files_def attach_def documents_def report_names)
  then show ?thesis
    using fresh by (simp add: update_fresh report_names)
qed

lemma attach_reports_parts:
  "attach_reports version b = Inr b' \<longleftrightarrow>
    (\<exists>ds md html. bundle_documents version b = Inr ds \<and> render_markdown ds = Inr md \<and> render_html ds = Inr html \<and>
      b' = attach html_file html (attach markdown_file md b))"
  by (auto simp: attach_reports_def sbind_eq_Inr)

lemma build_bundle_rendered: "build_bundle now ev redact_previews = Inr b \<Longrightarrow> b_rendered b = []"
  by (auto simp: build_bundle_def sbind_eq_Inr Let_def)

text \<open>C34. \<open>reports_are_inert\<close>: rendering never fails on a bundle built from any evidence, and whatever the evidence
  holds, every \<open><\<close> of the HTML report opens one of the renderer's own tags, none of which is a
  script, a link or an image.\<close>

theorem reports_are_inert:
  assumes "build_bundle now ev redact_previews = Inr b"
  shows "\<exists>b' md html. attach_reports version b = Inr b' \<and> bundle_files b' = bundle_files b @ [(markdown_file, md), (html_file, html)] \<and>
    template_markup html"
proof -
  from build_bundle_documents [OF assms, of version] obtain ds where
    ds: "bundle_documents version b = Inr ds" "documents_shape version b ds" by blast
  from render_built [OF ds(2)] obtain md html where r: "render_markdown ds = Inr md" "render_html ds = Inr html" by blast
  with ds attach_reports_parts [of version b] attached_files [OF build_bundle_rendered [OF assms]] render_html_markup [OF ds(2) r(2)]
  show ?thesis by (intro exI [of _ "attach html_file html (attach markdown_file md b)"] exI [of _ md] exI [of _ html]) blast
qed

lemma document_hashes_cong:
  assumes "dget m ''files'' = JObj fs" and "dget m' ''files'' = JObj fs'"
    and "\<forall>n \<in> set json_document_files. map_of fs n = map_of fs' n"
  shows "document_hashes m = document_hashes m'"
proof -
  have "filter (dhas fs) json_document_files = filter (dhas fs') json_document_files"
    using assms(3) by (intro filter_cong) (auto simp: dhas_def)
  moreover have "map (\<lambda>n. (n, dget fs n)) (filter (dhas fs') json_document_files) =
      map (\<lambda>n. (n, dget fs' n)) (filter (dhas fs') json_document_files)"
    using assms(3) by (intro map_cong refl) (auto simp: dget_def)
  ultimately show ?thesis
    using assms(1,2) by (simp add: document_hashes_def sub_dict_or_def)
qed

lemma digests_lookup: "map_of (digests b) n = map_option (\<lambda>t. JStr (sha256_text t)) (map_of (bundle_files b) n)"
proof -
  have d: "distinct (map fst (bundle_files b))" using distinct_file_names [of b] by (simp add: file_names_def)
  then have "map_of (sort_key fst (bundle_files b)) = map_of (bundle_files b)"
    by (intro map_of_inject_set [THEN iffD2]) (simp_all add: distinct_map)
  then show ?thesis by (simp add: digests_def map_of_map)
qed

lemma attach_keeps [simp]:
  "b_session_id (attach n t b) = b_session_id b" "b_verification (attach n t b) = b_verification b"
  "b_timeline (attach n t b) = b_timeline b" "b_redaction (attach n t b) = b_redaction b"
  "b_agent (attach n t b) = b_agent b" "b_source_backend (attach n t b) = b_source_backend b"
  "b_source_location (attach n t b) = b_source_location b" "b_generated_at (attach n t b) = b_generated_at b"
  "b_receipt (attach n t b) = b_receipt b" "b_rendered (attach n t b) = AList.update n t (b_rendered b)"
  by (simp_all add: attach_def)

lemma attach_twice: "b_rendered b = [] \<Longrightarrow> n \<noteq> n' \<Longrightarrow>
  attach n t (attach n' t' (attach n t (attach n' t' b))) = attach n t (attach n' t' b)"
  by (simp add: attach_def)

lemma render_same_manifest:
  assumes "identity_rows m (dm_timeline ds) = identity_rows (dm_manifest ds) (dm_timeline ds)"
    and "document_hashes m = document_hashes (dm_manifest ds)"
    and "dget_or m ''session_id'' (JStr []) = dget_or (dm_manifest ds) ''session_id'' (JStr [])"
  shows "render_markdown (ds\<lparr>dm_manifest := m\<rparr>) = render_markdown ds"
    and "render_html (ds\<lparr>dm_manifest := m\<rparr>) = render_html ds"
  using assms by (simp_all add: render_markdown_def render_html_def md_contents_def html_contents_def html_head_def)

text \<open>\<open>rendering_again_changes_nothing\<close>: rendering a bundle that already carries its reports, whose manifest
  therefore lists them, gives the same two reports and the same manifest.\<close>

theorem rendering_again_changes_nothing:
  assumes "build_bundle now ev redact_previews = Inr b" and "attach_reports version b = Inr b'"
  shows "attach_reports version b' = Inr b'"
proof -
  from assms(2) obtain ds md html where r: "bundle_documents version b = Inr ds" "render_markdown ds = Inr md"
    "render_html ds = Inr html" "b' = attach html_file html (attach markdown_file md b)"
    by (auto simp: attach_reports_parts)
  note fresh = build_bundle_rendered [OF assms(1)]
  have files: "bundle_files b' = bundle_files b @ [(markdown_file, md), (html_file, html)]"
    using attached_files [OF fresh] r(4) by simp
  from r(1) obtain m where m: "manifest version b = Inr m" "dm_manifest ds = m"
    by (auto simp: bundle_documents_def sbind_eq_Inr)
  then obtain v where v: "dindex (b_verification b) ''verdict'' = Inr v" by (auto simp: manifest_def sbind_eq_Inr)
  define m' where "m' = dset ''files'' (JObj (digests b')) m"
  have m': "manifest version b' = Inr m'"
    using m(1) v r(4) by (auto simp: manifest_def digests_def m'_def dset_def)
  have key: "dget_or m' k z = dget_or m k z" "dget m' k = dget m k" if "k \<noteq> ''files''" for k z
    using that by (simp_all add: m'_def dget_or_def map_of_dset dict_simps)
  have "\<forall>n \<in> set json_document_files. map_of (digests b') n = map_of (digests b) n"
    unfolding digests_lookup files
    by (auto simp: json_document_files_def map_add_def markdown_file_def html_file_def verification_file_def
        timeline_file_def redaction_file_def split: option.splits)
  with manifest_files [OF m(1)] have "document_hashes m' = document_hashes m"
    by (intro document_hashes_cong [of _ "digests b'" _ "digests b"]) (simp_all add: m'_def dict_simps dindex_Inr_dget)
  moreover have "identity_rows m' t = identity_rows m t" for t
    by (simp add: identity_rows_def sub_dict_or_def key)
  ultimately have "render_markdown (ds\<lparr>dm_manifest := m'\<rparr>) = Inr md" "render_html (ds\<lparr>dm_manifest := m'\<rparr>) = Inr html"
    using render_same_manifest [of m' ds] m(2) r(2,3) key(1) [of "''session_id''"] by simp_all
  moreover have "bundle_documents version b' = Inr (ds\<lparr>dm_manifest := m'\<rparr>)"
    using r(1,4) m m' by (auto simp: bundle_documents_def)
  ultimately show ?thesis
    using attach_twice [OF fresh report_names(2), of html md] r(4) by (auto simp: attach_reports_parts)
qed

text \<open>\<open>report_leads_with_the_verdict\<close>: the Markdown report of an exported session file begins with the verdict the
  offline verifier gives for that file.\<close>

theorem report_leads_with_the_verdict:
  assumes "export_local now (Some ls) location stem receipt redact_previews = Inr b"
  shows "\<exists>v ds rest. verify_session_local (Some (map sl_stripped ls)) = Inr v \<and> bundle_documents version b = Inr ds \<and>
    render_markdown ds = Inr (''# '' @ verdict_value (vr_verdict v) @ '' -- RootSign evidence bundle'' @ [CHR 0x0A] @ rest)"
proof -
  from export_local_parts [OF assms] obtain v where v: "verify_session_local (Some (map sl_stripped ls)) = Inr v"
    "dindex (b_verification b) ''verdict'' = Inr (JStr (verdict_value (vr_verdict v)))" by blast
  from assms obtain ev where "build_bundle now ev redact_previews = Inr b"
    by (auto simp: export_local_def sbind_eq_Inr)
  from build_bundle_documents [OF this, of version] obtain ds where
    ds: "bundle_documents version b = Inr ds" "documents_shape version b ds" by blast
  from render_built [OF ds(2)] obtain md html where r: "render_markdown ds = Inr md" by blast
  from ds(1) have "dm_verification ds = b_verification b" by (auto simp: bundle_documents_def sbind_eq_Inr)
  with v(2) have w: "py_str (dget_or (dm_verification ds) ''verdict'' (JStr ''UNKNOWN'')) = verdict_value (vr_verdict v)"
    by (simp add: dget_or_def dindex_eq_Inr)
  have join: "str_join sep (x # y # ys) = x @ sep @ str_join sep (y # ys)" for sep x y ys by simp
  from r have "\<exists>rest. md = ''# '' @ verdict_value (vr_verdict v) @ '' -- RootSign evidence bundle'' @ [CHR 0x0A] @ rest"
    by (auto simp: render_markdown_def md_verdict_def verdict_line_def sbind_eq_Inr w Let_def)
  with v(1) ds(1) r show ?thesis by blast
qed

text \<open>\<open>receipt_digest_not_in_report\<close>: the bundle of a synced session contains the receipt and its manifest lists the
  receipt's digest, but the report, which says it gives the digest of each machine-readable document,
  leaves it out.\<close>

theorem receipt_digest_not_in_report:
  assumes "build_bundle now ev redact_previews = Inr b" and "ed_receipt ev = Some r" and "manifest version b = Inr m"
  shows "dhas (digests b) receipt_file_name \<and> dget m ''files'' = JObj (digests b) \<and>
    (\<exists>hashes. document_hashes m = Inr hashes \<and> receipt_file_name \<notin> fst ` set hashes)"
proof -
  have f: "dget m ''files'' = JObj (digests b)" using manifest_files [OF assms(3)] by (simp add: dindex_Inr_dget)
  have "b_receipt b = Some r" "b_rendered b = []"
    using assms(1,2) by (auto simp: build_bundle_def sbind_eq_Inr Let_def)
  then have "map_of (bundle_files b) receipt_file_name \<noteq> None"
    by (auto simp: bundle_files_def documents_def receipt_file_name_def)
  then have "dhas (digests b) receipt_file_name" by (auto simp: dhas_def digests_lookup)
  moreover have "\<exists>hashes. document_hashes m = Inr hashes \<and> receipt_file_name \<notin> fst ` set hashes"
    using f by (auto simp: document_hashes_def sub_dict_or_def json_document_files_def receipt_file_name_def
        verification_file_def timeline_file_def redaction_file_def)
  ultimately show ?thesis using f by blast
qed

lemma sample_built: "\<exists>b. build_bundle ''t'' (sample_evidence []) False = Inr b"
  by (simp add: build_bundle_def build_verification_def sample_evidence_def proof_record_def record_status_def
      clean_result_def replay_block_def Let_def decide_def)

theorem reports_are_inert_witness:
  "\<exists>b b' html. build_bundle ''t'' (sample_evidence []) False = Inr b \<and> attach_reports ''1'' b = Inr b' \<and>
     (html_file, html) \<in> set (bundle_files b') \<and> template_markup html"
proof -
  from sample_built obtain b where b: "build_bundle ''t'' (sample_evidence []) False = Inr b" by blast
  from reports_are_inert [OF b, of "''1''"] b show ?thesis by force
qed

theorem rendering_again_changes_nothing_witness:
  "\<exists>b'. attach_reports ''1'' b' = Inr b' \<and> b_rendered b' \<noteq> []"
proof -
  from sample_built obtain b where b: "build_bundle ''t'' (sample_evidence []) False = Inr b" by blast
  from build_bundle_documents [OF b, of "''1''"] render_built obtain ds md html where
    "bundle_documents ''1'' b = Inr ds" "render_markdown ds = Inr md" "render_html ds = Inr html" by blast
  then have a: "attach_reports ''1'' b = Inr (attach html_file html (attach markdown_file md b))"
    by (simp add: attach_reports_def)
  from rendering_again_changes_nothing [OF b a] show ?thesis
    by (intro exI [of _ "attach html_file html (attach markdown_file md b)"])
      (simp add: build_bundle_rendered [OF b] report_names)
qed

theorem report_leads_with_the_verdict_witness:
  "\<exists>b ds rest. export_local ''t'' (Some (sample_lines [sample_record, forged_record])) ''f'' ''s'' None False = Inr b \<and>
     bundle_documents ''1'' b = Inr ds \<and>
     render_markdown ds = Inr (''# TAMPERED -- RootSign evidence bundle'' @ [CHR 0x0A] @ rest)"
proof -
  obtain b where b: "export_local ''t'' (Some (sample_lines [sample_record, forged_record])) ''f'' ''s'' None False = Inr b"
    by (simp add: export_local_def sample_load build_bundle_def build_verification_def proof_record_def record_status_def
        sample_seq forged_facts num_of_def replay_block_def Let_def)
  from report_leads_with_the_verdict [OF b, of "''1''"] sample_verify b show ?thesis by auto
qed

theorem receipt_digest_not_in_report_witness:
  "\<exists>b m hashes. build_bundle ''t'' (sample_evidence []\<lparr>ed_receipt := Some []\<rparr>) False = Inr b \<and>
     manifest ''1'' b = Inr m \<and> document_hashes m = Inr hashes \<and> receipt_file_name \<notin> fst ` set hashes"
proof -
  have "\<exists>b. build_bundle ''t'' (sample_evidence []\<lparr>ed_receipt := Some []\<rparr>) False = Inr b"
    by (simp add: build_bundle_def build_verification_def sample_evidence_def proof_record_def record_status_def
        clean_result_def replay_block_def replay_summary_def Let_def decide_def dict_simps
        items_def dict_or_empty_def py_or_def)
  then obtain b where b: "build_bundle ''t'' (sample_evidence []\<lparr>ed_receipt := Some []\<rparr>) False = Inr b" by blast
  from build_bundle_documents [OF b, of "''1''"] obtain m where m: "manifest ''1'' b = Inr m"
    by (auto simp: documents_shape_def)
  have "ed_receipt (sample_evidence []\<lparr>ed_receipt := Some []\<rparr>) = Some []" by simp
  from receipt_digest_not_in_report [OF b this m] b m show ?thesis by blast
qed

text \<open>\<open>tool_name_forges_status\<close>: the table of chain statuses does not escape its cells, so a tool whose name holds a
  column break is shown in Markdown with the status its name carries, whatever its record's status is.\<close>

theorem tool_name_forges_status:
  assumes "dget_or r ''tool_name'' (JStr ''?'') = JStr (t @ '' | verified'')"
  shows "prefix (''| '' @ py_str (dget_or r ''sequence_number'' (JStr ''?'')) @ '' | '' @ t @ '' | verified | '') (md_record r)"
  using assms by (simp add: md_record_def prefix_def)

theorem tool_name_forges_status_witness:
  "prefix ''| 7 | pay | verified | '' (md_record [(''sequence_number'', JInt 7), (''tool_name'', JStr ''pay | verified''),
     (''chain_status'', JStr ''failed'')])"
proof -
  have n: "nat_str 7 = ''7''" by code_simp
  show ?thesis
    using tool_name_forges_status [of "[(''sequence_number'', JInt 7), (''tool_name'', JStr ''pay | verified''),
        (''chain_status'', JStr ''failed'')]" "''pay''"]
    by (simp add: dict_simps py_str_def int_str_def n)
qed

end
