(* ===== verification/Cli.thy ===== *)
theory Cli
  imports Report Approval_Store
begin

text \<open>
  \<^verbatim>\<open>rootsign/sdk/cli.py\<close>: the commands \<open>verify\<close>, \<open>export\<close> and \<open>approve\<close>. A command ends with an exit
  code and the lines it printed, or raises. Arguments arrive parsed by typer. Files and directories
  are given as what is read from them; \<open>factory\<close> is the store, or the message of the missing
  \<open>postgres\<close> extra; colours are left out, and characters outside Latin-1 are written as \<open>v\<close>, \<open>x\<close>, \<open>!\<close>
  and two hyphens.
\<close>

datatype cli_line = Out string | Err string

datatype cli_exit = Cli_Exit int "cli_line list" | Cli_Raise pyexc "cli_line list" | Cli_Store store_exn "cli_line list"

definition exit_status :: "cli_exit \<Rightarrow> int option" where
  "exit_status x = (case x of Cli_Exit n _ \<Rightarrow> Some n | _ \<Rightarrow> None)"

definition not_a_uuid :: "string \<Rightarrow> cli_exit" where
  "not_a_uuid s = Cli_Exit 1 [Err (''Error: '' @ repr_str s @ '' is not a valid UUID.'')]"

section \<open>verify\<close>

definition detail_line :: "problem option \<Rightarrow> cli_line list" where
  "detail_line e = (case e of None \<Rightarrow> [] | Some p \<Rightarrow> [Out (''  Detail:   '' @ problem_text p)])"

definition session_line :: "verify_result \<Rightarrow> cli_line" where
  "session_line v = Out (''  Session:  '' @ py_str (vr_session_id v))"

definition print_result :: "verify_result \<Rightarrow> bool \<Rightarrow> cli_line list" where
  "print_result v verbose =
     (if vr_verdict v = INCOMPLETE
      then [Out (''INCOMPLETE !  --  '' @ nat_str (vr_record_count v) @
                 '' records present and intact, but the chain is missing records'')] @
           detail_line (vr_error v) @
           [session_line v,
            Out (''The records present verify cleanly; the gap is proven by the chain itself. '' @
                 ''Check for a spooled session that was never synced (`rootsign-admin sync`) or a deleted row.'')]
      else if vr_valid v
      then [Out (''VALID v  --  '' @ nat_str (vr_record_count v) @ '' records, chain intact''), session_line v] @
           (if verbose \<and> vr_record_count v > 0
            then [Out ''  (per-record detail not yet implemented for DB path)''] else [])
      else [Out (''TAMPERED x  --  chain broken at record #'' @ py_str (vr_first_invalid_sequence v))] @
           detail_line (vr_error v) @
           (if vr_missing_ranges v = [] then []
            else [Out (''  Missing:  sequence '' @ describe_missing (vr_missing_ranges v))]) @
           [session_line v, Out ''WARNING: This session log may have been tampered with.''])"

definition sync_breadcrumb :: string where "sync_breadcrumb = ''rootsign-admin sync''"

text \<open>\<open>spooled\<close>: what \<open>is_spool_path\<close> returns, \<open>None\<close> when it raises.\<close>

definition spool_breadcrumb :: "bool option \<Rightarrow> cli_line list" where
  "spool_breadcrumb spooled =
     (if spooled = Some True
      then [Out ([CHR 0x0A] @ ''This is a spooled session -- recorded locally because the cloud endpoint was '' @
                 ''unreachable.'' @ [CHR 0x0A] @ ''Upload it (and everything else waiting) with:'' @ [CHR 0x0A, CHR 0x0A] @
                 ''    '' @ sync_breadcrumb @ [CHR 0x0A])]
      else [])"

definition verify_local_command :: "json option list option \<Rightarrow> bool option \<Rightarrow> bool \<Rightarrow> cli_exit" where
  "verify_local_command file spooled verbose =
     (case verify_session_local file of
        Inl e \<Rightarrow> Cli_Raise e []
      | Inr v \<Rightarrow> Cli_Exit (exit_code (vr_verdict v)) (print_result v verbose @ spool_breadcrumb spooled))"

definition verify_remote_command :: "string + db \<Rightarrow> uuid \<Rightarrow> bool \<Rightarrow> cli_exit" where
  "verify_remote_command factory sid verbose =
     (case factory of
        Inl hint \<Rightarrow> Cli_Exit 1 [Err (''Error: '' @ hint)]
      | Inr d \<Rightarrow>
          (case verify_session sid d of
             Inl e \<Rightarrow> Cli_Raise e []
           | Inr v \<Rightarrow> Cli_Exit (exit_code (vr_verdict v)) (print_result v verbose)))"

text \<open>\<open>local\<close>: the file \<open>--local\<close> names and whether it is in a spool.\<close>

definition verify_command ::
  "string option \<Rightarrow> (json option list option \<times> bool option) option \<Rightarrow> bool \<Rightarrow> string + db \<Rightarrow> cli_exit" where
  "verify_command session_id local verbose factory =
     (case local of
        Some (file, spooled) \<Rightarrow> verify_local_command file spooled verbose
      | None \<Rightarrow>
          (case session_id of
             Some s \<Rightarrow> (case uuid_of_str s of None \<Rightarrow> not_a_uuid s | Some u \<Rightarrow> verify_remote_command factory u verbose)
           | None \<Rightarrow> Cli_Exit 1 [Err ''Error: provide a session_id or --local path'']))"

section \<open>export\<close>

definition export_formats :: "string list" where
  "export_formats = [''all'', ''json'', ''md'', ''html'']"

definition without :: "string \<Rightarrow> evidence_bundle \<Rightarrow> evidence_bundle" where
  "without name b = b\<lparr>b_rendered := AList.delete name (b_rendered b)\<rparr>"

definition render_format :: "string \<Rightarrow> string \<Rightarrow> evidence_bundle \<Rightarrow> pyexc + evidence_bundle" where
  "render_format version fmt b =
     (if fmt = ''json'' then Inr b
      else sbind (attach_reports version b) (\<lambda>b'.
        Inr (if fmt = ''md'' then without html_file b'
             else if fmt = ''html'' then without markdown_file b' else b')))"

definition verdict_banner :: "dict \<Rightarrow> cli_line" where
  "verdict_banner verification =
     Out (py_str (py_or (dget verification ''summary'') (JStr (py_str (dget verification ''verdict'')))))"

text \<open>\<open>target\<close>: what is at \<open>evidence-<session_id>\<close> under the output directory, whose path is \<open>where\<close>.\<close>

definition finish_export ::
  "(nat \<Rightarrow> fault) \<Rightarrow> string \<Rightarrow> string \<Rightarrow> string \<Rightarrow> bool \<Rightarrow> evidence_bundle \<Rightarrow> folder option \<Rightarrow> cli_exit \<times> folder option" where
  "finish_export faults version path fmt force b0 target =
     (case render_format version fmt b0 of
        Inl e \<Rightarrow> (Cli_Raise e [], target)
      | Inr b \<Rightarrow>
          (case write_bundle faults version b force target of
             (Inl BundleExists, t) \<Rightarrow>
               (Cli_Exit 1 [Err (''Error: '' @ path @ '' already exists and is not empty. Export to a different --out '' @
                                 ''directory, or remove it first.  (use --force to overwrite)'')], t)
           | (Inl (WriteFailed e), t) \<Rightarrow> (Cli_Exit 1 [Err (''Error: could not write the bundle ('' @ e @ '')'')], t)
           | (Inl (ManifestFailed e), t) \<Rightarrow> (Cli_Raise e [], t)
           | (Inr _, t) \<Rightarrow>
               (case manifest_hash version b of
                  Inl e \<Rightarrow> (Cli_Raise e [], t)
                | Inr h \<Rightarrow>
                    (Cli_Exit 0
                       ([verdict_banner (b_verification b), Out (''  Bundle:   '' @ path)] @
                        map (\<lambda>n. Out (''            '' @ n)) (sort (file_names b)) @
                        [Out ''            manifest.json'', Out [], Out (''  manifest.json SHA-256:  '' @ h),
                         Out ''  Record that hash outside the bundle -- a ticket, an email, a chain-of-custody log.'',
                         Out ''  It is what proves a bundle you receive later is the one that was generated.'']), t))))"

definition export_local_command ::
  "(nat \<Rightarrow> fault) \<Rightarrow> string \<Rightarrow> string \<Rightarrow> string \<Rightarrow> source_line list option \<Rightarrow> string \<Rightarrow> string \<Rightarrow> dict option \<Rightarrow>
    string \<Rightarrow> bool \<Rightarrow> bool \<Rightarrow> folder option \<Rightarrow> cli_exit \<times> folder option" where
  "export_local_command faults version now path file location stem receipt fmt redact_previews force target =
     (if fmt \<notin> set export_formats
      then (Cli_Exit 1 [Err (''Error: --format must be one of '' @ str_join '', '' export_formats @ '', got '' @
                             repr_str fmt @ ''.'')], target)
      else (case export_local now file location stem receipt redact_previews of
              Inl FileNotFoundError \<Rightarrow> (Cli_Exit 1 [Err (''Error: Session file not found: '' @ location)], target)
            | Inl e \<Rightarrow> (Cli_Raise e [], target)
            | Inr b \<Rightarrow> finish_export faults version path fmt force b target))"

definition check_command :: "(nat list \<Rightarrow> json option) \<Rightarrow> folder \<Rightarrow> cli_exit" where
  "check_command loads d =
     (case check_bundle loads d of
        Inl e \<Rightarrow> Cli_Raise e []
      | Inr c \<Rightarrow>
          Cli_Exit (if bundle_intact c then 0 else 1)
            ([Out ((if bundle_intact c then ''v'' else ''x'') @ ''  '' @ check_summary c)] @
             map (\<lambda>n. Out (''  altered:     '' @ n)) (bc_altered c) @
             map (\<lambda>n. Out (''  missing:     '' @ n)) (bc_missing c) @
             map (\<lambda>n. Out (''  unexpected:  '' @ n @ ''  (not listed in manifest.json)'')) (bc_unexpected c) @
             (case bc_manifest_hash c of
                None \<Rightarrow> []
              | Some h \<Rightarrow> if h = [] then []
                  else [Out [], Out (''  manifest.json SHA-256:  '' @ h),
                        Out ''  Compare this against the hash recorded when the bundle was exported.'',
                        Out ''  The file checks above cannot detect an edit that also updated the manifest.''])))"

section \<open>approve\<close>

text \<open>\<open>instant\<close> orders the timestamps the store returns.\<close>

definition pending_actions :: "(string \<Rightarrow> int) \<Rightarrow> db \<Rightarrow> action_row list" where
  "pending_actions instant d =
     take 20 (sort_key (\<lambda>a. - instant (ar_timestamp a))
       (filter (\<lambda>a. ar_authorization_status a = ''pending'') (db_actions d)))"

definition pad_right :: "nat \<Rightarrow> string \<Rightarrow> string" where
  "pad_right n s = s @ replicate (n - length s) (CHR '' '')"

definition pending_line :: "action_row \<Rightarrow> cli_line" where
  "pending_line a =
     Out (''  '' @ uuid_str (ar_action_id a) @ ''  '' @ pad_right 30 (ar_tool_name a) @ ''  session='' @
          uuid_str (ar_session_id a) @ ''  submitted='' @ ar_timestamp a)"

definition list_pending_approvals :: "(string \<Rightarrow> int) \<Rightarrow> string + db \<Rightarrow> cli_exit" where
  "list_pending_approvals instant factory =
     (case factory of
        Inl hint \<Rightarrow> Cli_Exit 1 [Err (''Error: '' @ hint)]
      | Inr d \<Rightarrow>
          let actions = pending_actions instant d
          in if actions = [] then Cli_Exit 0 [Out ''No pending approvals.'']
             else Cli_Exit 0 (Out (''Pending approvals ('' @ nat_str (length actions) @ ''):'') # map pending_line actions))"

text \<open>\<open>user\<close>: \<open>getpass.getuser()\<close>, \<open>None\<close> when it raises.\<close>

definition approver_of :: "string option \<Rightarrow> string" where
  "approver_of user = (case user of None \<Rightarrow> ''cli:operator'' | Some u \<Rightarrow> ''cli:'' @ u)"

text \<open>Other sessions may commit votes between the lookup and the write: \<open>others\<close>. \<open>approval_id\<close> and
  \<open>now\<close> are those of the row written.\<close>

definition submit_approval ::
  "string option \<Rightarrow> vote list \<Rightarrow> uuid \<Rightarrow> int \<Rightarrow> uuid \<Rightarrow> string \<Rightarrow> string option \<Rightarrow> db \<Rightarrow> cli_exit \<times> db" where
  "submit_approval user others approval_id now action_id decision reason d =
     (case one_or_none (filter (\<lambda>a. ar_action_id a = action_id \<and> ar_authorization_status a = ''pending'') (db_actions d)) of
        Inl e \<Rightarrow> (Cli_Store e [], votes others d)
      | Inr None \<Rightarrow>
          (Cli_Exit 1 [Err (''Error: no pending action found with ID '' @ uuid_str action_id @ ''.'')], votes others d)
      | Inr (Some action) \<Rightarrow>
          (case create_with_chain_link approval_id now (ar_action_id action) (ar_timestamp action) (approver_of user)
                  ''human'' decision reason None (votes others d) of
             (Inl (Ingest ActionAlreadyResolvedError m), d') \<Rightarrow>
               (Cli_Exit 1 [Err (''Error: action '' @ uuid_str action_id @
                  '' was already resolved between selection and write ('' @ m @ '').'')], d')
           | (Inl (Ingest ActionNotFoundError m), d') \<Rightarrow> (Cli_Exit 1 [Err (''Error: '' @ m)], d')
           | (Inl e, d') \<Rightarrow> (Cli_Store e [], d')
           | (Inr _, d') \<Rightarrow>
               (Cli_Exit 0 [Out ((if decision = ''approved'' then ''v'' else ''x'') @ ''  Action '' @
                  uuid_str action_id @ '' '' @ decision @ ''.'')], d')))"

definition approve_command ::
  "string option \<Rightarrow> bool \<Rightarrow> string option \<Rightarrow> bool \<Rightarrow> (string \<Rightarrow> int) \<Rightarrow> string option \<Rightarrow> vote list \<Rightarrow> uuid \<Rightarrow> int \<Rightarrow>
    string + db \<Rightarrow> cli_exit \<times> (string + db)" where
  "approve_command action_id reject reason list_pending instant user others approval_id now factory =
     (if list_pending then (list_pending_approvals instant factory, factory)
      else (case action_id of
              None \<Rightarrow> (Cli_Exit 1 [Err ''Error: provide an action_id, or use --list to see pending approvals.''], factory)
            | Some s \<Rightarrow>
                (case uuid_of_str s of
                   None \<Rightarrow> (not_a_uuid s, factory)
                 | Some u \<Rightarrow>
                     (case factory of
                        Inl hint \<Rightarrow> (Cli_Exit 1 [Err (''Error: '' @ hint)], factory)
                      | Inr d \<Rightarrow>
                          (case submit_approval user others approval_id now u (if reject then ''rejected'' else ''approved'') reason d of
                             (x, d') \<Rightarrow> (x, Inr d'))))))"

section \<open>What the commands promise\<close>

text \<open>\<open>verify_exit_is_the_verdict\<close>: over a file whose action records are numbered by integers, \<open>verify --local\<close>
  exits with 1 when some record or link is broken, with 0 when the numbers are dense from 1, and
  otherwise with 2.\<close>

theorem verify_exit_is_the_verdict:
  assumes "ds \<noteq> []" and "int_keyed (filter is_action_record ds)"
  shows "exit_status (verify_command sid (Some (file_of ds, spooled)) verbose factory) =
    Some (if \<not> intact (filter is_action_record ds) then 1
          else if absent (seqs (filter is_action_record ds)) = {} then 0 else 2)"
proof -
  from verify_local_characterised [OF assms] obtain v where "verify_session_local (file_of ds) = Inr v"
    "vr_verdict v = (if \<not> intact (filter is_action_record ds) then TAMPERED
                     else if absent (seqs (filter is_action_record ds)) = {} then VALID else INCOMPLETE)" by blast
  then show ?thesis by (simp add: verify_command_def verify_local_command_def exit_status_def)
qed

theorem verify_exit_is_the_verdict_witness:
  "exit_status (verify_command None (Some (file_of [sample_record], None)) False (Inl [])) = Some 0"
proof -
  have i: "intact [sample_record]" "int_keyed [sample_record]"
    using intact_subchain [OF sample_facts(1), of "[sample_record]"] by simp_all
  have a: "absent (seqs [sample_record]) = {}"
    unfolding chained_set_seqs [OF sample_facts(1)] by (simp add: absent_def)
  show ?thesis
    using verify_exit_is_the_verdict [of "[sample_record]" None None False "Inl []"] i a sample_facts(4) by simp
qed

text \<open>\<open>unknown_session_verifies\<close>: asked about a session the store has no action of, a mistyped id for one,
  \<open>verify\<close> reports VALID and exits with 0.\<close>

theorem unknown_session_verifies:
  assumes "\<forall>a \<in> set (db_actions d). ar_session_id a \<noteq> u"
  shows "verify_command (Some (uuid_str u)) None verbose (Inr d) =
    Cli_Exit 0 [Out ''VALID v  --  0 records, chain intact'', Out (''  Session:  '' @ uuid_str u)]"
proof -
  have n: "nat_str 0 = ''0''" by code_simp
  have "get_session_chain u d = []" using assms by (simp add: get_session_chain_def filter_empty_conv)
  then have "verify_session u d = Inr \<lparr>vr_verdict = VALID, vr_record_count = 0, vr_session_id = JStr (uuid_str u),
      vr_first_invalid_sequence = JNull, vr_error = None, vr_missing_ranges = []\<rparr>"
    by (simp add: verify_session_def verify_chain_def report_def decide_def Let_def)
  then show ?thesis
    by (simp add: verify_command_def verify_remote_command_def uuid_parse_str print_result_def vr_valid_def session_line_def n)
qed

theorem unknown_session_verifies_witness:
  "exit_status (verify_command (Some (uuid_str 5)) None False
     (Inr \<lparr>db_agents = [], db_sessions = Map.empty, db_actions = [], db_decisions = [], db_approvals = []\<rparr>)) = Some 0"
  using unknown_session_verifies [of "\<lparr>db_agents = [], db_sessions = Map.empty, db_actions = [], db_decisions = [], db_approvals = []\<rparr>" 5 False]
  by (simp add: exit_status_def)

lemma terminal_not_pending: "ar_authorization_status a = ''pending'' \<Longrightarrow> \<not> terminal a"
  by (simp add: terminal_def terminal_auth_states_def)

lemma human_vote:
  assumes "create_with_chain_link i now aid ts who ''human'' (if reject then ''rejected'' else ''approved'') reason None d = (r, d')"
  shows "(\<exists>e. r = Inl e \<and> d' = d) \<or>
    (\<exists>b row. r = Inr row \<and> filter (\<lambda>r. ar_action_id r = aid \<and> ar_timestamp r = ts) (db_actions d) = [b] \<and> \<not> terminal b \<and>
      pr_approver_id row = who \<and> pr_approver_type row = ''human'' \<and>
      d' = set_status (\<lambda>r. ar_action_id r = aid \<and> ar_timestamp r = ts)
             (if reject then ''human_rejected'' else ''human_approved'') (add_approval row d))"
  using assms unfolding create_with_chain_link_def Let_def
  by (cases reject)
    (auto simp: decision_to_auth_status_def timeout_approver_type_def one_or_none_Some split: sum.splits option.splits if_splits)

text \<open>C35. \<open>approval_lands_or_nothing\<close>: \<open>approve\<close> exits with 0 only if the action was pending when looked up and was not
  resolved by others before the write; then exactly one row moves, to the decision given, with an
  approval of the person at the terminal on record. In every other case it writes nothing.\<close>

theorem approval_lands_or_nothing:
  assumes "submit_approval user others approval_id now action_id (if reject then ''rejected'' else ''approved'') reason d = (x, d')"
  shows "if exit_status x = Some 0
    then \<exists>a b row. a \<in> set (db_actions d) \<and> ar_action_id a = action_id \<and> ar_authorization_status a = ''pending'' \<and>
      filter (\<lambda>r. ar_action_id r = action_id \<and> ar_timestamp r = ar_timestamp a) (db_actions (votes others d)) = [b] \<and>
      \<not> terminal b \<and> pr_approver_id row = approver_of user \<and> pr_approver_type row = ''human'' \<and>
      d' = set_status (\<lambda>r. ar_action_id r = action_id \<and> ar_timestamp r = ar_timestamp a)
             (if reject then ''human_rejected'' else ''human_approved'') (add_approval row (votes others d))
    else d' = votes others d"
proof -
  let ?sel = "filter (\<lambda>a. ar_action_id a = action_id \<and> ar_authorization_status a = ''pending'') (db_actions d)"
  show ?thesis
  proof (cases "one_or_none ?sel")
    case (Inl e)
    with assms show ?thesis by (auto simp: submit_approval_def exit_status_def)
  next
    case (Inr found)
    show ?thesis
    proof (cases found)
      case None
      with Inr assms show ?thesis by (auto simp: submit_approval_def exit_status_def)
    next
      case (Some a)
      with Inr have sel: "?sel = [a]" by (simp add: one_or_none_Some)
      then have "a \<in> set ?sel" by simp
      then have a: "a \<in> set (db_actions d)" "ar_action_id a = action_id" "ar_authorization_status a = ''pending''"
        by simp_all
      obtain r D where w: "create_with_chain_link approval_id now action_id (ar_timestamp a) (approver_of user) ''human''
          (if reject then ''rejected'' else ''approved'') reason None (votes others d) = (r, D)"
        by (metis surj_pair)
      from human_vote [OF w] show ?thesis
      proof (elim disjE exE conjE)
        fix e
        assume "r = Inl e" "D = votes others d"
        with assms Inr Some a w show ?thesis
          by (auto simp: submit_approval_def exit_status_def split: store_exn.splits ingest_error.splits)
      next
        fix b row
        assume r: "r = Inr row" and b: "filter (\<lambda>r. ar_action_id r = action_id \<and> ar_timestamp r = ar_timestamp a)
            (db_actions (votes others d)) = [b]" "\<not> terminal b" "pr_approver_id row = approver_of user"
          "pr_approver_type row = ''human''" "D = set_status (\<lambda>r. ar_action_id r = action_id \<and> ar_timestamp r = ar_timestamp a)
             (if reject then ''human_rejected'' else ''human_approved'') (add_approval row (votes others d))"
        from r assms Inr Some a w have "exit_status x = Some 0" "d' = D"
          by (auto simp: submit_approval_def exit_status_def)
        with a b show ?thesis by auto
      qed
    qed
  qed
qed

theorem approval_lands_or_nothing_witness:
  "\<exists>x d'. submit_approval (Some ''bob'') [] 30 5 7 ''rejected'' None sample_pending = (x, d') \<and> exit_status x = Some 0 \<and>
     (\<exists>row. pr_approver_id row = ''cli:bob'' \<and> row \<in> set (db_approvals d'))"
proof -
  obtain x d' where s: "submit_approval (Some ''bob'') [] 30 5 7 ''rejected'' None sample_pending = (x, d')"
    by (metis surj_pair)
  obtain a where "db_actions sample_pending = [a]" "ar_action_id a = 7" "ar_authorization_status a = ''pending''"
    using sample_pending_actions by blast
  with s have x: "exit_status x = Some 0"
    by (auto simp: submit_approval_def one_or_none_def create_with_chain_link_def terminal_def terminal_auth_states_def
        timeout_approver_type_def decision_to_auth_status_def exit_status_def Let_def)
  have "submit_approval (Some ''bob'') [] 30 5 7 (if True then ''rejected'' else ''approved'') None sample_pending = (x, d')"
    using s by simp
  from approval_lands_or_nothing [OF this] x s show ?thesis
    by (auto simp: approver_of_def set_status_rows)
qed

lemma attached_rendered:
  "b_rendered b0 = [] \<Longrightarrow> attach_reports version b0 = Inr b \<Longrightarrow>
    \<exists>md html. b_rendered b = [(markdown_file, md), (html_file, html)]"
  by (auto simp: attach_reports_parts report_names)

lemma render_format_rendered:
  assumes "b_rendered b0 = []" and "render_format version fmt b0 = Inr b"
  shows "set (map fst (b_rendered b)) \<subseteq> {markdown_file, html_file}"
proof (cases "fmt = ''json''")
  case True
  with assms show ?thesis by (simp add: render_format_def)
next
  case False
  with assms(2) obtain b' where b': "attach_reports version b0 = Inr b'"
    and b: "b = (if fmt = ''md'' then without html_file b' else if fmt = ''html'' then without markdown_file b' else b')"
    by (auto simp: render_format_def sbind_eq_Inr)
  from attached_rendered [OF assms(1) b'] obtain md html where
    "b_rendered b' = [(markdown_file, md), (html_file, html)]" by blast
  with b show ?thesis by (simp add: without_def report_names)
qed

lemma manifest_not_report: "manifest_file \<notin> {markdown_file, html_file}"
  by (simp add: manifest_file_def markdown_file_def html_file_def)

lemma finish_export_ok:
  assumes "render_format version fmt b0 = Inr b" and "manifest version b = Inr m"
    and "write_bundle (\<lambda>_. None) version b force target = (Inr (), t)"
  shows "\<exists>out. finish_export (\<lambda>_. None) version path fmt force b0 target = (Cli_Exit 0 out, t) \<and>
    Out (''  manifest.json SHA-256:  '' @ sha256_text (document_text (JObj m))) \<in> set out"
  using assms by (simp add: finish_export_def manifest_hash_def)

text \<open>\<open>exported_bundle_passes_check\<close>: exporting a session file that can be read, in any format, to a directory that
  does not exist exits with 0; \<open>export --check\<close> of that directory then exits with 0 and prints the
  manifest hash the export printed.\<close>

theorem exported_bundle_passes_check:
  assumes "fmt \<in> set export_formats" and "export_local now (Some ls) location stem receipt redact_previews = Inr b0"
    and "render_format version fmt b0 = Inr b" and "manifest version b = Inr m"
    and "loads (utf8 (document_text (JObj m))) = Some (JObj m)"
  shows "\<exists>out d out' h.
    export_local_command (\<lambda>_. None) version now path (Some ls) location stem receipt fmt redact_previews force None =
      (Cli_Exit 0 out, Some d) \<and>
    check_command loads d = Cli_Exit 0 out' \<and>
    Out (''  manifest.json SHA-256:  '' @ h) \<in> set out \<and> Out (''  manifest.json SHA-256:  '' @ h) \<in> set out'"
proof -
  from export_local_parts [OF assms(2)] have fresh: "b_rendered b0 = []" by blast
  have new: "manifest_file \<notin> fst ` set (b_rendered b)" using render_format_rendered [OF fresh assms(3)] manifest_not_report by auto
  let ?raw = "utf8 (document_text (JObj m))" and ?h = "sha256_text (document_text (JObj m))"
  let ?d = "put manifest_file ?raw (put_all (bundle_files b) (empty_folder (\<lambda>_. None)))"
  have ok: "\<forall>i. (\<lambda>_. None :: fault) i = None" by simp
  have w: "write_bundle (\<lambda>_. None) version b force None = (Inr (), Some ?d)"
    using write_into_ok [OF ok assms(4)] by (simp add: write_bundle_def empty_folder_def)
  from finish_export_ok [OF assms(3,4) w] obtain out where
    "finish_export (\<lambda>_. None) version path fmt force b0 None = (Cli_Exit 0 out, Some ?d)"
    "Out (''  manifest.json SHA-256:  '' @ ?h) \<in> set out" by blast
  with assms(1,2) have e: "export_local_command (\<lambda>_. None) version now path (Some ls) location stem receipt fmt
      redact_previews force None = (Cli_Exit 0 out, Some ?d)" "Out (''  manifest.json SHA-256:  '' @ ?h) \<in> set out"
    by (simp_all add: export_local_command_def)
  from written_bundle_checks [where loads = loads, OF assms(4) new assms(5), of "empty_folder (\<lambda>_. None)"] obtain c :: bundle_check where
    c: "check_bundle loads ?d = Inr c" "bundle_intact c" "bc_manifest_hash c = Some ?h"
    by (auto simp: empty_folder_def)
  have "?h \<noteq> []" by (simp add: sha256_text_def)
  with c have "\<exists>out'. check_command loads ?d = Cli_Exit 0 out' \<and> Out (''  manifest.json SHA-256:  '' @ ?h) \<in> set out'"
    by (simp add: check_command_def)
  with e show ?thesis by blast
qed

text \<open>\<open>forced_export_fails_check\<close>: exporting with the reports and then again with \<open>--format json --force\<close> exits with
  0 both times, and the check of the result exits with 1: the reports of the first export are still
  there and the second manifest does not list them.\<close>

theorem forced_export_fails_check:
  assumes "export_local now (Some ls) location stem receipt redact_previews = Inr b0"
    and "attach_reports version b0 = Inr b" and "manifest version b0 = Inr m" and "manifest version b = Inr m'"
    and "loads (utf8 (document_text (JObj m))) = Some (JObj m)"
  shows "\<exists>out d out' d' out''.
    export_local_command (\<lambda>_. None) version now path (Some ls) location stem receipt ''all'' redact_previews False None =
      (Cli_Exit 0 out, Some d) \<and>
    export_local_command (\<lambda>_. None) version now path (Some ls) location stem receipt ''json'' redact_previews True (Some d) =
      (Cli_Exit 0 out', Some d') \<and>
    check_command loads d' = Cli_Exit 1 out''"
proof -
  from export_local_parts [OF assms(1)] have fresh: "b_rendered b0 = []" by blast
  have ok: "\<forall>i. (\<lambda>_. None :: fault) i = None" by simp
  let ?d = "put manifest_file (utf8 (document_text (JObj m'))) (put_all (bundle_files b) (empty_folder (\<lambda>_. None)))"
  let ?d' = "put manifest_file (utf8 (document_text (JObj m))) (put_all (bundle_files b0) ?d)"
  have r: "render_format version ''all'' b0 = Inr b" "render_format version ''json'' b0 = Inr b0"
    using assms(2) by (simp_all add: render_format_def)
  have w: "write_bundle (\<lambda>_. None) version b False None = (Inr (), Some ?d)"
    using write_into_ok [OF ok assms(4)] by (simp add: write_bundle_def empty_folder_def)
  have w': "write_bundle (\<lambda>_. None) version b0 True (Some ?d) = (Inr (), Some ?d')"
    using write_into_ok [OF ok assms(3)] by (simp add: write_bundle_def)
  from finish_export_ok [OF r(1) assms(4) w] finish_export_ok [OF r(2) assms(3) w'] assms(1)
  have e: "\<exists>out. export_local_command (\<lambda>_. None) version now path (Some ls) location stem receipt ''all'' redact_previews False None =
      (Cli_Exit 0 out, Some ?d)"
    "\<exists>out. export_local_command (\<lambda>_. None) version now path (Some ls) location stem receipt ''json'' redact_previews True (Some ?d) =
      (Cli_Exit 0 out, Some ?d')"
    by (auto simp: export_local_command_def export_formats_def)
  from assms(2) obtain md html where "bundle_files b = bundle_files b0 @ [(markdown_file, md), (html_file, html)]"
    using attached_files [OF fresh] by (auto simp: attach_reports_parts)
  then have stale: "markdown_file \<in> fst ` set (fo_files ?d)" "markdown_file \<noteq> manifest_file" "markdown_file \<notin> set (file_names b0)"
    using fresh by (auto simp only: put_simps put_all_names) (auto simp: file_names_def bundle_files_def documents_def
        markdown_file_def manifest_file_def verification_file_def timeline_file_def redaction_file_def receipt_file_name_def
        split: option.splits)
  from stale_file_found [where loads = loads, OF assms(3,5) stale(1,3,2)] obtain c :: bundle_check where
    c: "check_bundle loads ?d' = Inr c" "\<not> bundle_intact c" by blast
  then have "\<exists>out. check_command loads ?d' = Cli_Exit 1 out" by (simp add: check_command_def)
  with e show ?thesis by blast
qed

lemma sample_exported:
  obtains b0 b m m' where
    "export_local ''t'' (Some (sample_lines [sample_record, forged_record])) ''f'' ''s'' None False = Inr b0"
    "attach_reports ''1'' b0 = Inr b" "manifest ''1'' b0 = Inr m" "manifest ''1'' b = Inr m'"
proof -
  obtain b0 where e: "export_local ''t'' (Some (sample_lines [sample_record, forged_record])) ''f'' ''s'' None False = Inr b0"
    by (simp add: export_local_def sample_load build_bundle_def build_verification_def proof_record_def record_status_def
        sample_seq forged_facts num_of_def replay_block_def Let_def)
  then obtain ev where "build_bundle ''t'' ev False = Inr b0" by (auto simp: export_local_def sbind_eq_Inr)
  from build_bundle_documents [OF this, of "''1''"] obtain ds where
    ds: "bundle_documents ''1'' b0 = Inr ds" "documents_shape ''1'' b0 ds" by blast
  from render_built [OF ds(2)] obtain md html where "render_markdown ds = Inr md" "render_html ds = Inr html" by blast
  with ds(1) have a: "attach_reports ''1'' b0 = Inr (attach html_file html (attach markdown_file md b0))"
    by (simp add: attach_reports_def)
  from ds(2) have m: "manifest ''1'' b0 = Inr (dm_manifest ds)" by (simp add: documents_shape_def)
  then have "\<exists>m'. manifest ''1'' (attach html_file html (attach markdown_file md b0)) = Inr m'"
    by (auto simp: manifest_def sbind_eq_Inr)
  with e a m that show thesis by blast
qed

definition loads_only :: "dict \<Rightarrow> nat list \<Rightarrow> json option" where
  "loads_only m bytes = (if bytes = utf8 (document_text (JObj m)) then Some (JObj m) else None)"

theorem exported_bundle_passes_check_witness:
  "\<exists>loads out d out'. export_local_command (\<lambda>_. None) ''1'' ''t'' ''p'' (Some (sample_lines [sample_record, forged_record]))
      ''f'' ''s'' None ''all'' False False None = (Cli_Exit 0 out, Some d) \<and> check_command loads d = Cli_Exit 0 out'"
proof -
  obtain b0 b m m' where
    b: "export_local ''t'' (Some (sample_lines [sample_record, forged_record])) ''f'' ''s'' None False = Inr b0"
    "attach_reports ''1'' b0 = Inr b" "manifest ''1'' b = Inr m'"
    by (rule sample_exported)
  then have r: "render_format ''1'' ''all'' b0 = Inr b" by (simp add: render_format_def)
  have f: "''all'' \<in> set export_formats" by (simp add: export_formats_def)
  have l: "loads_only m' (utf8 (document_text (JObj m'))) = Some (JObj m')" by (simp add: loads_only_def)
  from exported_bundle_passes_check [where loads = "loads_only m'" and path = "''p''" and force = False, OF f b(1) r b(3) l]
  show ?thesis by blast
qed

theorem forced_export_fails_check_witness:
  "\<exists>loads out d out' d' out''.
    export_local_command (\<lambda>_. None) ''1'' ''t'' ''p'' (Some (sample_lines [sample_record, forged_record]))
      ''f'' ''s'' None ''all'' False False None = (Cli_Exit 0 out, Some d) \<and>
    export_local_command (\<lambda>_. None) ''1'' ''t'' ''p'' (Some (sample_lines [sample_record, forged_record]))
      ''f'' ''s'' None ''json'' False True (Some d) = (Cli_Exit 0 out', Some d') \<and>
    check_command loads d' = Cli_Exit 1 out''"
proof -
  obtain b0 b m m' where
    b: "export_local ''t'' (Some (sample_lines [sample_record, forged_record])) ''f'' ''s'' None False = Inr b0"
    "attach_reports ''1'' b0 = Inr b" "manifest ''1'' b0 = Inr m" "manifest ''1'' b = Inr m'"
    by (rule sample_exported)
  have "loads_only m (utf8 (document_text (JObj m))) = Some (JObj m)" by (simp add: loads_only_def)
  from forced_export_fails_check [where loads = "loads_only m" and path = "''p''", OF b this] show ?thesis by blast
qed

end
