(* ===== verification/Stored_Evidence.thy ===== *)
theory Stored_Evidence
  imports Cli Agent_Registry
begin

text \<open>
  \<^verbatim>\<open>rootsign/sdk/export.py\<close>, the source in Postgres, and the \<open>export\<close> command of
  \<^verbatim>\<open>rootsign/sdk/cli.py\<close> with every one of its modes. A stored session is read into the same
  evidence as a session file; the bundle is then built by the same code. Columns the store model
  does not carry, how instants are written and how they are ordered are the fields of
  \<open>stored_columns\<close>, by the primary key of their row.

  The lemmas compare the two sources: the chain proof of a stored session and that of a file with
  the same actions are the same document, failures included.
\<close>

section \<open>Rows as documents\<close>

record stored_columns =
  sc_start_time :: "uuid \<Rightarrow> string"
  sc_isoformat :: "int \<Rightarrow> string"
  sc_instant :: "string \<Rightarrow> int"
  sc_confidence :: "uuid \<Rightarrow> json"
  sc_alternatives :: "uuid \<Rightarrow> string list option"
  sc_inputs_summary :: "uuid \<Rightarrow> string option"
  sc_latency :: "uuid \<Rightarrow> int option"
  sc_context :: "uuid \<Rightarrow> json"

definition opt_int :: "int option \<Rightarrow> json" where
  "opt_int x = (case x of None \<Rightarrow> JNull | Some i \<Rightarrow> JInt i)"

definition names_list :: "string list option \<Rightarrow> json" where
  "names_list xs = JArr (map JStr (case xs of None \<Rightarrow> [] | Some xs \<Rightarrow> xs))"

definition iso_instant :: "stored_columns \<Rightarrow> int option \<Rightarrow> json" where
  "iso_instant cols t = opt_str (map_option (sc_isoformat cols) t)"

definition agent_block :: "agent_row option \<Rightarrow> dict option" where
  "agent_block row =
     (case row of
        None \<Rightarrow> None
      | Some g \<Rightarrow> Some
          [(''agent_id'', JStr (uuid_str (gr_agent_id g))),
           (''name'', JStr (rq_name (gr_agent g))),
           (''owner'', JStr (rq_owner (gr_agent g))),
           (''environment'', JStr (rq_environment (gr_agent g))),
           (''risk_tier'', JStr (rq_risk_tier (gr_agent g))),
           (''framework'', JStr (rq_framework (gr_agent g))),
           (''model_version'', opt_str (rq_model_version (gr_agent g))),
           (''regulatory_categories'', names_list (Some (rq_regulatory_categories (gr_agent g))))])"

definition action_dict :: "action_row \<Rightarrow> dict" where
  "action_dict a =
     [(''action_id'', JStr (uuid_str (ar_action_id a))),
      (''sequence_number'', JInt (ar_sequence_number a)),
      (''timestamp'', JStr (ar_timestamp a)),
      (''tool_name'', JStr (ar_tool_name a)),
      (''input_hash'', JStr (ar_input_hash a)),
      (''output_hash'', opt_str (ar_output_hash a)),
      (''prev_action_hash'', opt_str (ar_prev_action_hash a)),
      (''self_hash'', JStr (ar_self_hash a)),
      (''input_redacted'', ar_input_redacted a),
      (''output_redacted'', ar_output_redacted a),
      (''authorization_status'', JStr (ar_authorization_status a)),
      (''duration_ms'', opt_int (ar_duration_ms a)),
      (''decision_id'', opt_str (map_option uuid_str (ar_decision_id a)))]"

definition decision_dict :: "stored_columns \<Rightarrow> decision_row \<Rightarrow> dict" where
  "decision_dict cols r =
     [(''decision_id'', JStr (uuid_str (dr_decision_id r))),
      (''timestamp'', JStr (dr_timestamp r)),
      (''selected_action'', JStr (dr_selected_action r)),
      (''confidence'', sc_confidence cols (dr_decision_id r)),
      (''alternatives_considered'', names_list (sc_alternatives cols (dr_decision_id r))),
      (''reasoning_summary'', opt_str (dr_reasoning_summary r)),
      (''inputs_summary'', opt_str (sc_inputs_summary cols (dr_decision_id r)))]"

definition approval_dict :: "stored_columns \<Rightarrow> approval_row \<Rightarrow> dict" where
  "approval_dict cols p =
     [(''approval_id'', JStr (uuid_str (pr_approval_id p))),
      (''action_id'', JStr (uuid_str (pr_action_id p))),
      (''timestamp'', iso_instant cols (Some (pr_timestamp p))),
      (''approver_id'', JStr (pr_approver_id p)),
      (''approver_type'', JStr (pr_approver_type p)),
      (''decision'', JStr (pr_decision p)),
      (''decision_reason'', opt_str (pr_decision_reason p)),
      (''response_latency_ms'', opt_int (sc_latency cols (pr_approval_id p))),
      (''context_presented'', sc_context cols (pr_approval_id p))]"

definition get_by_session :: "stored_columns \<Rightarrow> uuid \<Rightarrow> db \<Rightarrow> decision_row list" where
  "get_by_session cols sid d =
     sort_key (\<lambda>r. sc_instant cols (dr_timestamp r)) (filter (\<lambda>r. dr_session_id r = sid) (db_decisions d))"

definition approvals_of :: "uuid \<Rightarrow> db \<Rightarrow> approval_row list" where
  "approvals_of sid d = sort_key pr_timestamp (filter (\<lambda>p. pr_session_id p = sid) (db_approvals d))"

definition get_agent :: "uuid \<Rightarrow> agent_row list \<Rightarrow> agent_row option" where
  "get_agent i agents = List.find (\<lambda>g. gr_agent_id g = i) agents"

section \<open>Reading a stored session\<close>

datatype load_error = Extra_Missing sdk_error | Lookup_Error string | Load_Raise pyexc

definition stored_session_block :: "stored_columns \<Rightarrow> uuid \<Rightarrow> session_row \<Rightarrow> dict" where
  "stored_session_block cols sid row =
     [(''agent_id'', JStr (uuid_str (sr_agent_id row))),
      (''objective'', opt_str (sr_objective row)),
      (''user_id'', opt_str (sr_user_id row)),
      (''status'', JStr (sr_status row)),
      (''start_time'', JStr (sc_start_time cols sid)),
      (''end_time'', iso_instant cols (sr_end_time row))]"

definition not_found :: "uuid \<Rightarrow> string" where
  "not_found sid = ''Session '' @ uuid_str sid @ '' not found in the configured database''"

definition load_postgres_session ::
  "string + unit \<Rightarrow> stored_columns \<Rightarrow> agent_row list \<Rightarrow> uuid \<Rightarrow> db \<Rightarrow> load_error + evidence" where
  "load_postgres_session imported cols agents sid d =
     (case postgres_extra_required imported of
        Inl e \<Rightarrow> Inl (Extra_Missing e)
      | Inr _ \<Rightarrow>
          (case db_sessions d sid of
             None \<Rightarrow> Inl (Lookup_Error (not_found sid))
           | Some row \<Rightarrow>
               (case verify_session sid d of
                  Inl e \<Rightarrow> Inl (Load_Raise e)
                | Inr v \<Rightarrow> Inr
                    \<lparr>ed_session_id = uuid_str sid, ed_source_backend = ''postgres'', ed_source_location = ''database'',
                     ed_verify = v, ed_session = stored_session_block cols sid row,
                     ed_agent = agent_block (get_agent (sr_agent_id row) agents),
                     ed_actions = map action_dict (get_session_chain sid d),
                     ed_decisions = map (decision_dict cols) (get_by_session cols sid d),
                     ed_approvals = map (approval_dict cols) (approvals_of sid d),
                     ed_losses = [], ed_receipt = None\<rparr>)))"

definition export_session ::
  "string \<Rightarrow> string + unit \<Rightarrow> stored_columns \<Rightarrow> agent_row list \<Rightarrow> uuid \<Rightarrow> db \<Rightarrow> bool \<Rightarrow>
   load_error + evidence_bundle" where
  "export_session now imported cols agents sid d redact_previews =
     sbind (load_postgres_session imported cols agents sid d) (\<lambda>ev.
       case build_bundle now ev redact_previews of Inl e \<Rightarrow> Inl (Load_Raise e) | Inr b \<Rightarrow> Inr b)"

section \<open>The export command\<close>

text \<open>The session factory a command gets: the one already there, or the one the import gives; else
  the hint it prints before it exits with 1.\<close>

definition session_factory :: "'f option \<Rightarrow> string + 'f \<Rightarrow> string + 'f" where
  "session_factory resolved imported =
     (case resolved of
        Some f \<Rightarrow> Inr f
      | None \<Rightarrow>
          (case imported of
             Inl m \<Rightarrow> Inl (extra_message postgres_install_hint (Some (''missing module: '' @ m)))
           | Inr f \<Rightarrow> Inr f))"

definition sdk_error_text :: "sdk_error \<Rightarrow> string" where
  "sdk_error_text e =
     (case e of
        Value_Error m \<Rightarrow> m | Postgres_Extra_Required m \<Rightarrow> m | Cloud_Extra_Required m \<Rightarrow> m
      | Not_Initialized m \<Rightarrow> m | Database_Error m \<Rightarrow> m | Module_Not_Found m \<Rightarrow> m | Other_Error _ \<Rightarrow> [])"

text \<open>\<open>except LookupError\<close> also takes the \<open>KeyError\<close> and the \<open>IndexError\<close> of the code below it.\<close>

definition export_remote_command ::
  "(nat \<Rightarrow> fault) \<Rightarrow> string \<Rightarrow> string \<Rightarrow> string \<Rightarrow> string + db \<Rightarrow> string + unit \<Rightarrow> stored_columns \<Rightarrow> agent_row list \<Rightarrow>
    uuid \<Rightarrow> string \<Rightarrow> bool \<Rightarrow> bool \<Rightarrow> folder option \<Rightarrow> cli_exit \<times> folder option" where
  "export_remote_command faults version now path fac imported cols agents sid fmt redact_previews force target =
     (case fac of
        Inl hint \<Rightarrow> (Cli_Exit 1 [Err (''Error: '' @ hint)], target)
      | Inr d \<Rightarrow>
          (case export_session now imported cols agents sid d redact_previews of
             Inl (Extra_Missing e) \<Rightarrow> (Cli_Exit 1 [Err (''Error: '' @ sdk_error_text e)], target)
           | Inl (Lookup_Error m) \<Rightarrow> (Cli_Exit 1 [Err (''Error: '' @ m)], target)
           | Inl (Load_Raise (KeyError k)) \<Rightarrow> (Cli_Exit 1 [Err (''Error: '' @ repr_str k)], target)
           | Inl (Load_Raise IndexError) \<Rightarrow> (Cli_Exit 1 [Err ''Error: list index out of range''], target)
           | Inl (Load_Raise e) \<Rightarrow> (Cli_Raise e [], target)
           | Inr b \<Rightarrow> finish_export faults version path fmt force b target))"

text \<open>What the command line names: the directory of \<open>--check\<close>, the file of \<open>--local\<close> with what reading
  it needs, the session id.\<close>

record export_request =
  er_check :: "folder option"
  er_local :: "(source_line list option \<times> string \<times> string \<times> dict option) option"
  er_session_id :: "string option"
  er_format :: string
  er_redact_previews :: bool
  er_force :: bool

definition export_command ::
  "(nat list \<Rightarrow> json option) \<Rightarrow> (nat \<Rightarrow> fault) \<Rightarrow> string \<Rightarrow> string \<Rightarrow> string \<Rightarrow> string + db \<Rightarrow> string + unit \<Rightarrow>
    stored_columns \<Rightarrow> agent_row list \<Rightarrow> export_request \<Rightarrow> folder option \<Rightarrow> cli_exit \<times> folder option" where
  "export_command loads faults version now path fac imported cols agents rq target =
     (case er_check rq of
        Some d \<Rightarrow> (check_command loads d, target)
      | None \<Rightarrow>
          if er_format rq \<notin> set export_formats
          then (Cli_Exit 1 [Err (''Error: --format must be one of '' @ str_join '', '' export_formats @ '', got '' @
                                 repr_str (er_format rq) @ ''.'')], target)
          else (case er_local rq of
                  Some (file, location, stem, receipt) \<Rightarrow>
                    export_local_command faults version now path file location stem receipt (er_format rq)
                      (er_redact_previews rq) (er_force rq) target
                | None \<Rightarrow>
                    (case er_session_id rq of
                       Some s \<Rightarrow>
                         (case uuid_of_str s of
                            None \<Rightarrow> (not_a_uuid s, target)
                          | Some u \<Rightarrow>
                              export_remote_command faults version now path fac imported cols agents u (er_format rq)
                                (er_redact_previews rq) (er_force rq) target)
                     | None \<Rightarrow>
                         (Cli_Exit 1 [Err ''Error: provide a session_id, --local <path>, or --check <dir>.''], target))))"

section \<open>The two walks\<close>

definition row_failed :: "row_failure \<Rightarrow> failure" where
  "row_failed f = (case f of (k, i, e) \<Rightarrow> (k, JInt i, e))"

text \<open>Over rows that repeat no sequence number the store's walk stops where the offline one does, for
  the same reason.\<close>

lemma walk_rows_dicts:
  assumes "distinct (map ar_sequence_number rs)" and "set seen \<inter> ar_sequence_number ` set rs = {}"
  shows "walk gaps (opt_str prev) (map row_dict rs) =
    (case walk_rows gaps seen prev rs of Inl e \<Rightarrow> Inl e | Inr f \<Rightarrow> Inr (map_option row_failed f))"
  using assms
proof (induction rs arbitrary: seen prev)
  case (Cons r rs)
  have new: "ar_sequence_number r \<notin> set seen" using Cons.prems by auto
  have h: "compute_action_self_hash (row_canonical r) = Inr (hash_of (row_canonical r))"
    "compute_action_self_hash (row_dict r) = Inr (hash_of (row_canonical r))"
    using self_hash_total [of "row_canonical r"] self_hash_total [of "row_dict r"] by simp_all
  have IH: "walk gaps (JStr (ar_self_hash r)) (map row_dict rs) =
      (case walk_rows gaps (ar_sequence_number r # seen) (Some (ar_self_hash r)) rs of
         Inl e \<Rightarrow> Inl e | Inr f \<Rightarrow> Inr (map_option row_failed f))"
    using Cons.IH [of "ar_sequence_number r # seen" "Some (ar_self_hash r)"] Cons.prems by (auto simp: opt_str_def)
  have link: "link_ok gaps (opt_str prev) (row_dict r) =
      (if or_none (ar_prev_action_hash r) \<noteq> prev then explains_break (JInt (ar_sequence_number r)) gaps else Inr True)"
    by (simp add: link_ok_def)
  show ?case
  proof (cases "ar_self_hash r = hash_of (row_canonical r)")
    case False
    then show ?thesis using new h by (auto simp: row_failed_def Let_def)
  next
    case True
    define L where "L = (if or_none (ar_prev_action_hash r) \<noteq> prev
      then explains_break (JInt (ar_sequence_number r)) gaps else Inr True)"
    have rows: "walk_rows gaps seen prev (r # rs) = sbind L (\<lambda>linked.
        if \<not> linked then Inr (Some (PREV_HASH_MISMATCH, ar_sequence_number r, PrevHashBroken))
        else (case payload_binding_error r of
                Some err \<Rightarrow> Inr (Some (PAYLOAD_BINDING, ar_sequence_number r, err))
              | None \<Rightarrow> walk_rows gaps (ar_sequence_number r # seen) (Some (ar_self_hash r)) rs))"
      using new h True by (simp add: L_def Let_def del: if_split)
    have dicts: "walk gaps (opt_str prev) (map row_dict (r # rs)) = sbind L (\<lambda>linked.
        if \<not> linked then Inr (Some (PREV_HASH_MISMATCH, JInt (ar_sequence_number r), PrevHashBroken))
        else (case payload_binding_error r of
                Some err \<Rightarrow> Inr (Some (PAYLOAD_BINDING, JInt (ar_sequence_number r), err))
              | None \<Rightarrow> walk gaps (JStr (ar_self_hash r)) (map row_dict rs)))"
      using h True
      by (cases L) (auto simp: link L_def [symmetric] payload_binding_error_def binding_broken_def)
    show ?thesis
    proof (cases L)
      case (Inr ok)
      then show ?thesis unfolding rows dicts
        by (cases ok; cases "payload_binding_error r") (simp_all add: IH row_failed_def)
    qed (simp only: rows dicts, simp)
  qed
qed simp

text \<open>A stored session without a repeated number gets the offline verifier's result on its rows.\<close>

definition numbered_once :: "uuid \<Rightarrow> db \<Rightarrow> bool" where
  "numbered_once sid d \<longleftrightarrow> get_session_chain sid d \<noteq> [] \<and> distinct (map ar_sequence_number (get_session_chain sid d))"

lemma rows_sorted: "sort_key seq_of (map row_dict (get_session_chain sid d)) = map row_dict (get_session_chain sid d)"
  using get_session_chain_sorted [of sid d] by (intro sort_key_id_if_sorted) (simp add: comp_def)

lemma rows_keyed: "int_keyed (map row_dict rs)"
  by (simp add: int_keyed_def list_all_iff)

lemma verify_session_as_records:
  assumes "numbered_once sid d"
  shows "verify_session sid d = verify_records (JStr (uuid_str sid)) (map row_dict (get_session_chain sid d))"
proof -
  let ?rs = "get_session_chain sid d"
  let ?gaps = "missing_ranges (map (\<lambda>a. JInt (ar_sequence_number a)) ?rs)"
  have ne: "?rs \<noteq> []" and dist: "distinct (map ar_sequence_number ?rs)" using assms by (simp_all add: numbered_once_def)
  have gaps: "map seq_key (map row_dict ?rs) = map (\<lambda>a. JInt (ar_sequence_number a)) ?rs" by (simp add: comp_def)
  have nodup: "first_duplicate (map row_dict ?rs) = None"
    using first_duplicate_sorted [of "map row_dict ?rs"] get_session_chain_sorted [of sid d] rows_keyed dist
    by (simp add: comp_def)
  have walk: "walk ?gaps JNull (map row_dict ?rs) =
      (case walk_rows ?gaps [] None ?rs of Inl e \<Rightarrow> Inl e | Inr f \<Rightarrow> Inr (map_option row_failed f))"
    using walk_rows_dicts [OF dist, of "[]" ?gaps None] by (simp add: opt_str_def)
  have records: "verify_records (JStr (uuid_str sid)) (map row_dict ?rs) =
      sbind (walk ?gaps JNull (map row_dict ?rs)) (\<lambda>failure. case failure of
         Some f \<Rightarrow> Inr (tampered_result ?gaps (length ?rs) (JStr (uuid_str sid)) f)
       | None \<Rightarrow> Inr (clean_result ?gaps (length ?rs) (JStr (uuid_str sid))))"
    unfolding verify_records_def sort_records_int [OF rows_keyed] rows_sorted sbind_Inr gaps Let_def
    using nodup by simp
  show ?thesis
    unfolding records walk
    using ne by (cases "walk_rows ?gaps [] None ?rs")
      (auto simp: verify_session_def verify_chain_def report_def clean_result_def tampered_result_def row_failed_def Let_def
        split: option.split)
qed

lemma verify_records_perm:
  assumes "mset xs = mset ys" and "int_keyed xs" and "distinct (map seq_of xs)"
  shows "verify_records sid xs = verify_records sid ys"
proof -
  have "int_keyed ys" using assms(2) int_keyed_cong [OF mset_eq_setD [OF assms(1)]] by simp
  moreover have "sort_key seq_of xs = sort_key seq_of ys"
    using assms(3) by (intro sort_key_inj_key_eq) (simp_all add: assms(1) distinct_map)
  ultimately show ?thesis by (simp add: verify_records_def sort_records_int assms(2))
qed

lemma proof_of_row: "proof_record v (action_dict r) = proof_record v (row_dict r)"
  by (simp add: proof_record_def action_dict_def row_dict_def row_canonical_def seq_key_def dict_simps)

lemma collect_map: "collect f (map g xs) = collect (f \<circ> g) xs"
  by (induction xs) simp_all

lemma collect_pointwise:
  assumes "\<forall>x \<in> set xs. \<exists>y. f x = Inr y"
  shows "\<exists>ys. collect f xs = Inr ys \<and> length ys = length xs \<and> (\<forall>i < length xs. f (xs ! i) = Inr (ys ! i))"
  using assms
proof (induction xs)
  case (Cons x xs)
  then obtain y ys where "f x = Inr y" "collect f xs = Inr ys" "length ys = length xs"
    "\<forall>i < length xs. f (xs ! i) = Inr (ys ! i)" by auto
  then show ?case by (intro exI [of _ "y # ys"]) (auto simp: nth_Cons split: nat.split)
qed simp

lemma load_postgres_Inr:
  assumes "load_postgres_session imported cols agents sid d = Inr ev"
  shows "verify_session sid d = Inr (ed_verify ev) \<and> ed_actions ev = map action_dict (get_session_chain sid d) \<and>
    ed_receipt ev = None \<and> ed_losses ev = []"
  using assms by (auto simp: load_postgres_session_def split: sum.splits option.splits)

lemma order_actions_int:
  assumes "int_keyed rs"
  shows "order_actions rs = Inr (sort_key seq_of rs)"
proof -
  have num: "num_of (order_key r) = Some (of_int (seq_of r))" if "r \<in> set rs" for r
    using int_keyed_mem [OF assms that] by (auto simp: order_key_def py_or_def num_of_def truthy_def split: if_splits)
  have "sort_key (\<lambda>r. the (num_of (order_key r))) rs = sort_key (\<lambda>r. of_int (seq_of r) :: rat) rs"
    using num by (intro sort_key_cong_set) simp
  moreover have "sort_key seq_of rs = rs" if "length rs \<le> 1"
    using that by (cases rs) simp_all
  ultimately show ?thesis using num by (simp add: order_actions_def list_all_iff sort_key_of_int)
qed

lemma file_of_rows:
  assumes load: "load_local_session (Some ls) location stem None = Inr ev"
    and raw: "map sl_raw ls = map sl_stripped ls" and lines: "Some (map sl_stripped ls) = file_of ds"
    and once: "numbered_once sid d"
    and same: "mset (filter is_action_record ds) = mset (map row_dict (get_session_chain sid d))"
    and first: "dget (hd ds) ''session_id'' = JStr (uuid_str sid)"
  shows "verify_session sid d = Inr (ed_verify ev) \<and> ed_actions ev = map row_dict (get_session_chain sid d) \<and>
    ed_receipt ev = None"
proof -
  let ?rs = "map row_dict (get_session_chain sid d)" and ?xs = "filter is_action_record ds"
  have ne: "?xs \<noteq> []" using once mset_eq_length [OF same] by (auto simp: numbered_once_def simp del: size_mset)
  then have ds: "ds \<noteq> []" by auto
  have keyed: "int_keyed ?xs" using rows_keyed int_keyed_cong [OF mset_eq_setD [OF same]] by simp
  have "mset (map seq_of ?xs) = mset (map seq_of ?rs)" using same by (simp only: mset_map)
  moreover have "distinct (map seq_of ?rs)" using once by (simp add: numbered_once_def comp_def)
  ultimately have dist: "distinct (map seq_of ?xs)" using mset_eq_imp_distinct_iff by blast
  from load obtain rd where rd: "sort_lines ls \<lparr>rd_session_id = JNull, rd_session = [], rd_actions = [],
      rd_decisions = [], rd_approvals = [], rd_losses = []\<rparr> = Inr rd"
    and ord: "order_actions (rd_actions rd) = Inr (ed_actions ev)"
    and v: "verify_session_local (Some (map sl_stripped ls)) = Inr (ed_verify ev)" and receipt: "ed_receipt ev = None"
    by (auto simp: load_local_session_def sbind_eq_Inr)
  have "map sl_raw ls = map Some (map JObj ds)" using raw lines by (simp only: file_of_def option.inject map_map comp_def)
  from read_values_parsed [OF this] sort_lines_actions [OF rd] have "rd_actions rd = ?xs"
    by (auto simp: as_dicts_JObj)
  with ord order_actions_int [OF keyed] have "ed_actions ev = sort_key seq_of ?xs" by simp
  also have "\<dots> = sort_key seq_of ?rs"
    using dist same by (intro sort_key_inj_key_eq) (simp_all add: distinct_map)
  finally have acts: "ed_actions ev = ?rs" by (simp add: rows_sorted)
  from v lines ds ne first have "verify_records (JStr (uuid_str sid)) ?xs = Inr (ed_verify ev)"
    by (simp add: verify_file_of Let_def)
  with verify_records_perm [OF same keyed dist] verify_session_as_records [OF once] acts receipt show ?thesis by simp
qed

section \<open>What the two sources agree on\<close>

lemma first_invalid_shape:
  assumes "verify_session sid d = Inr v"
  shows "vr_first_invalid_sequence v = JNull \<or> (\<exists>i. vr_first_invalid_sequence v = JInt i)"
  using assms by (auto simp: verify_session_def sbind_eq_Inr split: option.splits)

lemma proof_record_total:
  assumes "vr_first_invalid_sequence v = JNull \<or> (\<exists>i. vr_first_invalid_sequence v = JInt i)"
  shows "\<exists>p. proof_record v (row_dict r) = Inr p"
  using assms by (auto simp: proof_record_def record_status_def num_of_def)


section \<open>What a stored export claims\<close>

lemma walk_rows_failure:
  "walk_rows gaps seen prev rs = Inr (Some (k, i, e)) \<Longrightarrow>
    \<exists>pre r post. rs = pre @ r # post \<and> ar_sequence_number r = i \<and> (\<forall>x \<in> set pre. record_sound (row_dict x))"
proof (induction rs arbitrary: seen prev)
  case (Cons r rs)
  have stop: "?case" if "ar_sequence_number r = i"
    using that by (intro exI [of _ "[]"] exI [of _ r] exI [of _ rs]) simp
  have h: "compute_action_self_hash (row_canonical r) = Inr (hash_of (row_canonical r))"
    by (rule self_hash_total) simp
  show ?case
  proof (cases "ar_sequence_number r = i")
    case True
    then show ?thesis by (rule stop)
  next
    case False
    with Cons.prems h have sound: "record_sound (row_dict r)"
      and rest: "walk_rows gaps (ar_sequence_number r # seen) (Some (ar_self_hash r)) rs = Inr (Some (k, i, e))"
      by (auto simp: Let_def sbind_eq_Inr row_sound split: if_splits option.splits)
    from Cons.IH [OF rest] obtain pre x post where
      "rs = pre @ x # post" "ar_sequence_number x = i" "\<forall>y \<in> set pre. record_sound (row_dict y)" by blast
    with sound show ?thesis
      by (intro exI [of _ "r # pre"] exI [of _ x] exI [of _ post]) simp
  qed
qed simp

lemma stored_verified_sound:
  assumes "verify_session sid d = Inr v" and "r \<in> set (get_session_chain sid d)"
    and "record_status (vr_verdict v) (JInt (ar_sequence_number r)) (vr_first_invalid_sequence v) = Inr ''verified''"
  shows "record_sound (row_dict r)"
proof -
  let ?rs = "get_session_chain sid d"
  obtain c where c: "verify_chain sid d = Inr c" "vr_verdict v = cr_verdict c"
    "vr_first_invalid_sequence v = (case cr_first_invalid_sequence c of None \<Rightarrow> JNull | Some i \<Rightarrow> JInt i)"
    using assms(1) by (auto simp: verify_session_def sbind_eq_Inr)
  show ?thesis
  proof (cases "intact (map row_dict ?rs)")
    case True
    with assms(2) show ?thesis by (simp add: intact_def)
  next
    case False
    with verify_chain_characterised [of sid d] c(1) have bad: "cr_verdict c = TAMPERED" by simp
    let ?gaps = "missing_ranges (map (\<lambda>a. JInt (ar_sequence_number a)) ?rs)"
    from assms(2) have "?rs \<noteq> []" by auto
    with c(1) obtain f where f: "walk_rows ?gaps [] None ?rs = Inr f" "c = report ?gaps (length ?rs) f"
      by (auto simp: verify_chain_def Let_def sbind_eq_Inr)
    with bad obtain k i e where kie: "f = Some (k, i, e)"
      by (cases f) (auto simp: report_def decide_def Let_def split: if_splits)
    from walk_rows_failure [OF f(1) [unfolded kie]] obtain pre x post where
      rs: "?rs = pre @ x # post" and x: "ar_sequence_number x = i" and pre: "\<forall>y \<in> set pre. record_sound (row_dict y)" by blast
    have inv: "vr_first_invalid_sequence v = JInt i" using c(3) f(2) kie by (simp add: report_def Let_def)
    from record_status_verified [OF assms(3)] inv bad c(2) have "ar_sequence_number r < i" by (simp add: num_of_def)
    moreover have "sorted (map ar_sequence_number ?rs)" by (rule get_session_chain_sorted)
    ultimately have "r \<in> set pre" using assms(2) rs x by (fastforce simp: sorted_append)
    with pre show ?thesis by blast
  qed
qed

lemma build_verification_Inr:
  assumes "load_postgres_session imported cols agents sid d = Inr ev"
  shows "\<exists>doc ps. build_verification ev = Inr doc \<and> dget doc ''records'' = JArr (map JObj ps) \<and>
    dget doc ''summary'' = JStr (summary (ed_verify ev)) \<and>
    length ps = length (get_session_chain sid d) \<and>
    (\<forall>i < length ps. proof_record (ed_verify ev) (row_dict (get_session_chain sid d ! i)) = Inr (ps ! i))"
proof -
  let ?rs = "get_session_chain sid d" and ?v = "ed_verify ev"
  have ev: "verify_session sid d = Inr ?v" "ed_actions ev = map action_dict ?rs" "ed_receipt ev = None"
    using load_postgres_Inr [OF assms] by simp_all
  have acts: "collect (proof_record ?v) (ed_actions ev) = collect (proof_record ?v) (map row_dict ?rs)"
    by (simp add: ev collect_map comp_def proof_of_row)
  have "\<forall>a \<in> set (map row_dict ?rs). \<exists>p. proof_record ?v a = Inr p"
    using proof_record_total [OF first_invalid_shape [OF ev(1)]] by auto
  from collect_pointwise [OF this] obtain ps where ps: "collect (proof_record ?v) (map row_dict ?rs) = Inr ps"
    "length ps = length ?rs" "\<forall>i < length ?rs. proof_record ?v (row_dict (?rs ! i)) = Inr (ps ! i)" by auto
  with acts obtain doc where "build_verification ev = Inr doc" "dget doc ''records'' = JArr (map JObj ps)"
      "dget doc ''summary'' = JStr (summary ?v)"
    by (simp add: build_verification_def replay_block_def ev(3) Let_def dict_simps)
  with ps(2,3) show ?thesis by (intro exI [of _ doc] exI [of _ ps]) simp
qed

lemma proof_record_fields:
  assumes "proof_record v a = Inr p"
  shows "\<exists>status. record_status (vr_verdict v) (seq_key a) (vr_first_invalid_sequence v) = Inr status \<and>
    dget p ''chain_status'' = JStr status \<and> dget p ''action_id'' = dget a ''action_id''"
  using assms by (auto simp: proof_record_def sbind_eq_Inr dict_simps)

text \<open>\<open>stored_verified_is_sound\<close>: every stored session that can be loaded has a \<open>verification.json\<close>, with one record
  for each action in sequence order, and a record it marks \<open>verified\<close> has the self-hash of its canonical
  fields and payloads that match their hashes. Unlike for a file, repeated sequence numbers do not
  matter: the store's walk meets them where they are.\<close>

theorem stored_verified_is_sound:
  assumes "load_postgres_session imported cols agents sid d = Inr ev"
  shows "\<exists>doc ps. build_verification ev = Inr doc \<and> dget doc ''records'' = JArr (map JObj ps) \<and>
    length ps = length (get_session_chain sid d) \<and>
    (\<forall>i < length ps. dget (ps ! i) ''action_id'' = JStr (uuid_str (ar_action_id (get_session_chain sid d ! i))) \<and>
       (dget (ps ! i) ''chain_status'' = JStr ''verified'' \<longrightarrow> record_sound (row_dict (get_session_chain sid d ! i))))"
proof -
  let ?rs = "get_session_chain sid d"
  obtain doc ps where ps: "build_verification ev = Inr doc" "dget doc ''records'' = JArr (map JObj ps)"
    "length ps = length ?rs" "\<forall>i < length ps. proof_record (ed_verify ev) (row_dict (?rs ! i)) = Inr (ps ! i)"
    using build_verification_Inr [OF assms] by blast
  have v: "verify_session sid d = Inr (ed_verify ev)" using load_postgres_Inr [OF assms] by simp
  have "dget (ps ! i) ''action_id'' = JStr (uuid_str (ar_action_id (?rs ! i))) \<and>
      (dget (ps ! i) ''chain_status'' = JStr ''verified'' \<longrightarrow> record_sound (row_dict (?rs ! i)))" if "i < length ps" for i
  proof -
    from that ps(4) have "proof_record (ed_verify ev) (row_dict (?rs ! i)) = Inr (ps ! i)" by blast
    from proof_record_fields [OF this] obtain status where
      st: "record_status (vr_verdict (ed_verify ev)) (JInt (ar_sequence_number (?rs ! i))) (vr_first_invalid_sequence (ed_verify ev)) = Inr status"
      and p: "dget (ps ! i) ''chain_status'' = JStr status"
        "dget (ps ! i) ''action_id'' = dget (row_dict (?rs ! i)) ''action_id''"
      by auto
    with stored_verified_sound [OF v, of "?rs ! i"] that ps(3) show ?thesis
      by (auto simp: row_dict_def row_canonical_def dict_simps)
  qed
  with ps(1-3) show ?thesis by blast
qed

section \<open>The command on stored sessions\<close>

lemma render_format_total:
  assumes "build_bundle now ev redact_previews = Inr b0"
  shows "\<exists>b m. render_format version fmt b0 = Inr b \<and> manifest version b = Inr m \<and> b_verification b = b_verification b0"
proof -
  from build_bundle_documents [OF assms, of version] obtain ds where
    ds: "bundle_documents version b0 = Inr ds" "documents_shape version b0 ds" by blast
  from render_built [OF ds(2)] obtain md html where "render_markdown ds = Inr md" "render_html ds = Inr html" by blast
  with ds(1) have a: "attach_reports version b0 = Inr (attach html_file html (attach markdown_file md b0))"
    by (simp add: attach_reports_def)
  then have "\<exists>b. render_format version fmt b0 = Inr b \<and> b_verification b = b_verification b0"
    by (simp add: render_format_def without_def attach_def)
  then obtain b where b: "render_format version fmt b0 = Inr b" "b_verification b = b_verification b0" by blast
  from ds(2) have "manifest version b0 = Inr (dm_manifest ds)" by (simp add: documents_shape_def)
  with b(2) have "\<exists>m. manifest version b = Inr m" by (auto simp: manifest_def sbind_eq_Inr)
  with b show ?thesis by blast
qed

lemma session_stored_loads:
  assumes "db_sessions d sid = Some row"
  shows "\<exists>ev. load_postgres_session (Inr ()) cols agents sid d = Inr ev"
proof -
  obtain v where "verify_session sid d = Inr v"
    using verify_chain_characterised [of sid d] by (auto simp: verify_session_def)
  with assms show ?thesis by (simp add: load_postgres_session_def postgres_extra_required_def)
qed

lemma summary_nonempty: "summary v \<noteq> []"
  by (cases "vr_verdict v") (simp_all add: summary_def)

definition for_session :: "uuid \<Rightarrow> string \<Rightarrow> bool \<Rightarrow> bool \<Rightarrow> export_request" where
  "for_session u fmt redact_previews force =
     \<lparr>er_check = None, er_local = None, er_session_id = Some (uuid_str u), er_format = fmt,
      er_redact_previews = redact_previews, er_force = force\<rparr>"

text \<open>C40. \<open>stored_session_always_exports\<close>: whatever its rows hold, tampered or not, a session in the store is
  exported in every format to a directory that does not exist, with exit code 0; the first line printed
  is the summary of the verdict \<open>verify\<close> gives on the same tables.\<close>

theorem stored_session_always_exports:
  assumes "db_sessions d u = Some row" and "fmt \<in> set export_formats"
  shows "\<exists>v out t. verify_session u d = Inr v \<and>
    export_command loads (\<lambda>_. None) version now path (Inr d) (Inr ()) cols agents (for_session u fmt redact_previews force) None =
      (Cli_Exit 0 (Out (summary v) # out), Some t)"
proof -
  from session_stored_loads [OF assms(1)] obtain ev where ev: "load_postgres_session (Inr ()) cols agents u d = Inr ev" by blast
  from build_verification_Inr [OF ev] obtain doc where
    doc: "build_verification ev = Inr doc" "dget doc ''summary'' = JStr (summary (ed_verify ev))" by blast
  then obtain b0 where b0: "build_bundle now ev redact_previews = Inr b0" "b_verification b0 = doc"
    by (simp add: build_bundle_def Let_def)
  from render_format_total [OF b0(1), of version fmt] obtain b m where
    b: "render_format version fmt b0 = Inr b" "manifest version b = Inr m" "b_verification b = doc" using b0(2) by auto
  have e: "export_session now (Inr ()) cols agents u d redact_previews = Inr b0"
    using ev b0(1) by (simp add: export_session_def)
  obtain t where w: "write_bundle (\<lambda>_. None) version b force None = (Inr (), Some t)"
    using write_into_ok [OF _ b(2), of "\<lambda>_. None" "empty_folder (\<lambda>_. None)"] by (simp add: write_bundle_def empty_folder_def)
  have banner: "verdict_banner doc = Out (summary (ed_verify ev))"
    using doc(2) summary_nonempty by (simp add: verdict_banner_def py_or_def py_str_def truthy_def)
  obtain out where "finish_export (\<lambda>_. None) version path fmt force b0 None = (Cli_Exit 0 (Out (summary (ed_verify ev)) # out), Some t)"
    using b w banner by (simp add: finish_export_def manifest_hash_def)
  with e assms(2) load_postgres_Inr [OF ev] show ?thesis
    by (simp add: export_command_def export_remote_command_def for_session_def uuid_parse_str)
qed

text \<open>\<open>unknown_session_not_exported\<close>: of an id the store has no session of, \<open>export\<close> exits with 1, says so
  and writes nothing, while \<open>verify\<close> of the same id reports an intact chain of 0 records and exits with 0.\<close>

theorem unknown_session_not_exported:
  assumes "db_sessions d u = None" and "\<forall>a \<in> set (db_actions d). ar_session_id a \<noteq> u" and "fmt \<in> set export_formats"
  shows "export_command loads faults version now path (Inr d) (Inr ()) cols agents (for_session u fmt redact_previews force) target =
      (Cli_Exit 1 [Err (''Error: '' @ not_found u)], target) \<and>
    exit_status (verify_command (Some (uuid_str u)) None verbose (Inr d)) = Some 0"
proof -
  have "get_session_chain u d = []" using assms(2) by (simp add: get_session_chain_def filter_empty_conv)
  then have "exit_status (verify_command (Some (uuid_str u)) None verbose (Inr d)) = Some 0"
    by (simp add: verify_command_def verify_remote_command_def uuid_parse_str verify_session_def verify_chain_def
        report_def decide_def exit_status_def)
  then show ?thesis using assms(1,3)
    by (simp add: export_command_def export_remote_command_def for_session_def uuid_parse_str export_session_def
        load_postgres_session_def postgres_extra_required_def)
qed

section \<open>A stored session\<close>

definition sample_columns :: stored_columns where
  "sample_columns = \<lparr>sc_start_time = (\<lambda>_. ''t0''), sc_isoformat = (\<lambda>_. ''t1''), sc_instant = int \<circ> length,
     sc_confidence = (\<lambda>_. JNull), sc_alternatives = (\<lambda>_. None), sc_inputs_summary = (\<lambda>_. None),
     sc_latency = (\<lambda>_. None), sc_context = (\<lambda>_. JObj [])\<rparr>"

definition sample_store :: db where
  "sample_store = snd (create_with_hash id 7 sample_create sample_db)"

definition sample_row :: action_row where
  "sample_row = new_action id 7 sample_create sample_session"

lemma sample_store_facts:
  "get_session_chain 3 sample_store = [sample_row]"
  "db_sessions sample_store 3 = Some (advance_session sample_row sample_session)"
  "db_sessions sample_store 4 = None" "\<forall>a \<in> set (db_actions sample_store). ar_session_id a \<noteq> 4"
  "ar_session_id sample_row = 3"
  by (simp_all add: sample_store_def sample_row_def get_session_chain_def create_with_hash_def sample_db_def sample_create_def
      new_action_def Let_def)

lemma sample_row_line: "dget (row_dict sample_row) ''session_id'' = JStr (uuid_str 3)"
  by (simp add: row_dict_def row_canonical_def dict_simps sample_store_facts)

lemma sample_row_loads:
  "\<exists>ev. load_local_session (Some (sample_lines [row_dict sample_row])) ''f'' ''s'' None = Inr ev"
proof -
  let ?ds = "[row_dict sample_row]"
  have once: "numbered_once 3 sample_store" by (simp add: numbered_once_def sample_store_facts)
  obtain v where "verify_session 3 sample_store = Inr v"
    using verify_chain_characterised [of 3 sample_store] by (auto simp: verify_session_def)
  with verify_session_as_records [OF once] have "verify_session_local (file_of ?ds) = Inr v"
    by (simp add: verify_file_of sample_store_facts sample_row_line)
  then have "verify_session_local (Some (map sl_stripped (sample_lines ?ds))) = Inr v"
    by (simp add: file_of_def sample_lines_def)
  then show ?thesis
    by (simp add: load_local_session_def sample_lines_def sort_in_action order_actions_def)
qed


theorem stored_verified_is_sound_witness:
  "\<exists>ev doc p. load_postgres_session (Inr ()) sample_columns [] 3 sample_store = Inr ev \<and>
     build_verification ev = Inr doc \<and> dget doc ''records'' = JArr [JObj p] \<and>
     (dget p ''chain_status'' = JStr ''verified'' \<longrightarrow> record_sound (row_dict sample_row))"
proof -
  obtain ev where ev: "load_postgres_session (Inr ()) sample_columns [] 3 sample_store = Inr ev"
    using session_stored_loads [OF sample_store_facts(2)] by blast
  from stored_verified_is_sound [OF ev] obtain doc ps where
    ps: "build_verification ev = Inr doc" "dget doc ''records'' = JArr (map JObj ps)" "length ps = 1"
    and sound: "\<forall>i < length ps. dget (ps ! i) ''action_id'' = JStr (uuid_str (ar_action_id ([sample_row] ! i))) \<and>
       (dget (ps ! i) ''chain_status'' = JStr ''verified'' \<longrightarrow> record_sound (row_dict ([sample_row] ! i)))"
    unfolding sample_store_facts by auto
  then have "dget (ps ! 0) ''chain_status'' = JStr ''verified'' \<longrightarrow> record_sound (row_dict sample_row)" by simp
  moreover have "dget doc ''records'' = JArr [JObj (ps ! 0)]" using ps(2,3) by (cases ps) simp_all
  ultimately show ?thesis using ev ps(1) by blast
qed

theorem stored_session_always_exports_witness:
  "\<exists>v out t. verify_session 3 sample_store = Inr v \<and>
     export_command (\<lambda>_. None) (\<lambda>_. None) ''1'' ''t'' ''p'' (Inr sample_store) (Inr ()) sample_columns []
       (for_session 3 ''all'' False False) None = (Cli_Exit 0 (Out (summary v) # out), Some t)"
  by (rule stored_session_always_exports [OF sample_store_facts(2)]) (simp add: export_formats_def)

theorem unknown_session_not_exported_witness:
  "export_command (\<lambda>_. None) (\<lambda>_. None) ''1'' ''t'' ''p'' (Inr sample_store) (Inr ()) sample_columns []
       (for_session 4 ''md'' False False) None = (Cli_Exit 1 [Err (''Error: '' @ not_found 4)], None) \<and>
   exit_status (verify_command (Some (uuid_str 4)) None True (Inr sample_store)) = Some 0"
  by (rule unknown_session_not_exported [OF sample_store_facts(3,4)]) (simp add: export_formats_def)

end
