(* ===== verification/Receipt_Lookup.thy ===== *)
theory Receipt_Lookup
  imports Admin_Sync Bundle
begin

text \<open>
  How an exported session file finds its sync receipt: \<open>_load_receipt_for\<close> of
  \<^verbatim>\<open>rootsign/sdk/export.py\<close> and \<open>is_spool_path\<close> of \<^verbatim>\<open>rootsign/sdk/spool.py\<close>. A path
  is the list of its components below the root or, for a relative one, below the working directory;
  \<open>resolve\<close> is \<open>Path.resolve\<close>, \<open>configured\<close> the spool root of the settings (\<open>None\<close> when they cannot be
  read), and \<open>trees\<close> gives the receipts under a resolved directory.

  The lemmas follow a receipt through \<open>sync\<close>: the retired file finds it, and so does a file that was
  never uploaded; a relative path finds none.
\<close>

section \<open>Paths\<close>

type_synonym path = "string list"

definition sessions_subdir :: string where "sessions_subdir = ''sessions''"
definition synced_subdir :: string where "synced_subdir = ''synced''"
definition spool_dirname :: string where "spool_dirname = ''spool''"

definition path_name :: "path \<Rightarrow> string" where
  "path_name p = (if p = [] then [] else last p)"

text \<open>The parent of the root, and of the working directory written as a dot, is itself.\<close>

definition path_parent :: "path \<Rightarrow> path" where
  "path_parent p = butlast p"

definition is_spool_path :: "(path \<Rightarrow> path) \<Rightarrow> path option \<Rightarrow> path \<Rightarrow> bool" where
  "is_spool_path resolve configured candidate =
     (let parts = resolve candidate in
      (case configured of None \<Rightarrow> False | Some r \<Rightarrow> prefix (resolve r) parts) \<or>
      (3 \<le> length parts \<and> parts ! (length parts - 2) = sessions_subdir \<and> parts ! (length parts - 3) = spool_dirname))"

section \<open>Finding the receipt\<close>

definition unreadable :: "pyexc \<Rightarrow> bool" where
  "unreadable e = (case e of OSError _ \<Rightarrow> True | FileNotFoundError \<Rightarrow> True | ValueError _ \<Rightarrow> True | UnicodeDecodeError \<Rightarrow> True
                     | _ \<Rightarrow> False)"

definition readable_receipt :: "receipt_file option \<Rightarrow> pyexc + dict option" where
  "readable_receipt f =
     (case f of
        None \<Rightarrow> Inr None
      | Some f \<Rightarrow>
          (case load_receipt f of
             Inr d \<Rightarrow> Inr (Some d)
           | Inl e \<Rightarrow> if unreadable e then Inr None else Inl e))"

definition receipt_found :: "string \<Rightarrow> receipt_tree \<Rightarrow> receipt_file option" where
  "receipt_found sid t =
     (case find_receipt sid t of
        None \<Rightarrow> None
      | Some (synced, name) \<Rightarrow> map_of (if synced then rt_synced t else rt_live t) name)"

definition load_receipt_for ::
  "(path \<Rightarrow> path) \<Rightarrow> path option \<Rightarrow> (path \<Rightarrow> receipt_tree) \<Rightarrow> string \<Rightarrow> path \<Rightarrow> pyexc + dict option" where
  "load_receipt_for resolve configured trees sid p =
     (let up = path_parent (path_parent p) in
      if path_name (path_parent p) = synced_subdir
      then if \<not> (is_spool_path resolve configured p \<or> path_name up = spool_dirname) then Inr None
           else readable_receipt
                  (map_of (rt_synced (trees (resolve up))) (path_stem (path_name p) @ ''.sync.json''))
      else if \<not> is_spool_path resolve configured p then Inr None
      else readable_receipt (receipt_found sid (trees (resolve up))))"

text \<open>\<open>load_local_session\<close> with the receipt looked up by the file's path.\<close>

definition load_session_at ::
  "(path \<Rightarrow> path) \<Rightarrow> path option \<Rightarrow> (path \<Rightarrow> receipt_tree) \<Rightarrow> source_line list option \<Rightarrow> string \<Rightarrow> path \<Rightarrow>
   pyexc + evidence" where
  "load_session_at resolve configured trees lines location p =
     sbind (load_local_session lines location (path_stem (path_name p)) None) (\<lambda>ev.
     sbind (load_receipt_for resolve configured trees (ed_session_id ev) p) (\<lambda>r.
       Inr (ev\<lparr>ed_receipt := r\<rparr>)))"

section \<open>Names of retired files\<close>

definition dotless :: "string \<Rightarrow> bool" where
  "dotless s \<longleftrightarrow> CHR ''.'' \<notin> set s"

lemma split_dotless: "dotless s \<Longrightarrow> split_dots s = [s]"
  by (induction s) (auto simp: dotless_def)

lemma split_dots_append: "dotless s \<Longrightarrow> split_dots (s @ CHR ''.'' # t) = s # split_dots t"
  by (induction s) (auto simp: dotless_def)

lemma dotless_simps [simp]: "dotless (nat_str n)" "dotless ''jsonl''"
proof -
  have "\<not> is_digit 10 (CHR ''.'')" by code_simp
  then show "dotless (nat_str n)" using nat_str_digits [of n] by (auto simp: dotless_def)
qed (simp add: dotless_def)

lemma parse_int_nat_str: "parse_int 10 (nat_str n) = Some (int n)"
proof -
  have no: "\<not> is_digit 10 (CHR ''_'')" "\<not> is_digit 10 (CHR ''-'')" "\<not> is_digit 10 (CHR ''+'')"
    "\<not> is_digit 10 (CHR ''x'')" "\<not> is_digit 10 (CHR ''X'')"
    by code_simp+
  have digits: "\<forall>c \<in> set (nat_str n). is_digit 10 c" by (rule nat_str_digits)
  have "is_digit 10 c \<Longrightarrow> \<not> is_space c" for c
    by (auto simp: is_digit_def digit_val_def is_space_def Let_def split: if_splits)
  with digits have "strip_chars is_space (nat_str n) = nat_str n" by (intro strip_chars_none) blast
  moreover have "drop_base_prefix 10 (nat_str n) = nat_str n"
    using digits no by (intro drop_base_prefix_none) blast+
  moreover have "int_digits 10 False 0 (nat_str n) = Some (digits_val 10 (nat_str n))"
    unfolding digits_val_def using digits no by (intro int_digits_all) auto
  moreover obtain c cs where "nat_str n = c # cs" by (cases "nat_str n") simp_all
  moreover from this digits no have "c \<noteq> CHR ''-''" "c \<noteq> CHR ''+''" by auto
  ultimately show ?thesis
    unfolding digits_val_nat_str by (simp add: parse_int_def del: int_digits.simps)
qed

lemma numeric_digits: "py_isdigit (nat_str n)"
  using nat_str_digits [of n] by (simp add: py_isdigit_def list_all_iff)

definition retired_name :: "string \<Rightarrow> nat \<Rightarrow> string" where
  "retired_name sid i = (if i = 0 then sid @ ''.jsonl'' else sid @ ''.'' @ nat_str i @ ''.jsonl'')"

lemma suffix_of_retired: "dotless sid \<Longrightarrow> suffix_index_of (retired_name sid i) = Inr i"
  by (simp add: suffix_index_of_def retired_name_def split_dots_append [of _ "''jsonl''", simplified]
      split_dots_append [of _ "nat_str i @ ''.jsonl''", simplified] split_dotless parse_int_nat_str numeric_digits Let_def)

lemma suffix_jsonl: "s \<noteq> [] \<Longrightarrow> path_suffix (s @ ''.jsonl'') = ''.jsonl''"
  by (simp add: path_suffix_def Let_def)

lemma stem_of_retired: "sid \<noteq> [] \<Longrightarrow> path_stem (retired_name sid i) @ ''.sync.json'' = receipt_name sid i"
  using suffix_jsonl [of "sid @ ''.'' @ nat_str i"]
  by (simp add: path_stem_def retired_name_def receipt_name_def suffix_jsonl)

lemma inj_receipt_name: "inj (receipt_name sid)"
  by (auto intro!: injI simp: receipt_name_def split: if_splits)

lemma numbered_retired: "sid \<noteq> [] \<Longrightarrow> 0 < i \<Longrightarrow> numbered_name (sid @ ''.jsonl'') i = retired_name sid i"
  by (simp add: numbered_name_def path_stem_def suffix_jsonl retired_name_def)

section \<open>Following a receipt through a sync\<close>

text \<open>No receipt under \<open>synced/\<close> without its file.\<close>

definition paired :: "string \<Rightarrow> receipt_tree \<Rightarrow> 'f spool_tree \<Rightarrow> bool" where
  "paired sid rt t \<longleftrightarrow>
     (\<forall>i. receipt_name sid i \<in> fst ` set (rt_synced rt) \<longrightarrow> retired_name sid i \<in> fst ` set (sp_synced t))"

lemma first_free_candidate: "first_free g fuel c taken = Some x \<Longrightarrow> \<exists>i \<ge> c. x = g i"
proof (induction g fuel c taken rule: first_free.induct)
  case (2 g fuel c taken)
  then show ?case by (auto split: if_splits intro: Suc_leD)
qed simp

lemma synced_name_retired:
  assumes "sid \<noteq> []"
  shows "\<exists>i. synced_name (sid @ ''.jsonl'') taken = retired_name sid i \<and> (i = 0 \<longleftrightarrow> sid @ ''.jsonl'' \<notin> set taken)"
proof (cases "sid @ ''.jsonl'' \<in> set taken")
  case False
  then show ?thesis by (intro exI [of _ 0]) (simp add: synced_name_def retired_name_def)
next
  case True
  obtain x where x: "first_free (numbered_name (sid @ ''.jsonl'')) (Suc (length taken)) 1 taken = Some x"
    by (rule first_free_total [OF inj_numbered_name])
  from first_free_candidate [OF x] obtain i where "1 \<le> i" "x = numbered_name (sid @ ''.jsonl'') i" by blast
  with True x numbered_retired [OF assms, of i] show ?thesis by (intro exI [of _ i]) (simp add: synced_name_def)
qed

text \<open>The file and its receipt move under the same number.\<close>

lemma sync_moves_pair:
  assumes sid: "dotless sid" "sid \<noteq> []" and pair: "paired sid rt t"
    and live: "map_of (rt_live rt) (receipt_name sid 0) = Some f"
    and m: "mark_synced (sid @ ''.jsonl'') t = Inr (destination, t')" and r: "move_receipt sid destination rt = Inr rt'"
  shows "\<exists>i. destination = retired_name sid i \<and> map_of (rt_synced rt') (receipt_name sid i) = Some f \<and>
    receipt_name sid 0 \<notin> fst ` set (rt_live rt') \<and> (i = 0 \<longleftrightarrow> sid @ ''.jsonl'' \<notin> fst ` set (sp_synced t)) \<and>
    paired sid rt' t' \<and> map_of (sp_sessions t') (sid @ ''.jsonl'') = None"
proof -
  from m obtain c where dest: "destination = synced_name (sid @ ''.jsonl'') (map fst (sp_synced t))"
    and t': "t' = t\<lparr>sp_sessions := AList.delete (sid @ ''.jsonl'') (sp_sessions t),
      sp_synced := AList.update destination c (sp_synced t)\<rparr>"
    by (auto simp: mark_synced_def Let_def split: option.splits)
  from synced_name_retired [OF sid(2), of "map fst (sp_synced t)"] obtain i where
    i: "destination = retired_name sid i" "i = 0 \<longleftrightarrow> sid @ ''.jsonl'' \<notin> fst ` set (sp_synced t)"
    unfolding dest by auto
  have "destination \<notin> fst ` set (sp_synced t)" using synced_name_fresh [of "sid @ ''.jsonl''" "map fst (sp_synced t)"] dest by simp
  with pair i(1) have free: "receipt_name sid i \<notin> fst ` set (rt_synced rt)" by (auto simp: paired_def)
  from r i(1) suffix_of_retired [OF sid(1), of i] have "rt' = snd (mark_receipt_synced sid i rt)"
    by (simp add: move_receipt_def)
  with live free have rt': "rt' = rt\<lparr>rt_live := AList.delete (receipt_name sid 0) (rt_live rt),
      rt_synced := AList.update (receipt_name sid i) f (rt_synced rt)\<rparr>"
    by (simp add: mark_receipt_synced_def synced_receipt_name_def Let_def)
  have "receipt_name sid 0 \<notin> fst ` set (rt_live rt')" unfolding rt' by (auto simp: AList.delete_eq)
  moreover have "paired sid rt' t'"
    using pair inj_receipt_name i(1) unfolding paired_def rt' t' by (auto simp: dom_update dest: injD)
  moreover have "map_of (sp_sessions t') (sid @ ''.jsonl'') = None" by (simp add: t' delete_conv')
  moreover have "map_of (rt_synced rt') (receipt_name sid i) = Some f" by (simp add: rt' update_conv')
  ultimately show ?thesis using i by blast
qed

lemma readable_receipt_Some [simp]: "load_receipt f = Inr d \<Longrightarrow> readable_receipt (Some f) = Inr (Some d)"
  by (simp add: readable_receipt_def)

lemma path_simps [simp]:
  "path_parent (r @ [a, b]) = r @ [a]" "path_parent (r @ [a]) = r" "path_name (r @ [a, b]) = b" "path_name (r @ [a]) = a"
  by (simp_all add: path_parent_def path_name_def butlast_append)

lemma dirs_differ [simp]: "sessions_subdir \<noteq> synced_subdir"
  by (simp add: sessions_subdir_def synced_subdir_def)

lemma spool_shape: "path_name r = spool_dirname \<Longrightarrow> resolve p = r @ [sessions_subdir, name] \<Longrightarrow> is_spool_path resolve configured p"
  by (cases r rule: rev_cases) (auto simp: path_name_def is_spool_path_def nth_append spool_dirname_def Let_def)

text \<open>\<open>synced_file_finds_its_receipt\<close>: when \<open>sync\<close> retires a session's file and moves its receipt after it, an
  export of the retired file, from any directory named \<open>spool\<close>, finds that receipt, also when files of
  the same session were retired before; and no receipt of the session is without its file.\<close>

theorem synced_file_finds_its_receipt:
  assumes "dotless sid" and "sid \<noteq> []" and "paired sid rt t"
    and "map_of (rt_live rt) (receipt_name sid 0) = Some f" and "load_receipt f = Inr d"
    and "mark_synced (sid @ ''.jsonl'') t = Inr (destination, t')" and "move_receipt sid destination rt = Inr rt'"
    and "path_name r = spool_dirname" and "trees (resolve r) = rt'"
  shows "load_receipt_for resolve configured trees any (r @ [synced_subdir, destination]) = Inr (Some d) \<and> paired sid rt' t'"
proof -
  from sync_moves_pair [OF assms(1-4,6,7)] obtain i where i: "destination = retired_name sid i"
    "map_of (rt_synced rt') (receipt_name sid i) = Some f" and pair: "paired sid rt' t'" by blast
  have "path_stem destination @ ''.sync.json'' = receipt_name sid i" using stem_of_retired [OF assms(2)] i(1) by simp
  with i(2) assms(5,8,9) pair show ?thesis by (simp add: load_receipt_for_def Let_def)
qed

text \<open>\<open>respooled_file_shows_old_receipt\<close>: after the first sync of a session the live file is gone; a file that
  then appears in its place, as when the session goes on and spills again, was never uploaded, and yet
  its export carries the receipt of the file retired before it.\<close>

theorem respooled_file_shows_old_receipt:
  assumes "dotless sid" and "sid \<noteq> []" and "paired sid rt t"
    and "map_of (rt_live rt) (receipt_name sid 0) = Some f" and "load_receipt f = Inr d"
    and "mark_synced (sid @ ''.jsonl'') t = Inr (destination, t')" and "move_receipt sid destination rt = Inr rt'"
    and "sid @ ''.jsonl'' \<notin> fst ` set (sp_synced t)"
    and "path_name r = spool_dirname" and "trees (resolve r) = rt'"
    and "resolve (r @ [sessions_subdir, sid @ ''.jsonl'']) = r @ [sessions_subdir, sid @ ''.jsonl'']"
    and "load_session_at resolve configured trees lines location (r @ [sessions_subdir, sid @ ''.jsonl'']) = Inr ev"
    and "ed_session_id ev = sid"
  shows "map_of (sp_sessions t') (sid @ ''.jsonl'') = None \<and> ed_receipt ev = Some d"
proof -
  from sync_moves_pair [OF assms(1-4,6,7)] assms(8) have
    m: "map_of (rt_synced rt') (receipt_name sid 0) = Some f" "receipt_name sid 0 \<notin> fst ` set (rt_live rt')"
    and gone: "map_of (sp_sessions t') (sid @ ''.jsonl'') = None" by auto
  then have "receipt_name sid 0 \<in> fst ` set (rt_synced rt')" by (metis domI dom_map_of_conv_image_fst)
  with m have "receipt_found sid rt' = Some f" by (simp add: receipt_found_def find_receipt_def)
  moreover have "is_spool_path resolve configured (r @ [sessions_subdir, sid @ ''.jsonl''])"
    using spool_shape assms(9,11) by blast
  ultimately have "load_receipt_for resolve configured trees sid (r @ [sessions_subdir, sid @ ''.jsonl'']) = Inr (Some d)"
    using assms(5,10) by (simp add: load_receipt_for_def Let_def)
  with assms(12,13) gone show ?thesis by (auto simp: load_session_at_def sbind_eq_Inr)
qed

text \<open>\<open>relative_path_loses_receipt\<close>: the export of a live spool file named by its full path finds the session's
  receipt; named from inside the \<open>sessions\<close> directory it finds none, since the parent of the working
  directory's name is that name again.\<close>

theorem relative_path_loses_receipt:
  assumes "path_name r = spool_dirname" and "receipt_found sid (trees r) = Some f" and "load_receipt f = Inr d"
    and "resolve r = r" and "resolve (r @ [sessions_subdir, name]) = r @ [sessions_subdir, name]"
    and "resolve [] = r @ [sessions_subdir]" and "resolve [name] = r @ [sessions_subdir, name]"
    and "receipt_found sid (trees (r @ [sessions_subdir])) = None"
  shows "load_receipt_for resolve configured trees sid (r @ [sessions_subdir, name]) = Inr (Some d) \<and>
    load_receipt_for resolve configured trees sid [name] = Inr None"
proof -
  have "is_spool_path resolve configured (r @ [sessions_subdir, name])" "is_spool_path resolve configured [name]"
    using spool_shape [OF assms(1)] assms(5,7) by blast+
  then show ?thesis using assms(2-4,6,8)
    by (simp add: load_receipt_for_def path_parent_def path_name_def butlast_append readable_receipt_def Let_def
        synced_subdir_def sessions_subdir_def)
qed

section \<open>Concrete trees\<close>

definition sample_receipt :: dict where
  "sample_receipt = [(''session_id'', JStr ''s''), (''attempts'', JArr [])]"

definition sample_receipts :: receipt_tree where
  "sample_receipts = \<lparr>rt_live = [(''s.sync.json'', Inr (Some (JObj sample_receipt)))], rt_synced = []\<rparr>"

definition moved_receipts :: receipt_tree where
  "moved_receipts = \<lparr>rt_live = [], rt_synced = [(''s.sync.json'', Inr (Some (JObj sample_receipt)))]\<rparr>"

definition sample_spool :: "unit spool_tree" where
  "sample_spool = \<lparr>sp_sessions = [(''s.jsonl'', ())], sp_synced = []\<rparr>"

lemma sample_names: "receipt_name ''s'' 0 = ''s.sync.json''"
  by (simp add: receipt_name_def)

lemma sample_moves:
  "paired ''s'' sample_receipts sample_spool"
  "map_of (rt_live sample_receipts) (receipt_name ''s'' 0) = Some (Inr (Some (JObj sample_receipt)))"
  "load_receipt (Inr (Some (JObj sample_receipt))) = Inr sample_receipt"
  "mark_synced (''s'' @ ''.jsonl'') sample_spool = Inr (''s.jsonl'', \<lparr>sp_sessions = [], sp_synced = [(''s.jsonl'', ())]\<rparr>)"
  "move_receipt ''s'' ''s.jsonl'' sample_receipts = Inr moved_receipts"
proof -
  show "move_receipt ''s'' ''s.jsonl'' sample_receipts = Inr moved_receipts"
    by (simp add: move_receipt_def sample_suffix mark_receipt_synced_def sample_names sample_receipts_def
        synced_receipt_name_def moved_receipts_def Let_def)
qed (simp_all add: paired_def sample_receipts_def sample_names load_receipt_def sample_receipt_def dict_simps mark_synced_def
    sample_spool_def synced_name_def Let_def)

theorem synced_file_finds_its_receipt_witness:
  "load_receipt_for id None (\<lambda>_. moved_receipts) ''s'' ([''spool''] @ [synced_subdir, ''s.jsonl'']) = Inr (Some sample_receipt)"
  using synced_file_finds_its_receipt [OF _ _ sample_moves, of "[''spool'']" "\<lambda>_. moved_receipts" id None "''s''"]
  by (simp add: dotless_def path_name_def spool_dirname_def)

lemma sample_at:
  "\<exists>ev. load_session_at id None (\<lambda>_. moved_receipts) (Some (sample_lines [sample_record, forged_record])) ''f''
      ([''spool''] @ [sessions_subdir, ''s'' @ ''.jsonl'']) = Inr ev \<and> ed_session_id ev = ''s''"
proof -
  have sid: "dget sample_record ''session_id'' = JStr ''s''"
    by (simp add: sample_record_def sample_fields_def link_dict_def dict_simps)
  have found: "receipt_found ''s'' moved_receipts = Some (Inr (Some (JObj sample_receipt)))"
    by (simp add: receipt_found_def find_receipt_def sample_names moved_receipts_def)
  have sp: "is_spool_path id None ([''spool''] @ [sessions_subdir, ''s'' @ ''.jsonl''])"
    by (simp add: is_spool_path_def spool_dirname_def Let_def)
  have "load_receipt_for id None (\<lambda>_. moved_receipts) ''s'' ([''spool''] @ [sessions_subdir, ''s'' @ ''.jsonl'']) = Inr (Some sample_receipt)"
    unfolding load_receipt_for_def Let_def path_simps using sp found sample_moves(3) by simp
  moreover obtain ev where "load_local_session (Some (sample_lines [sample_record, forged_record])) ''f''
      (path_stem (path_name ([''spool''] @ [sessions_subdir, ''s'' @ ''.jsonl'']))) None = Inr ev" "ed_session_id ev = ''s''"
    by (simp only: sample_load) (simp add: sid py_or_def truthy_def py_str_def)
  ultimately show ?thesis unfolding load_session_at_def by simp
qed

theorem respooled_file_shows_old_receipt_witness:
  "\<exists>ev. load_session_at id None (\<lambda>_. moved_receipts) (Some (sample_lines [sample_record, forged_record])) ''f''
      ([''spool''] @ [sessions_subdir, ''s'' @ ''.jsonl'']) = Inr ev \<and> ed_receipt ev = Some sample_receipt"
proof -
  obtain ev where ev: "load_session_at id None (\<lambda>_. moved_receipts) (Some (sample_lines [sample_record, forged_record])) ''f''
      ([''spool''] @ [sessions_subdir, ''s'' @ ''.jsonl'']) = Inr ev" "ed_session_id ev = ''s''"
    using sample_at by blast
  have "''s'' @ ''.jsonl'' \<notin> fst ` set (sp_synced sample_spool)" by (simp add: sample_spool_def)
  from respooled_file_shows_old_receipt [OF _ _ sample_moves this _ _ _ ev] ev(1) show ?thesis
    by (simp add: dotless_def path_name_def spool_dirname_def)
qed

theorem relative_path_loses_receipt_witness:
  "\<exists>resolve trees. load_receipt_for resolve None trees ''s'' ([''spool''] @ [sessions_subdir, ''s.jsonl'']) = Inr (Some sample_receipt) \<and>
     load_receipt_for resolve None trees ''s'' [''s.jsonl''] = Inr None"
proof -
  define resolve where "resolve = (\<lambda>p :: path. if p = [] then [''spool'', sessions_subdir]
    else if p = [''s.jsonl''] then [''spool'', sessions_subdir, ''s.jsonl''] else p)"
  define trees where "trees = (\<lambda>p :: path. if p = [''spool''] then sample_receipts else \<lparr>rt_live = [], rt_synced = []\<rparr>)"
  have "receipt_found ''s'' (trees [''spool'']) = Some (Inr (Some (JObj sample_receipt)))"
    "receipt_found ''s'' (trees ([''spool''] @ [sessions_subdir])) = None"
    by (simp_all add: trees_def receipt_found_def find_receipt_def sample_names sample_receipts_def)
  from relative_path_loses_receipt [OF _ this(1) sample_moves(3) _ _ _ _ this(2), of resolve "''s.jsonl''" None] show ?thesis
    by (auto simp: resolve_def path_name_def spool_dirname_def)
qed

end
