(* ===== verification/Mcp.thy ===== *)
theory Mcp
  imports Facade Stored_Evidence
begin

text \<open>
  \<^verbatim>\<open>rootsign/mcp/proxy.py\<close> and \<^verbatim>\<open>rootsign/mcp/server.py\<close>: the proxy that records
  \<open>tools/call\<close> requests on their way to an MCP server, and the queries an auditor asks of the store. A
  request body is the JSON value the request carries. The server upstream is a step on a world of its
  own: a POST either fails or is answered with a status and a body, \<open>None\<close> when the body is not JSON.
  A tool whose name is not a string is not modelled past that point. The queries take UUIDs as text;
  the order Postgres gives sessions by their start is an argument.
\<close>

section \<open>Forwarding a request\<close>

text \<open>What \<open>json.loads\<close> makes of a value is what the tracer captures.\<close>

fun of_json :: "json \<Rightarrow> pyobj" where
  "of_json JNull = PNone"
| "of_json (JBool b) = PBool b"
| "of_json (JInt i) = PInt i"
| "of_json (JFloat q t) = PFloat q t"
| "of_json (JStr s) = PStr s"
| "of_json (JArr xs) = PList (map of_json xs)"
| "of_json (JObj d) = PDict (map (\<lambda>(k, v). (k, of_json v)) d)"

record http_reply =
  hr_status :: int
  hr_body :: "json option"

type_synonym ('w, 'x) upstream = "json \<Rightarrow> 'w \<Rightarrow> ('x + http_reply) \<times> 'w"

datatype 'x forward_exn = Transport_Failed 'x | Bad_Status int | Not_Json

text \<open>\<open>raise_for_status\<close> lets only 200 to 299 pass.\<close>

definition forward_to_upstream :: "('w, 'x) upstream \<Rightarrow> json \<Rightarrow> 'w \<Rightarrow> ('x forward_exn + pyobj) \<times> 'w" where
  "forward_to_upstream upstream body w =
     (case upstream body w of
        (Inl e, w') \<Rightarrow> (Inl (Transport_Failed e), w')
      | (Inr r, w') \<Rightarrow>
          (if hr_status r < 200 \<or> 300 \<le> hr_status r then Inl (Bad_Status (hr_status r))
           else (case hr_body r of None \<Rightarrow> Inl Not_Json | Some j \<Rightarrow> Inr (of_json j)), w'))"

record proxy_reply =
  pr_status :: int
  pr_content :: json

definition pass_through :: "('w, 'x) upstream \<Rightarrow> json \<Rightarrow> 'w \<Rightarrow> ('x forward_exn + proxy_reply) \<times> 'w" where
  "pass_through upstream body w =
     (case upstream body w of
        (Inl e, w') \<Rightarrow> (Inl (Transport_Failed e), w')
      | (Inr r, w') \<Rightarrow>
          (case hr_body r of
             None \<Rightarrow> Inl Not_Json
           | Some j \<Rightarrow> Inr \<lparr>pr_status = hr_status r, pr_content = j\<rparr>, w'))"

section \<open>Intercepting a tool call\<close>

record 'p proxy_config =
  px_redaction :: "'p redaction_config option"
  px_require_approval :: bool
  px_builder :: "(string \<Rightarrow> json \<Rightarrow> json) option"

datatype ('x, 'e) proxy_exn =
    Bad_Request pyexc
  | No_Session sdk_error
  | Unnamed_Tool
  | Call_Failed "('x forward_exn, 'e) trace_exn"
  | Pass_Failed "'x forward_exn"

definition mcp_params :: "dict \<Rightarrow> pyexc + dict" where
  "mcp_params body = as_dict (py_or (dget_or body ''params'' (JObj [])) (JObj []))"

definition mcp_arguments :: "dict \<Rightarrow> json" where
  "mcp_arguments params = py_or (dget_or params ''arguments'' (JObj [])) (JObj [])"

definition proxied_call :: "('p \<Rightarrow> string \<Rightarrow> bool) \<Rightarrow> 'p proxy_config \<Rightarrow> string \<Rightarrow> json \<Rightarrow> 'p traced_call" where
  "proxied_call search cfg name arguments =
     \<lparr>ca_tool_name = name, ca_args = [], ca_kwargs = [], ca_redaction = px_redaction cfg,
      ca_override = Some (apply_redaction search (px_redaction cfg) (to_json_safe (of_json arguments)))\<rparr>"

text \<open>What waits for an approval: the terminal of the local backend and the checkpoint of the other.\<close>

record 's gate =
  ga_tty :: bool
  ga_answer :: "string option"
  ga_user :: string
  ga_wait :: "uuid \<Rightarrow> 's \<Rightarrow> (hitl_exn + hitl_result) \<times> 's"

definition emit_proxied ::
  "('p \<Rightarrow> string \<Rightarrow> bool) \<Rightarrow> ('s, 'e) traced_client \<Rightarrow> trace_env \<Rightarrow> 's gate \<Rightarrow> 'p proxy_config \<Rightarrow> 'p traced_call \<Rightarrow>
   ('w \<Rightarrow> ('x + pyobj) \<times> 'w) \<Rightarrow> session_context \<Rightarrow> 's \<Rightarrow> 'w \<Rightarrow> (('x, 'e) trace_exn + pyobj) \<times> session_context \<times> 's \<times> 'w" where
  "emit_proxied search tc te ga cfg c tool cx s w =
     (if px_require_approval cfg
      then emit_hitl_action search tc te (px_builder cfg) (ga_tty ga) (ga_answer ga) (ga_user ga) (ga_wait ga) c tool cx s w
      else emit_action_record search tc te c tool cx s w)"

text \<open>\<open>found\<close> is what \<open>_resolve_ctx_client\<close> gave. The context is returned as the call left it.\<close>

definition intercept_tools_call ::
  "('p \<Rightarrow> string \<Rightarrow> bool) \<Rightarrow> sdk_error + session_context \<times> ('s, 'e) traced_client \<Rightarrow> trace_env \<Rightarrow> 's gate \<Rightarrow>
   'p proxy_config \<Rightarrow> ('w, 'x) upstream \<Rightarrow> dict \<Rightarrow> 's \<Rightarrow> 'w \<Rightarrow>
   (('x, 'e) proxy_exn + pyobj) \<times> session_context option \<times> 's \<times> 'w" where
  "intercept_tools_call search found te ga cfg upstream body s w =
     (case found of
        Inl e \<Rightarrow> (Inl (No_Session e), None, s, w)
      | Inr (cx, tc) \<Rightarrow>
          (case mcp_params body of
             Inl e \<Rightarrow> (Inl (Bad_Request e), Some cx, s, w)
           | Inr params \<Rightarrow>
               (case dget_or params ''name'' (JStr ''unknown_mcp_tool'') of
                  JStr name \<Rightarrow>
                    (case emit_proxied search tc te ga cfg (proxied_call search cfg name (mcp_arguments params))
                            (forward_to_upstream upstream (JObj body)) cx s w of
                       (r, cx', s', w') \<Rightarrow>
                         ((case r of Inl e \<Rightarrow> Inl (Call_Failed e) | Inr v \<Rightarrow> Inr v), Some cx', s', w'))
                | _ \<Rightarrow> (Inl Unnamed_Tool, Some cx, s, w))))"

text \<open>The endpoint. An answer to a tool call is sent with status 200.\<close>

definition handle_jsonrpc ::
  "('p \<Rightarrow> string \<Rightarrow> bool) \<Rightarrow> session_context option \<Rightarrow> ('s, 'e) traced_client option \<Rightarrow>
   (session_context \<times> ('s, 'e) traced_client) option \<Rightarrow> trace_env \<Rightarrow> 's gate \<Rightarrow> 'p proxy_config \<Rightarrow> ('w, 'x) upstream \<Rightarrow>
   json \<Rightarrow> 's \<Rightarrow> 'w \<Rightarrow> (('x, 'e) proxy_exn + proxy_reply) \<times> session_context option \<times> 's \<times> 'w" where
  "handle_jsonrpc search ctx client ambient te ga cfg upstream request s w =
     (case as_dict request of
        Inl e \<Rightarrow> (Inl (Bad_Request e), ctx, s, w)
      | Inr body \<Rightarrow>
          if dget_or body ''method'' (JStr []) = JStr ''tools/call''
          then (case intercept_tools_call search (resolve_ctx_client ctx client (Some ''MCPProxyTracer'') ambient) te ga
                       (cfg\<lparr>px_builder := None\<rparr>) upstream body s w of
                  (Inl e, cx, s', w') \<Rightarrow> (Inl e, cx, s', w')
                | (Inr v, cx, s', w') \<Rightarrow> (Inr \<lparr>pr_status = 200, pr_content = to_json_safe v\<rparr>, cx, s', w'))
          else (case pass_through upstream request w of
                  (Inl e, w') \<Rightarrow> (Inl (Pass_Failed e), ctx, s, w')
                | (Inr r, w') \<Rightarrow> (Inr r, ctx, s, w')))"

section \<open>The auditor's queries\<close>

datatype query_error = Query_Extra sdk_error | Query_Value_Error string | Query_Raised pyexc | Query_Db_Error

definition session_entry :: "stored_columns \<Rightarrow> uuid \<Rightarrow> session_row \<Rightarrow> dict" where
  "session_entry cols sid row =
     [(''session_id'', JStr (uuid_str sid)), (''agent_id'', JStr (uuid_str (sr_agent_id row))),
      (''status'', JStr (sr_status row)), (''objective'', opt_str (sr_objective row)),
      (''start_time'', JStr (sc_start_time cols sid)), (''end_time'', iso_instant cols (sr_end_time row)),
      (''action_count'', JInt (sr_action_count row))]"

definition query_uuid :: "string \<Rightarrow> query_error + uuid" where
  "query_uuid t = (case uuid_of_str t of None \<Rightarrow> Inl (Query_Value_Error t) | Some u \<Rightarrow> Inr u)"

definition query_extra :: "string + unit \<Rightarrow> query_error + unit" where
  "query_extra db_stack = (case postgres_extra_required db_stack of Inl e \<Rightarrow> Inl (Query_Extra e) | Inr u \<Rightarrow> Inr u)"

text \<open>\<open>newest\<close>: the ids of the stored sessions, the latest start first.\<close>

definition list_sessions ::
  "string + unit \<Rightarrow> stored_columns \<Rightarrow> uuid list \<Rightarrow> string option \<Rightarrow> int \<Rightarrow> db \<Rightarrow> query_error + dict list" where
  "list_sessions db_stack cols newest agent_id limit d =
     sbind (query_extra db_stack) (\<lambda>_.
     sbind (case agent_id of None \<Rightarrow> Inr None | Some t \<Rightarrow> sbind (query_uuid t) (\<lambda>u. Inr (Some u))) (\<lambda>agent.
       if limit < 0 then Inl Query_Db_Error
       else Inr (map (\<lambda>(sid, row). session_entry cols sid row)
              (take (nat limit) (filter (\<lambda>(sid, row). agent = None \<or> agent = Some (sr_agent_id row))
                (List.map_filter (\<lambda>sid. map_option (Pair sid) (db_sessions d sid)) newest))))))"

definition chain_entry :: "action_row \<Rightarrow> dict" where
  "chain_entry a =
     [(''sequence_number'', JInt (ar_sequence_number a)), (''action_id'', JStr (uuid_str (ar_action_id a))),
      (''tool_name'', JStr (ar_tool_name a)), (''timestamp'', JStr (ar_timestamp a)),
      (''authorization_status'', JStr (ar_authorization_status a)), (''input_hash'', JStr (ar_input_hash a)),
      (''output_hash'', opt_str (ar_output_hash a)), (''self_hash'', JStr (ar_self_hash a)),
      (''prev_action_hash'', opt_str (ar_prev_action_hash a))]"

definition query_session_chain :: "string + unit \<Rightarrow> string \<Rightarrow> db \<Rightarrow> query_error + dict list" where
  "query_session_chain db_stack sid d =
     sbind (query_extra db_stack) (\<lambda>_. sbind (query_uuid sid) (\<lambda>u. Inr (map chain_entry (get_session_chain u d))))"

definition verify_session_chain :: "string + unit \<Rightarrow> string \<Rightarrow> db \<Rightarrow> query_error + chain_report" where
  "verify_session_chain db_stack sid d =
     sbind (query_extra db_stack) (\<lambda>_. sbind (query_uuid sid) (\<lambda>u.
       case verify_chain u d of Inl e \<Rightarrow> Inl (Query_Raised e) | Inr r \<Rightarrow> Inr r))"

definition approval_entry :: "stored_columns \<Rightarrow> approval_row \<Rightarrow> dict" where
  "approval_entry cols r =
     [(''approval_id'', JStr (uuid_str (pr_approval_id r))), (''action_id'', JStr (uuid_str (pr_action_id r))),
      (''session_id'', JStr (uuid_str (pr_session_id r))), (''decision'', JStr (pr_decision r)),
      (''approver_id'', JStr (pr_approver_id r)), (''approver_type'', JStr (pr_approver_type r)),
      (''decision_reason'', opt_str (pr_decision_reason r)), (''timestamp'', iso_instant cols (Some (pr_timestamp r))),
      (''response_latency_ms'', opt_int (sc_latency cols (pr_approval_id r)))]"

definition get_approval_records ::
  "string + unit \<Rightarrow> stored_columns \<Rightarrow> string \<Rightarrow> db \<Rightarrow> query_error + dict list" where
  "get_approval_records db_stack cols action_id d =
     sbind (query_extra db_stack) (\<lambda>_. sbind (query_uuid action_id) (\<lambda>u.
       Inr (map (approval_entry cols) (sort_key pr_timestamp (filter (\<lambda>r. pr_action_id r = u) (db_approvals d))))))"

section \<open>Values off the wire\<close>

lemma update_new: "k \<notin> fst ` set d \<Longrightarrow> dset k v d = d @ [(k, v)]"
  by (simp add: dset_def update_fresh)

lemma dupdate_distinct: "distinct (map fst (d @ es)) \<Longrightarrow> dupdate d es = d @ es"
proof (induction d es rule: dupdate.induct)
  case (2 d k v es)
  then have "dset k v d = d @ [(k, v)]" by (intro update_new) auto
  with 2 show ?case by simp
qed simp

lemma safe_of_json: "well_keyed j \<Longrightarrow> to_json_safe (of_json j) = j"
proof (induction j rule: of_json.induct)
  case (6 xs)
  then show ?case by (simp add: list_all_iff map_idI)
next
  case (7 d)
  have "map (\<lambda>p. (fst p, to_json_safe (of_json (snd p)))) d = d"
    using 7 by (intro map_idI) (auto simp: list_all_iff)
  then have "to_json_safe (of_json (JObj d)) = JObj (dupdate [] d)"
    by (simp add: case_prod_beta' comp_def)
  with 7(2) show ?case by (simp add: dupdate_distinct)
qed simp_all

section \<open>What the proxy does with a request\<close>

definition tool_request :: "dict \<Rightarrow> string \<Rightarrow> json \<Rightarrow> bool" where
  "tool_request body name arguments \<longleftrightarrow> dget_or body ''method'' (JStr []) = JStr ''tools/call'' \<and>
     (\<exists>params. mcp_params body = Inr params \<and> dget_or params ''name'' (JStr ''unknown_mcp_tool'') = JStr name \<and>
       mcp_arguments params = arguments)"

lemma handled_tool_request:
  assumes "tool_request body name arguments" and "resolve_ctx_client ctx client (Some ''MCPProxyTracer'') ambient = Inr (cx, tc)"
    and "emit_proxied search tc te ga (cfg\<lparr>px_builder := None\<rparr>) (proxied_call search cfg name arguments)
           (forward_to_upstream upstream (JObj body)) cx s w = (r, cx', s', w')"
  shows "handle_jsonrpc search ctx client ambient te ga cfg upstream (JObj body) s w =
    ((case r of Inl e \<Rightarrow> Inl (Call_Failed e) | Inr v \<Rightarrow> Inr \<lparr>pr_status = 200, pr_content = to_json_safe v\<rparr>), Some cx', s', w')"
proof -
  have same: "proxied_call search (cfg\<lparr>px_builder := None\<rparr>) = proxied_call search cfg"
    by (simp add: proxied_call_def fun_eq_iff)
  show ?thesis using assms
    by (cases r) (auto simp: tool_request_def handle_jsonrpc_def intercept_tools_call_def same)
qed

lemma forwarded: "snd (forward_to_upstream upstream body w) = snd (upstream body w)"
  by (auto simp: forward_to_upstream_def split: prod.splits sum.splits)

lemma proxied_input:
  "well_keyed arguments \<Longrightarrow> redacted_input search (proxied_call search cfg name arguments) = apply_redaction search (px_redaction cfg) arguments"
  by (simp add: redacted_input_def proxied_call_def safe_of_json)


definition sample_gate :: "'s gate" where
  "sample_gate = \<lparr>ga_tty = True, ga_answer = Some ''no'', ga_user = ''ann'', ga_wait = \<lambda>_ s. (Inl HiTL_Timeout, s)\<rparr>"

definition sample_tool_request :: "json \<Rightarrow> dict" where
  "sample_tool_request arguments =
     [(''method'', JStr ''tools/call''), (''params'', JObj [(''name'', JStr ''pay''), (''arguments'', arguments)])]"

definition sample_proxy :: "bool \<Rightarrow> char proxy_config" where
  "sample_proxy gated = \<lparr>px_redaction = None, px_require_approval = gated, px_builder = None\<rparr>"

text \<open>The server counts the requests it gets.\<close>

definition counting_upstream :: "http_reply \<Rightarrow> (nat, unit) upstream" where
  "counting_upstream reply body n = (Inr reply, Suc n)"

lemma sample_tool: "truthy arguments \<Longrightarrow> tool_request (sample_tool_request arguments) ''pay'' arguments"
  by (simp add: tool_request_def sample_tool_request_def mcp_params_def mcp_arguments_def dget_or_def py_or_def
      as_dict_def)

lemma sample_resolved: "resolve_ctx_client (Some cx) (Some tc) surface ambient = Inr (cx, tc)"
  by (simp add: resolve_ctx_client_def)


text \<open>\<open>proxy_gate\<close>: with \<open>require_approval\<close> the server is reached only after the approval: unless
  it was given, the server's world is as before and the caller gets no answer of the server.\<close>

theorem proxy_gate:
  assumes "tool_request body name arguments" and "px_require_approval cfg"
    and "resolve_ctx_client ctx client (Some ''MCPProxyTracer'') ambient = Inr (cx, tc)"
    and "handle_jsonrpc search ctx client ambient te ga cfg upstream (JObj body) s w = (reply, ctx', s', w')"
  shows "(w' = w \<and> (\<exists>e. reply = Inl (Call_Failed e) \<and> (\<forall>x. e \<noteq> Tool_Error x))) \<or>
    (w' = snd (upstream (JObj body) w) \<and>
     (\<exists>rsp i s1. tc_handle tc (pending_envelope search te (proxied_call search cfg name arguments) cx) s = (Inr rsp, s1) \<and>
        rsp_entity_id rsp = Some i \<and>
        (if tc_jsonl tc then ga_tty ga \<and> (\<exists>line. ga_answer ga = Some line \<and> says_yes (strip_chars is_space line))
         else \<exists>result s2. ga_wait ga i s1 = (Inr result, s2))))"
proof -
  let ?c = "proxied_call search cfg name arguments" and ?tool = "forward_to_upstream upstream (JObj body)"
  obtain r cx' s1 w1 where e: "emit_hitl_action search tc te None (ga_tty ga) (ga_answer ga) (ga_user ga) (ga_wait ga) ?c ?tool
    cx s w = (r, cx', s1, w1)" by (metis surj_pair)
  with assms(2) have "emit_proxied search tc te ga (cfg\<lparr>px_builder := None\<rparr>) ?c ?tool cx s w = (r, cx', s1, w1)"
    by (simp add: emit_proxied_def)
  from handled_tool_request [OF assms(1,3) this] assms(4) have
    res: "reply = (case r of Inl e \<Rightarrow> Inl (Call_Failed e) | Inr v \<Rightarrow> Inr \<lparr>pr_status = 200, pr_content = to_json_safe v\<rparr>)"
      "w' = w1" by simp_all
  have ran: "(r, w1) = run_tool ?tool w \<Longrightarrow> w1 = snd (upstream (JObj body) w)"
    by (simp add: run_tool_eq forwarded)
  show ?thesis
    using gated_tool [OF e] ran unfolding res by fastforce
qed

theorem proxy_gate_witness:
  "\<exists>reply ctx' s'. handle_jsonrpc (\<lambda>c s. c \<in> set s) (Some (new_context 1 2)) (Some (jsonl_traced (\<lambda>_. None) (\<lambda>_. sample_env Disk_Ok)))
     None sample_trace_env sample_gate (sample_proxy True) (counting_upstream \<lparr>hr_status = 200, hr_body = Some (JInt 3)\<rparr>)
     (JObj (sample_tool_request (JObj [(''to'', JStr ''bob'')]))) (0, empty_client Fsync_Chain) 4
     = (Inl reply, ctx', s', 4)"
proof -
  let ?up = "counting_upstream \<lparr>hr_status = 200, hr_body = Some (JInt 3)\<rparr>"
  obtain reply ctx' s' w' where run: "handle_jsonrpc (\<lambda>c s. c \<in> set s) (Some (new_context 1 2))
     (Some (jsonl_traced (\<lambda>_. None) (\<lambda>_. sample_env Disk_Ok))) None sample_trace_env sample_gate (sample_proxy True) ?up
     (JObj (sample_tool_request (JObj [(''to'', JStr ''bob'')]))) (0, empty_client Fsync_Chain) 4 = (reply, ctx', s', w')"
    by (metis surj_pair)
  have "\<not> says_yes (strip_chars is_space ''no'')"
    by (simp add: strip_chars_def is_space_def says_yes_def)
  then have "w' = 4 \<and> (\<exists>e. reply = Inl e)"
    using proxy_gate [OF sample_tool _ sample_resolved run] by (auto simp: sample_proxy_def sample_gate_def)
  with run show ?thesis by blast
qed

text \<open>\<open>list_arguments_escape_redaction\<close>: \<open>arguments\<close> given as a JSON list are captured as they came
  whatever redaction the proxy has, so the hash is one of the unredacted text; and the text itself is what
  the approval record presents.\<close>

theorem list_arguments_escape_redaction:
  "redacted_input search (proxied_call search (cfg\<lparr>px_redaction := Some rc\<rparr>) name (JArr xs)) =
     to_json_safe (of_json (JArr xs)) \<and>
   context_presented search None (proxied_call search (cfg\<lparr>px_redaction := Some rc\<rparr>) name (JArr xs)) =
     JObj [(''tool_name'', JStr name), (''input_summary'', JStr (take 500 (py_str (to_json_safe (of_json (JArr xs))))))]"
  by (simp add: redacted_input_def proxied_call_def apply_redaction_def redact_def context_presented_def)

text \<open>\<open>notification_breaks_proxy\<close>: a message that is not a call and that the server accepts with an empty
  body, as MCP has servers answer notifications, reaches the server, and the proxy then fails on the answer.\<close>

theorem notification_breaks_proxy:
  assumes "dget_or body ''method'' (JStr []) \<noteq> JStr ''tools/call''"
    and "upstream (JObj body) w = (Inr r, w')" and "hr_body r = None"
  shows "handle_jsonrpc search ctx client ambient te ga cfg upstream (JObj body) s w = (Inl (Pass_Failed Not_Json), ctx, s, w')"
  using assms by (simp add: handle_jsonrpc_def as_dict_def pass_through_def)

theorem notification_breaks_proxy_witness:
  "handle_jsonrpc (\<lambda>c s. c \<in> set s) None (None :: (nat, pyexc) traced_client option) None sample_trace_env sample_gate (sample_proxy False)
     (counting_upstream \<lparr>hr_status = 202, hr_body = None\<rparr>)
     (JObj [(''jsonrpc'', JStr ''2.0''), (''method'', JStr ''notifications/initialized'')]) 5 0
   = (Inl (Pass_Failed Not_Json), None, 5, 1)"
  by (rule notification_breaks_proxy [where r = "\<lparr>hr_status = 202, hr_body = None\<rparr>"])
    (simp_all add: dget_or_def counting_upstream_def)

text \<open>\<open>refused_calls_lose_the_answer\<close>: an error answer of the server with a JSON body is relayed with its status
  and body, unless the request was a \<open>tools/call\<close>: then the call fails and the body is lost.\<close>

theorem refused_calls_lose_the_answer:
  assumes "upstream (JObj body) w = (Inr r, w')" and "hr_body r = Some j" and "300 \<le> hr_status r"
  shows "fst (pass_through upstream (JObj body) w) = Inr \<lparr>pr_status = hr_status r, pr_content = j\<rparr> \<and>
    fst (forward_to_upstream upstream (JObj body) w) = Inl (Bad_Status (hr_status r))"
  using assms by (simp add: pass_through_def forward_to_upstream_def)

theorem refused_calls_lose_the_answer_witness:
  "fst (pass_through (counting_upstream \<lparr>hr_status = 404, hr_body = Some (JInt 1)\<rparr>) (JObj []) 0) = Inr \<lparr>pr_status = 404, pr_content = JInt 1\<rparr>"
  using refused_calls_lose_the_answer [of "counting_upstream \<lparr>hr_status = 404, hr_body = Some (JInt 1)\<rparr>" "[]" 0
    "\<lparr>hr_status = 404, hr_body = Some (JInt 1)\<rparr>" 1 "JInt 1"]
  by (simp add: counting_upstream_def)

section \<open>What an auditor can tell\<close>

lemma entry_canonical:
  "canonical_of ((''session_id'', JStr (uuid_str (ar_session_id r))) # chain_entry r) = canonical_of (row_canonical r)"
  by (simp add: canonical_of_def chain_entry_def row_canonical_def dict_simps)

lemma entry_hash: "dget (chain_entry r) ''self_hash'' = JStr (ar_self_hash r)"
  by (simp add: chain_entry_def dict_simps)

text \<open>C23. \<open>auditor_agrees\<close>: the verdict the auditor's tool gives is the one \<open>rootsign verify\<close> exits with, over as
  many records as the chain query lists, in the order of their numbers; and what it lists suffices to recompute
  the hash of each record of a session called valid, with no access to the store or to any payload.\<close>

theorem auditor_agrees:
  "\<exists>es r lines. query_session_chain (Inr ()) (uuid_str u) d = Inr es \<and> verify_session_chain (Inr ()) (uuid_str u) d = Inr r \<and>
     verify_command (Some (uuid_str u)) None verbose (Inr d) = Cli_Exit (exit_code (cr_verdict r)) lines \<and>
     cr_record_count r = length es \<and> (\<exists>ns. map (\<lambda>e. dget e ''sequence_number'') es = map JInt ns \<and> sorted ns) \<and>
     (cr_verdict r \<noteq> TAMPERED \<longrightarrow>
       (\<forall>e \<in> set es. dget e ''self_hash'' = JStr (hash_of ((''session_id'', JStr (uuid_str u)) # e))))"
proof -
  let ?rs = "get_session_chain u d"
  obtain r where r: "verify_chain u d = Inr r" "cr_record_count r = length ?rs"
    "cr_verdict r = (if \<not> intact (map row_dict ?rs) then TAMPERED
      else if absent (seqs (map row_dict ?rs)) = {} then VALID else INCOMPLETE)"
    using verify_chain_characterised [of u d] by blast
  have cmd: "\<exists>lines. verify_command (Some (uuid_str u)) None verbose (Inr d) = Cli_Exit (exit_code (cr_verdict r)) lines"
    by (simp add: verify_command_def verify_remote_command_def verify_session_def r(1) uuid_parse_str)
  have hashed: "dget (chain_entry a) ''self_hash'' = JStr (hash_of ((''session_id'', JStr (uuid_str u)) # chain_entry a))"
    if "cr_verdict r \<noteq> TAMPERED" "a \<in> set ?rs" for a
  proof -
    have "intact (map row_dict ?rs)" using that(1) r(3) by (simp split: if_splits)
    with that(2) have "record_sound (row_dict a)" by (simp add: intact_def)
    then have "ar_self_hash a = hash_of (row_canonical a)" by (simp add: row_sound)
    moreover have "ar_session_id a = u" using that(2) by (simp add: get_session_chain_def)
    ultimately show ?thesis using entry_canonical [of a] by (simp add: entry_hash hash_of_def)
  qed
  have order: "map (\<lambda>e. dget e ''sequence_number'') (map chain_entry ?rs) = map JInt (map ar_sequence_number ?rs)"
    by (simp add: chain_entry_def dict_simps)
  have "query_session_chain (Inr ()) (uuid_str u) d = Inr (map chain_entry ?rs)" "verify_session_chain (Inr ()) (uuid_str u) d = Inr r"
    by (simp_all add: query_session_chain_def verify_session_chain_def query_extra_def postgres_extra_required_def
        query_uuid_def uuid_parse_str r(1))
  moreover have "\<forall>e \<in> set (map chain_entry ?rs). dget e ''self_hash'' = JStr (hash_of ((''session_id'', JStr (uuid_str u)) # e))"
    if "cr_verdict r \<noteq> TAMPERED" using hashed [OF that] by simp
  ultimately show ?thesis
    using cmd r(2) order get_session_chain_sorted [of u d] by (metis length_map)
qed

theorem auditor_agrees_witness:
  "\<exists>es r. query_session_chain (Inr ()) (uuid_str 3) sample_db = Inr es \<and> verify_session_chain (Inr ()) (uuid_str 3) sample_db = Inr r \<and>
     cr_record_count r = length es"
  using auditor_agrees [of 3 sample_db False] by blast

end
