(* ===== verification/Frameworks.thy ===== *)
theory Frameworks
  imports Facade
begin

text \<open>
  The framework adapters: \<^verbatim>\<open>rootsign/sdk/frameworks/langgraph.py\<close>,
  \<^verbatim>\<open>rootsign/sdk/frameworks/crewai.py\<close>, \<^verbatim>\<open>rootsign/sdk/_async_bridge.py\<close>, and
  \<open>trace\<close> and \<open>_log_safe\<close> of \<^verbatim>\<open>rootsign/sdk/decorator.py\<close>. Tools are objects, named by
  numbers, whose methods \<open>wrap_tool\<close> replaces: a replaced method holds the settings it was given and the method
  it replaced. What a tool's own method does is code of its author and of the framework, a program that acts on a world
  and may call any tool, so that calls nest. Session contexts and clients are objects too. A program may call
  itself through its tools, so a run has fuel, spent one per tool entered: \<open>None\<close> is a run that
  has not returned within it.
\<close>

section \<open>Log fields\<close>

text \<open>\<open>printable\<close> is \<open>str.isprintable\<close> of a character.\<close>

fun defang_breaks :: "string \<Rightarrow> string" where
  "defang_breaks [] = []"
| "defang_breaks [c] = (if c = CHR 0x0A then [CHR 0x5C] @ ''x0a'' else if c = CHR 0x0D then [CHR 0x5C] @ ''x0d'' else [c])"
| "defang_breaks (c # c' # cs) =
     (if c = CHR 0x0D \<and> c' = CHR 0x0A then [CHR 0x5C] @ ''x0d'' @ [CHR 0x5C] @ ''x0a'' @ defang_breaks cs
      else (if c = CHR 0x0A then [CHR 0x5C] @ ''x0a'' else if c = CHR 0x0D then [CHR 0x5C] @ ''x0d'' else [c]) @
           defang_breaks (c' # cs))"

definition log_field_limit :: nat where "log_field_limit = 200"

definition log_safe :: "nat \<Rightarrow> string \<Rightarrow> string" where
  "log_safe limit value =
     (let shown = (if length value > limit then take limit value @ ''...(truncated)'' else value)
      in concat (map (\<lambda>c. if printable c then [c] else [CHR 0x5C] @ ''x'' @ hex_pad 2 (of_char c)) (defang_breaks shown)))"

section \<open>Tools and their methods\<close>

datatype framework = LangChain | CrewAI | Plain_Function

datatype entry = Sync | Async

text \<open>\<open>tr_ctx\<close> and \<open>tr_client\<close>: the context and the client given to \<open>wrap_tool\<close>.\<close>

record 'p tracing =
  tr_ctx :: "nat option"
  tr_client :: "nat option"
  tr_redaction :: "'p redaction_config option"
  tr_tool_name :: string

text \<open>\<open>Own\<close> is what the author and the framework wrote. The others replaced the method they hold.\<close>

datatype 'p meth =
    Own entry
  | Traced_Invoke "'p tracing" "'p meth"
  | Traced_Ainvoke "'p tracing" "'p meth"
  | Traced_Run "'p tracing" "'p meth"
  | Traced_Arun "'p tracing" "'p meth"

text \<open>\<open>to_sync\<close> and \<open>to_async\<close>: \<open>invoke\<close> and \<open>ainvoke\<close> of a LangChain tool, \<open>_run\<close> and
  \<open>_rootsign_arun\<close> of a CrewAI tool, the second missing until the tool is wrapped. \<open>to_runs\<close>: the
  object has a \<open>name\<close> that is a string and a callable \<open>_run\<close>.\<close>

record 'p tool_object =
  to_framework :: framework
  to_name :: string
  to_runs :: bool
  to_sync :: "'p meth"
  to_async :: "'p meth option"
  to_instrumented :: bool
  to_context :: "nat option"

type_synonym 'p tools = "nat \<Rightarrow> 'p tool_object"

record 'p wrap_args =
  wa_ctx :: "nat option"
  wa_client :: "nat option"
  wa_redaction :: "'p redaction_config option"

definition tracing_of :: "'p wrap_args \<Rightarrow> 'p tool_object \<Rightarrow> 'p tracing" where
  "tracing_of wa tool =
     \<lparr>tr_ctx = wa_ctx wa, tr_client = wa_client wa, tr_redaction = wa_redaction wa, tr_tool_name = to_name tool\<rparr>"

definition wrap_langgraph :: "'p wrap_args \<Rightarrow> 'p tool_object \<Rightarrow> 'p tool_object" where
  "wrap_langgraph wa tool =
     tool\<lparr>to_sync := Traced_Invoke (tracing_of wa tool) (to_sync tool),
          to_async := map_option (Traced_Ainvoke (tracing_of wa tool)) (to_async tool),
          to_instrumented := True, to_context := wa_ctx wa\<rparr>"

definition wrap_crewai :: "'p wrap_args \<Rightarrow> 'p tool_object \<Rightarrow> 'p tool_object" where
  "wrap_crewai wa tool =
     tool\<lparr>to_sync := Traced_Run (tracing_of wa tool) (to_sync tool),
          to_async := Some (Traced_Arun (tracing_of wa tool) (to_sync tool)),
          to_instrumented := True, to_context := wa_ctx wa\<rparr>"

text \<open>Both \<open>wrap_tools\<close>: the list they return holds the objects of the list they were given.\<close>

definition wrap_unless :: "('p tool_object \<Rightarrow> 'p tool_object) \<Rightarrow> nat \<Rightarrow> 'p tools \<Rightarrow> 'p tools" where
  "wrap_unless wrap t tools = (if to_instrumented (tools t) then tools else tools(t := wrap (tools t)))"

definition wrap_tools :: "'p wrap_args \<Rightarrow> nat list \<Rightarrow> 'p tools \<Rightarrow> nat list \<times> 'p tools" where
  "wrap_tools wa ts tools = (ts, fold (wrap_unless (wrap_langgraph wa)) ts tools)"

definition wrap_crewai_tools :: "'p wrap_args \<Rightarrow> nat list \<Rightarrow> 'p tools \<Rightarrow> nat list \<times> 'p tools" where
  "wrap_crewai_tools wa ts tools = (ts, fold (wrap_unless (wrap_crewai wa)) ts tools)"

section \<open>The decorator\<close>

definition is_langchain_tool :: "bool \<Rightarrow> 'p tool_object \<Rightarrow> bool" where
  "is_langchain_tool installed tool \<longleftrightarrow> installed \<and> to_framework tool = LangChain"

definition is_crewai_tool :: "'p tool_object \<Rightarrow> bool" where
  "is_crewai_tool tool \<longleftrightarrow> to_runs tool \<and> \<not> to_instrumented tool"

text \<open>What the decorator returns: the same object, or a coroutine function around it. A function that is gated
  runs as \<open>emit_hitl_action\<close>, one that is not as \<open>emit_action_record\<close> (\<open>Tracer\<close>).\<close>

datatype decorated = Same_Tool nat | Traced_Function string | Gated_Function string

datatype decorator_error = Gate_Not_Implemented framework

text \<open>\<open>fname\<close>: the \<open>__name__\<close> of the object, if it has one.\<close>

definition trace ::
  "bool \<Rightarrow> 'p wrap_args \<Rightarrow> string option \<Rightarrow> bool \<Rightarrow> string option \<Rightarrow> nat \<Rightarrow> 'p tools \<Rightarrow>
   (decorator_error + decorated) \<times> 'p tools" where
  "trace installed wa tool_name require_approval fname func tools =
     (if is_langchain_tool installed (tools func)
      then (if require_approval then (Inl (Gate_Not_Implemented LangChain), tools)
            else (Inr (Same_Tool func), tools(func := wrap_langgraph wa (tools func))))
      else if is_crewai_tool (tools func)
      then (if require_approval then (Inl (Gate_Not_Implemented CrewAI), tools)
            else (Inr (Same_Tool func), tools(func := wrap_crewai wa (tools func))))
      else (let name = (case tool_name of Some (c # cs) \<Rightarrow> c # cs
                        | _ \<Rightarrow> (case fname of Some f \<Rightarrow> f | None \<Rightarrow> ''unknown_tool''))
            in (Inr (if require_approval then Gated_Function name else Traced_Function name), tools)))"

section \<open>Running\<close>

text \<open>The context variables a frame sees, and whether a loop runs on its thread.\<close>

record frame =
  fr_emitting :: bool
  fr_ambient :: "(nat \<times> nat) option"
  fr_loop :: bool

text \<open>\<open>_run_sync\<close>: the frame the coroutine runs in. \<open>asyncio.run\<close> copies the context variables, a new
  thread starts without any.\<close>

definition run_sync_frame :: "frame \<Rightarrow> frame" where
  "run_sync_frame fr =
     (if \<not> fr_loop fr then fr\<lparr>fr_loop := True\<rparr>
      else \<lparr>fr_emitting = False, fr_ambient = None, fr_loop = True\<rparr>)"

record arguments =
  ag_args :: "pyobj list"
  ag_kwargs :: "(string \<times> pyobj) list"

datatype ('x, 'e) call_exn =
    Raised_By_Tool 'x
  | Raised_Persistence 'e
  | Raised_Sdk sdk_error
  | Wrong_Arguments
  | No_Such_Method

text \<open>A program acts on the world, calls a tool and goes on with what came of it, or ends. A call may be made
  on an executor thread, which has the caller's context variables and no loop: the way LangChain's \<open>ainvoke\<close>
  runs a tool that is not a coroutine, by its \<open>invoke\<close>.\<close>

datatype ('w, 'x, 'e) prog =
    Done "('x, 'e) call_exn + pyobj"
  | Act "'w \<Rightarrow> 'w" "'w \<Rightarrow> ('w, 'x, 'e) prog"
  | Call bool nat entry arguments "('x, 'e) call_exn + pyobj \<Rightarrow> ('w, 'x, 'e) prog"

record ('s, 'w) py_state =
  ps_ctx :: "nat \<Rightarrow> session_context"
  ps_client :: "nat \<Rightarrow> 's"
  ps_calls :: nat
  ps_world :: 'w

record ('p, 's, 'w, 'x, 'e) app =
  ap_search :: "'p \<Rightarrow> string \<Rightarrow> bool"
  ap_tools :: "'p tools"
  ap_own :: "nat \<Rightarrow> entry \<Rightarrow> arguments \<Rightarrow> ('w, 'x, 'e) prog"
  ap_client :: "nat \<Rightarrow> ('s, 'e) traced_client"
  ap_env :: "nat \<Rightarrow> trace_env"

type_synonym ('s, 'w, 'x, 'e) ran = "((('x, 'e) call_exn + pyobj) \<times> ('s, 'w) py_state) option"

primrec run_prog ::
  "(bool \<Rightarrow> nat \<Rightarrow> entry \<Rightarrow> arguments \<Rightarrow> ('s, 'w) py_state \<Rightarrow> ('s, 'w, 'x, 'e) ran) \<Rightarrow> ('w, 'x, 'e) prog \<Rightarrow> ('s, 'w) py_state \<Rightarrow>
   ('s, 'w, 'x, 'e) ran" where
  "run_prog call (Done r) st = Some (r, st)"
| "run_prog call (Act f k) st = run_prog call (k (ps_world st)) (st\<lparr>ps_world := f (ps_world st)\<rparr>)"
| "run_prog call (Call executor t e a k) st =
     (case call executor t e a st of None \<Rightarrow> None | Some (r, st') \<Rightarrow> run_prog call (k r) st')"

text \<open>\<open>_emit_action_record\<close> around a call that may itself use the context and the client.\<close>

definition emit_around ::
  "('p, 's, 'w, 'x, 'e) app \<Rightarrow> nat \<times> nat \<Rightarrow> 'p traced_call \<Rightarrow> (('s, 'w) py_state \<Rightarrow> ('s, 'w, 'x, 'e) ran) \<Rightarrow>
   ('s, 'w) py_state \<Rightarrow> ('s, 'w, 'x, 'e) ran" where
  "emit_around ap found c func st =
     (let (ctx, client) = found;
          te = ap_env ap (ps_calls st);
          input = redacted_input (ap_search ap) c;
          (decision_id, cx1) = consume_pending_decision_id (ps_ctx st ctx)
      in case func (st\<lparr>ps_ctx := (ps_ctx st)(ctx := cx1), ps_calls := Suc (ps_calls st)\<rparr>) of
           None \<Rightarrow> None
         | Some (res, st1) \<Rightarrow>
             (let output = (case res of Inl _ \<Rightarrow> JNull | Inr v \<Rightarrow> redacted_output (ap_search ap) c v);
                  output_hash = (case res of Inl _ \<Rightarrow> None | Inr v \<Rightarrow> Some (compute_payload_hash output));
                  envelope = action_envelope te (ps_ctx st1 ctx) (ca_tool_name c) (compute_payload_hash input) output_hash
                               input output ''auto_authorized'' decision_id
              in case try_ingest (ap_client ap client) envelope (ps_ctx st1 ctx) (ps_client st1 client) of
                   (a, cx2, s2) \<Rightarrow>
                     Some (case a of Inl e \<Rightarrow> Inl (Raised_Persistence e) | Inr _ \<Rightarrow> res,
                           st1\<lparr>ps_ctx := (ps_ctx st1)(ctx := cx2), ps_client := (ps_client st1)(client := s2)\<rparr>)))"

text \<open>The context and the client a wrapped tool's record goes to, found in the caller's frame.\<close>

definition call_target :: "string \<Rightarrow> 'p tracing \<Rightarrow> frame \<Rightarrow> sdk_error + nat \<times> nat" where
  "call_target surface tr fr = resolve_ctx_client (tr_ctx tr) (tr_client tr) (Some surface) (fr_ambient fr)"

definition call_of :: "'p tracing \<Rightarrow> pyobj list \<Rightarrow> (string \<times> pyobj) list \<Rightarrow> 'p traced_call" where
  "call_of tr args kwargs =
     \<lparr>ca_tool_name = tr_tool_name tr, ca_args = args, ca_kwargs = kwargs, ca_redaction = tr_redaction tr, ca_override = None\<rparr>"

text \<open>The four methods that trace. \<open>own\<close> runs what was there before any wrapping. A LangChain method takes an
  input and an optional \<open>config\<close>; only the input is captured.\<close>

primrec call_meth ::
  "('p, 's, 'w, 'x, 'e) app \<Rightarrow> (frame \<Rightarrow> entry \<Rightarrow> arguments \<Rightarrow> ('s, 'w) py_state \<Rightarrow> ('s, 'w, 'x, 'e) ran) \<Rightarrow> 'p meth \<Rightarrow>
   frame \<Rightarrow> arguments \<Rightarrow> ('s, 'w) py_state \<Rightarrow> ('s, 'w, 'x, 'e) ran" where
  "call_meth ap own (Own e) fr a st = own fr e a st"
| "call_meth ap own (Traced_Invoke tr m) fr a st =
     (if fr_emitting fr then call_meth ap own m fr a st
      else (case call_target ''wrap_tools'' tr fr of
              Inl e \<Rightarrow> Some (Inl (Raised_Sdk e), st)
            | Inr found \<Rightarrow>
                emit_around ap found (call_of tr [hd (ag_args a)] [])
                  (call_meth ap own m ((run_sync_frame fr)\<lparr>fr_emitting := True\<rparr>) a) st))"
| "call_meth ap own (Traced_Ainvoke tr m) fr a st =
     (if fr_emitting fr then call_meth ap own m fr a st
      else (case call_target ''wrap_tools'' tr fr of
              Inl e \<Rightarrow> Some (Inl (Raised_Sdk e), st)
            | Inr found \<Rightarrow>
                emit_around ap found (call_of tr [hd (ag_args a)] [])
                  (call_meth ap own m (fr\<lparr>fr_emitting := True\<rparr>) a) st))"
| "call_meth ap own (Traced_Run tr m) fr a st =
     (case call_target ''wrap_crewai_tools'' tr fr of
        Inl e \<Rightarrow> Some (Inl (Raised_Sdk e), st)
      | Inr found \<Rightarrow>
          emit_around ap found (call_of tr (ag_args a) (ag_kwargs a)) (call_meth ap own m (run_sync_frame fr) a) st)"
| "call_meth ap own (Traced_Arun tr m) fr a st =
     (case call_target ''wrap_crewai_tools'' tr fr of
        Inl e \<Rightarrow> Some (Inl (Raised_Sdk e), st)
      | Inr found \<Rightarrow>
          emit_around ap found (call_of tr (ag_args a) (ag_kwargs a)) (call_meth ap own m fr a) st)"

definition entry_meth :: "'p tool_object \<Rightarrow> entry \<Rightarrow> 'p meth option" where
  "entry_meth tool e = (case e of Sync \<Rightarrow> Some (to_sync tool) | Async \<Rightarrow> to_async tool)"

text \<open>\<open>invoke(input, config=None, **kwargs)\<close> is the signature of a LangChain tool, wrapped or not.\<close>

definition fits :: "'p tool_object \<Rightarrow> arguments \<Rightarrow> bool" where
  "fits tool a \<longleftrightarrow> to_framework tool = LangChain \<longrightarrow> ag_args a \<noteq> [] \<and> length (ag_args a) \<le> 2"

definition on_thread :: "bool \<Rightarrow> frame \<Rightarrow> frame" where
  "on_thread executor fr = (if executor then fr\<lparr>fr_loop := False\<rparr> else fr)"

primrec call_tool ::
  "('p, 's, 'w, 'x, 'e) app \<Rightarrow> nat \<Rightarrow> frame \<Rightarrow> nat \<Rightarrow> entry \<Rightarrow> arguments \<Rightarrow> ('s, 'w) py_state \<Rightarrow> ('s, 'w, 'x, 'e) ran" where
  "call_tool ap 0 fr t e a st = None"
| "call_tool ap (Suc n) fr t e a st =
     (case entry_meth (ap_tools ap t) e of
        None \<Rightarrow> Some (Inl No_Such_Method, st)
      | Some m \<Rightarrow>
          if \<not> fits (ap_tools ap t) a then Some (Inl Wrong_Arguments, st)
          else call_meth ap (\<lambda>fr e a st. run_prog (\<lambda>executor. call_tool ap n (on_thread executor fr)) (ap_own ap t e a) st)
                 m fr a st)"

section \<open>The tools without tracing\<close>

primrec core :: "'p meth \<Rightarrow> entry" where
  "core (Own e) = e"
| "core (Traced_Invoke tr m) = core m"
| "core (Traced_Ainvoke tr m) = core m"
| "core (Traced_Run tr m) = core m"
| "core (Traced_Arun tr m) = core m"

text \<open>The reference: what the tools do to the world, as if none was wrapped, with the tools that were entered in
  the order they returned.\<close>

type_synonym ('w, 'x, 'e) plain_ran = "((('x, 'e) call_exn + pyobj) \<times> 'w \<times> nat list) option"

primrec plain_prog ::
  "(nat \<Rightarrow> entry \<Rightarrow> arguments \<Rightarrow> 'w \<Rightarrow> ('w, 'x, 'e) plain_ran) \<Rightarrow> ('w, 'x, 'e) prog \<Rightarrow> 'w \<Rightarrow> ('w, 'x, 'e) plain_ran" where
  "plain_prog call (Done r) w = Some (r, w, [])"
| "plain_prog call (Act f k) w = plain_prog call (k w) (f w)"
| "plain_prog call (Call executor t e a k) w =
     (case call t e a w of
        None \<Rightarrow> None
      | Some (r, w', ts) \<Rightarrow>
          (case plain_prog call (k r) w' of None \<Rightarrow> None | Some (r', w'', ts') \<Rightarrow> Some (r', w'', ts @ ts')))"

primrec plain_tool ::
  "('p, 's, 'w, 'x, 'e) app \<Rightarrow> nat \<Rightarrow> nat \<Rightarrow> entry \<Rightarrow> arguments \<Rightarrow> 'w \<Rightarrow> ('w, 'x, 'e) plain_ran" where
  "plain_tool ap 0 t e a w = None"
| "plain_tool ap (Suc n) t e a w =
     (case entry_meth (ap_tools ap t) e of
        None \<Rightarrow> Some (Inl No_Such_Method, w, [])
      | Some m \<Rightarrow>
          if \<not> fits (ap_tools ap t) a then Some (Inl Wrong_Arguments, w, [])
          else (case plain_prog (plain_tool ap n) (ap_own ap t (core m) a) w of
                  None \<Rightarrow> None | Some (r, w', ts) \<Rightarrow> Some (r, w', ts @ [t])))"

section \<open>Under the guard\<close>

primrec lc_meth :: "'p meth \<Rightarrow> bool" where
  "lc_meth (Own e) \<longleftrightarrow> True"
| "lc_meth (Traced_Invoke tr m) \<longleftrightarrow> lc_meth m"
| "lc_meth (Traced_Ainvoke tr m) \<longleftrightarrow> lc_meth m"
| "lc_meth (Traced_Run tr m) \<longleftrightarrow> False"
| "lc_meth (Traced_Arun tr m) \<longleftrightarrow> False"

text \<open>Any number of wrappings by the LangGraph adapter, none by the other.\<close>

definition lc_app :: "('p, 's, 'w, 'x, 'e) app \<Rightarrow> bool" where
  "lc_app ap \<longleftrightarrow> (\<forall>t e m. entry_meth (ap_tools ap t) e = Some m \<longrightarrow> lc_meth m)"

lemma guard_strips: "lc_meth m \<Longrightarrow> fr_emitting fr \<Longrightarrow> call_meth ap own m fr a st = own fr (core m) a st"
  by (induction m) simp_all

abbreviation in_world :: "('s, 'w) py_state \<Rightarrow> ('w, 'x, 'e) plain_ran \<Rightarrow> ('s, 'w, 'x, 'e) ran" where
  "in_world st \<equiv> map_option (\<lambda>(r, w, ts). (r, st\<lparr>ps_world := w\<rparr>))"

lemma guarded_prog:
  assumes "\<And>x t e a st. call x t e a st = in_world st (ref t e a (ps_world st))"
  shows "run_prog call p st = in_world st (plain_prog ref p (ps_world st))"
proof (induction p arbitrary: st)
  case (Call x t e a k)
  show ?case
  proof (cases "ref t e a (ps_world st)")
    case None
    then show ?thesis by (simp add: assms)
  next
    case (Some out)
    obtain r w ts where out: "out = (r, w, ts)" by (cases out)
    show ?thesis
      using Call [of _ "st\<lparr>ps_world := w\<rparr>"] by (simp add: assms Some out split: option.split)
  qed
qed simp_all

lemma guarded_is_plain:
  assumes "lc_app ap"
  shows "fr_emitting fr \<Longrightarrow> call_tool ap n fr t e a st = in_world st (plain_tool ap n t e a (ps_world st))"
proof (induction n arbitrary: fr t e a st)
  case (Suc n)
  show ?case
  proof (cases "entry_meth (ap_tools ap t) e")
    case (Some m)
    with assms have lc: "lc_meth m" by (auto simp: lc_app_def)
    have "run_prog (\<lambda>x. call_tool ap n (on_thread x fr)) p st = in_world st (plain_prog (plain_tool ap n) p (ps_world st))" for p st
      by (rule guarded_prog) (simp add: Suc on_thread_def)
    then show ?thesis
      by (simp add: Some guard_strips [OF lc Suc.prems] split: option.split)
  qed simp
qed simp

section \<open>LangGraph tools\<close>

definition outer_tracing :: "'p meth \<Rightarrow> 'p tracing option" where
  "outer_tracing m = (case m of Traced_Invoke tr _ \<Rightarrow> Some tr | Traced_Ainvoke tr _ \<Rightarrow> Some tr | _ \<Rightarrow> None)"

lemma emit_around_result:
  assumes "\<And>st. func st = in_world st (F (ps_world st))" and "F (ps_world st) = Some (res, w, ts)"
    and "emit_around ap (c, k) call func st = outcome"
  shows "\<exists>envelope payload r st'. outcome = Some (r, st') \<and> ps_world st' = w \<and>
    ps_client st' = (ps_client st)(k := snd (tc_handle (ap_client ap k) envelope (ps_client st k))) \<and>
    dget envelope ''payload'' = JObj payload \<and> dget payload ''tool_name'' = JStr (ca_tool_name call) \<and>
    dget payload ''input_hash'' = JStr (compute_payload_hash (redacted_input (ap_search ap) call)) \<and>
    (r = res \<or> (\<exists>x. r = Inl (Raised_Persistence x) \<and> tc_persistence (ap_client ap k) x))"
proof -
  let ?cx = "snd (consume_pending_decision_id (ps_ctx st c))" and ?tc = "ap_client ap k"
  let ?output = "case res of Inl _ \<Rightarrow> JNull | Inr v \<Rightarrow> redacted_output (ap_search ap) call v"
  let ?envelope = "action_envelope (ap_env ap (ps_calls st)) ?cx (ca_tool_name call)
      (compute_payload_hash (redacted_input (ap_search ap) call))
      (case res of Inl _ \<Rightarrow> None | Inr v \<Rightarrow> Some (compute_payload_hash ?output))
      (redacted_input (ap_search ap) call) ?output ''auto_authorized'' (fst (consume_pending_decision_id (ps_ctx st c)))"
  obtain b cx2 s2 where ing: "try_ingest ?tc ?envelope ?cx (ps_client st k) = (b, cx2, s2)" by (metis surj_pair)
  have s2: "s2 = snd (tc_handle ?tc ?envelope (ps_client st k))"
    using try_ingest_state [of ?tc ?envelope ?cx "ps_client st k"] ing by simp
  have raised: "tc_persistence ?tc x" if "b = Inl x" for x
    using ing that by (auto simp: try_ingest_def split: prod.splits sum.splits if_splits)
  define r where "r = (case b of Inl e \<Rightarrow> Inl (Raised_Persistence e) | Inr _ \<Rightarrow> res)"
  have "\<exists>st'. outcome = Some (r, st') \<and> ps_world st' = w \<and> ps_client st' = (ps_client st)(k := s2)"
    using assms(3) [symmetric] assms(2)
    by (simp add: emit_around_def Let_def assms(1) consume_pending_decision_id_def ing [unfolded consume_pending_decision_id_def, simplified] r_def)
  then obtain st' where st': "outcome = Some (r, st')" "ps_world st' = w" "ps_client st' = (ps_client st)(k := s2)" by blast
  have "\<exists>payload. dget ?envelope ''payload'' = JObj payload \<and> dget payload ''tool_name'' = JStr (ca_tool_name call) \<and>
    dget payload ''input_hash'' = JStr (compute_payload_hash (redacted_input (ap_search ap) call))"
    by (simp add: action_envelope_def event_envelope_def dict_simps)
  moreover have "r = res \<or> (\<exists>x. r = Inl (Raised_Persistence x) \<and> tc_persistence ?tc x)"
    using raised by (cases b) (simp_all add: r_def)
  ultimately show ?thesis using st' s2 by blast
qed


text \<open>A client that keeps what it is handed.\<close>

definition keeping :: "(dict list, 'e) traced_client" where
  "keeping = \<lparr>tc_handle = (\<lambda>d ds. (Inr (accepted 0 None None None), ds @ [d])), tc_persistence = (\<lambda>_. False), tc_jsonl = False\<rparr>"

lemma keeping_simps [simp]:
  "tc_handle keeping d ds = (Inr (accepted 0 None None None), ds @ [d])" "\<not> tc_persistence keeping e"
  by (simp_all add: keeping_def)

definition bare_tool :: "framework \<Rightarrow> string \<Rightarrow> 'p tool_object" where
  "bare_tool fw name =
     \<lparr>to_framework = fw, to_name = name, to_runs = True, to_sync = Own Sync,
      to_async = (if fw = LangChain then Some (Own Async) else None), to_instrumented = False, to_context = None\<rparr>"

definition sample_args :: arguments where
  "sample_args = \<lparr>ag_args = [PInt 7], ag_kwargs = []\<rparr>"

text \<open>The first of two wrapped tools is a plain function to LangChain, so its \<open>ainvoke\<close> runs its
  \<open>invoke\<close> on an executor; it counts and calls the second.\<close>

definition sample_app :: "(char tool_object \<Rightarrow> char tool_object) \<Rightarrow> framework \<Rightarrow> (char, dict list, nat, unit, unit) app" where
  "sample_app wrap fw =
     \<lparr>ap_search = (\<lambda>c s. c \<in> set s),
      ap_tools = (\<lambda>t. wrap (bare_tool fw (if t = 0 then ''plan'' else ''fetch''))),
      ap_own = (\<lambda>t e a. if t = 0 \<and> e = Async then Call True 0 Sync a Done
                         else if t = 0 then Act Suc (\<lambda>_. Call False 1 Sync a Done) else Done (Inr PNone)),
      ap_client = (\<lambda>_. keeping), ap_env = (\<lambda>_. sample_trace_env)\<rparr>"

definition sample_state :: "(dict list, nat) py_state" where
  "sample_state = \<lparr>ps_ctx = (\<lambda>_. new_context 1 2), ps_client = (\<lambda>_. []), ps_calls = 0, ps_world = 0\<rparr>"

definition sample_wrap :: "char wrap_args" where
  "sample_wrap = \<lparr>wa_ctx = Some 0, wa_client = Some 0, wa_redaction = None\<rparr>"


text \<open>Around a tool that calls no other, the emission is \<open>Tracer\<close>'s: \<open>flat\<close> forgets how the exception
  of a traced call came about.\<close>

fun flat :: "(('x, 'e) call_exn, 'e) trace_exn + pyobj \<Rightarrow> (('x, 'e) call_exn + pyobj) option" where
  "flat (Inr v) = Some (Inr v)"
| "flat (Inl (Tool_Error x)) = Some (Inl x)"
| "flat (Inl (Persistence_Error e)) = Some (Inl (Raised_Persistence e))"
| "flat (Inl _) = None"

lemma emit_around_simple:
  assumes "\<And>st. func st = (case tool (ps_world st) of (r, w) \<Rightarrow> Some (r, st\<lparr>ps_world := w\<rparr>))"
    and "emit_action_record (ap_search ap) (ap_client ap k) (ap_env ap (ps_calls st)) call tool (ps_ctx st c) (ps_client st k)
           (ps_world st) = (r, cx', s', w')"
  shows "\<exists>r'. flat r = Some r' \<and> emit_around ap (c, k) call func st =
    Some (r', st\<lparr>ps_ctx := (ps_ctx st)(c := cx'), ps_client := (ps_client st)(k := s'), ps_calls := Suc (ps_calls st), ps_world := w'\<rparr>)"
  using assms(2)
  by (cases "tool (ps_world st)"; cases "fst (tool (ps_world st))")
    (auto simp: emit_around_def emit_action_record_def Let_def assms(1) consume_pending_decision_id_def
      split: prod.splits sum.splits)

section \<open>CrewAI tools\<close>

text \<open>Every tool wrapped once by the CrewAI adapter, with a context and a client of the caller's choice.\<close>

definition crew_tool :: "nat \<Rightarrow> nat \<Rightarrow> 'p tool_object \<Rightarrow> bool" where
  "crew_tool c k tool \<longleftrightarrow> to_framework tool = CrewAI \<and>
     (\<exists>tr. tr_ctx tr = Some c \<and> tr_client tr = Some k \<and> tr_tool_name tr = to_name tool \<and>
        to_sync tool = Traced_Run tr (Own Sync) \<and> to_async tool = Some (Traced_Arun tr (Own Sync)))"

definition named :: "'p tools \<Rightarrow> nat list \<Rightarrow> dict list \<Rightarrow> bool" where
  "named tools ts ds \<longleftrightarrow>
     list_all2 (\<lambda>t d. \<exists>p. dget d ''payload'' = JObj p \<and> dget p ''tool_name'' = JStr (to_name (tools t))) ts ds"

text \<open>What a run of the wrapped tools is to the plain run: the same result in the same world, and the client
  \<open>k\<close> was handed the records of the tools that were entered, in the order they returned.\<close>

definition recorded ::
  "'p tools \<Rightarrow> nat \<Rightarrow> (dict list, 'w) py_state \<Rightarrow> ('w, 'x, 'e) plain_ran \<Rightarrow> (dict list, 'w, 'x, 'e) ran \<Rightarrow> bool" where
  "recorded tools k st ref run \<longleftrightarrow>
     (case ref of None \<Rightarrow> run = None
      | Some (r, w, ts) \<Rightarrow> \<exists>st' ds. run = Some (r, st') \<and> ps_world st' = w \<and> ps_client st' k = ps_client st k @ ds \<and> named tools ts ds)"

lemma recorded_prog:
  assumes "\<And>x t e a st. recorded tools k st (ref t e a (ps_world st)) (call x t e a st)"
  shows "recorded tools k st (plain_prog ref p (ps_world st)) (run_prog call p st)"
proof (induction p arbitrary: st)
  case (Act f g)
  show ?case
    using Act [OF rangeI [of g "ps_world st"], of "st\<lparr>ps_world := f (ps_world st)\<rparr>"]
    by (auto simp: recorded_def split: option.splits)
next
  case (Call x t e a g)
  show ?case
  proof (cases "ref t e a (ps_world st)")
    case None
    then show ?thesis using assms [of st t e a x] by (simp add: recorded_def)
  next
    case (Some out)
    obtain r w ts where out: "out = (r, w, ts)" by (cases out)
    obtain st1 ds where st1: "call x t e a st = Some (r, st1)" "ps_world st1 = w" "ps_client st1 k = ps_client st k @ ds"
      "named tools ts ds"
      using assms [of st t e a x] Some out by (auto simp: recorded_def)
    have next_calls: "recorded tools k st1 (plain_prog ref (g r) w) (run_prog call (g r) st1)"
      using Call [OF rangeI [of g r], of st1] st1(2) by simp
    show ?thesis
    proof (cases "plain_prog ref (g r) w")
      case None
      with next_calls show ?thesis by (simp add: recorded_def Some out st1(1))
    next
      case (Some out')
      obtain r' w' ts' where out': "out' = (r', w', ts')" by (cases out')
      from next_calls obtain st2 ds' where "run_prog call (g r) st1 = Some (r', st2)" "ps_world st2 = w'"
        "ps_client st2 k = ps_client st1 k @ ds'" "named tools ts' ds'"
        by (auto simp: recorded_def Some out')
      then have "run_prog call (prog.Call x t e a g) st = Some (r', st2)" "ps_world st2 = w'"
        "ps_client st2 k = ps_client st k @ ds @ ds'" "named tools (ts @ ts') (ds @ ds')"
        using st1 by (simp_all add: named_def list_all2_appendI)
      then show ?thesis by (simp add: recorded_def \<open>ref t e a (ps_world st) = Some out\<close> out Some out')
    qed
  qed
qed (simp add: recorded_def named_def)

definition crew_app :: "nat \<Rightarrow> nat \<Rightarrow> ('p, dict list, 'w, 'x, 'e) app \<Rightarrow> bool" where
  "crew_app c k ap \<longleftrightarrow> (\<forall>t. crew_tool c k (ap_tools ap t)) \<and> ap_client ap k = keeping"

lemma emit_around_kept:
  assumes "ap_client ap k = keeping" and "\<And>st. recorded tools k st (F (ps_world st)) (func st)"
    and "ca_tool_name call = to_name (tools t)"
  shows "recorded tools k st (case F (ps_world st) of None \<Rightarrow> None | Some (r, w, ts) \<Rightarrow> Some (r, w, ts @ [t]))
    (emit_around ap (c, k) call func st)"
proof -
  let ?st0 = "st\<lparr>ps_ctx := (ps_ctx st)(c := snd (consume_pending_decision_id (ps_ctx st c))), ps_calls := Suc (ps_calls st)\<rparr>"
  show ?thesis
  proof (cases "F (ps_world st)")
    case None
    then have "func ?st0 = None" using assms(2) [of ?st0] by (simp add: recorded_def)
    with None show ?thesis by (simp add: recorded_def emit_around_def Let_def consume_pending_decision_id_def)
  next
    case (Some out)
    obtain r w ts where out: "out = (r, w, ts)" by (cases out)
    obtain st1 ds where st1: "func ?st0 = Some (r, st1)" "ps_world st1 = w" "ps_client st1 k = ps_client st k @ ds" "named tools ts ds"
      using assms(2) [of ?st0] Some out by (auto simp: recorded_def)
    let ?output = "case r of Inl _ \<Rightarrow> JNull | Inr v \<Rightarrow> redacted_output (ap_search ap) call v"
    define envelope where "envelope = action_envelope (ap_env ap (ps_calls st)) (ps_ctx st1 c) (ca_tool_name call)
      (compute_payload_hash (redacted_input (ap_search ap) call))
      (case r of Inl _ \<Rightarrow> None | Inr v \<Rightarrow> Some (compute_payload_hash ?output))
      (redacted_input (ap_search ap) call) ?output ''auto_authorized'' (fst (consume_pending_decision_id (ps_ctx st c)))"
    have "\<exists>st'. emit_around ap (c, k) call func st = Some (r, st') \<and> ps_world st' = w \<and> ps_client st' k = ps_client st k @ ds @ [envelope]"
      using st1
      by (simp add: emit_around_def Let_def consume_pending_decision_id_def try_ingest_def assms(1) envelope_def)
    moreover have "\<exists>p. dget envelope ''payload'' = JObj p \<and> dget p ''tool_name'' = JStr (to_name (tools t))"
      by (simp add: envelope_def action_envelope_def event_envelope_def dict_simps assms(3))
    then have "named tools (ts @ [t]) (ds @ [envelope])"
      using st1(4) by (simp add: named_def list_all2_appendI)
    ultimately show ?thesis using Some out by (auto simp: recorded_def)
  qed
qed

lemma own_meth: "call_meth ap own (Own e) fr a = own fr e a"
  by (rule ext) simp

lemma crew_recorded:
  assumes "crew_app c k ap"
  shows "recorded (ap_tools ap) k st (plain_tool ap n t e a (ps_world st)) (call_tool ap n fr t e a st)"
proof (induction n arbitrary: fr t e a st)
  case (Suc n)
  obtain tr where tr: "tr_ctx tr = Some c" "tr_client tr = Some k" "tr_tool_name tr = to_name (ap_tools ap t)"
    "to_sync (ap_tools ap t) = Traced_Run tr (Own Sync)" "to_async (ap_tools ap t) = Some (Traced_Arun tr (Own Sync))"
    "fits (ap_tools ap t) a" and kept: "ap_client ap k = keeping"
    using assms by (auto simp: crew_app_def crew_tool_def fits_def)
  have found: "call_target surface tr fr = Inr (c, k)" for surface fr
    by (simp add: call_target_def resolve_ctx_client_def tr)
  let ?own = "\<lambda>fr a st. run_prog (\<lambda>x. call_tool ap n (on_thread x fr)) (ap_own ap t Sync a) st"
  have own: "recorded (ap_tools ap) k st (plain_prog (plain_tool ap n) (ap_own ap t Sync a) (ps_world st)) (?own fr a st)" for fr st
    by (rule recorded_prog) (rule Suc)
  have "recorded (ap_tools ap) k st
      (case plain_prog (plain_tool ap n) (ap_own ap t Sync a) (ps_world st) of None \<Rightarrow> None | Some (r, w, ts) \<Rightarrow> Some (r, w, ts @ [t]))
      (emit_around ap (c, k) (call_of tr (ag_args a) (ag_kwargs a)) (?own fr' a) st)" for fr'
    by (rule emit_around_kept [OF kept own]) (simp add: call_of_def tr)
  then show ?case
    by (cases e) (simp_all add: entry_meth_def tr found own_meth)
qed (simp add: recorded_def)



text \<open>\<open>worker_thread_loses_session\<close>: a CrewAI tool that is called where a loop runs works on a new thread, which
  does not see the ambient session. Its own record still goes to the session, as the outer call found it before; but a
  tool it calls, wrapped without a context of its own, raises \<open>RootSignNotInitializedError\<close> and does not run.\<close>

theorem worker_thread_loses_session:
  assumes "to_framework (ap_tools ap t) = CrewAI" and "to_sync (ap_tools ap t) = Traced_Run tr (Own Sync)"
    and "to_framework (ap_tools ap t') = CrewAI" and "to_sync (ap_tools ap t') = Traced_Run tr' m'"
    and "tr_ctx tr = None" and "tr_client tr = None" and "tr_ctx tr' = None" and "tr_client tr' = None"
    and "fr_loop fr" and "fr_ambient fr = Some (c, k)"
    and "ap_own ap t Sync a = Call False t' Sync a' cont"
  shows "call_tool ap (Suc (Suc n)) fr t Sync a st =
    emit_around ap (c, k) (call_of tr (ag_args a) (ag_kwargs a))
      (run_prog (\<lambda>x. call_tool ap (Suc n) (on_thread x (run_sync_frame fr)))
        (cont (Inl (Raised_Sdk (not_initialized (Some ''wrap_crewai_tools'')))))) st"
proof -
  have "call_tool ap (Suc n) (run_sync_frame fr) t' Sync a' st' = Some (Inl (Raised_Sdk (not_initialized (Some ''wrap_crewai_tools''))), st')" for st'
    using assms by (simp add: entry_meth_def fits_def call_target_def resolve_ctx_client_def run_sync_frame_def)
  then have "(\<lambda>st. run_prog (\<lambda>x. call_tool ap (Suc n) (on_thread x (run_sync_frame fr))) (ap_own ap t Sync a) st) =
      run_prog (\<lambda>x. call_tool ap (Suc n) (on_thread x (run_sync_frame fr)))
        (cont (Inl (Raised_Sdk (not_initialized (Some ''wrap_crewai_tools'')))))"
    using assms(11) by (simp add: on_thread_def fun_eq_iff del: call_tool.simps)
  moreover have "call_target ''wrap_crewai_tools'' tr fr = Inr (c, k)"
    using assms by (simp add: call_target_def resolve_ctx_client_def)
  ultimately show ?thesis
    using assms(1,2) by (simp add: entry_meth_def fits_def own_meth del: call_tool.simps(2) add: call_tool.simps(2) [of ap "Suc n"])
qed

theorem worker_thread_loses_session_witness:
  "\<exists>st'. call_tool (sample_app (wrap_crewai (sample_wrap\<lparr>wa_ctx := None, wa_client := None\<rparr>)) CrewAI\<lparr>ap_own := \<lambda>t e a. Call False 1 Sync a Done\<rparr>) 2
     \<lparr>fr_emitting = False, fr_ambient = Some (0, 0), fr_loop = True\<rparr> 0 Sync sample_args sample_state
   = Some (Inl (Raised_Sdk (not_initialized (Some ''wrap_crewai_tools''))), st')"
proof -
  let ?wa = "sample_wrap\<lparr>wa_ctx := None, wa_client := None\<rparr>"
  let ?ap = "sample_app (wrap_crewai ?wa) CrewAI\<lparr>ap_own := \<lambda>t e a. Call False 1 Sync a Done\<rparr>"
  have "call_tool ?ap (Suc (Suc 0)) \<lparr>fr_emitting = False, fr_ambient = Some (0, 0), fr_loop = True\<rparr> 0 Sync sample_args sample_state =
    emit_around ?ap (0, 0) (call_of (tracing_of ?wa (bare_tool CrewAI ''plan'')) (ag_args sample_args) (ag_kwargs sample_args))
      (run_prog (\<lambda>x. call_tool ?ap (Suc 0) (on_thread x (run_sync_frame \<lparr>fr_emitting = False, fr_ambient = Some (0, 0), fr_loop = True\<rparr>)))
        (Done (Inl (Raised_Sdk (not_initialized (Some ''wrap_crewai_tools'')))))) sample_state"
    by (rule worker_thread_loses_session [where t' = 1 and tr' = "tracing_of ?wa (bare_tool CrewAI ''fetch'')" and m' = "Own Sync"])
      (simp_all add: sample_app_def wrap_crewai_def bare_tool_def tracing_of_def)
  then show ?thesis
    by (simp add: numeral_2_eq_2 emit_around_def Let_def consume_pending_decision_id_def try_ingest_def sample_app_def
        del: call_tool.simps)
qed

section \<open>Wrapping and decorating\<close>

lemma wrap_unless_at:
  "\<forall>tool. to_instrumented (wrap tool) \<Longrightarrow>
   fold (wrap_unless wrap) ts tools t = (if t \<in> set ts \<and> \<not> to_instrumented (tools t) then wrap (tools t) else tools t)"
  by (induction ts arbitrary: tools) (auto simp: wrap_unless_def)

text \<open>\<open>wrapping_is_idempotent\<close>: both adapters wrap each tool of the list that is not instrumented exactly once, an
  object that occurs twice in it too, and touch no other; a second pass over any of the tools changes nothing; and the
  name of a tool is kept.\<close>

theorem wrapping_is_idempotent:
  "(\<forall>t. snd (wrap_tools wa ts tools) t =
       (if t \<in> set ts \<and> \<not> to_instrumented (tools t) then wrap_langgraph wa (tools t) else tools t)) \<and>
   (\<forall>t. snd (wrap_crewai_tools wa ts tools) t =
       (if t \<in> set ts \<and> \<not> to_instrumented (tools t) then wrap_crewai wa (tools t) else tools t)) \<and>
   (set ts' \<subseteq> set ts \<longrightarrow>
      snd (wrap_tools wa' ts' (snd (wrap_tools wa ts tools))) = snd (wrap_tools wa ts tools) \<and>
      snd (wrap_crewai_tools wa' ts' (snd (wrap_crewai_tools wa ts tools))) = snd (wrap_crewai_tools wa ts tools)) \<and>
   to_name (wrap_langgraph wa tool) = to_name tool \<and> to_name (wrap_crewai wa tool) = to_name tool"
proof -
  have inst: "\<forall>tool. to_instrumented (wrap_langgraph wa tool)" "\<forall>tool. to_instrumented (wrap_crewai wa tool)" for wa :: "'a wrap_args"
    by (simp_all add: wrap_langgraph_def wrap_crewai_def)
  show ?thesis
    by (auto simp: wrap_tools_def wrap_crewai_tools_def wrap_unless_at [OF inst(1)] wrap_unless_at [OF inst(2)] inst fun_eq_iff
        wrap_langgraph_def wrap_crewai_def)
qed

theorem wrapping_is_idempotent_witness:
  "snd (wrap_tools sample_wrap [0, 0] (snd (wrap_tools sample_wrap [0, 1, 0] (\<lambda>_. bare_tool LangChain ''plan'')))) =
   snd (wrap_tools sample_wrap [0, 1, 0] (\<lambda>_. bare_tool LangChain ''plan''))"
  using wrapping_is_idempotent [of sample_wrap "[0, 1, 0]" "\<lambda>_. bare_tool LangChain ''plan''" "[0, 0]" sample_wrap] by simp

text \<open>\<open>gate_is_never_dropped\<close>: \<open>trace(require_approval=True)\<close> gives back a gated function or raises
  \<open>NotImplementedError\<close>; it never wraps a tool, whose calls nothing would hold up.\<close>

theorem gate_is_never_dropped:
  "snd (trace installed wa name True fname func tools) = tools \<and>
   (case fst (trace installed wa name True fname func tools) of
      Inl _ \<Rightarrow> is_langchain_tool installed (tools func) \<or> is_crewai_tool (tools func)
    | Inr d \<Rightarrow> \<exists>n. d = Gated_Function n)"
  by (auto simp: trace_def Let_def)

section \<open>What reaches the log\<close>

definition log_char :: "char \<Rightarrow> string" where
  "log_char c = (if printable c then [c] else [CHR 0x5C] @ ''x'' @ hex_pad 2 (of_char c))"

lemma hex_printable: "c \<in> set (hex_pad n v) \<Longrightarrow> printable c"
  using hex_pad_digits [of c n v] by (auto simp: printable_def digit_char_def)

lemma log_char_printable: "c' \<in> set (log_char c) \<Longrightarrow> printable c'"
  using hex_printable by (auto simp: log_char_def printable_def split: if_splits)

lemma log_char_shown [simp]:
  "log_char (CHR 0x5C) = [CHR 0x5C]" "log_char (CHR ''x'') = ''x''" "log_char (CHR ''0'') = ''0''" "log_char (CHR ''a'') = ''a''"
  "log_char (CHR ''d'') = ''d''"
  by (simp_all add: log_char_def printable_def)

lemma log_char_length: "length (log_char c) \<le> 4"
  by (simp add: log_char_def)

lemma defanged_length: "length (concat (map log_char (defang_breaks s))) \<le> 4 * length s"
proof (induction s rule: defang_breaks.induct)
  case (2 c)
  then show ?case using log_char_length [of c] by auto
next
  case (3 c c' cs)
  then show ?case using log_char_length [of c] by (cases "c = CHR 0x0D \<and> c' = CHR 0x0A") auto
qed simp

lemma log_safe_eq:
  "log_safe limit value = concat (map log_char (defang_breaks
     (if length value > limit then take limit value @ ''...(truncated)'' else value)))"
  unfolding log_safe_def log_char_def Let_def by (rule refl)

text \<open>\<open>log_fields_stay_on_a_line\<close>: whatever name a request gives a tool, what is logged of it has no line break and
  no other control character, and is of bounded length.\<close>

theorem log_fields_stay_on_a_line:
  "list_all printable (log_safe limit value) \<and> CHR 0x0A \<notin> set (log_safe limit value) \<and>
   CHR 0x0D \<notin> set (log_safe limit value) \<and> length (log_safe limit value) \<le> 4 * (limit + 14)"
proof -
  let ?shown = "if length value > limit then take limit value @ ''...(truncated)'' else value"
  have shown: "list_all printable (log_safe limit value)"
    unfolding log_safe_eq list_all_iff using log_char_printable by auto
  moreover from this have "CHR 0x0A \<notin> set (log_safe limit value)" "CHR 0x0D \<notin> set (log_safe limit value)"
    by (auto simp: list_all_iff printable_def)
  moreover have "length ?shown \<le> limit + 14" by simp
  then have "length (log_safe limit value) \<le> 4 * (limit + 14)"
    unfolding log_safe_eq by (rule order_trans [OF defanged_length mult_le_mono2])
  ultimately show ?thesis by blast
qed

end
