(* ===== verification/Pii_Presets.thy ===== *)
theory Pii_Presets
  imports Redaction
begin

text \<open>
  The pre-built configurations of \<^verbatim>\<open>rootsign/sdk/redaction.py\<close>, with the patterns as the source has
  them and what Python's \<open>re\<close> makes of those: a parser for the part of the pattern language they use and
  a matcher, on characters up to U+00FF. A pattern outside that part is an \<open>error\<close> of \<open>re_compile\<close>.
\<close>

section \<open>Patterns\<close>

datatype char_set = One char | Between char char | Digit | Space

datatype regex =
    Nothing
  | Boundary
  | Chars "char_set list"
  | Then regex regex
  | Repeat nat "nat option" regex

section \<open>Parsing\<close>

definition escape :: "char \<Rightarrow> char_set" where
  "escape c = (if c = CHR ''d'' then Digit else if c = CHR ''s'' then Space else One c)"

text \<open>The members of a character class, up to the closing bracket.\<close>

fun parse_class :: "string \<Rightarrow> (char_set list \<times> string) option" where
  "parse_class [] = None"
| "parse_class (c # cs) =
     (if c = CHR '']'' then Some ([], cs)
      else if c = CHR 0x5C
      then (case cs of [] \<Rightarrow> None | e # cs' \<Rightarrow> map_option (\<lambda>(ms, r). (escape e # ms, r)) (parse_class cs'))
      else (case cs of
              d # e # cs' \<Rightarrow>
                if d = CHR ''-'' \<and> e \<noteq> CHR '']''
                then map_option (\<lambda>(ms, r). (Between c e # ms, r)) (parse_class cs')
                else map_option (\<lambda>(ms, r). (One c # ms, r)) (parse_class cs)
            | _ \<Rightarrow> map_option (\<lambda>(ms, r). (One c # ms, r)) (parse_class cs)))"

definition read_nat :: "string \<Rightarrow> nat option \<times> string" where
  "read_nat s =
     (let ds = takeWhile (\<lambda>c. 48 \<le> (of_char c :: nat) \<and> (of_char c :: nat) \<le> 57) s
      in (if ds = [] then None else Some (foldl (\<lambda>n c. 10 * n + (of_char c - 48)) 0 ds), drop (length ds) s))"

text \<open>A quantifier: the bounds and what follows.\<close>

definition parse_count :: "string \<Rightarrow> ((nat \<times> nat option) \<times> string) option" where
  "parse_count s =
     (case s of
        [] \<Rightarrow> Some ((1, Some 1), [])
      | c # cs \<Rightarrow>
          if c = CHR ''?'' then Some ((0, Some 1), cs)
          else if c = CHR ''+'' then Some ((1, None), cs)
          else if c = CHR ''{''
          then (case read_nat cs of
                  (Some m, r) \<Rightarrow>
                    (if take 1 r = ''}'' then Some ((m, Some m), drop 1 r)
                     else if take 1 r = '',''
                     then (case read_nat (drop 1 r) of
                             (n, r') \<Rightarrow> if take 1 r' = ''}'' then Some ((m, n), drop 1 r') else None)
                     else None)
                | _ \<Rightarrow> None)
          else Some ((1, Some 1), s))"

definition counted :: "nat \<times> nat option \<Rightarrow> regex \<Rightarrow> regex" where
  "counted mn r = (if mn = (1, Some 1) then r else Repeat (fst mn) (snd mn) r)"

text \<open>A sequence of items, up to the end or to the bracket that closes the group. \<open>n\<close> bounds the items.\<close>

primrec parse_seq :: "nat \<Rightarrow> string \<Rightarrow> (regex \<times> string) option" where
  "parse_seq 0 s = None"
| "parse_seq (Suc n) s =
     (case s of
        [] \<Rightarrow> Some (Nothing, [])
      | c # cs \<Rightarrow>
          if c = CHR '')'' then Some (Nothing, s)
          else (case (if c = CHR ''[''
                      then map_option (\<lambda>(ms, r). (Chars ms, r)) (parse_class cs)
                      else if c = CHR ''(''
                      then (case parse_seq n (if take 2 cs = ''?:'' then drop 2 cs else cs) of
                              Some (r, rest) \<Rightarrow> if take 1 rest = '')'' then Some (r, drop 1 rest) else None
                            | None \<Rightarrow> None)
                      else if c = CHR 0x5C
                      then (case cs of
                              [] \<Rightarrow> None
                            | e # cs' \<Rightarrow> Some (if e = CHR ''b'' then Boundary else Chars [escape e], cs'))
                      else if c \<in> set ''.*|^$?+{''
                      then None
                      else Some (Chars [One c], cs)) of
                  None \<Rightarrow> None
                | Some (r, rest) \<Rightarrow>
                    (case parse_count rest of
                       None \<Rightarrow> None
                     | Some (mn, rest') \<Rightarrow>
                         map_option (\<lambda>(r', end). (Then (counted mn r) r', end)) (parse_seq n rest'))))"

definition re_compile :: "string \<Rightarrow> pyexc + regex" where
  "re_compile pattern =
     (case parse_seq (Suc (length pattern)) pattern of
        Some (r, []) \<Rightarrow> Inr r
      | _ \<Rightarrow> Inl (ValueError ''error''))"

section \<open>Matching\<close>

definition is_digit :: "char \<Rightarrow> bool" where
  "is_digit c \<longleftrightarrow> 48 \<le> (of_char c :: nat) \<and> (of_char c :: nat) \<le> 57"

text \<open>\<open>\w\<close>: the alphanumeric characters and the underscore.\<close>

definition word_char :: "char \<Rightarrow> bool" where
  "word_char c \<longleftrightarrow> (let n = of_char c :: nat in
     48 \<le> n \<and> n \<le> 57 \<or> 65 \<le> n \<and> n \<le> 90 \<or> n = 95 \<or> 97 \<le> n \<and> n \<le> 122 \<or>
     n \<in> {170, 178, 179, 181, 185, 186, 188, 189, 190} \<or> 192 \<le> n \<and> n \<noteq> 215 \<and> n \<noteq> 247)"

fun in_set :: "char_set \<Rightarrow> char \<Rightarrow> bool" where
  "in_set (One d) c \<longleftrightarrow> c = d"
| "in_set (Between a b) c \<longleftrightarrow> (of_char a :: nat) \<le> of_char c \<and> (of_char c :: nat) \<le> of_char b"
| "in_set Digit c \<longleftrightarrow> is_digit c"
| "in_set Space c \<longleftrightarrow> is_space c"

text \<open>A place in a text: the character before it and what follows it.\<close>

type_synonym place = "char option \<times> string"

primrec times :: "('a \<Rightarrow> 'a list) \<Rightarrow> nat \<Rightarrow> 'a list \<Rightarrow> 'a list" where
  "times f 0 ps = ps"
| "times f (Suc n) ps = times f n (remdups (concat (map f ps)))"

primrec up_to :: "('a \<Rightarrow> 'a list) \<Rightarrow> nat \<Rightarrow> 'a list \<Rightarrow> 'a list" where
  "up_to f 0 ps = ps"
| "up_to f (Suc n) ps = ps @ up_to f n (remdups (concat (map f ps)))"

text \<open>Where a match that starts at a place may end. An unbounded repetition needs no more rounds than there
  are characters left.\<close>

primrec ends :: "regex \<Rightarrow> place \<Rightarrow> place list" where
  "ends Nothing p = [p]"
| "ends Boundary p =
     (if (case fst p of None \<Rightarrow> False | Some c \<Rightarrow> word_char c) \<noteq> (case snd p of [] \<Rightarrow> False | c # _ \<Rightarrow> word_char c)
      then [p] else [])"
| "ends (Chars cs) p = (case snd p of [] \<Rightarrow> [] | c # r \<Rightarrow> if list_ex (\<lambda>m. in_set m c) cs then [(Some c, r)] else [])"
| "ends (Then r r') p = remdups (concat (map (ends r') (ends r p)))"
| "ends (Repeat m n r) p =
     up_to (ends r) (case n of Some k \<Rightarrow> k - m | None \<Rightarrow> length (snd p)) (times (ends r) m [p])"

fun search_from :: "regex \<Rightarrow> char option \<Rightarrow> string \<Rightarrow> bool" where
  "search_from r prev [] \<longleftrightarrow> ends r (prev, []) \<noteq> []"
| "search_from r prev (c # cs) \<longleftrightarrow> ends r (prev, c # cs) \<noteq> [] \<or> search_from r (Some c) cs"

definition re_search :: "regex \<Rightarrow> string \<Rightarrow> bool" where
  "re_search r s = search_from r None s"

section \<open>The configurations\<close>

definition email_pattern :: string where
  "email_pattern = ''[a-zA-Z0-9._%+'' @ [CHR 0x5C] @ ''-]+@[a-zA-Z0-9.'' @ [CHR 0x5C] @ ''-]+'' @ [CHR 0x5C] @ ''.[a-zA-Z]{2,}''"

definition phone_pattern :: string where
  "phone_pattern = ''('' @ [CHR 0x5C] @ ''+?'' @ [CHR 0x5C] @ ''d['' @ [CHR 0x5C] @ ''s'' @ [CHR 0x5C] @ ''-'' @ [CHR 0x5C] @ ''.]?){7,15}''"

definition ssn_pattern :: string where
  "ssn_pattern = [CHR 0x5C] @ ''d{3}['' @ [CHR 0x5C] @ ''-'' @ [CHR 0x5C] @ ''s]?'' @ [CHR 0x5C] @ ''d{2}['' @ [CHR 0x5C] @ ''-'' @
     [CHR 0x5C] @ ''s]?'' @ [CHR 0x5C] @ ''d{4}''"

definition credit_card_pattern :: string where
  "credit_card_pattern = [CHR 0x5C] @ ''b(?:'' @ [CHR 0x5C] @ ''d['' @ [CHR 0x5C] @ ''s'' @ [CHR 0x5C] @ ''-]?){13,16}'' @ [CHR 0x5C] @ ''b''"

definition uk_ni_pattern :: string where
  "uk_ni_pattern = ''[A-Z]{2}'' @ [CHR 0x5C] @ ''d{6}[A-Z]''"

definition account_number_pattern :: string where
  "account_number_pattern = [CHR 0x5C] @ ''d{8,17}''"

definition routing_number_pattern :: string where
  "routing_number_pattern = [CHR 0x5C] @ ''d{9}''"

definition iban_pattern :: string where
  "iban_pattern = ''[A-Z]{2}'' @ [CHR 0x5C] @ ''d{2}[A-Z0-9]{4}'' @ [CHR 0x5C] @ ''d{7}([A-Z0-9]?){0,16}''"

definition mrn_pattern :: string where
  "mrn_pattern = ''MRN'' @ [CHR 0x5C] @ ''d{6,10}''"

definition npi_pattern :: string where
  "npi_pattern = [CHR 0x5C] @ ''d{10}''"

definition dob_pattern :: string where
  "dob_pattern = [CHR 0x5C] @ ''d{1,2}[/'' @ [CHR 0x5C] @ ''-]'' @ [CHR 0x5C] @ ''d{1,2}[/'' @ [CHR 0x5C] @ ''-]'' @ [CHR 0x5C] @ ''d{2,4}''"

definition standard_pii_patterns :: "(string \<times> string) list" where
  "standard_pii_patterns =
     [(''email'', email_pattern), (''phone'', phone_pattern), (''ssn'', ssn_pattern), (''credit_card'', credit_card_pattern),
      (''uk_ni'', uk_ni_pattern)]"

definition standard_pii_config :: "(string \<times> string) list \<Rightarrow> pyexc + regex redaction_config" where
  "standard_pii_config extra_rules =
     make_config re_compile (fold (\<lambda>(k, p). AList.update k p) extra_rules standard_pii_patterns) ''leaf''"

definition financial_pii_config :: "pyexc + regex redaction_config" where
  "financial_pii_config = standard_pii_config
     [(''account_number'', account_number_pattern), (''routing_number'', routing_number_pattern), (''iban'', iban_pattern)]"

definition healthcare_pii_config :: "pyexc + regex redaction_config" where
  "healthcare_pii_config = standard_pii_config [(''mrn'', mrn_pattern), (''npi'', npi_pattern), (''dob'', dob_pattern)]"

section \<open>What the patterns find\<close>

lemma ends_then: "q \<in> set (ends r p) \<Longrightarrow> q' \<in> set (ends r' q) \<Longrightarrow> q' \<in> set (ends (Then r r') p)"
  by auto

lemma times_run:
  assumes "list_all (\<lambda>c. list_ex (\<lambda>m. in_set m c) cs) ds"
  shows "\<exists>p'. times (ends (Chars cs)) (length ds) [(p, ds @ r)] = [(p', r)]"
  using assms by (induction ds arbitrary: p) simp_all

lemma ends_run:
  assumes "list_all (\<lambda>c. list_ex (\<lambda>m. in_set m c) cs) ds" and "length ds = n"
  shows "\<exists>p'. (p', r) \<in> set (ends (Repeat n (Some n) (Chars cs)) (p, ds @ r))"
proof -
  obtain p' where "times (ends (Chars cs)) (length ds) [(p, ds @ r)] = [(p', r)]" using times_run [OF assms(1)] by blast
  then have "ends (Repeat n (Some n) (Chars cs)) (p, ds @ r) = [(p', r)]" using assms(2) by simp
  then show ?thesis by simp
qed

lemma ends_optional:
  assumes "sep = [] \<or> (\<exists>c. sep = [c] \<and> list_ex (\<lambda>m. in_set m c) cs)"
  shows "\<exists>p'. (p', r) \<in> set (ends (Repeat 0 (Some 1) (Chars cs)) (p, sep @ r))"
  using assms by auto

lemma search_from_inside: "(\<And>p. ends r (p, s) \<noteq> []) \<Longrightarrow> search_from r prev (pre @ s)"
  by (induction pre arbitrary: prev) (cases s; simp)+

definition ssn_regex :: regex where
  "ssn_regex =
     Then (Repeat 3 (Some 3) (Chars [Digit])) (Then (Repeat 0 (Some 1) (Chars [One (CHR ''-''), Space]))
      (Then (Repeat 2 (Some 2) (Chars [Digit])) (Then (Repeat 0 (Some 1) (Chars [One (CHR ''-''), Space]))
       (Then (Repeat 4 (Some 4) (Chars [Digit])) Nothing))))"

definition ssn_separator :: "string \<Rightarrow> bool" where
  "ssn_separator sep \<longleftrightarrow> sep = [] \<or> (\<exists>c. sep = [c] \<and> (c = CHR ''-'' \<or> is_space c))"

lemma ssn_found:
  assumes "list_all is_digit a" "list_all is_digit b" "list_all is_digit c" "length a = 3" "length b = 2" "length c = 4"
    and "ssn_separator s1" "ssn_separator s2"
  shows "re_search ssn_regex (pre @ a @ s1 @ b @ s2 @ c @ post)"
proof -
  have digits: "list_all is_digit ds \<Longrightarrow> list_all (\<lambda>c. list_ex (\<lambda>m. in_set m c) [Digit]) ds" for ds by simp
  have sep: "ssn_separator sep \<Longrightarrow> sep = [] \<or> (\<exists>c. sep = [c] \<and> list_ex (\<lambda>m. in_set m c) [One (CHR ''-''), Space])" for sep
    by (auto simp: ssn_separator_def)
  have "ends ssn_regex (p, a @ s1 @ b @ s2 @ c @ post) \<noteq> []" for p
  proof -
    obtain p1 where p1: "(p1, s1 @ b @ s2 @ c @ post) \<in> set (ends (Repeat 3 (Some 3) (Chars [Digit])) (p, a @ s1 @ b @ s2 @ c @ post))"
      using ends_run [OF digits [OF assms(1)] assms(4)] by blast
    obtain p2 where p2: "(p2, b @ s2 @ c @ post) \<in> set (ends (Repeat 0 (Some 1) (Chars [One (CHR ''-''), Space])) (p1, s1 @ b @ s2 @ c @ post))"
      using ends_optional [OF sep [OF assms(7)]] by blast
    obtain p3 where p3: "(p3, s2 @ c @ post) \<in> set (ends (Repeat 2 (Some 2) (Chars [Digit])) (p2, b @ s2 @ c @ post))"
      using ends_run [OF digits [OF assms(2)] assms(5)] by blast
    obtain p4 where p4: "(p4, c @ post) \<in> set (ends (Repeat 0 (Some 1) (Chars [One (CHR ''-''), Space])) (p3, s2 @ c @ post))"
      using ends_optional [OF sep [OF assms(8)]] by blast
    obtain p5 where p5: "(p5, post) \<in> set (ends (Repeat 4 (Some 4) (Chars [Digit])) (p4, c @ post))"
      using ends_run [OF digits [OF assms(3)] assms(6)] by blast
    have "(p5, post) \<in> set (ends Nothing (p5, post))" by simp
    from ends_then [OF p1 ends_then [OF p2 ends_then [OF p3 ends_then [OF p4 ends_then [OF p5 this]]]]]
    show ?thesis unfolding ssn_regex_def by (metis empty_iff empty_set)
  qed
  then show ?thesis unfolding re_search_def by (rule search_from_inside)
qed

text \<open>A compiled configuration and the rule it has for a name.\<close>

definition leaf_rule :: "pyexc + regex redaction_config \<Rightarrow> string \<Rightarrow> regex option" where
  "leaf_rule r key = (case r of Inl _ \<Rightarrow> None | Inr cfg \<Rightarrow> if rc_path_rules cfg = [] then map_of (rc_leaf_rules cfg) key else None)"

definition iban_regex :: regex where
  "iban_regex = (let upper = Chars [Between (CHR ''A'') (CHR ''Z'')]; either = Chars [Between (CHR ''A'') (CHR ''Z''), Between (CHR ''0'') (CHR ''9'')]
     in Then (Repeat 2 (Some 2) upper) (Then (Repeat 2 (Some 2) (Chars [Digit])) (Then (Repeat 4 (Some 4) either)
         (Then (Repeat 7 (Some 7) (Chars [Digit])) (Then (Repeat 0 (Some 16) (Then (Repeat 0 (Some 1) either) Nothing)) Nothing)))))"

definition uk_ni_regex :: regex where
  "uk_ni_regex = (let upper = Chars [Between (CHR ''A'') (CHR ''Z'')]
     in Then (Repeat 2 (Some 2) upper) (Then (Repeat 6 (Some 6) (Chars [Digit])) (Then upper Nothing)))"

lemma compiles:
  "\<not> isl (re_compile email_pattern)" "\<not> isl (re_compile phone_pattern)" "\<not> isl (re_compile credit_card_pattern)"
  "\<not> isl (re_compile account_number_pattern)" "\<not> isl (re_compile routing_number_pattern)"
  "\<not> isl (re_compile mrn_pattern)" "\<not> isl (re_compile npi_pattern)" "\<not> isl (re_compile dob_pattern)"
  by code_simp+

lemma compiled:
  "re_compile ssn_pattern = Inr ssn_regex" "re_compile iban_pattern = Inr iban_regex" "re_compile uk_ni_pattern = Inr uk_ni_regex"
  by code_simp+

lemma preset_rules:
  "leaf_rule (standard_pii_config []) ''ssn'' = Some ssn_regex" "leaf_rule financial_pii_config ''ssn'' = Some ssn_regex"
  "leaf_rule healthcare_pii_config ''ssn'' = Some ssn_regex" "leaf_rule financial_pii_config ''iban'' = Some iban_regex"
  "leaf_rule financial_pii_config ''uk_ni'' = Some uk_ni_regex"
  using compiles
  by (auto simp: leaf_rule_def healthcare_pii_config_def financial_pii_config_def standard_pii_config_def
      standard_pii_patterns_def make_config_def compiled split: sum.splits)

lemma leaf_rule_hit:
  assumes "leaf_rule (Inr cfg) (leaf_of path) = Some r" and "v \<noteq> JNull" and "\<not> container v" and "re_search r (py_str v)"
  shows "redact_value re_search cfg path depth v = JStr redacted_placeholder"
proof -
  have "hit re_search cfg path v" using assms by (simp add: leaf_rule_def hit_def matched_rule_def split: if_splits)
  with assms(3) show ?thesis by (cases "depth > max_redaction_depth") (simp_all add: redact_scalar)
qed

text \<open>\<open>presets_redact_ssn\<close>: each of the three configurations compiles, and under any of them a field called
  \<open>ssn\<close>, at any depth and whether its value is a string or a number, is redacted when the digits of a social
  security number, written together or parted in the usual way, occur anywhere in the value.\<close>

theorem presets_redact_ssn:
  assumes "preset \<in> {standard_pii_config [], financial_pii_config, healthcare_pii_config}"
    and "leaf_of path = ''ssn''" and "v \<noteq> JNull" and "\<not> container v"
    and "py_str v = pre @ a @ sep @ b @ sep' @ c @ post"
    and "list_all is_digit (a @ b @ c)" and "length a = 3" and "length b = 2" and "length c = 4"
    and "ssn_separator sep" and "ssn_separator sep'"
  shows "\<exists>cfg. preset = Inr cfg \<and> redact_value re_search cfg path depth v = JStr redacted_placeholder"
proof -
  have rule: "leaf_rule preset ''ssn'' = Some ssn_regex" using assms(1) preset_rules by auto
  then obtain cfg where cfg: "preset = Inr cfg" by (cases preset) (simp_all add: leaf_rule_def)
  have "re_search ssn_regex (py_str v)" unfolding assms(5)
    by (rule ssn_found) (use assms(6-11) in simp_all)
  then have "redact_value re_search cfg path depth v = JStr redacted_placeholder"
    using rule cfg assms(2-4) by (intro leaf_rule_hit) simp_all
  with cfg show ?thesis by blast
qed

theorem presets_redact_ssn_witness:
  "\<exists>cfg. standard_pii_config [] = Inr cfg \<and>
     redact_value re_search cfg ''kwargs.user.ssn'' 3 (JStr ''no 078-05-1120'') = JStr redacted_placeholder"
  by (rule presets_redact_ssn [where pre = "''no ''" and a = "''078''" and sep = "''-''" and b = "''05''" and sep' = "''-''"
        and c = "''1120''" and post = "[]"])
    (simp_all add: leaf_of_def is_digit_def ssn_separator_def)

lemma printed_forms:
  "\<not> re_search iban_regex ''GB82 WEST 1234 5698 7654 32''" "re_search iban_regex ''GB82WEST12345698765432''"
  "\<not> re_search uk_ni_regex ''AB 12 34 56 C''" "re_search uk_ni_regex ''AB123456C''"
  "\<not> re_search ssn_regex ''78051120''" "re_search ssn_regex ''078051120''"
  by code_simp+

lemma ssn_number: "py_str (JInt 78051120) = ''78051120''"
  by (simp add: py_str_def int_str_def nat_str.simps digit_char_def) code_simp

lemma redact_one:
  assumes "leaf_rule (Inr cfg) k = Some r" and "CHR ''.'' \<notin> set k" and "v \<noteq> JNull" and "\<not> container v"
  shows "redact_value re_search cfg (join_path [] k) (Suc 0) v = (if re_search r (py_str v) then JStr redacted_placeholder else v)"
proof -
  have "takeWhile (\<lambda>c. c \<noteq> CHR ''.'') (rev k) = rev k"
    using assms(2) unfolding takeWhile_eq_all_conv by auto
  then have "leaf_of k = k" by (simp only: leaf_of_def rev_rev_ident)
  then have "hit re_search cfg k v \<longleftrightarrow> re_search r (py_str v)"
    using assms by (simp add: leaf_rule_def hit_def matched_rule_def split: if_splits)
  with assms(4) show ?thesis by (simp add: redact_scalar join_path_def max_redaction_depth_def)
qed

lemma redact_fields:
  assumes "has_rules cfg"
  shows "redact search cfg (JObj d) = JObj (map (\<lambda>(k, v). (k, redact_value search cfg (join_path [] k) (Suc 0) v)) d)"
  using assms redact_shallow(3) [of 0 search cfg "[]" d] by (simp add: redact_def)

text \<open>\<open>presets_miss_printed_form\<close>: an IBAN and a UK National Insurance number written the way they are
  printed, with spaces, pass the configuration that has rules for them, while the same characters without the
  spaces are redacted; and a social security number that begins with a zero passes when it is a JSON number.\<close>

theorem presets_miss_printed_form:
  "\<exists>cfg. financial_pii_config = Inr cfg \<and>
     redact re_search cfg (JObj [(''iban'', JStr ''GB82 WEST 1234 5698 7654 32''), (''uk_ni'', JStr ''AB 12 34 56 C''),
       (''ssn'', JInt 78051120)]) =
     JObj [(''iban'', JStr ''GB82 WEST 1234 5698 7654 32''), (''uk_ni'', JStr ''AB 12 34 56 C''), (''ssn'', JInt 78051120)] \<and>
     redact re_search cfg (JObj [(''iban'', JStr ''GB82WEST12345698765432''), (''uk_ni'', JStr ''AB123456C''),
       (''ssn'', JStr ''078051120'')]) =
     JObj [(''iban'', JStr redacted_placeholder), (''uk_ni'', JStr redacted_placeholder), (''ssn'', JStr redacted_placeholder)]"
proof -
  have "\<exists>cfg. r = Inr cfg" if "leaf_rule r k = Some x" for r k x
    using that by (cases r) (simp_all add: leaf_rule_def)
  from this [OF preset_rules(4)] obtain cfg where cfg: "financial_pii_config = Inr cfg" by blast
  have rules: "leaf_rule (Inr cfg) ''ssn'' = Some ssn_regex" "leaf_rule (Inr cfg) ''iban'' = Some iban_regex"
    "leaf_rule (Inr cfg) ''uk_ni'' = Some uk_ni_regex"
    using preset_rules(2,4,5) by (simp_all add: cfg)
  have "has_rules cfg" using rules(1) by (auto simp: has_rules_def leaf_rule_def)
  moreover have "redact_value re_search cfg (join_path [] ''ssn'') (Suc 0) (JInt 78051120) = JInt 78051120"
    "redact_value re_search cfg (join_path [] ''ssn'') (Suc 0) (JStr ''078051120'') = JStr redacted_placeholder"
    "redact_value re_search cfg (join_path [] ''iban'') (Suc 0) (JStr ''GB82 WEST 1234 5698 7654 32'') = JStr ''GB82 WEST 1234 5698 7654 32''"
    "redact_value re_search cfg (join_path [] ''iban'') (Suc 0) (JStr ''GB82WEST12345698765432'') = JStr redacted_placeholder"
    "redact_value re_search cfg (join_path [] ''uk_ni'') (Suc 0) (JStr ''AB 12 34 56 C'') = JStr ''AB 12 34 56 C''"
    "redact_value re_search cfg (join_path [] ''uk_ni'') (Suc 0) (JStr ''AB123456C'') = JStr redacted_placeholder"
    by (simp_all add: redact_one [OF rules(1)] redact_one [OF rules(2)] redact_one [OF rules(3)] printed_forms ssn_number)
  ultimately show ?thesis using cfg by (intro exI [of _ cfg]) (simp add: redact_fields)
qed

end
