(* ===== verification/Wire_Schemas.thy ===== *)
theory Wire_Schemas
  imports Ingest_Handler "HOL-Library.Monad_Syntax"
begin

text \<open>
  The pydantic models of \<^verbatim>\<open>rootsign/ingest/schemas.py\<close>, written out field by field: what an envelope
  and each of the five payloads must hold. The handler takes them as an argument (\<open>schemas\<close>); here is the
  instance the program has. How pydantic turns a JSON value into an \<open>int\<close>, a \<open>float\<close>, a
  \<open>bool\<close>, a \<open>UUID\<close> and a \<open>datetime\<close> is pydantic's, an argument; a \<open>str\<close>, a
  \<open>dict\<close> and a \<open>list\<close> are accepted as such only, and patterns match the whole text.
\<close>

section \<open>Fields\<close>

text \<open>A \<open>datetime\<close>: its \<open>isoformat()\<close> and the instant.\<close>

record moment =
  st_text :: string
  st_instant :: instant

record coercions =
  co_int :: "json \<Rightarrow> int option"
  co_float :: "json \<Rightarrow> rat option"
  co_bool :: "json \<Rightarrow> bool option"
  co_uuid :: "json \<Rightarrow> uuid option"
  co_datetime :: "json \<Rightarrow> moment option"
  co_now :: moment

definition in_range :: "('a :: ord) option \<Rightarrow> 'a option \<Rightarrow> 'a \<Rightarrow> bool" where
  "in_range lo hi x \<longleftrightarrow> (case lo of None \<Rightarrow> True | Some l \<Rightarrow> l \<le> x) \<and> (case hi of None \<Rightarrow> True | Some h \<Rightarrow> x \<le> h)"

definition guarded :: "('a \<Rightarrow> bool) \<Rightarrow> 'a option \<Rightarrow> 'a option" where
  "guarded ok x = (case x of None \<Rightarrow> None | Some v \<Rightarrow> if ok v then Some v else None)"

definition text_field :: "nat \<Rightarrow> nat option \<Rightarrow> json \<Rightarrow> string option" where
  "text_field lo hi j = (case j of JStr s \<Rightarrow> if in_range (Some lo) hi (length s) then Some s else None | _ \<Rightarrow> None)"

definition plain_text :: "json \<Rightarrow> string option" where
  "plain_text j = text_field 0 None j"

definition lower_hex :: "char \<Rightarrow> bool" where
  "lower_hex c \<longleftrightarrow> (let n = of_char c :: nat in 48 \<le> n \<and> n \<le> 57 \<or> 97 \<le> n \<and> n \<le> 102)"

text \<open>\<open>^[0-9a-f]{64}$\<close>.\<close>

definition hex64 :: "json \<Rightarrow> string option" where
  "hex64 j = guarded (\<lambda>s. length s = 64 \<and> list_all lower_hex s) (plain_text j)"

definition dict_field :: "json \<Rightarrow> json option" where
  "dict_field j = (case j of JObj _ \<Rightarrow> Some j | _ \<Rightarrow> None)"

definition text_list :: "json \<Rightarrow> string list option" where
  "text_list j = (case j of JArr xs \<Rightarrow> those (map plain_text xs) | _ \<Rightarrow> None)"

definition required :: "dict \<Rightarrow> string \<Rightarrow> (json \<Rightarrow> 'a option) \<Rightarrow> 'a option" where
  "required d k f = (if dhas d k then f (dget d k) else None)"

text \<open>\<open>X | None = None\<close>.\<close>

definition nullable :: "dict \<Rightarrow> string \<Rightarrow> (json \<Rightarrow> 'a option) \<Rightarrow> 'a option option" where
  "nullable d k f = (if dhas d k \<and> dget d k \<noteq> JNull then map_option Some (f (dget d k)) else Some None)"

definition defaulted :: "dict \<Rightarrow> string \<Rightarrow> 'a \<Rightarrow> (json \<Rightarrow> 'a option) \<Rightarrow> 'a option" where
  "defaulted d k dflt f = (if dhas d k then f (dget d k) else Some dflt)"

definition only_keys :: "string list \<Rightarrow> dict \<Rightarrow> unit option" where
  "only_keys ks d = (if list_all (\<lambda>(k, v). k \<in> set ks) d then Some () else None)"

section \<open>The models\<close>

text \<open>\<open>^\d+\.\d+$\<close>.\<close>

definition version_text :: "string \<Rightarrow> bool" where
  "version_text s \<longleftrightarrow>
     (let digit = (\<lambda>c. 48 \<le> (of_char c :: nat) \<and> (of_char c :: nat) \<le> 57);
          major = takeWhile digit s; rest = dropWhile digit s
      in major \<noteq> [] \<and> take 1 rest = ''.'' \<and> drop 1 rest \<noteq> [] \<and> list_all digit (drop 1 rest))"

definition envelope_schema :: "coercions \<Rightarrow> json \<Rightarrow> envelope option" where
  "envelope_schema co j =
     (case j of
        JObj d \<Rightarrow> do {
          only_keys [''schema_version'', ''sdk_version'', ''event_type'', ''event_id'', ''emitted_at'', ''agent_id'',
                     ''session_id'', ''payload''] d;
          v \<leftarrow> required d ''schema_version'' (\<lambda>j. guarded version_text (plain_text j));
          _ \<leftarrow> required d ''sdk_version'' (text_field 1 (Some 64));
          ty \<leftarrow> required d ''event_type'' (\<lambda>j. Option.bind (plain_text j) event_of_value);
          i \<leftarrow> required d ''event_id'' (co_uuid co);
          t \<leftarrow> required d ''emitted_at'' (co_datetime co);
          agent \<leftarrow> required d ''agent_id'' (co_uuid co);
          sid \<leftarrow> required d ''session_id'' (co_uuid co);
          payload \<leftarrow> required d ''payload'' (\<lambda>j. case j of JObj p \<Rightarrow> Some p | _ \<Rightarrow> None);
          Some \<lparr>ev_schema_version = v, ev_event_type = ty, ev_event_id = i, ev_emitted_at = st_instant t,
                ev_agent_id = agent, ev_session_id = sid, ev_payload = payload\<rparr> }
      | _ \<Rightarrow> None)"

definition or_null :: "json option \<Rightarrow> json" where
  "or_null j = (case j of None \<Rightarrow> JNull | Some v \<Rightarrow> v)"

definition open_schema :: "dict \<Rightarrow> open_payload option" where
  "open_schema d = do {
     objective \<leftarrow> nullable d ''objective'' (text_field 0 (Some 2000));
     user \<leftarrow> nullable d ''user_id'' (text_field 0 (Some 200));
     metadata \<leftarrow> nullable d ''metadata'' dict_field;
     Some \<lparr>op_objective = objective, op_user_id = user, op_metadata = or_null metadata\<rparr> }"

definition action_fields :: "string list" where
  "action_fields =
     [''tool_name'', ''input_hash'', ''output_hash'', ''input_redacted'', ''output_redacted'', ''timestamp'', ''duration_ms'',
      ''decision_id'', ''policy_id'', ''authorization_status'', ''action_id'', ''sequence_number'', ''prev_action_hash'', ''self_hash'']"

definition action_schema :: "coercions \<Rightarrow> dict \<Rightarrow> action_payload option" where
  "action_schema co d = do {
     only_keys action_fields d;
     tool \<leftarrow> required d ''tool_name'' (text_field 1 (Some 200));
     input_hash \<leftarrow> required d ''input_hash'' hex64;
     output_hash \<leftarrow> nullable d ''output_hash'' hex64;
     input \<leftarrow> nullable d ''input_redacted'' dict_field;
     out \<leftarrow> nullable d ''output_redacted'' dict_field;
     t \<leftarrow> defaulted d ''timestamp'' (co_now co) (co_datetime co);
     duration \<leftarrow> nullable d ''duration_ms'' (\<lambda>j. guarded (in_range (Some 0) None) (co_int co j));
     decision \<leftarrow> nullable d ''decision_id'' (co_uuid co);
     policy \<leftarrow> nullable d ''policy_id'' (co_uuid co);
     status \<leftarrow> defaulted d ''authorization_status'' ''auto_authorized'' plain_text;
     action \<leftarrow> nullable d ''action_id'' (co_uuid co);
     seq \<leftarrow> nullable d ''sequence_number'' (\<lambda>j. guarded (in_range (Some 1) None) (co_int co j));
     prev \<leftarrow> nullable d ''prev_action_hash'' hex64;
     self \<leftarrow> nullable d ''self_hash'' hex64;
     Some \<lparr>ap_tool_name = tool, ap_input_hash = input_hash, ap_output_hash = output_hash, ap_input_redacted = or_null input,
           ap_output_redacted = or_null out, ap_timestamp = st_text t, ap_duration_ms = duration, ap_decision_id = decision,
           ap_policy_id = policy, ap_authorization_status = status, ap_action_id = action, ap_sequence_number = seq,
           ap_prev_action_hash = prev, ap_self_hash = self\<rparr> }"

definition decision_fields :: "string list" where
  "decision_fields =
     [''selected_action'', ''inputs_summary'', ''reasoning_summary'', ''confidence'', ''alternatives_considered'', ''timestamp'',
      ''reasoning_depth'', ''reasoning_captured'']"

definition decision_schema :: "coercions \<Rightarrow> dict \<Rightarrow> decision_payload option" where
  "decision_schema co d = do {
     only_keys decision_fields d;
     selected \<leftarrow> required d ''selected_action'' (text_field 1 (Some 200));
     _ \<leftarrow> nullable d ''inputs_summary'' (text_field 0 (Some 5000));
     reasoning \<leftarrow> nullable d ''reasoning_summary'' (text_field 0 (Some 10000));
     _ \<leftarrow> nullable d ''confidence'' (\<lambda>j. guarded (in_range (Some 0) (Some 1)) (co_float co j));
     _ \<leftarrow> nullable d ''alternatives_considered'' text_list;
     t \<leftarrow> defaulted d ''timestamp'' (co_now co) (co_datetime co);
     _ \<leftarrow> defaulted d ''reasoning_depth'' ''summary'' plain_text;
     captured \<leftarrow> nullable d ''reasoning_captured'' (co_bool co);
     Some \<lparr>dp_selected_action = selected, dp_reasoning_summary = reasoning, dp_timestamp = st_text t,
           dp_reasoning_captured = captured\<rparr> }"

definition approval_fields :: "string list" where
  "approval_fields =
     [''action_id'', ''approver_id'', ''approver_type'', ''context_presented'', ''decision'', ''decision_reason'', ''timestamp'',
      ''response_latency_ms'', ''parent_approval_id'']"

definition approval_schema :: "coercions \<Rightarrow> dict \<Rightarrow> approval_payload option" where
  "approval_schema co d = do {
     only_keys approval_fields d;
     action \<leftarrow> required d ''action_id'' (co_uuid co);
     who \<leftarrow> required d ''approver_id'' (text_field 1 (Some 200));
     kind \<leftarrow> required d ''approver_type'' plain_text;
     _ \<leftarrow> required d ''context_presented'' dict_field;
     decision \<leftarrow> required d ''decision'' plain_text;
     reason \<leftarrow> nullable d ''decision_reason'' (text_field 0 (Some 2000));
     t \<leftarrow> defaulted d ''timestamp'' (co_now co) (co_datetime co);
     _ \<leftarrow> nullable d ''response_latency_ms'' (\<lambda>j. guarded (in_range (Some 0) None) (co_int co j));
     parent \<leftarrow> nullable d ''parent_approval_id'' (co_uuid co);
     Some \<lparr>pp_action_id = action, pp_approver_id = who, pp_approver_type = kind, pp_decision = decision,
           pp_decision_reason = reason, pp_timestamp = micros (st_instant t), pp_parent_approval_id = parent\<rparr> }"

definition close_statuses :: "string list" where
  "close_statuses = [''completed'', ''failed'', ''abandoned'']"

definition close_schema :: "dict \<Rightarrow> close_payload option" where
  "close_schema d = do {
     status \<leftarrow> required d ''status'' plain_text;
     _ \<leftarrow> nullable d ''error_message'' (text_field 0 (Some 2000));
     metadata \<leftarrow> nullable d ''metadata'' dict_field;
     (if status \<in> set close_statuses then Some \<lparr>cp_status = status, cp_metadata = or_null metadata\<rparr> else None) }"

definition wire_schemas :: "coercions \<Rightarrow> schemas" where
  "wire_schemas co =
     \<lparr>sc_envelope = envelope_schema co, sc_open = open_schema, sc_action = action_schema co,
      sc_decision = decision_schema co, sc_approval = approval_schema co, sc_close = close_schema\<rparr>"

end
