(* ===== verification/Db_Schema.thy ===== *)
theory Db_Schema
  imports Wire_Schemas
begin

text \<open>
  The tables of the store: the five migrations of \<^verbatim>\<open>rootsign/_migrations/versions\<close> as steps on a schema, and
  the tables \<^verbatim>\<open>rootsign/models\<close> declares. A table has columns and the constraints Postgres enforces;
  indexes that only speed up a query, server defaults and the hypertable of TimescaleDB are left out. A
  row gives each column a value; what Postgres asks of a row it is to insert is written out.
\<close>

section \<open>Schemas\<close>

datatype sql_type = Sql_Uuid | Sql_Text "nat option" | Sql_Int | Sql_Float | Sql_Bool | Sql_Time | Sql_Json | Sql_Array sql_type

record column =
  cl_name :: string
  cl_type :: sql_type
  cl_nullable :: bool

text \<open>A check passes on \<open>NULL\<close>.\<close>

datatype check =
    One_Of string "string list"
  | At_Least string int
  | In_Unit string
  | Length_Is string nat
  | Not_Before string string

text \<open>\<open>Unique_Unless\<close>: a partial unique index, which leaves out the rows where a column has the value;
  \<open>Foreign\<close>: a column, the table and the column it points to, and what a deletion there does.\<close>

datatype on_delete = Cascade | Restrict | Set_Null

datatype rule =
    Primary "string list"
  | Unique "string list"
  | Unique_Unless "string list" string string
  | Check check
  | Foreign string string string on_delete

record table =
  tb_columns :: "column list"
  tb_rules :: "(string \<times> rule) list"

type_synonym schema = "(string \<times> table) list"

definition col :: "string \<Rightarrow> sql_type \<Rightarrow> column" where
  "col name ty = \<lparr>cl_name = name, cl_type = ty, cl_nullable = False\<rparr>"

definition col_null :: "string \<Rightarrow> sql_type \<Rightarrow> column" where
  "col_null name ty = \<lparr>cl_name = name, cl_type = ty, cl_nullable = True\<rparr>"

definition text_of :: "nat \<Rightarrow> sql_type" where "text_of n = Sql_Text (Some n)"

section \<open>Migrations\<close>

datatype step =
    Create_Table string table
  | Add_Column string column
  | Add_Rule string string rule
  | Drop_Rule string string

text \<open>A key points to a table that is there. \<open>None\<close>: Postgres refuses the statement.\<close>

definition points_into :: "string set \<Rightarrow> rule \<Rightarrow> bool" where
  "points_into ts r \<longleftrightarrow> (case r of Foreign _ t _ _ \<Rightarrow> t \<in> ts | _ \<Rightarrow> True)"

fun apply_step :: "step \<Rightarrow> schema \<Rightarrow> schema option" where
  "apply_step (Create_Table t tb) s = (if t \<in> fst ` set s \<or> \<not> list_all (\<lambda>(_, r). points_into (insert t (fst ` set s)) r) (tb_rules tb) then None
      else Some (s @ [(t, tb)]))"
| "apply_step (Add_Column t c) s =
     (case map_of s t of
        None \<Rightarrow> None
      | Some tb \<Rightarrow> if cl_name c \<in> cl_name ` set (tb_columns tb) then None
                   else Some (AList.update t (tb\<lparr>tb_columns := tb_columns tb @ [c]\<rparr>) s))"
| "apply_step (Add_Rule t n r) s =
     (case map_of s t of
        None \<Rightarrow> None
      | Some tb \<Rightarrow> if n \<in> fst ` set (tb_rules tb) \<or> \<not> points_into (fst ` set s) r then None
                   else Some (AList.update t (tb\<lparr>tb_rules := tb_rules tb @ [(n, r)]\<rparr>) s))"
| "apply_step (Drop_Rule t n) s =
     (case map_of s t of
        None \<Rightarrow> None
      | Some tb \<Rightarrow> if n \<notin> fst ` set (tb_rules tb) then None
                   else Some (AList.update t (tb\<lparr>tb_rules := AList.delete n (tb_rules tb)\<rparr>) s))"

primrec apply_steps :: "step list \<Rightarrow> schema \<Rightarrow> schema option" where
  "apply_steps [] s = Some s"
| "apply_steps (x # xs) s = (case apply_step x s of None \<Rightarrow> None | Some s' \<Rightarrow> apply_steps xs s')"

record revision =
  rv_id :: string
  rv_down :: "string option"
  rv_steps :: "step list"

text \<open>\<open>alembic upgrade head\<close>: from the revision the store is at, along \<open>down_revision\<close>, to the last.\<close>

fun upgrade_from :: "revision list \<Rightarrow> string option \<times> schema \<Rightarrow> (string option \<times> schema) option" where
  "upgrade_from [] st = Some st"
| "upgrade_from (r # rs) (current, s) =
     (if rv_down r \<noteq> current then None
      else case apply_steps (rv_steps r) s of None \<Rightarrow> None | Some s' \<Rightarrow> upgrade_from rs (Some (rv_id r), s'))"

text \<open>A rule the source gives no name has the one Postgres gives it.\<close>

definition agents_checks :: "(string \<times> rule) list" where
  "agents_checks =
     [(''ck_agents_environment'', Check (One_Of ''environment'' [''development'', ''staging'', ''production''])),
      (''ck_agents_risk_tier'', Check (One_Of ''risk_tier'' [''low'', ''medium'', ''high'', ''critical''])),
      (''ck_agents_framework'', Check (One_Of ''framework'' [''langgraph'', ''crewai'', ''autogen'', ''custom'', ''unknown'']))]"

definition agents_0001 :: table where
  "agents_0001 =
     \<lparr>tb_columns =
        [col ''agent_id'' Sql_Uuid, col ''name'' (text_of 200), col ''owner'' (text_of 200), col_null ''description'' (text_of 2000),
         col ''environment'' (text_of 32), col ''risk_tier'' (text_of 32), col ''permitted_tools'' (Sql_Array (Sql_Text None)),
         col ''regulatory_categories'' (Sql_Array (Sql_Text None)), col ''framework'' (text_of 32),
         col_null ''model_version'' (text_of 100), col ''created_at'' Sql_Time, col ''updated_at'' Sql_Time,
         col ''is_active'' Sql_Bool, col_null ''metadata'' Sql_Json],
      tb_rules = [(''agents_pkey'', Primary [''agent_id'']), (''uq_agents_name'', Unique [''name''])] @ agents_checks\<rparr>"

definition policies_0001 :: table where
  "policies_0001 =
     \<lparr>tb_columns =
        [col ''policy_id'' Sql_Uuid, col ''name'' (text_of 200), col ''rule_text'' (text_of 50000), col ''scope'' (text_of 32),
         col_null ''scope_id'' Sql_Uuid, col ''version'' Sql_Int, col_null ''regulatory_refs'' (Sql_Array (Sql_Text None)),
         col ''enforcement_mode'' (text_of 32), col ''is_active'' Sql_Bool, col ''created_at'' Sql_Time,
         col ''created_by'' (text_of 200)],
      tb_rules =
        [(''policies_pkey'', Primary [''policy_id'']), (''uq_policies_name_version'', Unique [''name'', ''version'']),
         (''ck_policies_scope'', Check (One_Of ''scope'' [''agent'', ''session'', ''tool'', ''global''])),
         (''ck_policies_enforcement_mode'', Check (One_Of ''enforcement_mode'' [''log_only'', ''require_approval'', ''block''])),
         (''ck_policies_version_positive'', Check (At_Least ''version'' 1))]\<rparr>"

definition sessions_0001 :: table where
  "sessions_0001 =
     \<lparr>tb_columns =
        [col ''session_id'' Sql_Uuid, col ''agent_id'' Sql_Uuid, col_null ''user_id'' (text_of 200),
         col_null ''objective'' (text_of 2000), col ''status'' (text_of 32), col ''start_time'' Sql_Time, col_null ''end_time'' Sql_Time,
         col ''action_count'' Sql_Int, col ''decision_count'' Sql_Int, col_null ''chain_head_hash'' (text_of 64),
         col_null ''chain_tail_hash'' (text_of 64), col_null ''metadata'' Sql_Json],
      tb_rules =
        [(''sessions_pkey'', Primary [''session_id'']), (''sessions_agent_id_fkey'', Foreign ''agent_id'' ''agents'' ''agent_id'' Cascade),
         (''ck_sessions_status'', Check (One_Of ''status'' [''running'', ''completed'', ''failed'', ''abandoned''])),
         (''ck_sessions_action_count_nonneg'', Check (At_Least ''action_count'' 0)),
         (''ck_sessions_decision_count_nonneg'', Check (At_Least ''decision_count'' 0)),
         (''ck_sessions_end_after_start'', Check (Not_Before ''end_time'' ''start_time''))]\<rparr>"

definition decisions_0001 :: table where
  "decisions_0001 =
     \<lparr>tb_columns =
        [col ''decision_id'' Sql_Uuid, col ''session_id'' Sql_Uuid, col_null ''policy_id'' Sql_Uuid,
         col_null ''inputs_summary'' (text_of 5000), col_null ''reasoning_summary'' (text_of 10000),
         col ''selected_action'' (text_of 200), col_null ''confidence'' Sql_Float,
         col_null ''alternatives_considered'' (Sql_Array (Sql_Text None)), col ''timestamp'' Sql_Time, col ''reasoning_captured'' Sql_Bool],
      tb_rules =
        [(''decisions_pkey'', Primary [''decision_id'']), (''decisions_session_id_fkey'', Foreign ''session_id'' ''sessions'' ''session_id'' Cascade),
         (''decisions_policy_id_fkey'', Foreign ''policy_id'' ''policies'' ''policy_id'' Set_Null),
         (''ck_decisions_confidence_range'', Check (In_Unit ''confidence''))]\<rparr>"

definition actions_columns :: "column list" where
  "actions_columns =
     [col ''action_id'' Sql_Uuid, col ''timestamp'' Sql_Time, col ''session_id'' Sql_Uuid, col_null ''decision_id'' Sql_Uuid,
      col_null ''policy_id'' Sql_Uuid, col ''tool_name'' (text_of 200), col ''input_hash'' (text_of 64),
      col_null ''output_hash'' (text_of 64), col_null ''input_redacted'' Sql_Json, col_null ''output_redacted'' Sql_Json,
      col_null ''prev_action_hash'' (text_of 64), col ''self_hash'' (text_of 64), col_null ''duration_ms'' Sql_Int,
      col ''authorization_status'' (text_of 32), col ''sequence_number'' Sql_Int]"

definition actions_rules :: "string list \<Rightarrow> (string \<times> rule) list" where
  "actions_rules statuses =
     [(''pk_actions'', Primary [''action_id'', ''timestamp'']), (''actions_session_id_fkey'', Foreign ''session_id'' ''sessions'' ''session_id'' Restrict),
      (''actions_policy_id_fkey'', Foreign ''policy_id'' ''policies'' ''policy_id'' Set_Null),
      (''ck_actions_authorization_status'', Check (One_Of ''authorization_status'' statuses)),
      (''ck_actions_seq_positive'', Check (At_Least ''sequence_number'' 1)),
      (''ck_actions_duration_nonneg'', Check (At_Least ''duration_ms'' 0)),
      (''ck_actions_input_hash_length'', Check (Length_Is ''input_hash'' 64)),
      (''ck_actions_self_hash_length'', Check (Length_Is ''self_hash'' 64))]"

definition actions_0001 :: table where
  "actions_0001 =
     \<lparr>tb_columns = actions_columns,
      tb_rules = actions_rules [''auto_authorized'', ''human_approved'', ''human_rejected'', ''pending'', ''bypassed'']\<rparr>"

definition approvals_0001 :: table where
  "approvals_0001 =
     \<lparr>tb_columns =
        [col ''approval_id'' Sql_Uuid, col ''action_id'' Sql_Uuid, col ''session_id'' Sql_Uuid, col ''approver_id'' (text_of 200),
         col ''approver_type'' (text_of 32), col ''context_presented'' Sql_Json, col ''decision'' (text_of 32),
         col_null ''decision_reason'' (text_of 2000), col ''timestamp'' Sql_Time, col_null ''response_latency_ms'' Sql_Int],
      tb_rules =
        [(''approvals_pkey'', Primary [''approval_id'']),
         (''ck_approvals_approver_type'', Check (One_Of ''approver_type''
            [''human'', ''automated_policy'', ''timeout_auto_approved'', ''timeout_auto_rejected''])),
         (''ck_approvals_decision'', Check (One_Of ''decision'' [''approved'', ''rejected'', ''escalated''])),
         (''ck_approvals_latency_nonneg'', Check (At_Least ''response_latency_ms'' 0))]\<rparr>"

definition incidents_0001 :: table where
  "incidents_0001 =
     \<lparr>tb_columns =
        [col ''incident_id'' Sql_Uuid, col ''trigger_type'' (text_of 32), col ''severity'' (text_of 32), col ''status'' (text_of 32),
         col ''linked_session_ids'' (Sql_Array Sql_Uuid), col_null ''linked_action_ids'' (Sql_Array Sql_Uuid),
         col_null ''linked_decision_ids'' (Sql_Array Sql_Uuid), col_null ''investigator_id'' (text_of 200), col ''title'' (text_of 200),
         col_null ''description'' (text_of 10000), col_null ''resolution'' (text_of 5000), col ''created_at'' Sql_Time,
         col_null ''resolved_at'' Sql_Time],
      tb_rules =
        [(''incidents_pkey'', Primary [''incident_id'']),
         (''ck_incidents_trigger_type'', Check (One_Of ''trigger_type''
            [''anomaly_detected'', ''policy_violation'', ''manual'', ''authorization_bypass''])),
         (''ck_incidents_severity'', Check (One_Of ''severity'' [''info'', ''low'', ''medium'', ''high'', ''critical''])),
         (''ck_incidents_status'', Check (One_Of ''status'' [''open'', ''investigating'', ''resolved'', ''closed'', ''false_positive'']))]\<rparr>"

definition initial_schema :: revision where
  "initial_schema =
     \<lparr>rv_id = ''0001_initial_schema'', rv_down = None,
      rv_steps = [Create_Table ''agents'' agents_0001, Create_Table ''policies'' policies_0001, Create_Table ''sessions'' sessions_0001,
        Create_Table ''decisions'' decisions_0001, Create_Table ''actions'' actions_0001, Create_Table ''approvals'' approvals_0001,
        Create_Table ''incidents'' incidents_0001]\<rparr>"

definition approval_parent_id :: revision where
  "approval_parent_id =
     \<lparr>rv_id = ''0002_approval_parent_id'', rv_down = Some ''0001_initial_schema'',
      rv_steps = [Add_Column ''approvals'' (col_null ''parent_approval_id'' Sql_Uuid),
        Add_Rule ''approvals'' ''fk_approvals_parent_approval_id'' (Foreign ''parent_approval_id'' ''approvals'' ''approval_id'' Set_Null)]\<rparr>"

definition all_statuses :: "string list" where
  "all_statuses = [''auto_authorized'', ''human_approved'', ''human_rejected'', ''pending'', ''bypassed'', ''timed_out'']"

definition action_timed_out :: revision where
  "action_timed_out =
     \<lparr>rv_id = ''0003_action_timed_out'', rv_down = Some ''0002_approval_parent_id'',
      rv_steps = [Drop_Rule ''actions'' ''ck_actions_authorization_status'',
        Add_Rule ''actions'' ''ck_actions_authorization_status'' (Check (One_Of ''authorization_status'' all_statuses))]\<rparr>"

definition approval_action_unique :: revision where
  "approval_action_unique =
     \<lparr>rv_id = ''0004_approval_action_unique'', rv_down = Some ''0003_action_timed_out'',
      rv_steps = [Add_Rule ''approvals'' ''uq_approvals_action_resolution'' (Unique_Unless [''action_id''] ''decision'' ''escalated'')]\<rparr>"

definition agents_name_env_unique :: revision where
  "agents_name_env_unique =
     \<lparr>rv_id = ''0005_agents_name_env_unique'', rv_down = Some ''0004_approval_action_unique'',
      rv_steps = [Add_Rule ''agents'' ''uq_agents_name_environment'' (Unique [''name'', ''environment'']),
        Drop_Rule ''agents'' ''uq_agents_name'']\<rparr>"

definition revisions :: "revision list" where
  "revisions = [initial_schema, approval_parent_id, action_timed_out, approval_action_unique, agents_name_env_unique]"

section \<open>The tables the models declare\<close>

definition agent_model :: table where
  "agent_model =
     \<lparr>tb_columns =
        [col ''agent_id'' Sql_Uuid, col ''name'' (text_of 200), col ''owner'' (text_of 200), col_null ''description'' (text_of 2000),
         col ''environment'' (text_of 32), col ''risk_tier'' (text_of 32), col ''permitted_tools'' (Sql_Array (Sql_Text None)),
         col ''regulatory_categories'' (Sql_Array (Sql_Text None)), col ''framework'' (text_of 32),
         col_null ''model_version'' (text_of 100), col ''created_at'' Sql_Time, col ''updated_at'' Sql_Time,
         col ''is_active'' Sql_Bool, col_null ''metadata'' Sql_Json],
      tb_rules =
        [(''agents_pkey'', Primary [''agent_id'']), (''uq_agents_name_environment'', Unique [''name'', ''environment'']),
         (''ck_agents_environment'', Check (One_Of ''environment'' [''development'', ''staging'', ''production''])),
         (''ck_agents_risk_tier'', Check (One_Of ''risk_tier'' [''low'', ''medium'', ''high'', ''critical''])),
         (''ck_agents_framework'', Check (One_Of ''framework'' [''langgraph'', ''crewai'', ''autogen'', ''custom'', ''unknown'']))]\<rparr>"

definition session_model :: table where
  "session_model =
     \<lparr>tb_columns =
        [col ''session_id'' Sql_Uuid, col ''agent_id'' Sql_Uuid, col_null ''user_id'' (text_of 200),
         col_null ''objective'' (text_of 2000), col ''status'' (text_of 32), col ''start_time'' Sql_Time, col_null ''end_time'' Sql_Time,
         col ''action_count'' Sql_Int, col ''decision_count'' Sql_Int, col_null ''chain_head_hash'' (text_of 64),
         col_null ''chain_tail_hash'' (text_of 64), col_null ''metadata'' Sql_Json],
      tb_rules =
        [(''sessions_pkey'', Primary [''session_id'']), (''sessions_agent_id_fkey'', Foreign ''agent_id'' ''agents'' ''agent_id'' Cascade),
         (''ck_sessions_status'', Check (One_Of ''status'' [''running'', ''completed'', ''failed'', ''abandoned''])),
         (''ck_sessions_action_count_nonneg'', Check (At_Least ''action_count'' 0)),
         (''ck_sessions_decision_count_nonneg'', Check (At_Least ''decision_count'' 0)),
         (''ck_sessions_end_after_start'', Check (Not_Before ''end_time'' ''start_time''))]\<rparr>"

definition decision_model :: table where
  "decision_model =
     \<lparr>tb_columns =
        [col ''decision_id'' Sql_Uuid, col ''session_id'' Sql_Uuid, col_null ''policy_id'' Sql_Uuid,
         col_null ''inputs_summary'' (text_of 5000), col_null ''reasoning_summary'' (text_of 10000),
         col ''selected_action'' (text_of 200), col_null ''confidence'' Sql_Float,
         col_null ''alternatives_considered'' (Sql_Array (Sql_Text None)), col ''timestamp'' Sql_Time, col ''reasoning_captured'' Sql_Bool],
      tb_rules =
        [(''decisions_pkey'', Primary [''decision_id'']), (''decisions_session_id_fkey'', Foreign ''session_id'' ''sessions'' ''session_id'' Cascade),
         (''decisions_policy_id_fkey'', Foreign ''policy_id'' ''policies'' ''policy_id'' Set_Null),
         (''ck_decisions_confidence_range'', Check (In_Unit ''confidence''))]\<rparr>"

definition action_model :: table where
  "action_model =
     \<lparr>tb_columns =
        [col ''action_id'' Sql_Uuid, col ''timestamp'' Sql_Time, col ''session_id'' Sql_Uuid, col_null ''decision_id'' Sql_Uuid,
         col_null ''policy_id'' Sql_Uuid, col ''tool_name'' (text_of 200), col ''input_hash'' (text_of 64),
         col_null ''output_hash'' (text_of 64), col_null ''input_redacted'' Sql_Json, col_null ''output_redacted'' Sql_Json,
         col_null ''prev_action_hash'' (text_of 64), col ''self_hash'' (text_of 64), col_null ''duration_ms'' Sql_Int,
         col ''authorization_status'' (text_of 32), col ''sequence_number'' Sql_Int],
      tb_rules =
        [(''actions_pkey'', Primary [''action_id'', ''timestamp'']), (''actions_session_id_fkey'', Foreign ''session_id'' ''sessions'' ''session_id'' Restrict),
         (''actions_policy_id_fkey'', Foreign ''policy_id'' ''policies'' ''policy_id'' Set_Null),
         (''ck_actions_authorization_status'', Check (One_Of ''authorization_status''
            [''auto_authorized'', ''human_approved'', ''human_rejected'', ''pending'', ''bypassed'', ''timed_out''])),
         (''ck_actions_seq_positive'', Check (At_Least ''sequence_number'' 1)),
         (''ck_actions_duration_nonneg'', Check (At_Least ''duration_ms'' 0)),
         (''ck_actions_input_hash_length'', Check (Length_Is ''input_hash'' 64)),
         (''ck_actions_self_hash_length'', Check (Length_Is ''self_hash'' 64))]\<rparr>"

definition approval_model :: table where
  "approval_model =
     \<lparr>tb_columns =
        [col ''approval_id'' Sql_Uuid, col ''action_id'' Sql_Uuid, col ''session_id'' Sql_Uuid, col ''approver_id'' (text_of 200),
         col ''approver_type'' (text_of 32), col ''context_presented'' Sql_Json, col ''decision'' (text_of 32),
         col_null ''decision_reason'' (text_of 2000), col ''timestamp'' Sql_Time, col_null ''response_latency_ms'' Sql_Int,
         col_null ''parent_approval_id'' Sql_Uuid],
      tb_rules =
        [(''approvals_pkey'', Primary [''approval_id'']),
         (''approvals_parent_approval_id_fkey'', Foreign ''parent_approval_id'' ''approvals'' ''approval_id'' Set_Null),
         (''ck_approvals_approver_type'', Check (One_Of ''approver_type''
            [''human'', ''automated_policy'', ''timeout_auto_approved'', ''timeout_auto_rejected''])),
         (''ck_approvals_decision'', Check (One_Of ''decision'' [''approved'', ''rejected'', ''escalated''])),
         (''ck_approvals_latency_nonneg'', Check (At_Least ''response_latency_ms'' 0))]\<rparr>"

definition policy_model :: table where
  "policy_model =
     \<lparr>tb_columns =
        [col ''policy_id'' Sql_Uuid, col ''name'' (text_of 200), col ''rule_text'' (text_of 50000), col ''scope'' (text_of 32),
         col_null ''scope_id'' Sql_Uuid, col ''version'' Sql_Int, col_null ''regulatory_refs'' (Sql_Array (Sql_Text None)),
         col ''enforcement_mode'' (text_of 32), col ''is_active'' Sql_Bool, col ''created_at'' Sql_Time,
         col ''created_by'' (text_of 200)],
      tb_rules =
        [(''policies_pkey'', Primary [''policy_id'']), (''uq_policies_name_version'', Unique [''name'', ''version'']),
         (''ck_policies_scope'', Check (One_Of ''scope'' [''agent'', ''session'', ''tool'', ''global''])),
         (''ck_policies_enforcement_mode'', Check (One_Of ''enforcement_mode'' [''log_only'', ''require_approval'', ''block''])),
         (''ck_policies_version_positive'', Check (At_Least ''version'' 1))]\<rparr>"

definition incident_model :: table where
  "incident_model =
     \<lparr>tb_columns =
        [col ''incident_id'' Sql_Uuid, col ''trigger_type'' (text_of 32), col ''severity'' (text_of 32), col ''status'' (text_of 32),
         col ''linked_session_ids'' (Sql_Array Sql_Uuid), col_null ''linked_action_ids'' (Sql_Array Sql_Uuid),
         col_null ''linked_decision_ids'' (Sql_Array Sql_Uuid), col_null ''investigator_id'' (text_of 200), col ''title'' (text_of 200),
         col_null ''description'' (text_of 10000), col_null ''resolution'' (text_of 5000), col ''created_at'' Sql_Time,
         col_null ''resolved_at'' Sql_Time],
      tb_rules =
        [(''incidents_pkey'', Primary [''incident_id'']),
         (''ck_incidents_trigger_type'', Check (One_Of ''trigger_type''
            [''anomaly_detected'', ''policy_violation'', ''manual'', ''authorization_bypass''])),
         (''ck_incidents_severity'', Check (One_Of ''severity'' [''info'', ''low'', ''medium'', ''high'', ''critical''])),
         (''ck_incidents_status'', Check (One_Of ''status'' [''open'', ''investigating'', ''resolved'', ''closed'', ''false_positive'']))]\<rparr>"

definition models :: "(string \<times> table) list" where
  "models =
     [(''agents'', agent_model), (''policies'', policy_model), (''sessions'', session_model), (''decisions'', decision_model),
      (''actions'', action_model), (''approvals'', approval_model), (''incidents'', incident_model)]"

section \<open>What the migrations make\<close>

definition resolution_index :: "string \<times> rule" where
  "resolution_index = (''uq_approvals_action_resolution'', Unique_Unless [''action_id''] ''decision'' ''escalated'')"

definition head_schema :: schema where
  "head_schema = (case upgrade_from revisions (None, []) of None \<Rightarrow> [] | Some (_, s) \<Rightarrow> s)"

text \<open>A primary or a foreign key is told by its columns, any other rule by its name too.\<close>

definition keyed :: "string \<times> rule \<Rightarrow> string \<times> rule" where
  "keyed nr = (case snd nr of Primary _ \<Rightarrow> ([], snd nr) | Foreign _ _ _ _ \<Rightarrow> ([], snd nr) | _ \<Rightarrow> nr)"

definition same_rules :: "(string \<times> rule) list \<Rightarrow> (string \<times> rule) list \<Rightarrow> bool" where
  "same_rules xs ys \<longleftrightarrow> keyed ` set xs = keyed ` set ys"

text \<open>The tables the migrations change, and the schema with those three.\<close>

definition agents_head :: table where
  "agents_head = agents_0001\<lparr>tb_rules := (''agents_pkey'', Primary [''agent_id'']) # agents_checks @
     [(''uq_agents_name_environment'', Unique [''name'', ''environment''])]\<rparr>"

definition actions_head :: table where
  "actions_head = actions_0001\<lparr>tb_rules := AList.delete ''ck_actions_authorization_status'' (tb_rules actions_0001) @
     [(''ck_actions_authorization_status'', Check (One_Of ''authorization_status'' all_statuses))]\<rparr>"

definition approvals_0002 :: table where
  "approvals_0002 = approvals_0001\<lparr>tb_columns := tb_columns approvals_0001 @ [col_null ''parent_approval_id'' Sql_Uuid],
     tb_rules := tb_rules approvals_0001 @
       [(''fk_approvals_parent_approval_id'', Foreign ''parent_approval_id'' ''approvals'' ''approval_id'' Set_Null)]\<rparr>"

definition approvals_head :: table where
  "approvals_head = approvals_0002\<lparr>tb_rules := tb_rules approvals_0002 @ [resolution_index]\<rparr>"

definition tables_with :: "table \<Rightarrow> table \<Rightarrow> table \<Rightarrow> schema" where
  "tables_with agents actions approvals =
     [(''agents'', agents), (''policies'', policies_0001), (''sessions'', sessions_0001), (''decisions'', decisions_0001),
      (''actions'', actions), (''approvals'', approvals), (''incidents'', incidents_0001)]"

lemma points_into_simps [simp]:
  "points_into ts (Primary cs)" "points_into ts (Unique cs)" "points_into ts (Unique_Unless cs c v)" "points_into ts (Check k)"
  "points_into ts (Foreign c t r a) \<longleftrightarrow> t \<in> ts"
  by (simp_all add: points_into_def)

lemma points_0001:
  "list_all (\<lambda>(_, r). points_into ts r) (tb_rules agents_0001)"
  "list_all (\<lambda>(_, r). points_into ts r) (tb_rules policies_0001)"
  "list_all (\<lambda>(_, r). points_into ts r) (tb_rules sessions_0001) \<longleftrightarrow> ''agents'' \<in> ts"
  "list_all (\<lambda>(_, r). points_into ts r) (tb_rules decisions_0001) \<longleftrightarrow> ''sessions'' \<in> ts \<and> ''policies'' \<in> ts"
  "list_all (\<lambda>(_, r). points_into ts r) (tb_rules actions_0001) \<longleftrightarrow> ''sessions'' \<in> ts \<and> ''policies'' \<in> ts"
  "list_all (\<lambda>(_, r). points_into ts r) (tb_rules approvals_0001)"
  "list_all (\<lambda>(_, r). points_into ts r) (tb_rules incidents_0001)"
  by (simp_all add: agents_0001_def agents_checks_def policies_0001_def sessions_0001_def decisions_0001_def actions_0001_def
      actions_rules_def approvals_0001_def incidents_0001_def)

lemma initial_steps:
  "apply_steps (rv_steps initial_schema) [] = Some (tables_with agents_0001 actions_0001 approvals_0001)"
  by (simp add: initial_schema_def tables_with_def points_0001)

lemma parent_steps:
  "apply_steps (rv_steps approval_parent_id) (tables_with a b approvals_0001) = Some (tables_with a b approvals_0002)"
proof -
  have "''parent_approval_id'' \<notin> cl_name ` set (tb_columns approvals_0001)"
    "''fk_approvals_parent_approval_id'' \<notin> fst ` set (tb_rules approvals_0001)"
    by (simp_all add: approvals_0001_def col_def col_null_def)
  then show ?thesis
    by (simp add: approval_parent_id_def tables_with_def approvals_0002_def col_null_def)
qed

lemma status_steps:
  "apply_steps (rv_steps action_timed_out) (tables_with a actions_0001 p) = Some (tables_with a actions_head p)"
proof -
  have "''ck_actions_authorization_status'' \<in> fst ` set (tb_rules actions_0001)"
    by (simp add: actions_0001_def actions_rules_def)
  then show ?thesis
    by (simp add: action_timed_out_def tables_with_def actions_head_def AList.delete_notin_dom)
qed

lemma resolution_steps:
  "apply_steps (rv_steps approval_action_unique) (tables_with a b approvals_0002) = Some (tables_with a b approvals_head)"
proof -
  have "''uq_approvals_action_resolution'' \<notin> fst ` set (tb_rules approvals_0002)"
    by (simp add: approvals_0002_def approvals_0001_def)
  then show ?thesis
    by (simp add: approval_action_unique_def tables_with_def approvals_head_def resolution_index_def)
qed

lemma identity_steps:
  "apply_steps (rv_steps agents_name_env_unique) (tables_with agents_0001 b p) = Some (tables_with agents_head b p)"
proof -
  have "''uq_agents_name_environment'' \<notin> fst ` set (tb_rules agents_0001)" "''uq_agents_name'' \<in> fst ` set (tb_rules agents_0001)"
    "AList.delete ''uq_agents_name'' (tb_rules agents_0001 @ [(''uq_agents_name_environment'', Unique [''name'', ''environment''])]) =
     tb_rules agents_head"
    by (simp_all add: agents_0001_def agents_head_def agents_checks_def)
  then show ?thesis
    by (simp add: agents_name_env_unique_def tables_with_def agents_head_def)
qed

lemma upgraded:
  "upgrade_from revisions (None, []) =
     Some (Some ''0005_agents_name_env_unique'', tables_with agents_head actions_head approvals_head)"
proof -
  have names: "rv_down initial_schema = None" "rv_id initial_schema = ''0001_initial_schema''"
    "rv_down approval_parent_id = Some ''0001_initial_schema''" "rv_id approval_parent_id = ''0002_approval_parent_id''"
    "rv_down action_timed_out = Some ''0002_approval_parent_id''" "rv_id action_timed_out = ''0003_action_timed_out''"
    "rv_down approval_action_unique = Some ''0003_action_timed_out''" "rv_id approval_action_unique = ''0004_approval_action_unique''"
    "rv_down agents_name_env_unique = Some ''0004_approval_action_unique''" "rv_id agents_name_env_unique = ''0005_agents_name_env_unique''"
    by (simp_all only: initial_schema_def approval_parent_id_def action_timed_out_def approval_action_unique_def
        agents_name_env_unique_def revision.simps)
  show ?thesis
    by (simp add: revisions_def names initial_steps parent_steps status_steps resolution_steps identity_steps)
qed

lemma head_schema_tables: "head_schema = tables_with agents_head actions_head approvals_head"
  by (simp add: head_schema_def upgraded)

definition meets :: "string \<Rightarrow> table \<Rightarrow> table \<Rightarrow> bool" where
  "meets t tb model \<longleftrightarrow> tb_columns tb = tb_columns model \<and>
     same_rules (tb_rules tb) (if t = ''approvals'' then resolution_index # tb_rules model else tb_rules model)"

lemma meets_agents: "meets ''agents'' agents_head agent_model"
  by (simp add: meets_def same_rules_def agents_head_def agents_0001_def agent_model_def agents_checks_def insert_commute)

lemma meets_unchanged:
  "meets ''policies'' policies_0001 policy_model" "meets ''sessions'' sessions_0001 session_model"
  "meets ''decisions'' decisions_0001 decision_model" "meets ''incidents'' incidents_0001 incident_model"
  by (simp_all add: meets_def same_rules_def policies_0001_def policy_model_def sessions_0001_def session_model_def
      decisions_0001_def decision_model_def incidents_0001_def incident_model_def)

lemma meets_actions: "meets ''actions'' actions_head action_model"
proof -
  have "keyed ` set (tb_rules action_model) = keyed ` set (actions_rules all_statuses)"
    by (simp add: action_model_def actions_rules_def all_statuses_def keyed_def)
  moreover have "set (tb_rules actions_head) = set (actions_rules all_statuses)"
    by (auto simp: actions_head_def actions_0001_def actions_rules_def)
  ultimately show ?thesis
    by (simp add: meets_def same_rules_def actions_head_def actions_0001_def action_model_def actions_columns_def)
qed

lemma meets_approvals: "meets ''approvals'' approvals_head approval_model"
  by (simp add: meets_def same_rules_def approvals_head_def approvals_0002_def approvals_0001_def approval_model_def
      resolution_index_def keyed_def insert_commute)


end
