(* ===== verification/Db_Rows.thy ===== *)
theory Db_Rows
  imports Db_Schema
begin

text \<open>
  What Postgres asks of a row before it takes it: the types of its columns and the rules of its table.
  The wire schemas check a payload's shape; the store finds out at the flush whether the row fits. The
  two are compared here for an action: the row \<^verbatim>\<open>CRUDAction.create_with_hash\<close> adds for a
  payload \<^verbatim>\<open>ActionRecordPayload\<close> accepts.
\<close>

section \<open>Values and rows\<close>

datatype sql_value =
    V_Null
  | V_Uuid uuid
  | V_Text string
  | V_Int int
  | V_Float rat
  | V_Bool bool
  | V_Time string
  | V_Json json
  | V_Array "sql_value list"

type_synonym row = "string \<Rightarrow> sql_value"

definition no_nul :: "string \<Rightarrow> bool" where
  "no_nul s \<longleftrightarrow> CHR 0x00 \<notin> set s"

fun json_storable :: "json \<Rightarrow> bool" where
  "json_storable (JStr s) = no_nul s"
| "json_storable (JArr xs) = (\<forall>x \<in> set xs. json_storable x)"
| "json_storable (JObj kvs) = (\<forall>kv \<in> set kvs. no_nul (fst kv) \<and> json_storable (snd kv))"
| "json_storable _ = True"

definition int4 :: "int \<Rightarrow> bool" where
  "int4 n \<longleftrightarrow> - 2147483648 \<le> n \<and> n \<le> 2147483647"

text \<open>Blanks beyond a text's bound are cut off, anything else there is refused.\<close>

fun holds_in :: "sql_type \<Rightarrow> sql_value \<Rightarrow> bool" where
  "holds_in Sql_Uuid (V_Uuid _) = True"
| "holds_in (Sql_Text width) (V_Text s) \<longleftrightarrow>
     no_nul s \<and> (case width of None \<Rightarrow> True | Some n \<Rightarrow> list_all (\<lambda>c. c = CHR '' '') (drop n s))"
| "holds_in Sql_Int (V_Int n) = int4 n"
| "holds_in Sql_Float (V_Float _) = True"
| "holds_in Sql_Bool (V_Bool _) = True"
| "holds_in Sql_Time (V_Time _) = True"
| "holds_in Sql_Json (V_Json j) = json_storable j"
| "holds_in (Sql_Array ty) (V_Array vs) = (\<forall>v \<in> set vs. holds_in ty v)"
| "holds_in _ _ = False"

text \<open>\<open>instant_of\<close>: the instant Postgres reads in a timestamp.\<close>

definition check_holds :: "(string \<Rightarrow> int) \<Rightarrow> row \<Rightarrow> check \<Rightarrow> bool" where
  "check_holds instant_of r k =
     (case k of
        One_Of c xs \<Rightarrow> (case r c of V_Text s \<Rightarrow> s \<in> set xs | _ \<Rightarrow> True)
      | At_Least c n \<Rightarrow> (case r c of V_Int i \<Rightarrow> n \<le> i | _ \<Rightarrow> True)
      | In_Unit c \<Rightarrow> (case r c of V_Float x \<Rightarrow> 0 \<le> x \<and> x \<le> 1 | _ \<Rightarrow> True)
      | Length_Is c n \<Rightarrow> (case r c of V_Text s \<Rightarrow> length s = n | _ \<Rightarrow> True)
      | Not_Before c c' \<Rightarrow> (case (r c, r c') of (V_Time a, V_Time b) \<Rightarrow> instant_of b \<le> instant_of a | _ \<Rightarrow> True))"

definition agree :: "string list \<Rightarrow> row \<Rightarrow> row \<Rightarrow> bool" where
  "agree cs r r' \<longleftrightarrow> list_all (\<lambda>c. r c = r' c \<and> r c \<noteq> V_Null) cs"

definition rule_holds :: "(string \<Rightarrow> int) \<Rightarrow> (string \<Rightarrow> row list) \<Rightarrow> string \<Rightarrow> row \<Rightarrow> rule \<Rightarrow> bool" where
  "rule_holds instant_of rows t r u =
     (case u of
        Primary cs \<Rightarrow> list_all (\<lambda>c. r c \<noteq> V_Null) cs \<and> \<not> list_ex (agree cs r) (rows t)
      | Unique cs \<Rightarrow> \<not> list_ex (agree cs r) (rows t)
      | Unique_Unless cs c v \<Rightarrow>
          r c = V_Null \<or> r c = V_Text v \<or>
          \<not> list_ex (\<lambda>r'. r' c \<noteq> V_Null \<and> r' c \<noteq> V_Text v \<and> agree cs r r') (rows t)
      | Check k \<Rightarrow> check_holds instant_of r k
      | Foreign c t' k _ \<Rightarrow>
          r c = V_Null \<or> t' = t \<and> r k = r c \<or> list_ex (\<lambda>r'. r' k = r c) (rows t'))"

definition insert_ok :: "(string \<Rightarrow> int) \<Rightarrow> schema \<Rightarrow> (string \<Rightarrow> row list) \<Rightarrow> string \<Rightarrow> row \<Rightarrow> bool" where
  "insert_ok instant_of s rows t r =
     (case map_of s t of
        None \<Rightarrow> False
      | Some tb \<Rightarrow>
          list_all (\<lambda>c. if r (cl_name c) = V_Null then cl_nullable c else holds_in (cl_type c) (r (cl_name c))) (tb_columns tb) \<and>
          list_all (\<lambda>(_, u). rule_holds instant_of rows t r u) (tb_rules tb))"

section \<open>The rows of the actions\<close>

definition or_sql_null :: "('a \<Rightarrow> sql_value) \<Rightarrow> 'a option \<Rightarrow> sql_value" where
  "or_sql_null f x = (case x of None \<Rightarrow> V_Null | Some v \<Rightarrow> f v)"

definition action_columns :: "action_row \<Rightarrow> row" where
  "action_columns a c = (case map_of
     [(''action_id'', V_Uuid (ar_action_id a)), (''timestamp'', V_Time (ar_timestamp a)),
      (''session_id'', V_Uuid (ar_session_id a)), (''decision_id'', or_sql_null V_Uuid (ar_decision_id a)),
      (''policy_id'', or_sql_null V_Uuid (ar_policy_id a)), (''tool_name'', V_Text (ar_tool_name a)),
      (''input_hash'', V_Text (ar_input_hash a)), (''output_hash'', or_sql_null V_Text (ar_output_hash a)),
      (''input_redacted'', V_Json (ar_input_redacted a)), (''output_redacted'', V_Json (ar_output_redacted a)),
      (''prev_action_hash'', or_sql_null V_Text (ar_prev_action_hash a)), (''self_hash'', V_Text (ar_self_hash a)),
      (''duration_ms'', or_sql_null V_Int (ar_duration_ms a)),
      (''authorization_status'', V_Text (ar_authorization_status a)),
      (''sequence_number'', V_Int (ar_sequence_number a))] c of None \<Rightarrow> V_Null | Some v \<Rightarrow> v)"

text \<open>The tables hold the sessions and the actions of the store.\<close>

definition stands_for :: "(string \<Rightarrow> row list) \<Rightarrow> db \<Rightarrow> bool" where
  "stands_for rows d \<longleftrightarrow>
     rows ''actions'' = map action_columns (db_actions d) \<and>
     (\<forall>sid. list_ex (\<lambda>r. r ''session_id'' = V_Uuid sid) (rows ''sessions'') \<longleftrightarrow> db_sessions d sid \<noteq> None)"

definition storable :: "(string \<Rightarrow> row list) \<Rightarrow> action_payload \<Rightarrow> bool" where
  "storable rows p \<longleftrightarrow>
     no_nul (ap_tool_name p) \<and> json_storable (ap_input_redacted p) \<and> json_storable (ap_output_redacted p) \<and>
     (case ap_duration_ms p of None \<Rightarrow> True | Some n \<Rightarrow> n \<le> 2147483647) \<and>
     (case ap_policy_id p of None \<Rightarrow> True | Some u \<Rightarrow> list_ex (\<lambda>r. r ''policy_id'' = V_Uuid u) (rows ''policies''))"

lemma or_sql_null_simps [simp]:
  "or_sql_null f None = V_Null" "or_sql_null f (Some x) = f x"
  by (simp_all add: or_sql_null_def)

lemma action_columns_simps [simp]:
  "action_columns a ''action_id'' = V_Uuid (ar_action_id a)"
  "action_columns a ''timestamp'' = V_Time (ar_timestamp a)"
  "action_columns a ''session_id'' = V_Uuid (ar_session_id a)"
  "action_columns a ''decision_id'' = or_sql_null V_Uuid (ar_decision_id a)"
  "action_columns a ''policy_id'' = or_sql_null V_Uuid (ar_policy_id a)"
  "action_columns a ''tool_name'' = V_Text (ar_tool_name a)"
  "action_columns a ''input_hash'' = V_Text (ar_input_hash a)"
  "action_columns a ''output_hash'' = or_sql_null V_Text (ar_output_hash a)"
  "action_columns a ''input_redacted'' = V_Json (ar_input_redacted a)"
  "action_columns a ''output_redacted'' = V_Json (ar_output_redacted a)"
  "action_columns a ''prev_action_hash'' = or_sql_null V_Text (ar_prev_action_hash a)"
  "action_columns a ''self_hash'' = V_Text (ar_self_hash a)"
  "action_columns a ''duration_ms'' = or_sql_null V_Int (ar_duration_ms a)"
  "action_columns a ''authorization_status'' = V_Text (ar_authorization_status a)"
  "action_columns a ''sequence_number'' = V_Int (ar_sequence_number a)"
  by (simp_all add: action_columns_def)

lemma or_null_cases:
  "(if or_sql_null f x = V_Null then True else P (or_sql_null f x)) \<longleftrightarrow> (case x of None \<Rightarrow> True | Some v \<Rightarrow> f v = V_Null \<or> P (f v))"
  by (cases x) auto

lemma fits_text_of [simp]:
  "holds_in (text_of n) (V_Text s) \<longleftrightarrow> no_nul s \<and> list_all (\<lambda>c. c = CHR '' '') (drop n s)"
  by (simp add: text_of_def)

lemma blank_drop: "length s \<le> n \<Longrightarrow> list_all (\<lambda>c. c = CHR '' '') (drop n s)"
  by simp

lemma col_simps [simp]:
  "cl_name (col n ty) = n" "cl_type (col n ty) = ty" "cl_nullable (col n ty) = False"
  "cl_name (col_null n ty) = n" "cl_type (col_null n ty) = ty" "cl_nullable (col_null n ty) = True"
  by (simp_all add: col_def col_null_def)

text \<open>What the columns of \<open>actions\<close> ask, and what its rules ask.\<close>

lemma actions_columns_fit:
  "list_all (\<lambda>c. if action_columns a (cl_name c) = V_Null then cl_nullable c
      else holds_in (cl_type c) (action_columns a (cl_name c))) actions_columns \<longleftrightarrow>
    holds_in (text_of 200) (V_Text (ar_tool_name a)) \<and> holds_in (text_of 64) (V_Text (ar_input_hash a)) \<and>
    (\<forall>h. ar_output_hash a = Some h \<longrightarrow> holds_in (text_of 64) (V_Text h)) \<and>
    json_storable (ar_input_redacted a) \<and> json_storable (ar_output_redacted a) \<and>
    (\<forall>h. ar_prev_action_hash a = Some h \<longrightarrow> holds_in (text_of 64) (V_Text h)) \<and>
    holds_in (text_of 64) (V_Text (ar_self_hash a)) \<and> (\<forall>n. ar_duration_ms a = Some n \<longrightarrow> int4 n) \<and>
    holds_in (text_of 32) (V_Text (ar_authorization_status a)) \<and> int4 (ar_sequence_number a)"
  by (cases "ar_decision_id a"; cases "ar_policy_id a"; cases "ar_output_hash a"; cases "ar_prev_action_hash a";
      cases "ar_duration_ms a") (simp_all add: actions_columns_def del: fits_text_of)

lemma actions_rules_hold:
  "list_all (\<lambda>(_, u). rule_holds inst rows ''actions'' (action_columns a) u) (tb_rules actions_head) \<longleftrightarrow>
    \<not> list_ex (agree [''action_id'', ''timestamp''] (action_columns a)) (rows ''actions'') \<and>
    list_ex (\<lambda>r. r ''session_id'' = V_Uuid (ar_session_id a)) (rows ''sessions'') \<and>
    (\<forall>u. ar_policy_id a = Some u \<longrightarrow> list_ex (\<lambda>r. r ''policy_id'' = V_Uuid u) (rows ''policies'')) \<and>
    ar_authorization_status a \<in> set all_statuses \<and> 1 \<le> ar_sequence_number a \<and>
    (\<forall>n. ar_duration_ms a = Some n \<longrightarrow> 0 \<le> n) \<and> length (ar_input_hash a) = 64 \<and> length (ar_self_hash a) = 64"
proof -
  have rules: "tb_rules actions_head =
      [(''pk_actions'', Primary [''action_id'', ''timestamp'']),
       (''actions_session_id_fkey'', Foreign ''session_id'' ''sessions'' ''session_id'' Restrict),
       (''actions_policy_id_fkey'', Foreign ''policy_id'' ''policies'' ''policy_id'' Set_Null),
       (''ck_actions_seq_positive'', Check (At_Least ''sequence_number'' 1)),
       (''ck_actions_duration_nonneg'', Check (At_Least ''duration_ms'' 0)),
       (''ck_actions_input_hash_length'', Check (Length_Is ''input_hash'' 64)),
       (''ck_actions_self_hash_length'', Check (Length_Is ''self_hash'' 64)),
       (''ck_actions_authorization_status'', Check (One_Of ''authorization_status'' all_statuses))]"
    by (simp add: actions_head_def actions_0001_def actions_rules_def)
  show ?thesis unfolding rules
    by (cases "ar_policy_id a"; cases "ar_duration_ms a") (auto simp: rule_holds_def check_holds_def)
qed

lemma insert_action:
  "insert_ok inst head_schema rows ''actions'' (action_columns a) \<longleftrightarrow>
    list_all (\<lambda>c. if action_columns a (cl_name c) = V_Null then cl_nullable c
      else holds_in (cl_type c) (action_columns a (cl_name c))) actions_columns \<and>
    list_all (\<lambda>(_, u). rule_holds inst rows ''actions'' (action_columns a) u) (tb_rules actions_head)"
  by (simp add: insert_ok_def head_schema_tables tables_with_def actions_head_def actions_0001_def)

section \<open>What the wire schema promises\<close>

lemma lower_hex_no_nul: "list_all lower_hex s \<Longrightarrow> no_nul s"
  by (auto simp: list_all_iff no_nul_def lower_hex_def)

lemma nul_not_digit: "\<not> is_digit 16 CHR 0x00"
  by code_simp

lemma sha256_hex_no_nul: "no_nul (sha256_hex s)"
proof -
  have digit: "digit_char (unat (v AND 15)) \<noteq> CHR 0x00" for v :: "32 word"
  proof -
    have "unat (v AND 15) < 16"
      using word_and_le1 [of v 15] by (simp add: word_le_nat_alt)
    from digit_char_facts [OF this] show ?thesis
      by (metis nul_not_digit)
  qed
  have "c \<noteq> CHR 0x00" if c: "c \<in> set (hex_word w)" for c w
  proof -
    from c obtain v where "c = digit_char (unat (v AND 15 :: 32 word))"
      by (auto simp: hex_word_def)
    with digit show ?thesis by simp
  qed
  then show ?thesis
    by (auto simp: sha256_hex_def no_nul_def)
qed

lemma hash_of_fits: "holds_in (text_of 64) (V_Text (hash_of r))"
  by (simp add: hash_of_def sha256_hex_no_nul blank_drop)

lemma hex64_fits: "hex64 j = Some h \<Longrightarrow> length h = 64 \<and> holds_in (text_of 64) (V_Text h)"
  by (auto simp: hex64_def guarded_def lower_hex_no_nul blank_drop split: option.splits if_splits)

lemma status_fits:
  assumes "st \<in> set action_statuses"
  shows "st \<in> set all_statuses" and "holds_in (text_of 32) (V_Text st)"
  using assms by (auto simp: action_statuses_def all_statuses_def no_nul_def)

lemma text_field_length: "text_field lo (Some hi) j = Some s \<Longrightarrow> length s \<le> hi"
  by (auto simp: text_field_def in_range_def split: json.splits if_splits)

lemma nullable_Some: "nullable d k f = Some (Some x) \<Longrightarrow> \<exists>j. f j = Some x"
  by (auto simp: nullable_def split: if_splits)

lemma required_Some: "required d k f = Some x \<Longrightarrow> \<exists>j. f j = Some x"
  by (auto simp: required_def split: if_splits)

lemma action_schema_shape:
  assumes "action_schema co d = Some p"
  shows "length (ap_tool_name p) \<le> 200" and "\<exists>j. hex64 j = Some (ap_input_hash p)"
    and "ap_output_hash p = Some h \<Longrightarrow> \<exists>j. hex64 j = Some h"
    and "ap_duration_ms p = Some n \<Longrightarrow> 0 \<le> n"
proof -
  from assms obtain tool ih oh dur where
    tool: "required d ''tool_name'' (text_field 1 (Some 200)) = Some tool" "ap_tool_name p = tool" and
    ih: "required d ''input_hash'' hex64 = Some ih" "ap_input_hash p = ih" and
    oh: "nullable d ''output_hash'' hex64 = Some oh" "ap_output_hash p = oh" and
    dur: "nullable d ''duration_ms'' (\<lambda>j. guarded (in_range (Some 0) None) (co_int co j)) = Some dur" "ap_duration_ms p = dur"
    unfolding action_schema_def bind_eq_Some_conv by force
  show "length (ap_tool_name p) \<le> 200" using required_Some [OF tool(1)] tool(2) text_field_length by blast
  show "\<exists>j. hex64 j = Some (ap_input_hash p)" using required_Some [OF ih(1)] ih(2) by simp
  show "ap_output_hash p = Some h \<Longrightarrow> \<exists>j. hex64 j = Some h" using nullable_Some oh by metis
  show "ap_duration_ms p = Some n \<Longrightarrow> 0 \<le> n"
    using nullable_Some [of d "''duration_ms''" _ n] dur
    by (force simp: guarded_def in_range_def split: option.splits if_splits)
qed

section \<open>The row of an accepted action\<close>

lemma db_inv_tail:
  assumes "db_inv d" "db_sessions d sid = Some s"
  shows "0 \<le> sr_action_count s" and "sr_chain_tail_hash s = Some h \<Longrightarrow> holds_in (text_of 64) (V_Text h)"
  using assms by (auto simp: db_inv_def tail_of_def hash_of_fits simp del: fits_text_of split: if_splits)

lemma agree_id: "agree [''action_id'', ''timestamp''] r r' \<Longrightarrow> r ''action_id'' = r' ''action_id''"
  by (simp add: agree_def)

lemma fresh_row:
  assumes "stands_for rows d" "ar_action_id a \<notin> ar_action_id ` set (db_actions d)"
  shows "\<not> list_ex (agree [''action_id'', ''timestamp''] (action_columns a)) (rows ''actions'')"
proof
  assume "list_ex (agree [''action_id'', ''timestamp''] (action_columns a)) (rows ''actions'')"
  then obtain b where b: "b \<in> set (db_actions d)" "agree [''action_id'', ''timestamp''] (action_columns a) (action_columns b)"
    using assms(1) by (auto simp: stands_for_def list_ex_iff)
  from agree_id [OF b(2)] have "ar_action_id a = ar_action_id b" by simp
  with assms(2) b(1) show False by simp
qed

lemma handled_action:
  assumes "handle_action_record he env p d = (Inr rsp, d')"
  obtains s where "db_sessions d (ev_session_id env) = Some s" "ap_authorization_status p \<in> set action_statuses"
    "db_actions d' = db_actions d @ [new_action (he_pg he) (he_fresh he) (action_create_of env p) s]"
  using assms
  by (auto simp: handle_action_record_def create_with_hash_def action_create_of_def require_running_Inr Let_def
      split: if_splits sum.splits option.splits prod.splits)

lemma new_row_fits:
  assumes p: "action_schema co q = Some p" and d: "db_inv d" "stands_for rows d" and s: "db_sessions d (ev_session_id env) = Some s"
    and status: "ap_authorization_status p \<in> set action_statuses"
    and fresh: "fresh \<notin> ar_action_id ` set (db_actions d)" and count: "sr_action_count s < 2147483647"
  shows "insert_ok inst head_schema rows ''actions'' (action_columns (new_action pg fresh (action_create_of env p) s)) \<longleftrightarrow>
    storable rows p"
proof -
  let ?a = "new_action pg fresh (action_create_of env p) s"
  have fields: "ar_action_id ?a = fresh" "ar_tool_name ?a = ap_tool_name p" "ar_input_hash ?a = ap_input_hash p"
    "ar_output_hash ?a = ap_output_hash p" "ar_input_redacted ?a = ap_input_redacted p"
    "ar_output_redacted ?a = ap_output_redacted p" "ar_duration_ms ?a = ap_duration_ms p"
    "ar_policy_id ?a = ap_policy_id p" "ar_session_id ?a = ev_session_id env" "ar_prev_action_hash ?a = sr_chain_tail_hash s"
    "ar_authorization_status ?a = ap_authorization_status p" "ar_sequence_number ?a = sr_action_count s + 1"
    and self: "\<exists>r. ar_self_hash ?a = hash_of r"
    by (auto simp: new_action_def action_create_of_def Let_def)
  note shape = action_schema_shape [OF p]
  have hashes: "holds_in (text_of 64) (V_Text (ar_self_hash ?a))" "length (ar_self_hash ?a) = 64"
    using self hash_of_fits by (auto simp: hash_of_def)
  have input: "holds_in (text_of 64) (V_Text (ap_input_hash p))" "length (ap_input_hash p) = 64"
    using shape(2) hex64_fits by blast+
  have outh: "\<forall>h. ap_output_hash p = Some h \<longrightarrow> holds_in (text_of 64) (V_Text h)"
    using shape(3) hex64_fits by blast
  have tail: "\<forall>h. sr_chain_tail_hash s = Some h \<longrightarrow> holds_in (text_of 64) (V_Text h)"
    using db_inv_tail(2) [OF d(1) s] by blast
  have seq: "int4 (sr_action_count s + 1)" "1 \<le> sr_action_count s + 1"
    using db_inv_tail(1) [OF d(1) s] count by (simp_all add: int4_def)
  have session: "list_ex (\<lambda>r. r ''session_id'' = V_Uuid (ev_session_id env)) (rows ''sessions'')"
    using d(2) s by (simp add: stands_for_def)
  have new: "\<not> list_ex (agree [''action_id'', ''timestamp''] (action_columns ?a)) (rows ''actions'')"
    by (rule fresh_row [OF d(2)]) (simp add: fields fresh)
  have duration: "(\<forall>n. ap_duration_ms p = Some n \<longrightarrow> int4 n) \<longleftrightarrow>
      (case ap_duration_ms p of None \<Rightarrow> True | Some n \<Rightarrow> n \<le> 2147483647)"
    using shape(4) by (fastforce simp: int4_def split: option.splits)
  have columns: "list_all (\<lambda>c. if action_columns ?a (cl_name c) = V_Null then cl_nullable c
      else holds_in (cl_type c) (action_columns ?a (cl_name c))) actions_columns \<longleftrightarrow>
    no_nul (ap_tool_name p) \<and> json_storable (ap_input_redacted p) \<and> json_storable (ap_output_redacted p) \<and>
    (case ap_duration_ms p of None \<Rightarrow> True | Some n \<Rightarrow> n \<le> 2147483647)"
    unfolding actions_columns_fit fields duration
    using shape(1) hashes(1) input(1) outh tail seq(1) status_fits(2) [OF status] by (simp add: blank_drop)
  have rules: "list_all (\<lambda>(_, u). rule_holds inst rows ''actions'' (action_columns ?a) u) (tb_rules actions_head) \<longleftrightarrow>
    (\<forall>u. ap_policy_id p = Some u \<longrightarrow> list_ex (\<lambda>r. r ''policy_id'' = V_Uuid u) (rows ''policies''))"
    unfolding actions_rules_hold fields
    using new session status_fits(1) [OF status] seq(2) shape(4) input(2) hashes(2) by (auto simp: fields)
  show ?thesis
    unfolding insert_action columns rules storable_def by (auto split: option.splits)
qed

text \<open>C26. \<open>accepted_action_stored\<close>: Postgres takes the row of an action the wire schema and the handler accept exactly when
  three things the schema does not ask hold: no text of it holds a NUL, its duration is an \<open>int4\<close>, and its policy, if it
  names one, is in the store. The lengths, hashes, statuses, counts and keys never fail.\<close>

theorem accepted_action_stored:
  assumes "action_schema co q = Some p" and "db_inv d" and "stands_for rows d"
    and "he_fresh he \<notin> ar_action_id ` set (db_actions d)"
    and "\<forall>s. db_sessions d (ev_session_id env) = Some s \<longrightarrow> sr_action_count s < 2147483647"
    and "handle_action_record he env p d = (Inr rsp, d')"
  shows "\<exists>a. db_actions d' = db_actions d @ [a] \<and>
    (insert_ok inst head_schema rows ''actions'' (action_columns a) \<longleftrightarrow> storable rows p)"
proof -
  obtain s where s: "db_sessions d (ev_session_id env) = Some s" "ap_authorization_status p \<in> set action_statuses"
    "db_actions d' = db_actions d @ [new_action (he_pg he) (he_fresh he) (action_create_of env p) s]"
    using handled_action [OF assms(6)] by blast
  moreover have "sr_action_count s < 2147483647" using assms(5) s(1) by blast
  ultimately show ?thesis
    using new_row_fits [OF assms(1-3) s(1,2) assms(4)] by blast
qed

definition sample_coercions :: coercions where
  "sample_coercions =
     \<lparr>co_int = (\<lambda>j. case j of JInt n \<Rightarrow> Some n | _ \<Rightarrow> None), co_float = (\<lambda>_. None),
      co_bool = (\<lambda>j. case j of JBool b \<Rightarrow> Some b | _ \<Rightarrow> None), co_uuid = (\<lambda>j. case j of JStr s \<Rightarrow> uuid_of_str s | _ \<Rightarrow> None),
      co_datetime = (\<lambda>_. None), co_now = \<lparr>st_text = ''2026-01-01T00:00:00+00:00'', st_instant = \<lparr>micros = 0, aware = True\<rparr>\<rparr>\<rparr>"

definition nul_action :: dict where
  "nul_action = [(''tool_name'', JStr [CHR ''a'', CHR 0x00]), (''input_hash'', JStr (replicate 64 CHR ''0''))]"

definition sample_rows :: "string \<Rightarrow> row list" where
  "sample_rows t = (if t = ''sessions'' then [\<lambda>c. if c = ''session_id'' then V_Uuid 3 else V_Null] else [])"

lemma hex64_zeros: "hex64 (JStr (replicate 64 CHR ''0'')) = Some (replicate 64 CHR ''0'')"
  by (simp add: hex64_def plain_text_def text_field_def in_range_def guarded_def lower_hex_def list_all_length)

lemma nul_accepted:
  "\<exists>p. action_schema co nul_action = Some p \<and> ap_tool_name p = [CHR ''a'', CHR 0x00] \<and>
     ap_authorization_status p = ''auto_authorized'' \<and> ap_self_hash p = None \<and> ap_action_id p = None"
  by (simp add: action_schema_def nul_action_def only_keys_def action_fields_def required_def nullable_def defaulted_def dhas_def
      dget_def hex64_zeros text_field_def in_range_def)

theorem accepted_action_stored_witness:
  "\<exists>p rsp d' a. action_schema sample_coercions nul_action = Some p \<and>
     handle_action_record sample_he sample_raw_envelope p sample_db = (Inr rsp, d') \<and> rsp_status rsp = ''accepted'' \<and>
     db_actions d' = [a] \<and> \<not> insert_ok (\<lambda>_. 0) head_schema sample_rows ''actions'' (action_columns a)"
proof -
  obtain p where p: "action_schema sample_coercions nul_action = Some p" "ap_tool_name p = [CHR ''a'', CHR 0x00]"
    "ap_authorization_status p = ''auto_authorized''" "ap_self_hash p = None" "ap_action_id p = None"
    using nul_accepted by blast
  have rows: "stands_for sample_rows sample_db"
    by (auto simp: stands_for_def sample_rows_def sample_db_def)
  obtain rsp d' where h: "handle_action_record sample_he sample_raw_envelope p sample_db = (Inr rsp, d')" "rsp_status rsp = ''accepted''"
    by (simp add: handle_action_record_def p require_running_session_def sample_raw_envelope_def sample_db_def sample_session_def
        action_statuses_def create_with_hash_def action_create_of_def Let_def accepted_def)
  have count: "\<forall>s. db_sessions sample_db (ev_session_id sample_raw_envelope) = Some s \<longrightarrow> sr_action_count s < 2147483647"
    and fresh: "he_fresh sample_he \<notin> ar_action_id ` set (db_actions sample_db)" and none: "db_actions sample_db = []"
    by (auto simp: sample_db_def sample_raw_envelope_def sample_session_def split: if_splits)
  have "\<not> storable sample_rows p" by (simp add: storable_def p(2) no_nul_def)
  with accepted_action_stored [OF p(1) sample_db_inv rows fresh count h(1), of "\<lambda>_. 0"] none p(1) h show ?thesis by auto
qed

text \<open>A tool name with a NUL in it passes the schema and the handler, whatever the rest of the store; Postgres refuses its row.\<close>

theorem accepted_but_refused:
  assumes "db_inv d" and "stands_for rows d" and "he_fresh he \<notin> ar_action_id ` set (db_actions d)"
    and "db_sessions d (ev_session_id env) = Some s" and "sr_status s = ''running''" and "sr_action_count s < 2147483647"
  shows "\<exists>p rsp d' a. action_schema co nul_action = Some p \<and> handle_action_record he env p d = (Inr rsp, d') \<and>
    rsp_status rsp = ''accepted'' \<and> db_actions d' = db_actions d @ [a] \<and>
    \<not> insert_ok inst head_schema rows ''actions'' (action_columns a)"
proof -
  obtain p where p: "action_schema co nul_action = Some p" "ap_tool_name p = [CHR ''a'', CHR 0x00]"
    "ap_authorization_status p = ''auto_authorized''" "ap_self_hash p = None" "ap_action_id p = None"
    using nul_accepted by blast
  let ?a = "new_action (he_pg he) (he_fresh he) (action_create_of env p) s"
  have status: "ap_authorization_status p \<in> set action_statuses" by (simp add: p action_statuses_def)
  have "\<not> storable rows p" by (simp add: storable_def p(2) no_nul_def)
  then have "\<not> insert_ok inst head_schema rows ''actions'' (action_columns ?a)"
    using new_row_fits [OF p(1) assms(1,2,4) status assms(3,6)] by blast
  moreover obtain rsp d' where "handle_action_record he env p d = (Inr rsp, d')" "rsp_status rsp = ''accepted''"
    "db_actions d' = db_actions d @ [?a]"
    using assms(4,5) status
    by (simp add: handle_action_record_def p require_running_session_def create_with_hash_def action_create_of_def Let_def accepted_def)
  ultimately show ?thesis using p(1) by blast
qed

theorem accepted_but_refused_witness:
  "\<exists>p rsp d' a. action_schema sample_coercions nul_action = Some p \<and>
     handle_action_record sample_he sample_raw_envelope p sample_db = (Inr rsp, d') \<and>
     rsp_status rsp = ''accepted'' \<and> db_actions d' = db_actions sample_db @ [a] \<and>
     \<not> insert_ok (\<lambda>_. 0) head_schema sample_rows ''actions'' (action_columns a)"
  by (rule accepted_but_refused [OF sample_db_inv, where s = sample_session])
    (auto simp: stands_for_def sample_rows_def sample_db_def sample_session_def sample_raw_envelope_def)

end
