(* ===== verification/Db_Approvals.thy ===== *)
theory Db_Approvals
  imports Db_Rows
begin

text \<open>
  The two defences against resolving an action twice: the guard of \<^verbatim>\<open>crud/approval.py\<close>, which looks
  at the action's status, and the partial unique index of migration 0004, which looks at the approvals.
  The stores the ingest handler and the checkpoint path can reach are a step relation; in each of them
  what the guard lets through the index lets through too.
\<close>

section \<open>Reachable stores\<close>

definition empty_db :: "uuid list \<Rightarrow> db" where
  "empty_db agents = \<lparr>db_agents = agents, db_sessions = Map.empty, db_actions = [], db_decisions = [], db_approvals = []\<rparr>"

text \<open>An event by the ingest handler, with a fresh id at hand, or an approval by the checkpoint path. Row locks make
  each a step.\<close>

inductive store_reachable :: "db \<Rightarrow> bool" where
  start: "store_reachable (empty_db agents)"
| event: "store_reachable d \<Longrightarrow> he_fresh he \<notin> ar_action_id ` set (db_actions d) \<Longrightarrow> store_reachable (snd (dispatch sc he env d))"
| checkpoint: "store_reachable d \<Longrightarrow> store_reachable (snd (cast_vote (By_Checkpoint i now a ts who ty decision reason parent) d))"

section \<open>The rows of the approvals\<close>

text \<open>The columns the store model keeps of an approval.\<close>

definition approval_columns :: "approval_row \<Rightarrow> row" where
  "approval_columns p c = (case map_of
     [(''approval_id'', V_Uuid (pr_approval_id p)), (''action_id'', V_Uuid (pr_action_id p)),
      (''session_id'', V_Uuid (pr_session_id p)), (''approver_id'', V_Text (pr_approver_id p)),
      (''approver_type'', V_Text (pr_approver_type p)), (''decision'', V_Text (pr_decision p)),
      (''decision_reason'', or_sql_null V_Text (pr_decision_reason p)),
      (''parent_approval_id'', or_sql_null V_Uuid (pr_parent_approval_id p))] c of None \<Rightarrow> V_Null | Some v \<Rightarrow> v)"

definition index_takes :: "db \<Rightarrow> approval_row \<Rightarrow> bool" where
  "index_takes d p \<longleftrightarrow>
     rule_holds (\<lambda>_. 0) (\<lambda>t. if t = ''approvals'' then map approval_columns (db_approvals d) else []) ''approvals''
       (approval_columns p) (snd resolution_index)"

definition settles :: "approval_row \<Rightarrow> bool" where
  "settles p \<longleftrightarrow> pr_decision p \<noteq> ''escalated''"

lemma index_takes_iff:
  "index_takes d p \<longleftrightarrow> (settles p \<longrightarrow> (\<forall>q \<in> set (db_approvals d). settles q \<longrightarrow> pr_action_id q \<noteq> pr_action_id p))"
  by (auto simp: index_takes_def rule_holds_def resolution_index_def approval_columns_def agree_def settles_def list_ex_iff)

section \<open>The invariant\<close>

definition resolved_once :: "db \<Rightarrow> bool" where
  "resolved_once d \<longleftrightarrow>
     distinct (map ar_action_id (db_actions d)) \<and>
     distinct (map pr_action_id (filter settles (db_approvals d))) \<and>
     (\<forall>p \<in> set (db_approvals d). settles p \<longrightarrow>
        (\<exists>a \<in> set (db_actions d). ar_action_id a = pr_action_id p \<and> terminal a))"

lemma distinct_unique:
  "distinct (map f xs) \<Longrightarrow> x \<in> set xs \<Longrightarrow> y \<in> set xs \<Longrightarrow> f x = f y \<Longrightarrow> x = y"
  by (induction xs) (auto simp: image_iff)

lemma terminal_states:
  "''human_approved'' \<in> set terminal_auth_states" "''human_rejected'' \<in> set terminal_auth_states"
  "''timed_out'' \<in> set terminal_auth_states"
  by (simp_all add: terminal_auth_states_def)

lemma settling_status:
  assumes "decision_to_auth_status decision = Some st" "decision \<noteq> ''escalated''"
  shows "st \<in> set terminal_auth_states"
proof -
  from assms have "st = ''human_approved'' \<or> st = ''human_rejected''"
    by (simp add: decision_to_auth_status_def split: if_splits)
  with terminal_states show ?thesis by blast
qed

text \<open>What a vote that lands does, by either path.\<close>

lemma vote_lands:
  assumes "cast_vote v d = (Inr row, d')"
  obtains pick a st where "filter pick (db_actions d) = [a]" "\<not> terminal a" "d' = set_status pick st (add_approval row d)"
    "settles row \<Longrightarrow> st \<in> set terminal_auth_states" "\<And>b. pick b \<Longrightarrow> ar_action_id b = pr_action_id row"
proof (cases v)
  case (By_Ingest i c)
  let ?pick = "\<lambda>a. ar_session_id a = pc_session_id c \<and> ar_action_id a = pc_action_id c"
  from assms By_Ingest obtain a st where a: "filter ?pick (db_actions d) = [a]" "\<not> terminal a"
    "decision_to_auth_status (pc_decision c) = Some st" "d' = set_status ?pick st (add_approval row d)"
    "pr_action_id row = pc_action_id c" "pr_decision row = pc_decision c"
    by (auto simp: create_with_action_status_update_def Let_def one_or_none_Some split: sum.splits option.splits if_splits)
  show thesis
    by (rule that [of ?pick a st]) (use a settling_status in \<open>auto simp: settles_def\<close>)
next
  case (By_Checkpoint i now x ts who ty decision reason parent)
  let ?pick = "\<lambda>a. ar_action_id a = x \<and> ar_timestamp a = ts"
  from assms By_Checkpoint obtain a st where a: "filter ?pick (db_actions d) = [a]" "\<not> terminal a"
    "(if ty = timeout_approver_type then Some ''timed_out'' else decision_to_auth_status decision) = Some st"
    "d' = set_status ?pick st (add_approval row d)" "pr_action_id row = x" "pr_decision row = decision"
    by (auto simp: create_with_chain_link_def Let_def one_or_none_Some split: sum.splits option.splits if_splits)
  have st: "st \<in> set terminal_auth_states" if "settles row"
    using a(3,6) that settling_status [of decision st]
    terminal_states(3) by (auto simp: settles_def split: if_splits)
  show thesis
    by (rule that [of ?pick a st]) (use a st in auto)
qed

lemma filter_single: "filter p xs = [a] \<Longrightarrow> a \<in> set xs \<and> p a"
  by (drule arg_cong [where f = set]) auto

lemma settled_action_not_voted:
  assumes inv: "resolved_once d" and pick: "filter pick (db_actions d) = [a]" "\<not> terminal a"
    and q: "q \<in> set (db_approvals d)" "settles q"
  shows "pr_action_id q \<noteq> ar_action_id a"
proof
  assume eq: "pr_action_id q = ar_action_id a"
  from inv q obtain b where b: "b \<in> set (db_actions d)" "ar_action_id b = pr_action_id q" "terminal b"
    by (auto simp: resolved_once_def)
  have "a \<in> set (db_actions d)" using filter_single [OF pick(1)] by simp
  with inv b eq have "a = b" by (auto simp: resolved_once_def intro: distinct_unique)
  with pick(2) b(3) show False by simp
qed

lemma vote_keeps_once:
  assumes inv: "resolved_once d" and v: "cast_vote v d = (Inr row, d')"
  shows "index_takes d row" and "resolved_once d'"
proof -
  from v obtain pick a st where a: "filter pick (db_actions d) = [a]" "\<not> terminal a"
    and d': "d' = set_status pick st (add_approval row d)" and st: "settles row \<Longrightarrow> st \<in> set terminal_auth_states"
    and id: "\<And>b. pick b \<Longrightarrow> ar_action_id b = pr_action_id row"
    using vote_lands [OF v] by metis
  have mem: "a \<in> set (db_actions d)" "pick a" using filter_single [OF a(1)] by simp_all
  let ?f = "\<lambda>b. if pick b then b\<lparr>ar_authorization_status := st\<rparr> else b"
  have ids: "map ar_action_id (map ?f (db_actions d)) = map ar_action_id (db_actions d)" by simp
  have settled: "\<exists>b \<in> set (map ?f (db_actions d)). ar_action_id b = pr_action_id p \<and> terminal b"
    if p: "p \<in> set (db_approvals d @ [row])" "settles p" for p
  proof (cases "p = row")
    case True
    then have "terminal (?f a)" "ar_action_id (?f a) = pr_action_id p"
      using st p(2) mem(2) id [OF mem(2)] by (auto simp: terminal_def)
    moreover have "?f a \<in> set (map ?f (db_actions d))" using imageI [OF mem(1), of ?f] by (simp only: set_map)
    ultimately show ?thesis by blast
  next
    case False
    with p have q: "p \<in> set (db_approvals d)" by auto
    with inv p(2) obtain b where b: "b \<in> set (db_actions d)" "ar_action_id b = pr_action_id p" "terminal b"
      by (auto simp: resolved_once_def)
    have "\<not> pick b"
      using settled_action_not_voted [OF inv a q p(2)] id [of b] id [OF mem(2)] b(2) by auto
    then have "?f b = b" by simp
    then have "b \<in> set (map ?f (db_actions d))" using imageI [OF b(1), of ?f] by (simp only: set_map)
    with b show ?thesis by blast
  qed
  show takes: "index_takes d row"
    using settled_action_not_voted [OF inv a] id [OF mem(2)] by (auto simp: index_takes_iff)
  then have "distinct (map pr_action_id (filter settles (db_approvals d @ [row])))"
    using inv by (auto simp: resolved_once_def index_takes_iff)
  with settled show "resolved_once d'"
    unfolding resolved_once_def d' set_status_rows ids using inv by (simp add: resolved_once_def)
qed

lemma cast_vote_once: "resolved_once d \<Longrightarrow> resolved_once (snd (cast_vote v d))"
proof (cases "cast_vote v d")
  case (Pair res d')
  assume inv: "resolved_once d"
  show ?thesis
  proof (cases res)
    case (Inl e)
    then show ?thesis using cast_vote_actions [OF Pair] inv Pair by auto
  next
    case (Inr row)
    then show ?thesis using vote_keeps_once(2) [OF inv] Pair by simp
  qed
qed

lemma dispatch_once:
  assumes inv: "resolved_once d" and fresh: "he_fresh he \<notin> ar_action_id ` set (db_actions d)"
  shows "resolved_once (snd (dispatch sc he env d))"
proof -
  have same: "resolved_once d'" if "db_actions d' = db_actions d" "db_approvals d' = db_approvals d" for d'
    using inv that by (simp add: resolved_once_def)
  have action: "resolved_once (snd (handle_action_record he env p d))" for p
  proof (cases "handle_action_record he env p d")
    case (Pair res d')
    show ?thesis
    proof (cases res)
      case (Inl e)
      with Pair have "d' = d"
        by (auto simp: handle_action_record_def create_with_hash_def Let_def split: if_splits sum.splits option.splits prod.splits)
      with Pair inv show ?thesis by simp
    next
      case (Inr rsp)
      with Pair obtain s where "db_actions d' = db_actions d @ [new_action (he_pg he) (he_fresh he) (action_create_of env p) s]"
        "db_approvals d' = db_approvals d"
        by (auto simp: handle_action_record_def create_with_hash_def action_create_of_def Let_def
            split: if_splits sum.splits option.splits prod.splits)
      moreover have "ar_action_id (new_action (he_pg he) (he_fresh he) (action_create_of env p) s) = he_fresh he"
        by (simp add: new_action_def Let_def)
      ultimately show ?thesis using Pair inv fresh by (auto simp: resolved_once_def)
    qed
  qed
  have approval: "resolved_once (snd (handle_approval_record he env p d))" for p
    using cast_vote_once [OF inv, of "By_Ingest (he_fresh he) _"] inv
    by (auto simp: handle_approval_record_def split: sum.splits prod.splits) (metis snd_conv)+
  show ?thesis
    using action approval same inv
    by (auto simp: dispatch_def invalid_payload_def handle_session_open_def handle_decision_record_def handle_session_close_def Let_def
        split: event_type.splits option.splits sum.splits)
qed

lemma reachable_once: "store_reachable d \<Longrightarrow> resolved_once d"
proof (induction rule: store_reachable.induct)
  case (start agents)
  show ?case by (simp add: resolved_once_def empty_db_def)
next
  case (event d he sc env)
  then show ?case using dispatch_once by blast
next
  case (checkpoint d i now a ts who ty decision reason parent)
  then show ?case using cast_vote_once by blast
qed

text \<open>C25. \<open>resolution_index_agrees\<close>: in every store the handler and the checkpoint path reach, no action has two resolving
  approvals; a vote the guard of either path lets through, the index of migration 0004 lets through; and what the index would
  refuse is for an action that is resolved, which the guard refuses first.\<close>

theorem resolution_index_agrees:
  assumes "store_reachable d"
  shows "distinct (map pr_action_id (filter settles (db_approvals d))) \<and>
    (\<forall>v row d'. cast_vote v d = (Inr row, d') \<longrightarrow> index_takes d row) \<and>
    (\<forall>q. \<not> index_takes d q \<longrightarrow> (\<exists>a \<in> set (db_actions d). ar_action_id a = pr_action_id q \<and> terminal a))"
proof (intro conjI allI impI)
  note inv = reachable_once [OF assms]
  show "distinct (map pr_action_id (filter settles (db_approvals d)))" using inv by (simp add: resolved_once_def)
  show "index_takes d row" if "cast_vote v d = (Inr row, d')" for v row d'
    using vote_keeps_once(1) [OF inv that] .
  show "\<exists>a \<in> set (db_actions d). ar_action_id a = pr_action_id q \<and> terminal a" if "\<not> index_takes d q" for q
    using that inv by (auto simp: index_takes_iff resolved_once_def) metis
qed

definition pending_action :: dict where
  "pending_action = [(''tool_name'', JStr ''pay''), (''input_hash'', JStr (replicate 64 CHR ''0'')),
     (''authorization_status'', JStr ''pending'')]"

definition sample_open_db :: db where
  "sample_open_db = snd (dispatch (wire_schemas sample_coercions) sample_he
     (sample_raw_envelope\<lparr>ev_event_type := SESSION_OPEN\<rparr>) (empty_db [1]))"

definition sample_pending_db :: db where
  "sample_pending_db = snd (dispatch (wire_schemas sample_coercions) sample_he
     (sample_raw_envelope\<lparr>ev_payload := pending_action\<rparr>) sample_open_db)"

definition sample_approving :: vote where
  "sample_approving = By_Checkpoint 9 0 7 ''2026-01-01T00:00:00+00:00'' ''ann'' ''human'' ''approved'' None None"

lemma sample_opened:
  "db_actions sample_open_db = []" "db_approvals sample_open_db = []"
  "\<exists>s. db_sessions sample_open_db 3 = Some s \<and> sr_status s = ''running''"
  by (simp_all add: sample_open_db_def dispatch_def wire_schemas_def open_schema_def nullable_def dhas_def sample_raw_envelope_def
      handle_session_open_def empty_db_def Let_def)

lemma pending_accepted:
  "\<exists>p. action_schema sample_coercions pending_action = Some p \<and> ap_authorization_status p = ''pending'' \<and>
     ap_self_hash p = None \<and> ap_action_id p = None \<and> ap_timestamp p = ''2026-01-01T00:00:00+00:00''"
  by (simp add: action_schema_def pending_action_def only_keys_def action_fields_def required_def nullable_def defaulted_def
      dhas_def dget_def hex64_zeros text_field_def plain_text_def in_range_def sample_coercions_def)

lemma pending_stored:
  "\<exists>a. db_actions sample_pending_db = [a] \<and> ar_action_id a = 7 \<and> ar_session_id a = 3 \<and>
     ar_timestamp a = ''2026-01-01T00:00:00+00:00'' \<and> ar_authorization_status a = ''pending''"
  "db_approvals sample_pending_db = []"
proof -
  obtain p where p: "action_schema sample_coercions pending_action = Some p" "ap_authorization_status p = ''pending''"
    "ap_self_hash p = None" "ap_action_id p = None" "ap_timestamp p = ''2026-01-01T00:00:00+00:00''"
    using pending_accepted by blast
  obtain s where s: "db_sessions sample_open_db 3 = Some s" "sr_status s = ''running''" using sample_opened(3) by blast
  have d: "sample_pending_db = snd (handle_action_record sample_he (sample_raw_envelope\<lparr>ev_payload := pending_action\<rparr>) p sample_open_db)"
    by (simp add: sample_pending_db_def dispatch_def wire_schemas_def sample_raw_envelope_def p(1))
  show "\<exists>a. db_actions sample_pending_db = [a] \<and> ar_action_id a = 7 \<and> ar_session_id a = 3 \<and>
      ar_timestamp a = ''2026-01-01T00:00:00+00:00'' \<and> ar_authorization_status a = ''pending''"
    "db_approvals sample_pending_db = []"
    unfolding d
    by (simp_all add: handle_action_record_def p s sample_opened(1,2) require_running_session_def sample_raw_envelope_def
        action_statuses_def create_with_hash_def action_create_of_def new_action_def sample_he_def Let_def)
qed

theorem resolution_index_agrees_witness:
  "\<exists>row d'. store_reachable sample_pending_db \<and> cast_vote sample_approving sample_pending_db = (Inr row, d') \<and>
     index_takes sample_pending_db row \<and> \<not> index_takes d' row \<and> (\<exists>a \<in> set (db_actions d'). ar_action_id a = 7 \<and> terminal a)"
proof -
  have opened: "store_reachable sample_open_db"
    unfolding sample_open_db_def by (rule store_reachable.event [OF store_reachable.start]) (simp add: empty_db_def)
  have reach: "store_reachable sample_pending_db"
    unfolding sample_pending_db_def by (rule store_reachable.event [OF opened]) (simp add: sample_opened(1))
  obtain row d' where v: "cast_vote sample_approving sample_pending_db = (Inr row, d')" "db_approvals d' = [row]" "settles row"
    "pr_action_id row = 7"
    using pending_stored
    by (auto simp: sample_approving_def create_with_chain_link_def one_or_none_def terminal_def terminal_auth_states_def
        timeout_approver_type_def decision_to_auth_status_def Let_def set_status_rows settles_def)
  have "store_reachable d'"
    using store_reachable.checkpoint [OF reach, of 9 0 7] v(1) unfolding sample_approving_def by (metis snd_conv)
  moreover have no: "\<not> index_takes d' row" using v by (simp add: index_takes_iff)
  ultimately show ?thesis
    using resolution_index_agrees [OF reach] resolution_index_agrees [of d'] reach v by metis
qed

end
