(* ===== verification/Http_Transport.thy ===== *)
theory Http_Transport
  imports Facade "HOL-Library.AList"
begin

text \<open>
  What of \<^verbatim>\<open>HttpIngestClient\<close> stands around the batches of \<open>Http_Client\<close>: the settings it is
  built from, the endpoint, the connection opened on the first POST with its headers and released by
  \<^verbatim>\<open>close\<close>, the requests, and the waits between them. \<open>httpx\<close> itself is the outcome of each POST.
\<close>

section \<open>The connection\<close>

record connection =
  cn_timeout :: rat
  cn_headers :: "(string \<times> string) list"

record http_transport =
  tp_settings :: http_settings
  tp_http :: "connection option"
  tp_client :: http_client

text \<open>The spool is made on first use; here it is there from the start, and unused until then.\<close>

definition start_transport :: "http_settings \<Rightarrow> bool \<Rightarrow> jsonl_client \<Rightarrow> http_transport" where
  "start_transport hs enable_spool spool =
     \<lparr>tp_settings = hs, tp_http = None,
      tp_client = \<lparr>hc_max_retries = hs_max_retries hs, hc_spool = spool, hc_spool_enabled = enable_spool, hc_spooling = False,
        hc_spool_reason = None, hc_on_record_loss = hs_on_record_loss hs, hc_ledgers = Map.empty, hc_log = []\<rparr>\<rparr>"

definition endpoint :: "http_settings \<Rightarrow> string" where
  "endpoint hs = hs_base_url hs @ ''/ingest''"

definition connect_with :: "string \<Rightarrow> http_settings \<Rightarrow> connection" where
  "connect_with sdk_version hs =
     \<lparr>cn_timeout = hs_timeout hs,
      cn_headers = [(''Authorization'', ''Bearer '' @ hs_api_key hs), (''Content-Type'', ''application/json''),
                    (''User-Agent'', ''rootsign-python/'' @ sdk_version)]\<rparr>"

definition ensure_client :: "string \<Rightarrow> http_transport \<Rightarrow> connection \<times> http_transport" where
  "ensure_client sdk_version tp =
     (case tp_http tp of
        Some c \<Rightarrow> (c, tp)
      | None \<Rightarrow> let c = connect_with sdk_version (tp_settings tp) in (c, tp\<lparr>tp_http := Some c\<rparr>))"

definition close_transport :: "http_transport \<Rightarrow> http_transport" where
  "close_transport tp = tp\<lparr>tp_http := None\<rparr>"

section \<open>Requests\<close>

record http_request =
  hr_url :: string
  hr_headers :: "(string \<times> string) list"
  hr_batch :: "dict list"

text \<open>One request for each POST of the batch, with the envelopes it carries as they were sealed.\<close>

definition transport_batch ::
  "string \<Rightarrow> http_env \<Rightarrow> dict list \<Rightarrow> http_transport \<Rightarrow>
    ((http_exn + response list) \<times> dict list) \<times> http_request list \<times> http_transport" where
  "transport_batch sdk_version hx envelopes tp =
     (case handle_batch hx envelopes (tp_client tp) of
        (r, sealed, [], cl) \<Rightarrow> ((r, sealed), [], tp\<lparr>tp_client := cl\<rparr>)
      | (r, sealed, trace, cl) \<Rightarrow>
          (case ensure_client sdk_version tp of
             (c, tp') \<Rightarrow>
               ((r, sealed),
                map (\<lambda>slots. \<lparr>hr_url = endpoint (tp_settings tp), hr_headers = cn_headers c,
                               hr_batch = map (\<lambda>i. sealed ! i) slots\<rparr>) trace,
                tp'\<lparr>tp_client := cl\<rparr>)))"

datatype transport_call = Send_Batch http_env "dict list" | Close_Transport

fun run_calls ::
  "string \<Rightarrow> transport_call list \<Rightarrow> http_transport \<Rightarrow>
    ((http_exn + response list) \<times> dict list) list \<times> http_request list \<times> http_transport" where
  "run_calls v [] tp = ([], [], tp)"
| "run_calls v (Close_Transport # calls) tp = run_calls v calls (close_transport tp)"
| "run_calls v (Send_Batch hx es # calls) tp =
     (case transport_batch v hx es tp of
        (out, reqs, tp') \<Rightarrow>
          (case run_calls v calls tp' of (outs, later, tp'') \<Rightarrow> (out # outs, reqs @ later, tp'')))"

section \<open>Waits\<close>

text \<open>What \<open>float\<close> makes of a header's text is an argument: \<open>None\<close> when it raises.\<close>

datatype float_value = Finite rat | Pos_Infinity | Neg_Infinity | Not_A_Number

definition non_negative :: "float_value \<Rightarrow> bool" where
  "non_negative f \<longleftrightarrow> (case f of Finite r \<Rightarrow> 0 \<le> r | Pos_Infinity \<Rightarrow> True | _ \<Rightarrow> False)"

definition parse_retry_after :: "(string \<Rightarrow> float_value option) \<Rightarrow> string option \<Rightarrow> float_value option" where
  "parse_retry_after py_float header =
     (case header of
        None \<Rightarrow> None
      | Some raw \<Rightarrow> (case py_float raw of None \<Rightarrow> None | Some f \<Rightarrow> if non_negative f then Some f else None))"

text \<open>\<open>min(retry_after, BACKOFF_MAX_SECONDS)\<close>, which \<open>backoff_delay\<close> takes again.\<close>

definition cut_wait :: "float_value \<Rightarrow> rat" where
  "cut_wait f = (case f of Finite r \<Rightarrow> min r backoff_max | _ \<Rightarrow> backoff_max)"

definition sleep_seconds :: "(string \<Rightarrow> float_value option) \<Rightarrow> nat \<Rightarrow> string option \<Rightarrow> rat \<Rightarrow> rat" where
  "sleep_seconds py_float attempt header u =
     backoff_delay attempt (map_option cut_wait (parse_retry_after py_float header)) u"

text \<open>The sleeps of a batch: one after each POST but the last. \<open>headers k\<close> is the \<open>Retry-After\<close> of the \<open>k\<close>th answer.\<close>

definition batch_sleeps ::
  "(string \<Rightarrow> float_value option) \<Rightarrow> (nat \<Rightarrow> string option) \<Rightarrow> (nat \<Rightarrow> rat) \<Rightarrow> http_request list \<Rightarrow> rat list" where
  "batch_sleeps py_float headers us reqs =
     map (\<lambda>k. sleep_seconds py_float k (headers k) (us k)) [0 ..< length reqs - 1]"

section \<open>The key\<close>

definition with_key :: "string \<Rightarrow> http_settings \<Rightarrow> http_settings" where
  "with_key k hs = hs\<lparr>hs_api_key := k\<rparr>"

definition authorized_as :: "string \<Rightarrow> http_request \<Rightarrow> http_request" where
  "authorized_as k r = r\<lparr>hr_headers := AList.update ''Authorization'' (''Bearer '' @ k) (hr_headers r)\<rparr>"

text \<open>A transport is open with the headers of its own settings or not at all.\<close>

definition own_connection :: "string \<Rightarrow> http_transport \<Rightarrow> bool" where
  "own_connection v tp \<longleftrightarrow> (case tp_http tp of None \<Rightarrow> True | Some c \<Rightarrow> c = connect_with v (tp_settings tp))"

definition rekeyed :: "string \<Rightarrow> string \<Rightarrow> http_transport \<Rightarrow> http_transport" where
  "rekeyed v k tp = tp\<lparr>tp_settings := with_key k (tp_settings tp),
     tp_http := map_option (\<lambda>_. connect_with v (with_key k (tp_settings tp))) (tp_http tp)\<rparr>"

lemma headers_rekeyed:
  "cn_headers (connect_with v (with_key k hs)) =
     AList.update ''Authorization'' (''Bearer '' @ k) (cn_headers (connect_with v hs))"
  by (simp add: connect_with_def with_key_def)

lemma batch_own:
  assumes "own_connection v tp" "transport_batch v hx es tp = (out, reqs, tp')"
  shows "own_connection v tp'" and "tp_settings tp' = tp_settings tp"
    and "\<forall>r \<in> set reqs. hr_url r = endpoint (tp_settings tp) \<and> hr_headers r = cn_headers (connect_with v (tp_settings tp))"
  using assms
  by (auto simp: transport_batch_def ensure_client_def own_connection_def Let_def split: prod.splits list.splits option.splits)

lemma batch_rekeyed:
  assumes "own_connection v tp" "transport_batch v hx es tp = (out, reqs, tp')"
  shows "transport_batch v hx es (rekeyed v k tp) = (out, map (authorized_as k) reqs, rekeyed v k tp')"
  using assms
  by (auto simp: transport_batch_def ensure_client_def own_connection_def rekeyed_def authorized_as_def headers_rekeyed [unfolded with_key_def]
      endpoint_def with_key_def Let_def split: prod.splits list.splits option.splits)

lemma run_rekeyed:
  "own_connection v tp \<Longrightarrow> run_calls v calls tp = (outs, reqs, tp') \<Longrightarrow>
    run_calls v calls (rekeyed v k tp) = (outs, map (authorized_as k) reqs, rekeyed v k tp') \<and>
    (\<forall>r \<in> set reqs. hr_url r = endpoint (tp_settings tp) \<and> hr_headers r = cn_headers (connect_with v (tp_settings tp)))"
proof (induction v calls tp arbitrary: outs reqs tp' rule: run_calls.induct)
  case (1 v tp)
  then show ?case by simp
next
  case (2 v calls tp)
  have "own_connection v (close_transport tp)" "rekeyed v k (close_transport tp) = close_transport (rekeyed v k tp)"
    by (simp_all add: own_connection_def close_transport_def rekeyed_def)
  with "2.IH" "2.prems"(2) show ?case by (auto simp: close_transport_def)
next
  case (3 v hx es calls tp)
  obtain out rs tp1 where b: "transport_batch v hx es tp = (out, rs, tp1)"
    by (metis prod_cases3)
  obtain os qs tp2 where r: "run_calls v calls tp1 = (os, qs, tp2)"
    by (metis prod_cases3)
  have eq: "outs = out # os" "reqs = rs @ qs" "tp' = tp2" using "3.prems"(2) b r by auto
  note own = batch_own [OF "3.prems"(1) b]
  from "3.IH" [OF b [symmetric] refl own(1) r] batch_rekeyed [OF "3.prems"(1) b, of k] own(2,3)
  show ?case by (auto simp: eq)
qed

section \<open>Properties of the transport\<close>

text \<open>\<open>key_stays_in_one_header\<close>: whatever is sent, answered and closed, every request goes to the endpoint with the key in
  its \<open>Authorization\<close> header, and a client with another key gives the same answers, seals, spool, losses and log, and sends
  the same requests but for that header.\<close>

theorem key_stays_in_one_header:
  assumes "run_calls v calls (start_transport hs enable spool) = (outs, reqs, tp)"
  shows "(\<forall>r \<in> set reqs. hr_url r = hs_base_url hs @ ''/ingest'' \<and>
      map_of (hr_headers r) ''Authorization'' = Some (''Bearer '' @ hs_api_key hs)) \<and>
    (\<exists>tp'. run_calls v calls (start_transport (with_key k hs) enable spool) = (outs, map (authorized_as k) reqs, tp') \<and>
       tp_client tp' = tp_client tp)"
proof -
  have own: "own_connection v (start_transport hs enable spool)"
    and start: "rekeyed v k (start_transport hs enable spool) = start_transport (with_key k hs) enable spool"
    by (simp_all add: own_connection_def start_transport_def rekeyed_def with_key_def)
  note both = run_rekeyed [OF own assms, of k]
  have "tp_settings (start_transport hs enable spool) = hs" by (simp add: start_transport_def)
  with both have "\<forall>r \<in> set reqs. hr_url r = hs_base_url hs @ ''/ingest'' \<and>
      map_of (hr_headers r) ''Authorization'' = Some (''Bearer '' @ hs_api_key hs)"
    by (simp add: endpoint_def connect_with_def)
  moreover have "tp_client (rekeyed v k tp) = tp_client tp" by (simp add: rekeyed_def)
  ultimately show ?thesis using both unfolding start by blast
qed

definition sample_http_settings :: http_settings where
  "sample_http_settings = \<lparr>hs_base_url = ''https://h/v1'', hs_api_key = ''k'', hs_timeout = 10, hs_max_retries = 2,
     hs_spool_dir = ''s'', hs_on_record_loss = Loss_Warn\<rparr>"

lemma sample_transport_client: "tp_client (start_transport sample_http_settings True (empty_client Fsync_Chain)) = sample_http"
  by (simp add: start_transport_def sample_http_settings_def sample_http_def)

lemma sample_transport_batch:
  "\<exists>out rs. transport_batch ''1'' (sample_http_env Http_Timeout) [sample_approval]
     (start_transport sample_http_settings True (empty_client Fsync_Chain)) = (out, rs) \<and> length (fst rs) = 2 \<and> fst out = Inr [accepted 5 (Some 7) None None]"
  using sample_batch
  by (auto simp: transport_batch_def sample_transport_client ensure_client_def Let_def split: option.splits)

theorem key_stays_in_one_header_witness:
  "\<exists>outs reqs tp tp'.
     run_calls ''1'' [Send_Batch (sample_http_env Http_Timeout) [sample_approval]]
       (start_transport sample_http_settings True (empty_client Fsync_Chain)) = (outs, reqs, tp) \<and> length reqs = 2 \<and>
     (\<forall>r \<in> set reqs. hr_url r = ''https://h/v1/ingest'' \<and> map_of (hr_headers r) ''Authorization'' = Some ''Bearer k'') \<and>
     run_calls ''1'' [Send_Batch (sample_http_env Http_Timeout) [sample_approval]]
       (start_transport (with_key ''j'' sample_http_settings) True (empty_client Fsync_Chain)) =
       (outs, map (authorized_as ''j'') reqs, tp') \<and> tp_client tp' = tp_client tp"
proof -
  obtain outs reqs tp where run: "run_calls ''1'' [Send_Batch (sample_http_env Http_Timeout) [sample_approval]]
      (start_transport sample_http_settings True (empty_client Fsync_Chain)) = (outs, reqs, tp)"
    by (metis prod_cases3)
  moreover have "length reqs = 2"
    using sample_transport_batch run by (auto split: prod.splits)
  ultimately show ?thesis
    using key_stays_in_one_header [OF run, of "''j''"] by (auto simp: sample_http_settings_def)
qed

lemma parse_retry_non_negative:
  "parse_retry_after py_float header = Some f \<Longrightarrow> 0 \<le> cut_wait f \<and> cut_wait f \<le> backoff_max"
  by (auto simp: parse_retry_after_def non_negative_def cut_wait_def backoff_max_def split: option.splits float_value.splits if_splits)

lemma sleep_bounds:
  assumes "0 \<le> u" "u \<le> 1"
  shows "0 \<le> sleep_seconds py_float k header u" and "sleep_seconds py_float k header u \<le> 60"
proof -
  let ?c = "min (backoff_base * 2 ^ k) backoff_max"
  have c: "0 \<le> ?c" "?c \<le> 60" by (simp_all add: backoff_base_def backoff_max_def)
  have "u * ?c \<le> 1 * ?c" by (rule mult_right_mono [OF assms(2) c(1)])
  then have u: "0 \<le> u * ?c" "u * ?c \<le> 60" using assms(1) c by (auto simp: mult_nonneg_nonneg)
  show "0 \<le> sleep_seconds py_float k header u" "sleep_seconds py_float k header u \<le> 60"
    using u by (auto simp: sleep_seconds_def backoff_delay_def Let_def backoff_max_def max_def split: option.splits)
qed

lemma sleep_obeys:
  "parse_retry_after py_float header = Some (Finite r) \<Longrightarrow> r \<le> 60 \<Longrightarrow> r \<le> sleep_seconds py_float k header u"
  by (simp add: sleep_seconds_def backoff_delay_def cut_wait_def Let_def backoff_max_def)

lemma sum_list_bound: "(\<forall>x \<in> set xs. x \<le> (c :: rat)) \<Longrightarrow> sum_list xs \<le> c * of_nat (length xs)"
  by (induction xs) (auto simp: algebra_simps)

text \<open>C38. \<open>waits_are_bounded\<close>: whatever a server puts into \<open>Retry-After\<close>, infinities, \<open>nan\<close> and negative numbers included, a
  batch makes at most \<open>max_retries\<close> requests and sleeps between them only, each time at most a minute and no shorter than a
  sensible server asks.\<close>

theorem waits_are_bounded:
  assumes "transport_batch v hx es tp = ((Inr rs, sealed), reqs, tp')" and "\<forall>k. 0 \<le> us k \<and> us k \<le> 1"
  shows "length reqs \<le> hc_max_retries (tp_client tp) \<and>
    (\<forall>s \<in> set (batch_sleeps py_float headers us reqs). 0 \<le> s \<and> s \<le> 60) \<and>
    sum_list (batch_sleeps py_float headers us reqs) \<le> 60 * of_nat (hc_max_retries (tp_client tp) - 1) \<and>
    (\<forall>k r. k < length reqs - 1 \<longrightarrow> parse_retry_after py_float (headers k) = Some (Finite r) \<longrightarrow> r \<le> 60 \<longrightarrow>
       r \<le> batch_sleeps py_float headers us reqs ! k)"
proof -
  let ?sleeps = "batch_sleeps py_float headers us reqs"
  obtain trace cl where h: "handle_batch hx es (tp_client tp) = (Inr rs, sealed, trace, cl)" "length reqs = length trace"
    using assms(1) by (auto simp: transport_batch_def split: prod.splits list.splits)
  have n: "length reqs \<le> hc_max_retries (tp_client tp)"
    using handle_batch_aligned [OF h(1)] h(2) by simp
  have each: "\<forall>s \<in> set ?sleeps. 0 \<le> s \<and> s \<le> 60"
    using assms(2) by (auto simp: batch_sleeps_def sleep_bounds)
  then have "sum_list ?sleeps \<le> 60 * of_nat (length ?sleeps)" using sum_list_bound by blast
  also have "\<dots> \<le> 60 * of_nat (hc_max_retries (tp_client tp) - 1)"
    using n by (simp add: batch_sleeps_def del: of_nat_diff)
  finally show ?thesis using n each sleep_obeys by (auto simp: batch_sleeps_def)
qed

theorem waits_are_bounded_witness:
  "\<exists>rs sealed reqs tp'. transport_batch ''1'' (sample_http_env Http_Timeout) [sample_approval]
       (start_transport sample_http_settings True (empty_client Fsync_Chain)) = ((Inr rs, sealed), reqs, tp') \<and>
     length reqs = 2 \<and> sum_list (batch_sleeps (\<lambda>_. Some Pos_Infinity) (\<lambda>_. Some ''inf'') (\<lambda>_. 1 / 2) reqs) \<le> 60"
proof -
  obtain sealed reqs tp' where b: "transport_batch ''1'' (sample_http_env Http_Timeout) [sample_approval]
      (start_transport sample_http_settings True (empty_client Fsync_Chain)) = ((Inr [accepted 5 (Some 7) None None], sealed), reqs, tp')"
    "length reqs = 2"
    using sample_transport_batch by (metis fst_conv prod.collapse)
  have "(\<forall>k :: nat. 0 \<le> (1 / 2 :: rat) \<and> (1 / 2 :: rat) \<le> 1)" by simp
  with waits_are_bounded [OF b(1), of "\<lambda>_. 1 / 2" "\<lambda>_. Some Pos_Infinity" "\<lambda>_. Some ''inf''"] b
  show ?thesis by (auto simp: sample_transport_client sample_http_def)
qed

end
