(* ===== verification/Spec2Isabelle.thy ===== *)
theory Spec2Isabelle
  imports Ingest_Handler Admin_Sync Facade Stored_Evidence Receipt_Lookup Mcp Frameworks Operator Pii_Presets Db_Approvals Http_Transport
begin

text \<open>
  Verification library of \<^verbatim>\<open>rootsign\<close>, a tamper-evident audit log for agent tool calls.

  \<^bold>\<open>The program.\<close> A traced tool call becomes an \<^emph>\<open>action\<close>: a record whose \<open>self_hash\<close>
  is the SHA-256 of a canonical JSON text over its identity, its sequence number, its payload
  hashes and the hash of the action before it. A session's actions form a chain; approvals and
  decisions carry a link to it. An SDK client turns each event into an envelope and hands it to
  one of three backends: the JSONL client seals and appends it to a local file; the ingest
  handler seals it into Postgres rows; the HTTP client seals it locally and posts it to a store,
  spilling to a local spool of the JSONL format when the store cannot be reached. The
  \<open>sync\<close> command replays a spool later and leaves a receipt of each attempt. Two verifiers,
  offline on a file and in the store on rows, recompute the chain and give one of three verdicts.

  \<^bold>\<open>Theories and the code they model\<close> (paths under \<^verbatim>\<open>src/rootsign/\<close>).

  \<^item> \<open>Prelude\<close>, \<open>Py_Values\<close>: results that may be an exception, lists, freshness of
    generated names; Python values, dicts and exceptions.
  \<^item> \<open>Json_Text\<close>, \<open>Sha256\<close>: \<open>json.dumps(sort_keys=True)\<close> and SHA-256 written out, with
    the lemmas that a canonical text determines its fields.
  \<^item> \<open>Verdict_Rules\<close> (\<^verbatim>\<open>verdict.py\<close>): verdicts, the gap scan \<open>missing_ranges\<close>, the rule
    that combines evidence.
  \<^item> \<open>Chain_State\<close> (\<^verbatim>\<open>hashing.py\<close>, \<^verbatim>\<open>sdk/hashing.py\<close>, \<^verbatim>\<open>chain_state.py\<close>):
    canonical and payload hashes; the sealer, whose state is the tail hash and the count.
  \<^item> \<open>Local_Verify\<close> (\<^verbatim>\<open>sdk/chain.py\<close>): the offline verifier; \<open>Chain_Links\<close>: what a
    sealed chain is, the locale \<open>chain_builder\<close> between sealers and verifiers.
  \<^item> \<open>Ingest_Wire\<close> (\<^verbatim>\<open>ingest/schemas.py\<close>, \<^verbatim>\<open>errors.py\<close>), \<open>Idempotency\<close>
    (\<^verbatim>\<open>ingest/idempotency.py\<close>, locale \<open>response_cache\<close>).
  \<^item> \<open>Action_Store\<close>, \<open>Approval_Store\<close> (\<^verbatim>\<open>crud/action.py\<close>, \<^verbatim>\<open>crud/approval.py\<close>,
    \<^verbatim>\<open>models\<close>): the rows, the write paths, the store's verifier, approval votes.
  \<^item> \<open>Ingest_Handler\<close> (\<^verbatim>\<open>ingest/handler.py\<close>): routing, the five handlers, versions,
    idempotent answers.
  \<^item> \<open>Jsonl_Client\<close> (\<^verbatim>\<open>sdk/jsonl_client.py\<close>): the local backend.
  \<^item> \<open>Loss_Ledger\<close> (\<^verbatim>\<open>sdk/loss_ledger.py\<close>), \<open>Http_Client\<close> (\<^verbatim>\<open>sdk/client.py\<close>):
    the cloud backend with retries, spool fail-over and loss accounting.
  \<^item> \<open>Spool\<close> (\<^verbatim>\<open>sdk/spool.py\<close>), \<open>Replay\<close> (\<^verbatim>\<open>replay.py\<close>, locale
    \<open>aligned_transport\<close>), \<open>Receipt\<close> (\<^verbatim>\<open>sdk/receipt.py\<close>), \<open>Admin_Sync\<close>
    (\<^verbatim>\<open>cli.py\<close>, the \<open>sync\<close> command): uploading a spool.
  \<^item> \<open>Buffered_Client\<close> (\<^verbatim>\<open>sdk/buffered_client.py\<close>): the micro-batching wrapper, over
    any inner client, and the interleaving of its tasks as a step relation.
  \<^item> \<open>Hitl\<close> (\<^verbatim>\<open>sdk/hitl.py\<close>): the checkpoint that waits for an approval.
  \<^item> \<open>Redaction\<close> (\<^verbatim>\<open>sdk/redaction.py\<close>), \<open>Tracer\<close> (\<^verbatim>\<open>sdk/decorator.py\<close>,
    \<^verbatim>\<open>sdk/context.py\<close>), \<open>Session_Scope\<close> (\<^verbatim>\<open>sdk/session.py\<close>): what a traced
    call records, the approval gate, decisions, and the scope of a session.
  \<^item> \<open>Evidence\<close>, \<open>Bundle\<close> (\<^verbatim>\<open>sdk/export.py\<close>): reading a session file into the
    documents of an evidence bundle; its manifest, writing it and checking one that arrived.
    \<open>Report\<close> (\<^verbatim>\<open>sdk/report.py\<close>): its Markdown and HTML renderings. \<open>Cli\<close>
    (\<^verbatim>\<open>sdk/cli.py\<close>): \<open>verify\<close>, \<open>export\<close> and \<open>approve\<close>. \<open>Stored_Evidence\<close>:
    the export of a session stored in Postgres; \<open>Receipt_Lookup\<close>: how a file finds its receipt.
  \<^item> \<open>Local_Client\<close> (\<^verbatim>\<open>sdk/client.py\<close>): the in-process clients and their
    transactions. \<open>Json_Decode\<close>: \<open>json.loads\<close>, with the proof that what \<open>dumps\<close> writes comes
    back. \<open>Agent_Registry\<close> (\<^verbatim>\<open>sdk/jsonl_registry.py\<close>,
    \<^verbatim>\<open>sdk/registration.py\<close>, locale \<open>agent_registry\<close>): get-or-create of agents in a file, in a
    table and by processes at once. \<open>Facade\<close> (\<^verbatim>\<open>sdk/facade.py\<close>,
    \<^verbatim>\<open>sdk/config.py\<close>): \<open>init()\<close>, settings, the ambient session, the client factory.
  \<^item> \<open>Mcp\<close> (\<^verbatim>\<open>mcp/proxy.py\<close>, \<^verbatim>\<open>mcp/server.py\<close>): the recording proxy and the
    auditor's queries. \<open>Frameworks\<close> (\<^verbatim>\<open>sdk/frameworks/\<close>, \<^verbatim>\<open>sdk/_async_bridge.py\<close>,
    \<open>trace\<close> of \<^verbatim>\<open>sdk/decorator.py\<close>): tools wrapped in place and calls that nest.
    \<open>Operator\<close> (\<^verbatim>\<open>cli.py\<close>, \<^verbatim>\<open>config.py\<close>): the other \<open>rootsign-admin\<close> commands.
    \<open>Pii_Presets\<close>: the pre-built redaction configurations, with their patterns parsed and matched.
  \<^item> \<open>Wire_Schemas\<close> (\<^verbatim>\<open>ingest/schemas.py\<close>): the pydantic models of the envelope and the
    payloads, field by field, the instance the handler's \<open>schemas\<close> argument has. \<open>Db_Schema\<close>
    (\<^verbatim>\<open>_migrations/versions/\<close>, \<^verbatim>\<open>models/\<close>): the migrations as steps on a schema and the
    models' tables. \<open>Db_Rows\<close>: what Postgres asks of a row, and the row of an action the handler accepts; \<open>Db_Approvals\<close>: the unique
    index and the store's guard. \<open>Http_Transport\<close> (\<^verbatim>\<open>sdk/client.py\<close>): the connection, the requests and
    the waits around the batches.

  \<^bold>\<open>State and operations.\<close> A class with state is a record and each method a function that takes
  the record and returns it updated beside its result. A \<open>raise\<close> is \<open>Inl\<close> of an exception of
  \<open>pyexc\<close>; methods that raise after a partial update return the updated state too. The clock,
  fresh UUIDs, what the disk does, what a POST does, and pydantic's validation are arguments.
  Coroutines of one client run under its lock, so a run is a list of calls.

  \<^bold>\<open>What the lemmas show.\<close>

  \<^item> Chains: sealing keeps the tail and the count of the chain it builds; files and rows written
    by the backends verify; a valid file with the chain's last hash is the chain, unless two named
    texts collide; an altered record is detected; the two verifiers and the two sealers agree.
  \<^item> Backends: a closed session is frozen, an event is answered once within a day, resolved
    approvals stay resolved, acknowledged control records are durable, a control record is never
    dropped silently, a resend posts the same bytes, a batch gets one answer for each envelope.
  \<^item> Upload: a spool file is read back record for record; a replay is a function of the answers
    and delivers a prefix; a file leaves the spool only when the store has all of it; receipts
    partition the records, are never overwritten, and keep the earlier attempts.
  \<^item> Tracing: a gated tool runs only when approved, and the checkpoint's outcome is the store's
    status; tracing does not change what a call does; what is traced verifies; redaction leaves no
    match and hides what it redacts from the hash; no interleaving of buffered sending loses a
    record.
  \<^item> Evidence: a bundle survives being written and checked, its manifest hash binds its bytes, what
    it calls verified is sound when the file parsed, withheld content is absent and named, nothing in
    it becomes markup; exit codes are verdicts, and an approval lands or nothing is written. The
    store and a file with the same actions are exported with the same chain proof.
  \<^item> Facade: a process has one configuration, implicit lookups find the innermost session, the file
    and the table register agents alike, and committed sessions verify whichever commits fail.
  \<^item> Around the SDK: a proxied call is forwarded and recorded once; the auditor's verdict is the
    command line's; one LangGraph call is one record and every CrewAI call is one, whatever nests; the
    operator's commands leave the container as their exit code says; the presets find what they are for.
  \<^item> The store's tables: the migrations make what the models declare, but for one index; an accepted
    action's row fits its table exactly when it has no NUL, an \<open>int4\<close> duration and a policy that is there; guard and index agree on every reachable store. The waits of a batch
    are bounded and its key stays in one header.
  \<^item> Errors: the properties of kind \<open>error\<close> state where the code departs from what it means
    to do, each on a concrete run.

  \<^bold>\<open>Loops.\<close> Every loop of the modelled code is bounded by its data or by a retry budget, and is
  a structural recursion or a \<open>function\<close> with a measure. The JSON decoder recurses at most as
  deep as its text is long, which the round trip shows to be enough. The search for an unused file name (\<open>first_free\<close>) ranges over one more candidate than there are
  files, which the lemma \<open>first_free_total\<close> shows to be enough. Wrapped tools may call each other without
  end, so a run of them has fuel, one unit per tool entered; \<open>call_tool\<close> returns with the fuel the unwrapped
  tools need. A repetition in a pattern makes at most as many rounds as there are characters left.

  \<^bold>\<open>Not modelled.\<close> What third-party libraries do with the code: FastAPI's and FastMCP's routing, LangChain
  and CrewAI (a tool's own methods are programs, an argument), Docker (a step on a world, with what is
  relied on of it as the hypothesis \<open>docker_like\<close>); SQLAlchemy's sessions and locks, pydantic's
  coercions of numbers, UUIDs and datetimes (arguments), plain indexes, server defaults and TimescaleDB's storage; thread and task scheduling; path resolution and
  environment variables; wording of log lines and of error messages beyond the constructor or prefix
  that tells them apart. Characters are the code points 0 to 255 and floats are finite.
\<close>

end
